(* ===== verification/Prelude.thy ===== *)
theory Prelude
  imports Complex_Main
begin

text \<open>
  Shared vocabulary of the development: the types that stand for Python's
  \<^verbatim>\<open>Decimal\<close>, \<^verbatim>\<open>datetime\<close> and JSON values, the Python idioms the code uses
  everywhere (truthiness, \<^verbatim>\<open>or\<close>, \<^verbatim>\<open>dict.get\<close>, \<^verbatim>\<open>int(timedelta.total_seconds())\<close>,
  \<^verbatim>\<open>QuerySet.order_by(..).first()\<close>), and the generic lemmas about them.

  Conventions.  A \<^verbatim>\<open>Decimal\<close> is an exact rational: the 28-digit rounding of the
  default decimal context is not modelled (amounts of money here have far fewer
  digits).  A \<^verbatim>\<open>datetime\<close> is the number of microseconds since the epoch, which is
  its resolution in Python; a \<^verbatim>\<open>timedelta\<close> is a number of microseconds.
\<close>

named_theorems window_simps \<open>facts that decide the fixed usage windows\<close>
named_theorems frame_simps \<open>what an operation leaves unchanged\<close>

type_synonym usd = rat
type_synonym datetime = int
type_synonym timedelta = int
type_synonym uid = string

definition days :: "int \<Rightarrow> timedelta" where
  "days n = n * 86400000000"

definition hours :: "int \<Rightarrow> timedelta" where
  "hours n = n * 3600000000"

definition seconds :: "int \<Rightarrow> timedelta" where
  "seconds n = n * 1000000"

text \<open>\<^verbatim>\<open>int(td.total_seconds())\<close> truncates towards zero.\<close>

definition int_seconds :: "timedelta \<Rightarrow> int" where
  "int_seconds d = (if d < 0 then - ((- d) div 1000000) else d div 1000000)"

lemma int_seconds_nonneg: "0 \<le> d \<Longrightarrow> 0 \<le> int_seconds d"
  by (simp add: int_seconds_def)

lemma int_seconds_seconds [simp]: "int_seconds (seconds n) = n"
proof -
  have "- (n * 1000000) div 1000000 = - n"
    using nonzero_mult_div_cancel_right [of "1000000::int" "- n"] by simp
  then show ?thesis by (simp add: int_seconds_def seconds_def)
qed

lemma days_nonneg [simp]: "0 \<le> days n \<longleftrightarrow> 0 \<le> n"
  by (simp add: days_def)

lemma days_pos [simp]: "0 < days n \<longleftrightarrow> 0 < n"
  by (simp add: days_def)

lemma hours_pos [simp]: "0 < hours n \<longleftrightarrow> 0 < n"
  by (simp add: hours_def)

lemma int_seconds_mono: "a \<le> b \<Longrightarrow> int_seconds a \<le> int_seconds b"
proof -
  assume ab: "a \<le> b"
  have "- ((- a) div 1000000) \<le> 0" if "a < 0"
    using that by (simp add: pos_imp_zdiv_nonneg_iff)
  moreover have "0 \<le> b div 1000000" if "0 \<le> b"
    using that by (simp add: pos_imp_zdiv_nonneg_iff)
  ultimately show ?thesis
    using ab zdiv_mono1 [of "- b" "- a" 1000000] zdiv_mono1 [of a b 1000000]
    by (auto simp: int_seconds_def intro: order_trans)
qed

section \<open>Truthiness\<close>

text \<open>Python's \<^verbatim>\<open>a or b\<close> on strings, numbers and optional values.\<close>

definition str_or :: "string \<Rightarrow> string \<Rightarrow> string" where
  "str_or a b = (if a = [] then b else a)"

definition opt_str_or :: "string option \<Rightarrow> string \<Rightarrow> string" where
  "opt_str_or a b = (case a of None \<Rightarrow> b | Some s \<Rightarrow> str_or s b)"

definition num_or :: "'a::zero \<Rightarrow> 'a \<Rightarrow> 'a" where
  "num_or a b = (if a = 0 then b else a)"

definition truthy_str :: "string option \<Rightarrow> bool" where
  "truthy_str s = (case s of None \<Rightarrow> False | Some x \<Rightarrow> x \<noteq> [])"

lemma truthy_str_simps [simp]:
  "\<not> truthy_str None" "truthy_str (Some x) \<longleftrightarrow> x \<noteq> []"
  by (simp_all add: truthy_str_def)

lemma truthy_strE: "truthy_str s \<Longrightarrow> (\<And>x. s = Some x \<Longrightarrow> x \<noteq> [] \<Longrightarrow> P) \<Longrightarrow> P"
  by (cases s) auto

text \<open>\<^verbatim>\<open>d.get(k, default)\<close> on a JSON object kept as an association list.\<close>

definition get_default :: "('k \<times> 'v) list \<Rightarrow> 'k \<Rightarrow> 'v \<Rightarrow> 'v" where
  "get_default d k x = (case map_of d k of None \<Rightarrow> x | Some v \<Rightarrow> v)"

section \<open>Decimal numerals as strings\<close>

text \<open>\<^verbatim>\<open>str(n)\<close> of an integer.\<close>

definition digit_char :: "nat \<Rightarrow> char" where
  "digit_char d = char_of (48 + d)"

fun string_of_nat :: "nat \<Rightarrow> string" where
  "string_of_nat n = (if n < 10 then [digit_char n]
     else string_of_nat (n div 10) @ [digit_char (n mod 10)])"

declare string_of_nat.simps [simp del]

definition string_of_int :: "int \<Rightarrow> string" where
  "string_of_int i = (if i < 0 then CHR ''-'' # string_of_nat (nat (- i)) else string_of_nat (nat i))"

section \<open>JSON values\<close>

datatype json =
    JNull
  | JBool bool
  | JNum rat
  | JStr string
  | JList "json list"
  | JObj "(string \<times> json) list"

text \<open>\<^verbatim>\<open>x.get(k)\<close> of a dict; \<^verbatim>\<open>None\<close> for an absent key as for a null value.\<close>

fun jget :: "json \<Rightarrow> string \<Rightarrow> json" where
  "jget (JObj kvs) k = (case map_of kvs k of None \<Rightarrow> JNull | Some v \<Rightarrow> v)"
| "jget _ k = JNull"

fun truthy :: "json \<Rightarrow> bool" where
  "truthy JNull = False"
| "truthy (JBool b) = b"
| "truthy (JNum q) = (q \<noteq> 0)"
| "truthy (JStr s) = (s \<noteq> [])"
| "truthy (JList xs) = (xs \<noteq> [])"
| "truthy (JObj kvs) = (kvs \<noteq> [])"

fun is_dict :: "json \<Rightarrow> bool" where
  "is_dict (JObj _) = True"
| "is_dict _ = False"

text \<open>Reading a JSON value at the type its consumer uses it.\<close>

fun jstr :: "json \<Rightarrow> string option" where
  "jstr (JStr s) = Some s"
| "jstr _ = None"

fun jint :: "json \<Rightarrow> int option" where
  "jint (JNum q) = Some \<lfloor>q\<rfloor>"
| "jint _ = None"

section \<open>First row in an order\<close>

text \<open>\<^verbatim>\<open>QuerySet.order_by(key).first()\<close>: the first row with the least key, in table order
  among equals; \<^verbatim>\<open>None\<close> for no row.\<close>

fun first_by :: "('a \<Rightarrow> 'k::linorder) \<Rightarrow> 'a list \<Rightarrow> 'a option" where
  "first_by key [] = None"
| "first_by key (x # xs) =
     (case first_by key xs of
        None \<Rightarrow> Some x
      | Some y \<Rightarrow> if key y < key x then Some y else Some x)"

lemma first_by_None [simp]: "first_by key xs = None \<longleftrightarrow> xs = []"
  by (cases xs) (auto split: option.splits if_splits)

lemma first_by_mem: "first_by key xs = Some x \<Longrightarrow> x \<in> set xs"
  by (induction xs arbitrary: x) (auto split: option.splits if_splits)

lemma first_by_least: "first_by key xs = Some x \<Longrightarrow> y \<in> set xs \<Longrightarrow> key x \<le> key y"
  by (induction xs arbitrary: x y) (fastforce split: option.splits if_splits)+

lemma first_by_filter:
  "first_by key (filter P xs) = Some x \<Longrightarrow> x \<in> set xs \<and> P x"
  by (drule first_by_mem) simp

section \<open>Sums over rows\<close>

text \<open>\<^verbatim>\<open>aggregate(Sum(col))['total'] or Decimal('0')\<close> over the rows that match.\<close>

definition sum_rows :: "('a \<Rightarrow> 'n::monoid_add) \<Rightarrow> ('a \<Rightarrow> bool) \<Rightarrow> 'a list \<Rightarrow> 'n" where
  "sum_rows f P xs = sum_list (map f (filter P xs))"

lemma sum_rows_simps [simp]:
  "sum_rows f P [] = 0"
  "sum_rows f P (x # xs) = (if P x then f x + sum_rows f P xs else sum_rows f P xs)"
  by (simp_all add: sum_rows_def)

lemma sum_rows_append [simp]: "sum_rows f P (xs @ ys) = sum_rows f P xs + sum_rows f P ys"
  by (simp add: sum_rows_def)

lemma sum_rows_cong: "(\<And>x. x \<in> set xs \<Longrightarrow> P x = Q x) \<Longrightarrow> sum_rows f P xs = sum_rows f Q xs"
  by (simp add: sum_rows_def cong: filter_cong)

lemma sum_rows_none: "(\<And>x. x \<in> set xs \<Longrightarrow> \<not> P x) \<Longrightarrow> sum_rows f P xs = 0"
  by (induction xs) auto

lemma sum_rows_nonneg:
  fixes f :: "'a \<Rightarrow> 'n::ordered_comm_monoid_add"
  shows "(\<And>x. x \<in> set xs \<Longrightarrow> 0 \<le> f x) \<Longrightarrow> 0 \<le> sum_rows f P xs"
  by (induction xs) (auto intro: add_nonneg_nonneg)

section \<open>Option lemmas\<close>

definition the_default :: "'a \<Rightarrow> 'a option \<Rightarrow> 'a" where
  "the_default d x = (case x of None \<Rightarrow> d | Some y \<Rightarrow> y)"

lemma the_default_simps [simp]: "the_default d None = d" "the_default d (Some x) = x"
  by (simp_all add: the_default_def)

lemma case_option_id [simp]: "(case x of None \<Rightarrow> None | Some y \<Rightarrow> Some y) = x"
  by (cases x) auto

lemma case_sum_id [simp]: "(case x of Inl e \<Rightarrow> Inl e | Inr y \<Rightarrow> Inr y) = x"
  by (cases x) auto

end
