(* ===== verification/Usage_Models.thy ===== *)
theory Usage_Models
  imports Prelude
begin

text \<open>
  The data of the billing domain: \<^verbatim>\<open>core/usage_quota/models.py\<close> (service and feature
  enumerations, subscription plans, user subscriptions, prices, the usage ledger and the
  Stripe event log), \<^verbatim>\<open>constants.py\<close> (billing origins and which services may be paid
  with a user's own key), \<^verbatim>\<open>exceptions.py\<close> and the transfer objects of
  \<^verbatim>\<open>billing/operations.py\<close>, with the database they live in.

  Field names are prefixed where two models share one (\<^verbatim>\<open>plan_name\<close> is
  \<^verbatim>\<open>SubscriptionPlan.name\<close>).  A service or feature travels through the code as its
  string value, so the operations below take strings and the enumerations are mapped to
  their values by \<open>service_value\<close> and \<open>feature_value\<close>.
\<close>

section \<open>Enumerations\<close>

datatype service_type =
    OPENROUTER | ELEVENLABS_TTS | OPENAI_TTS | DEEPGRAM_STT | BRAVE_SEARCH
  | IMAGE_GENERATION | VIDEO_GENERATION | KNOWLEDGE_BASE_EMBEDDING | KNOWLEDGE_BASE_QUERY
  | CODE_SESSION | MCP_TOOL_INVOCATION | GOOGLE_MAPS

fun service_value :: "service_type \<Rightarrow> string" where
  "service_value OPENROUTER = ''openrouter''"
| "service_value ELEVENLABS_TTS = ''elevenlabs_tts''"
| "service_value OPENAI_TTS = ''openai_tts''"
| "service_value DEEPGRAM_STT = ''deepgram_stt''"
| "service_value BRAVE_SEARCH = ''brave_search''"
| "service_value IMAGE_GENERATION = ''image_generation''"
| "service_value VIDEO_GENERATION = ''video_generation''"
| "service_value KNOWLEDGE_BASE_EMBEDDING = ''kb_embedding''"
| "service_value KNOWLEDGE_BASE_QUERY = ''kb_query''"
| "service_value CODE_SESSION = ''code_session''"
| "service_value MCP_TOOL_INVOCATION = ''mcp_tool_invocation''"
| "service_value GOOGLE_MAPS = ''google_maps''"

definition all_services :: "service_type list" where
  "all_services = [OPENROUTER, ELEVENLABS_TTS, OPENAI_TTS, DEEPGRAM_STT, BRAVE_SEARCH,
     IMAGE_GENERATION, VIDEO_GENERATION, KNOWLEDGE_BASE_EMBEDDING, KNOWLEDGE_BASE_QUERY,
     CODE_SESSION, MCP_TOOL_INVOCATION, GOOGLE_MAPS]"

text \<open>The constructor call \<^verbatim>\<open>ServiceType(value)\<close>; \<^verbatim>\<open>None\<close> is its \<^verbatim>\<open>ValueError\<close>.\<close>

definition service_of_value :: "string \<Rightarrow> service_type option" where
  "service_of_value v = List.find (\<lambda>s. service_value s = v) all_services"

lemma service_of_value_value [simp]: "service_of_value (service_value s) = Some s"
  by (cases s) (simp_all add: service_of_value_def all_services_def)

lemma service_value_inj [simp]: "service_value s = service_value t \<longleftrightarrow> s = t"
  by (metis option.inject service_of_value_value)

datatype feature_type =
    CHAT | VOICE_ROOM | FEATURE_CODE_SESSION | SEARCH | CONSIGLIERE | KNOWLEDGE_BASE | OTHER

fun feature_value :: "feature_type \<Rightarrow> string" where
  "feature_value CHAT = ''chat''"
| "feature_value VOICE_ROOM = ''voice_room''"
| "feature_value FEATURE_CODE_SESSION = ''code_session''"
| "feature_value SEARCH = ''search''"
| "feature_value CONSIGLIERE = ''consigliere''"
| "feature_value KNOWLEDGE_BASE = ''knowledge_base''"
| "feature_value OTHER = ''other''"

definition all_feature_types :: "feature_type list" where
  "all_feature_types = [CHAT, VOICE_ROOM, FEATURE_CODE_SESSION, SEARCH, CONSIGLIERE, KNOWLEDGE_BASE, OTHER]"

definition feature_of_value :: "string \<Rightarrow> feature_type option" where
  "feature_of_value v = List.find (\<lambda>f. feature_value f = v) all_feature_types"

lemma feature_of_value_value [simp]: "feature_of_value (feature_value f) = Some f"
  by (cases f) (simp_all add: feature_of_value_def all_feature_types_def)

section \<open>Billing origins (constants.py)\<close>

definition BILLING_ORIGIN_BYOK :: string where "BILLING_ORIGIN_BYOK = ''byok''"

definition BILLING_ORIGIN_PLATFORM :: string where "BILLING_ORIGIN_PLATFORM = ''platform''"

definition VALID_BILLING_ORIGINS :: "string list" where
  "VALID_BILLING_ORIGINS = [BILLING_ORIGIN_BYOK, BILLING_ORIGIN_PLATFORM]"

definition OPENROUTER_BACKED_SERVICES :: "string list" where
  "OPENROUTER_BACKED_SERVICES = map service_value
     [OPENROUTER, KNOWLEDGE_BASE_EMBEDDING, KNOWLEDGE_BASE_QUERY, IMAGE_GENERATION,
      CODE_SESSION, MCP_TOOL_INVOCATION]"

definition PLATFORM_ONLY_SERVICES :: "string list" where
  "PLATFORM_ONLY_SERVICES = map service_value
     [ELEVENLABS_TTS, OPENAI_TTS, DEEPGRAM_STT, BRAVE_SEARCH, GOOGLE_MAPS, VIDEO_GENERATION]"

text \<open>The two sets split the services: every service is in exactly one of them.\<close>

lemma service_partition:
  "service_value s \<in> set OPENROUTER_BACKED_SERVICES \<longleftrightarrow>
   service_value s \<notin> set PLATFORM_ONLY_SERVICES"
  by (cases s) (simp_all add: OPENROUTER_BACKED_SERVICES_def PLATFORM_ONLY_SERVICES_def)

lemma openrouter_backed_not_platform_only:
  "v \<in> set OPENROUTER_BACKED_SERVICES \<Longrightarrow> v \<notin> set PLATFORM_ONLY_SERVICES"
  by (auto simp: OPENROUTER_BACKED_SERVICES_def PLATFORM_ONLY_SERVICES_def)

lemma origins_distinct [simp]:
  "BILLING_ORIGIN_BYOK \<noteq> BILLING_ORIGIN_PLATFORM" "BILLING_ORIGIN_PLATFORM \<noteq> BILLING_ORIGIN_BYOK"
  "BILLING_ORIGIN_PLATFORM \<noteq> []" "BILLING_ORIGIN_BYOK \<noteq> []"
  by (simp_all add: BILLING_ORIGIN_BYOK_def BILLING_ORIGIN_PLATFORM_def)

section \<open>Plans and subscriptions\<close>

record subscription_plan =
  plan_id :: nat
  plan_name :: string
  display_name :: string
  weekly_limit_usd :: usd
  session_limit_usd :: usd
  features :: "(string \<times> bool) list"
  voice_room_sessions_weekly_limit :: "int option"
  voice_room_minutes_per_session_limit :: "int option"
  code_session_weekly_limit :: "int option"
  kb_storage_mb_limit :: "int option"
  kb_docs_limit :: "int option"
  image_gen_weekly_limit :: "int option"
  video_gen_seconds_weekly_limit :: "int option"
  mcp_invocations_weekly_limit :: "int option"
  stripe_price_id_monthly :: "string option"
  stripe_price_id_yearly :: "string option"
  plan_is_active :: bool
  plan_is_default :: bool

definition has_feature :: "subscription_plan \<Rightarrow> string \<Rightarrow> bool" where
  "has_feature p f = get_default (features p) f False"

definition get_per_feature_limits :: "subscription_plan \<Rightarrow> (string \<times> int option) list" where
  "get_per_feature_limits p =
     [(''voice_room'', voice_room_sessions_weekly_limit p),
      (''code_session'', code_session_weekly_limit p),
      (''image_gen'', image_gen_weekly_limit p),
      (''video_gen'', video_gen_seconds_weekly_limit p),
      (''mcp'', mcp_invocations_weekly_limit p),
      (''kb_storage_mb'', kb_storage_mb_limit p),
      (''kb_docs'', kb_docs_limit p)]"

text \<open>\<^verbatim>\<open>getattr(plan, name, None)\<close> at the names of the integer limit columns.\<close>

definition plan_attr :: "subscription_plan \<Rightarrow> string \<Rightarrow> int option" where
  "plan_attr p a =
     (if a = ''voice_room_sessions_weekly_limit'' then voice_room_sessions_weekly_limit p
      else if a = ''voice_room_minutes_per_session_limit'' then voice_room_minutes_per_session_limit p
      else if a = ''code_session_weekly_limit'' then code_session_weekly_limit p
      else if a = ''kb_storage_mb_limit'' then kb_storage_mb_limit p
      else if a = ''kb_docs_limit'' then kb_docs_limit p
      else if a = ''image_gen_weekly_limit'' then image_gen_weekly_limit p
      else if a = ''video_gen_seconds_weekly_limit'' then video_gen_seconds_weekly_limit p
      else if a = ''mcp_invocations_weekly_limit'' then mcp_invocations_weekly_limit p
      else None)"

text \<open>\<^verbatim>\<open>get_default_plan\<close>: \<^verbatim>\<open>first()\<close> follows the model's
  ordering, \<^verbatim>\<open>['weekly_limit_usd']\<close>.\<close>

definition get_default_plan :: "subscription_plan list \<Rightarrow> subscription_plan option" where
  "get_default_plan ps =
     first_by weekly_limit_usd (filter (\<lambda>p. plan_is_default p \<and> plan_is_active p) ps)"

record user_subscription =
  sub_plan_id :: nat
  custom_weekly_limit_usd :: "usd option"
  custom_session_limit_usd :: "usd option"
  stripe_subscription_id :: "string option"
  current_period_end :: "int option"
  cancel_at_period_end :: bool
  stripe_event_created :: "int option"
  session_window_start :: "datetime option"
  weekly_window_start :: "datetime option"
  sub_is_active :: bool

text \<open>
  A loaded \<^verbatim>\<open>UserSubscription\<close> object is its row together with the plan its foreign
  key points to (\<^verbatim>\<open>select_related('plan')\<close>): that pair is what the code caches and
  computes limits from.
\<close>

type_synonym subscription = "user_subscription \<times> subscription_plan"

definition effective_weekly_limit :: "subscription \<Rightarrow> usd" where
  "effective_weekly_limit s =
     (case custom_weekly_limit_usd (fst s) of Some l \<Rightarrow> l | None \<Rightarrow> weekly_limit_usd (snd s))"

definition effective_session_limit :: "subscription \<Rightarrow> usd" where
  "effective_session_limit s =
     (case custom_session_limit_usd (fst s) of Some l \<Rightarrow> l | None \<Rightarrow> session_limit_usd (snd s))"

definition sub_has_feature :: "subscription \<Rightarrow> string \<Rightarrow> bool" where
  "sub_has_feature s f = has_feature (snd s) f"

lemma get_default_plan_spec:
  "get_default_plan ps = Some p \<Longrightarrow> p \<in> set ps \<and> plan_is_default p \<and> plan_is_active p"
  unfolding get_default_plan_def by (drule first_by_filter) simp

section \<open>Prices, usage ledger, Stripe event log, users\<close>

record service_pricing =
  price_service :: string
  price_model_id :: string
  price_per_1m_input_tokens :: "usd option"
  price_per_1m_output_tokens :: "usd option"
  price_per_1k_chars :: "usd option"
  price_per_minute :: "usd option"
  price_per_request :: "usd option"
  effective_from :: datetime
  effective_until :: "datetime option"
  price_is_active :: bool

record usage_log =
  log_id :: nat
  log_user :: uid
  log_service :: string
  log_feature :: string
  log_session_id :: string
  log_model_id :: string
  log_prompt_tokens :: int
  log_completion_tokens :: int
  log_total_tokens :: int
  log_character_count :: int
  log_audio_seconds :: rat
  log_request_count :: int
  log_cost_usd :: usd
  log_request_id :: string
  log_extra_data :: "(string \<times> json) list"
  log_billing_origin :: string
  log_timestamp :: datetime

datatype processed_status = PS_OK | PS_ERROR | PS_SKIPPED | PS_PROCESSING

record stripe_webhook_event =
  ev_type :: string
  ev_payload :: json
  ev_processed_at :: "datetime option"
  ev_claimed_at :: "datetime option"
  ev_status :: "processed_status option"
  ev_error_message :: "string option"

definition PROCESSING_CLAIM_TTL :: timedelta where
  "PROCESSING_CLAIM_TTL = seconds 300"

record account_user =
  user_id :: uid
  stripe_customer_id :: "string option"

section \<open>Transfer objects (billing/operations.py)\<close>

record billable_operation =
  op_service :: service_type
  op_feature :: feature_type
  op_model_id :: string
  op_prompt_tokens :: int
  op_completion_tokens :: int
  op_character_count :: int
  op_audio_seconds :: rat
  op_request_count :: int
  op_cost_usd :: usd
  op_request_id :: string
  op_session_id :: string
  op_extra_data :: "(string \<times> json) list"
  op_timestamp :: datetime
  op_billing_origin :: string

definition op_total_tokens :: "billable_operation \<Rightarrow> int" where
  "op_total_tokens op = op_prompt_tokens op + op_completion_tokens op"

record quota_status =
  qs_allowed :: bool
  qs_weekly_limit_usd :: usd
  qs_weekly_used_usd :: usd
  qs_weekly_remaining_usd :: usd
  qs_session_limit_usd :: usd
  qs_session_used_usd :: usd
  qs_session_remaining_usd :: usd
  qs_weekly_resets_in_seconds :: int
  qs_session_resets_in_seconds :: int
  qs_denial_reason :: "string option"

section \<open>Exceptions\<close>

record quota_exceeded_info =
  qe_message :: string
  qe_limit_usd :: usd
  qe_used_usd :: usd
  qe_remaining_usd :: usd
  qe_limit_type :: string
  qe_resets_in_seconds :: "int option"
  qe_feature_name :: "string option"
  qe_used_count :: "int option"
  qe_limit_count :: "int option"

datatype misconfiguration =
    UnknownFeatureName string
  | InvalidBillingOrigin string
  | ByokNotPermitted string

text \<open>
  The exceptions of \<^verbatim>\<open>exceptions.py\<close>, the ones of the database layer the code lets through
  (\<open>DoesNotExist\<close>, a failed insert) and the two a webhook handler raises itself.
\<close>

datatype exn =
    QuotaExceeded quota_exceeded_info
  | FeatureNotAvailable string string string
  | SubscriptionNotFound string
  | BillingMisconfiguration misconfiguration
  | DoesNotExist
  | DatabaseError
  | RuntimeError string
  | IgnorableEvent string

text \<open>\<^verbatim>\<open>plan_slug or plan_name.lower()\<close> is passed in already resolved; the constructor
  call without a slug uses the lower-cased plan name.\<close>

definition lower_char :: "char \<Rightarrow> char" where
  "lower_char c = (if 65 \<le> (of_char c :: nat) \<and> (of_char c :: nat) \<le> 90 then char_of ((of_char c :: nat) + 32) else c)"

definition lower :: "string \<Rightarrow> string" where
  "lower s = map lower_char s"

definition feature_not_available :: "string \<Rightarrow> string \<Rightarrow> string option \<Rightarrow> exn" where
  "feature_not_available feature plan slug = FeatureNotAvailable feature plan (opt_str_or slug (lower plan))"

section \<open>The database\<close>

text \<open>
  The tables.  \<^verbatim>\<open>UserSubscription.user\<close> is a one-to-one field, so that table is a map from
  users; \<open>plans\<close> keeps table order, which decides ties of \<^verbatim>\<open>first()\<close>.
  \<open>voice_sessions\<close>, \<open>code_jobs\<close>, \<open>kb_docs\<close> and \<open>kb_bytes\<close> are the rows the
  feature registry counts in the other applications' tables: owner and creation time, owner,
  and owner's stored bytes.
\<close>

record db =
  plans :: "subscription_plan list"
  subs :: "uid \<rightharpoonup> user_subscription"
  logs :: "usage_log list"
  prices :: "service_pricing list"
  events :: "string \<rightharpoonup> stripe_webhook_event"
  users :: "account_user list"
  voice_sessions :: "(uid \<times> datetime) list"
  code_jobs :: "(uid \<times> datetime) list"
  kb_docs :: "uid list"
  kb_bytes :: "uid \<rightharpoonup> int"

definition plan_by_id :: "db \<Rightarrow> nat \<Rightarrow> subscription_plan option" where
  "plan_by_id d i = List.find (\<lambda>p. plan_id p = i) (plans d)"

text \<open>The foreign keys hold (\<^verbatim>\<open>on_delete=PROTECT\<close>) and primary keys are unique.\<close>

definition db_ok :: "db \<Rightarrow> bool" where
  "db_ok d \<longleftrightarrow> distinct (map plan_id (plans d)) \<and> distinct (map plan_name (plans d)) \<and>
     (\<forall>u r. subs d u = Some r \<longrightarrow> sub_plan_id r \<in> plan_id ` set (plans d))"

text \<open>Loading the row of a user as an object.  The plan exists by \<open>db_ok\<close>; a row with a
  dangling key loads as nothing.\<close>

definition load_sub :: "db \<Rightarrow> uid \<Rightarrow> subscription option" where
  "load_sub d u = (case subs d u of
      None \<Rightarrow> None
    | Some r \<Rightarrow> (case plan_by_id d (sub_plan_id r) of None \<Rightarrow> None | Some p \<Rightarrow> Some (r, p)))"

text \<open>\<^verbatim>\<open>UserSubscription.objects.get(user=user, is_active=True)\<close>; \<^verbatim>\<open>None\<close> is
  \<^verbatim>\<open>DoesNotExist\<close>.\<close>

definition active_sub :: "db \<Rightarrow> uid \<Rightarrow> subscription option" where
  "active_sub d u = (case load_sub d u of
      None \<Rightarrow> None
    | Some s \<Rightarrow> if sub_is_active (fst s) then Some s else None)"

lemma plan_by_id_Some: "plan_by_id d i = Some p \<Longrightarrow> p \<in> set (plans d) \<and> plan_id p = i"
  by (auto simp: plan_by_id_def find_Some_iff)

lemma plan_by_id_in:
  assumes "i \<in> plan_id ` set (plans d)"
  shows "\<exists>p. plan_by_id d i = Some p"
  using assms by (auto simp: plan_by_id_def find_None_iff2 dest: sym split: option.splits)
    (metis (mono_tags, lifting) find_None_iff option.exhaust)

lemma plan_by_id_self:
  assumes "distinct (map plan_id (plans d))" and "p \<in> set (plans d)"
  shows "plan_by_id d (plan_id p) = Some p"
proof -
  obtain q where q: "plan_by_id d (plan_id p) = Some q"
    using plan_by_id_in [of "plan_id p" d] assms(2) by auto
  then have "q \<in> set (plans d)" "plan_id q = plan_id p"
    using plan_by_id_Some by blast+
  then have "q = p" using assms by (auto simp: distinct_map dest: inj_onD)
  with q show ?thesis by simp
qed

lemma active_sub_load: "active_sub d u = Some s \<Longrightarrow> load_sub d u = Some s \<and> sub_is_active (fst s)"
  by (auto simp: active_sub_def split: option.splits if_splits)

lemma load_sub_row: "load_sub d u = Some s \<Longrightarrow> subs d u = Some (fst s) \<and> plan_by_id d (sub_plan_id (fst s)) = Some (snd s)"
  by (auto simp: load_sub_def split: option.splits)

lemma load_sub_total: "db_ok d \<Longrightarrow> subs d u = Some r \<Longrightarrow> \<exists>p. load_sub d u = Some (r, p)"
  unfolding db_ok_def load_sub_def using plan_by_id_in [of "sub_plan_id r" d]
  by (auto split: option.splits)

end
