(* ===== verification/Quota_Cache.thy ===== *)
theory Quota_Cache
  imports Usage_Models
begin

text \<open>
  The key-value cache behind \<^verbatim>\<open>django.core.cache\<close>, as far as \<^verbatim>\<open>QuotaService\<close>,
  \<^verbatim>\<open>CostCalculator\<close> and \<^verbatim>\<open>CatalogService\<close> use it (get, set with a time to live, delete, incr), the versioned
  keys of \<^verbatim>\<open>QuotaService\<close>, and the read-through pattern both services follow.

  The keys keep their structure instead of being formatted strings (two keys of the source are
  the same string exactly when they are equal here, as user ids are UUIDs); a value is one of
  the things the code stores.
\<close>

datatype usage_kind = Weekly_Usage | Session_Usage

datatype cache_key =
    Version_Key uid
  | Subscription_Key uid
  | Usage_Key usage_kind uid int
  | Pricing_Key string string
  | Catalog_Key string

datatype cache_value =
    CInt int
  | CSub subscription
  | CNone \<comment> \<open>the marker \<^verbatim>\<open>'none'\<close>\<close>
  | CUsd usd
  | CPrice service_pricing
  | CCatalog "usd option" "usd option" \<comment> \<open>prompt and completion price of a model\<close>

type_synonym cache_store = "cache_key \<rightharpoonup> cache_value \<times> datetime option"

definition cache_get :: "datetime \<Rightarrow> cache_key \<Rightarrow> cache_store \<Rightarrow> cache_value option" where
  "cache_get now k c = (case c k of
      None \<Rightarrow> None
    | Some (v, expiry) \<Rightarrow>
        (case expiry of None \<Rightarrow> Some v | Some e \<Rightarrow> if now < e then Some v else None))"

definition cache_set ::
  "datetime \<Rightarrow> cache_key \<Rightarrow> cache_value \<Rightarrow> timedelta option \<Rightarrow> cache_store \<Rightarrow> cache_store" where
  "cache_set now k v ttl c = c(k \<mapsto> (v, map_option (\<lambda>t. now + t) ttl))"

definition cache_delete :: "cache_key \<Rightarrow> cache_store \<Rightarrow> cache_store" where
  "cache_delete k c = c(k := None)"

text \<open>\<^verbatim>\<open>cache.incr\<close>: \<^verbatim>\<open>None\<close> is the \<^verbatim>\<open>ValueError\<close> of a missing key.\<close>

definition cache_incr :: "datetime \<Rightarrow> cache_key \<Rightarrow> cache_store \<Rightarrow> cache_store option" where
  "cache_incr now k c = (case cache_get now k c of
      Some (CInt n) \<Rightarrow> Some (c(k \<mapsto> (CInt (n + 1), snd (the (c k)))))
    | _ \<Rightarrow> None)"

section \<open>The store as an interface\<close>

text \<open>What the clients rely on: a value that was set is read back until it expires, other keys
  keep their values, a deleted key reads as absent.\<close>

locale ttl_store =
  fixes get :: "datetime \<Rightarrow> 'k \<Rightarrow> 'c \<Rightarrow> 'v option"
    and put :: "datetime \<Rightarrow> 'k \<Rightarrow> 'v \<Rightarrow> timedelta option \<Rightarrow> 'c \<Rightarrow> 'c"
    and del :: "'k \<Rightarrow> 'c \<Rightarrow> 'c"
  assumes get_put_same:
      "get t k (put t0 k v ttl c) =
         (case ttl of None \<Rightarrow> Some v | Some d \<Rightarrow> if t < t0 + d then Some v else None)"
    and get_put_other: "k' \<noteq> k \<Longrightarrow> get t k' (put t0 k v ttl c) = get t k' c"
    and get_del_same: "get t k (del k c) = None"
    and get_del_other: "k' \<noteq> k \<Longrightarrow> get t k' (del k c) = get t k' c"

text \<open>The read-through pattern: serve a cached value, otherwise compute it and cache it for
  \<open>ttl\<close>.\<close>

definition read_through ::
  "(datetime \<Rightarrow> 'k \<Rightarrow> 'c \<Rightarrow> 'v option) \<Rightarrow>
   (datetime \<Rightarrow> 'k \<Rightarrow> 'v \<Rightarrow> timedelta option \<Rightarrow> 'c \<Rightarrow> 'c) \<Rightarrow>
   datetime \<Rightarrow> 'k \<Rightarrow> timedelta \<Rightarrow> 'v \<Rightarrow> 'c \<Rightarrow> 'v \<times> 'c" where
  "read_through get put now k ttl v c =
     (case get now k c of Some v' \<Rightarrow> (v', c) | None \<Rightarrow> (v, put now k v (Some ttl) c))"

context ttl_store
begin

text \<open>A read-through of a key that holds only correct values answers correctly, and keeps
  every key correct; a key never read through keeps its value.\<close>

lemma read_through_value:
  assumes "\<And>v'. get now k c = Some v' \<Longrightarrow> v' = v"
  shows "fst (read_through get put now k ttl v c) = v"
  using assms by (auto simp: read_through_def split: option.splits)

lemma read_through_other:
  "k' \<noteq> k \<Longrightarrow> get t k' (snd (read_through get put now k ttl v c)) = get t k' c"
  by (auto simp: read_through_def get_put_other split: option.splits)

lemma read_through_same:
  assumes "get t k (snd (read_through get put now k ttl v c)) = Some v'"
  shows "get t k c = Some v' \<or> v' = v"
  using assms by (auto simp: read_through_def get_put_same split: option.splits if_splits)

lemma read_through_coherent:
  assumes "\<And>k' v'. get t k' c = Some v' \<Longrightarrow> ok k' v'" and "ok k v"
    and "get t k' (snd (read_through get put now k ttl v c)) = Some v'"
  shows "ok k' v'"
  using assms read_through_other [of k' k t now ttl v c] read_through_same [of t k now ttl v c v']
  by (cases "k' = k") auto

lemma del_miss: "get t k (del k' c) = Some v \<Longrightarrow> k \<noteq> k' \<and> get t k c = Some v"
  by (cases "k = k'") (auto simp: get_del_same get_del_other)

end

lemma cache_get_set_same:
  "cache_get t k (cache_set t0 k v ttl c) =
     (case ttl of None \<Rightarrow> Some v | Some d \<Rightarrow> if t < t0 + d then Some v else None)"
  by (auto simp: cache_get_def cache_set_def split: option.splits)

lemma cache_get_set_other: "k' \<noteq> k \<Longrightarrow> cache_get t k' (cache_set t0 k v ttl c) = cache_get t k' c"
  by (simp add: cache_get_def cache_set_def)

lemma cache_get_delete:
  "cache_get t k' (cache_delete k c) = (if k' = k then None else cache_get t k' c)"
  by (simp add: cache_get_def cache_delete_def)

interpretation django_cache: ttl_store cache_get cache_set cache_delete
  by unfold_locales (simp_all add: cache_get_set_same cache_get_set_other cache_get_delete)

section \<open>Versioned keys\<close>

definition get_cache_version :: "datetime \<Rightarrow> uid \<Rightarrow> cache_store \<Rightarrow> int" where
  "get_cache_version now u c = (case cache_get now (Version_Key u) c of Some (CInt n) \<Rightarrow> n | _ \<Rightarrow> 0)"

definition increment_cache_version :: "datetime \<Rightarrow> uid \<Rightarrow> cache_store \<Rightarrow> cache_store" where
  "increment_cache_version now u c = (case cache_incr now (Version_Key u) c of
      Some c' \<Rightarrow> c'
    | None \<Rightarrow> cache_set now (Version_Key u) (CInt 1) None c)"

definition get_cache_key :: "datetime \<Rightarrow> uid \<Rightarrow> usage_kind \<Rightarrow> cache_store \<Rightarrow> cache_key" where
  "get_cache_key now u kind c = Usage_Key kind u (get_cache_version now u c)"

definition invalidate_user_cache :: "datetime \<Rightarrow> uid \<Rightarrow> cache_store \<Rightarrow> cache_store" where
  "invalidate_user_cache now u c =
     cache_delete (Subscription_Key u) (increment_cache_version now u c)"

text \<open>Version entries are integers and never expire; usage entries of a user carry a version
  up to the current one.\<close>

definition versions_ok :: "cache_store \<Rightarrow> bool" where
  "versions_ok c \<longleftrightarrow>
     (\<forall>u e. c (Version_Key u) = Some e \<longrightarrow> (\<exists>n. e = (CInt n, None) \<and> 0 < n)) \<and>
     (\<forall>kind u v t. c (Usage_Key kind u v) \<noteq> None \<longrightarrow> v \<le> get_cache_version t u c)"

lemma versions_ok_VersionD:
  "versions_ok c \<Longrightarrow> c (Version_Key u) = Some e \<Longrightarrow> \<exists>n. e = (CInt n, None) \<and> 0 < n"
  unfolding versions_ok_def by blast

lemma versions_ok_UsageD:
  "versions_ok c \<Longrightarrow> c (Usage_Key kind u v) = Some y \<Longrightarrow> v \<le> get_cache_version t u c"
  unfolding versions_ok_def by blast

lemma versions_ok_version:
  assumes "versions_ok c"
  shows "get_cache_version t u c = (case c (Version_Key u) of Some (CInt n, _) \<Rightarrow> n | _ \<Rightarrow> 0)"
    and "0 \<le> get_cache_version t u c"
  using assms
  by (auto simp: versions_ok_def get_cache_version_def cache_get_def split: option.splits cache_value.splits)
    (metis fst_conv less_imp_le option.inject cache_value.inject(1) option.distinct(1) prod.inject)+

lemma increment_cache_version_Version:
  assumes "versions_ok c"
  shows "increment_cache_version now u c =
           c(Version_Key u \<mapsto> (CInt (get_cache_version now u c + 1), None))"
proof (cases "c (Version_Key u)")
  case None
  then show ?thesis
    by (simp add: increment_cache_version_def cache_incr_def cache_get_def cache_set_def get_cache_version_def)
next
  case (Some e)
  with assms obtain n where "e = (CInt n, None)" using versions_ok_VersionD by blast
  with Some show ?thesis
    by (simp add: increment_cache_version_def cache_incr_def cache_get_def get_cache_version_def)
qed

lemma get_cache_version_invalidate [simp]:
  assumes "versions_ok c"
  shows "get_cache_version t u' (invalidate_user_cache now u c) =
           (if u' = u then get_cache_version now u c + 1 else get_cache_version t u' c)"
  using assms
  by (simp add: invalidate_user_cache_def increment_cache_version_Version cache_delete_def
      get_cache_version_def cache_get_def)

lemma invalidate_user_cache_eq:
  assumes "versions_ok c"
  shows "invalidate_user_cache now u c =
     c(Version_Key u \<mapsto> (CInt (get_cache_version now u c + 1), None), Subscription_Key u := None)"
  by (simp add: invalidate_user_cache_def increment_cache_version_Version [OF assms] cache_delete_def)

lemma versions_ok_empty [simp]: "versions_ok Map.empty"
  by (simp add: versions_ok_def)

lemma versions_ok_invalidate:
  assumes ok: "versions_ok c"
  shows "versions_ok (invalidate_user_cache now u c)"
proof -
  have pos: "0 \<le> get_cache_version now u c" using versions_ok_version(2) [OF ok] .
  have indep: "get_cache_version t u c = get_cache_version now u c" for t
    using versions_ok_version(1) [OF ok] by simp
  have le: "c (Usage_Key kind u' v) = Some y \<Longrightarrow> v \<le> get_cache_version t u' c" for kind u' v y t
    using versions_ok_UsageD [OF ok] .
  show ?thesis
    unfolding versions_ok_def
  proof (intro conjI allI impI)
    fix u' e
    assume "invalidate_user_cache now u c (Version_Key u') = Some e"
    then show "\<exists>n. e = (CInt n, None) \<and> 0 < n"
      using pos versions_ok_VersionD [OF ok, of u' e]
      by (auto simp: invalidate_user_cache_eq [OF ok] simp del: split_paired_All split: if_splits)
  next
    fix kind u' v t
    assume "invalidate_user_cache now u c (Usage_Key kind u' v) \<noteq> None"
    then obtain y where "c (Usage_Key kind u' v) = Some y"
      by (auto simp: invalidate_user_cache_eq [OF ok])
    from le [OF this, of t] le [OF this, of now]
    show "v \<le> get_cache_version t u' (invalidate_user_cache now u c)"
      using ok by auto
  qed
qed

text \<open>Right after an invalidation no usage entry of the user is readable at the key in force,
  so the next read goes to the database.\<close>

lemma invalidate_usage_miss:
  assumes ok: "versions_ok c"
  shows "cache_get t (get_cache_key t' u kind (invalidate_user_cache now u c))
           (invalidate_user_cache now u c) = None"
proof -
  let ?v = "get_cache_version now u c"
  have "c (Usage_Key kind u (?v + 1)) = None"
    using ok unfolding versions_ok_def by (metis add_le_same_cancel1 not_one_le_zero)
  then show ?thesis
    using ok by (simp add: get_cache_key_def cache_get_def invalidate_user_cache_eq [OF ok])
      (simp add: get_cache_version_def cache_get_def)
qed

lemma invalidate_subscription_miss:
  "versions_ok c \<Longrightarrow> cache_get t (Subscription_Key u) (invalidate_user_cache now u c) = None"
  by (simp add: invalidate_user_cache_eq cache_get_def)

end
