(* ===== verification/Quota_Service.thy ===== *)
theory Quota_Service
  imports Quota_Cache
begin

text \<open>
  \<^verbatim>\<open>QuotaService\<close> (\<^verbatim>\<open>core/usage_quota/services/quota_service.py\<close>): the fixed weekly and
  session windows, usage totals with and without the cache, the pre-flight check, the atomic
  check-and-deduct, the unconditional deduction and the quota summary.

  An operation takes the whole state (\<open>world\<close>) and returns its result and the new state; an
  exception is \<^verbatim>\<open>Inl\<close>.  \<open>atomic\<close> is \<^verbatim>\<open>transaction.atomic\<close>: an exception undoes the
  database, not the cache.  One operation runs at one instant, \<open>clock\<close>.

  \<open>q\<close> is the database column \<^verbatim>\<open>cost_usd DecimalField(max_digits=10, decimal_places=6)\<close>:
  the value a stored cost reads back as, or \<^verbatim>\<open>None\<close> where the database rejects it.  The
  column is not code of the repository, so it is a parameter of the operations that write it;
  \<open>column_ok\<close> (in \<open>Quota_Invariants\<close>) says what the bounds rely on.
\<close>

section \<open>State and transactions\<close>

record world =
  db :: db
  cache :: cache_store
  clock :: datetime
  next_log :: nat

definition atomic :: "(world \<Rightarrow> (exn + 'a) \<times> world) \<Rightarrow> world \<Rightarrow> (exn + 'a) \<times> world" where
  "atomic f w = (case f w of
      (Inl e, w') \<Rightarrow> (Inl e, w'\<lparr>db := db w\<rparr>)
    | (Inr x, w') \<Rightarrow> (Inr x, w'))"

definition CACHE_TTL :: timedelta where "CACHE_TTL = seconds 300"

definition WEEKLY_WINDOW_DAYS :: int where "WEEKLY_WINDOW_DAYS = 7"

definition SESSION_WINDOW_HOURS :: int where "SESSION_WINDOW_HOURS = 3"

definition weekly_len :: timedelta where "weekly_len = days WEEKLY_WINDOW_DAYS"

definition session_len :: timedelta where "session_len = hours SESSION_WINDOW_HOURS"

lemma weekly_len_pos [simp]: "0 < weekly_len"
  by (simp add: weekly_len_def WEEKLY_WINDOW_DAYS_def)

lemma session_len_pos [simp]: "0 < session_len"
  by (simp add: session_len_def SESSION_WINDOW_HOURS_def)

record quota_check_result =
  qc_allowed :: bool
  qc_reason :: "string option"
  qc_remaining_weekly_usd :: usd
  qc_remaining_session_usd :: usd
  qc_weekly_limit_usd :: usd
  qc_session_limit_usd :: usd
  qc_weekly_used_usd :: usd
  qc_session_used_usd :: usd
  qc_weekly_window_end :: "datetime option"
  qc_session_window_end :: "datetime option"

record usage_deduct_result =
  ud_success :: bool
  ud_usage_log_id :: "nat option"
  ud_new_weekly_used_usd :: usd
  ud_new_remaining_weekly_usd :: usd

text \<open>The keyword arguments that \<^verbatim>\<open>check_and_deduct\<close> and \<^verbatim>\<open>deduct_usage\<close> pass on to the
  ledger row.\<close>

record usage_details =
  d_session_id :: "string option"
  d_model_id :: string
  d_prompt_tokens :: int
  d_completion_tokens :: int
  d_total_tokens :: int
  d_character_count :: int
  d_audio_seconds :: rat
  d_request_count :: int
  d_request_id :: string
  d_extra_data :: "(string \<times> json) list"
  d_billing_origin :: string

section \<open>Windows\<close>

definition is_weekly_window_active :: "datetime \<Rightarrow> datetime option \<Rightarrow> bool" where
  "is_weekly_window_active now start = (case start of
      None \<Rightarrow> False | Some s \<Rightarrow> now < s + weekly_len)"

definition get_weekly_window_end :: "datetime option \<Rightarrow> datetime option" where
  "get_weekly_window_end start = (case start of None \<Rightarrow> None | Some s \<Rightarrow> Some (s + weekly_len))"

definition is_session_window_active :: "datetime \<Rightarrow> datetime option \<Rightarrow> bool" where
  "is_session_window_active now start = (case start of
      None \<Rightarrow> False | Some s \<Rightarrow> now < s + session_len)"

definition get_session_window_end :: "datetime option \<Rightarrow> datetime option" where
  "get_session_window_end start = (case start of None \<Rightarrow> None | Some s \<Rightarrow> Some (s + session_len))"

text \<open>Both windows obey one contract: a fixed length, counted from the first use.\<close>

locale fixed_window =
  fixes active :: "datetime \<Rightarrow> datetime option \<Rightarrow> bool"
    and window_end :: "datetime option \<Rightarrow> datetime option"
    and len :: timedelta
  assumes len_pos: "0 < len"
    and active_None: "\<not> active now None"
    and active_Some: "active now (Some s) \<longleftrightarrow> now < s + len"
    and end_Some: "window_end (Some s) = Some (s + len)"
begin

text \<open>The start the code works with: the old one while it is active, else now.\<close>

lemma restart_active: "active now (if active now w then w else Some now)"
  using len_pos by (auto simp: active_Some)

lemma restart_Some: "(if active now w then w else Some now) = Some s \<Longrightarrow> now < s + len"
  using len_pos by (cases w) (auto simp: active_None active_Some split: if_splits)

lemma restart_cases:
  obtains s where "(if active now w then w else Some now) = Some s" and "now < s + len"
    and "w = Some s \<or> s = now"
proof (cases "active now w")
  case True
  then show ?thesis using that by (cases w) (auto simp: active_None active_Some)
next
  case False
  then show ?thesis using that [of now] len_pos by simp
qed

lemma end_after: "active now (Some s) \<Longrightarrow> window_end (Some s) = Some e \<Longrightarrow> now < e"
  by (simp add: active_Some end_Some)

lemma active_mono: "active t w \<Longrightarrow> now \<le> t \<Longrightarrow> active now w"
  by (cases w) (auto simp: active_None active_Some)

lemma not_active_mono: "\<not> active now w \<Longrightarrow> now \<le> t \<Longrightarrow> \<not> active t w"
  using active_mono by blast

end

interpretation weekly: fixed_window is_weekly_window_active get_weekly_window_end weekly_len
  by unfold_locales (simp_all add: is_weekly_window_active_def get_weekly_window_end_def)

interpretation session: fixed_window is_session_window_active get_session_window_end session_len
  by unfold_locales (simp_all add: is_session_window_active_def get_session_window_end_def)

lemmas window_active_simps [window_simps] =
  weekly.active_None weekly.active_Some weekly.end_Some
  session.active_None session.active_Some session.end_Some

section \<open>Usage totals\<close>

definition in_window :: "uid \<Rightarrow> datetime \<Rightarrow> datetime \<Rightarrow> usage_log \<Rightarrow> bool" where
  "in_window u s e l \<longleftrightarrow> log_user l = u \<and> s \<le> log_timestamp l \<and> log_timestamp l < e"

definition window_usage :: "db \<Rightarrow> uid \<Rightarrow> datetime \<Rightarrow> datetime \<Rightarrow> usd" where
  "window_usage d u s e = sum_rows log_cost_usd (in_window u s e) (logs d)"

definition calculate_weekly_usage_direct :: "db \<Rightarrow> uid \<Rightarrow> datetime \<Rightarrow> usd" where
  "calculate_weekly_usage_direct d u s = window_usage d u s (s + weekly_len)"

definition calculate_session_usage_direct :: "db \<Rightarrow> uid \<Rightarrow> datetime \<Rightarrow> usd" where
  "calculate_session_usage_direct d u s = window_usage d u s (s + session_len)"

definition usd_of :: "cache_value \<Rightarrow> usd" where
  "usd_of v = (case v of CUsd x \<Rightarrow> x | _ \<Rightarrow> 0)"

text \<open>A cached total is served as it is; a computed one is cached for \<open>CACHE_TTL\<close>.\<close>

definition get_weekly_usage :: "uid \<Rightarrow> datetime option \<Rightarrow> world \<Rightarrow> usd \<times> world" where
  "get_weekly_usage u start w = (case start of
      None \<Rightarrow> (0, w)
    | Some s \<Rightarrow>
        if s + weekly_len \<le> clock w then (0, w)
        else
          let key = get_cache_key (clock w) u Weekly_Usage (cache w);
              total = calculate_weekly_usage_direct (db w) u s;
              r = read_through cache_get cache_set (clock w) key CACHE_TTL (CUsd total) (cache w)
          in (usd_of (fst r), w\<lparr>cache := snd r\<rparr>))"

definition get_session_usage :: "uid \<Rightarrow> datetime option \<Rightarrow> world \<Rightarrow> usd \<times> world" where
  "get_session_usage u start w = (case start of
      None \<Rightarrow> (0, w)
    | Some s \<Rightarrow>
        if s + session_len \<le> clock w then (0, w)
        else
          let key = get_cache_key (clock w) u Session_Usage (cache w);
              total = calculate_session_usage_direct (db w) u s;
              r = read_through cache_get cache_set (clock w) key CACHE_TTL (CUsd total) (cache w)
          in (usd_of (fst r), w\<lparr>cache := snd r\<rparr>))"

section \<open>Subscriptions\<close>

definition sub_cache_value :: "subscription option \<Rightarrow> cache_value" where
  "sub_cache_value s = (case s of None \<Rightarrow> CNone | Some x \<Rightarrow> CSub x)"

definition sub_of :: "cache_value \<Rightarrow> subscription option" where
  "sub_of v = (case v of CSub s \<Rightarrow> Some s | _ \<Rightarrow> None)"

definition get_subscription_cached :: "uid \<Rightarrow> world \<Rightarrow> subscription option \<times> world" where
  "get_subscription_cached u w =
     (let r = read_through cache_get cache_set (clock w) (Subscription_Key u) CACHE_TTL
                (sub_cache_value (active_sub (db w) u)) (cache w)
      in (sub_of (fst r), w\<lparr>cache := snd r\<rparr>))"

definition invalidate :: "uid \<Rightarrow> world \<Rightarrow> world" where
  "invalidate u w = w\<lparr>cache := invalidate_user_cache (clock w) u (cache w)\<rparr>"

definition new_subscription :: "subscription_plan \<Rightarrow> user_subscription" where
  "new_subscription p =
     \<lparr>sub_plan_id = plan_id p, custom_weekly_limit_usd = None, custom_session_limit_usd = None,
      stripe_subscription_id = None, current_period_end = None, cancel_at_period_end = False,
      stripe_event_created = None, session_window_start = None, weekly_window_start = None,
      sub_is_active = True\<rparr>"

definition put_sub :: "uid \<Rightarrow> user_subscription \<Rightarrow> db \<Rightarrow> db" where
  "put_sub u r d = d\<lparr>subs := (subs d)(u \<mapsto> r)\<rparr>"

text \<open>\<^verbatim>\<open>get_or_create(user=user, ..)\<close> matches the user's row whether it is active or not.\<close>

definition create_default_subscription :: "uid \<Rightarrow> world \<Rightarrow> subscription option \<times> world" where
  "create_default_subscription u w = (case get_default_plan (plans (db w)) of
      None \<Rightarrow> (None, w)
    | Some p \<Rightarrow>
        (case subs (db w) u of
           Some r \<Rightarrow> (load_sub (db w) u, w)
         | None \<Rightarrow>
             let r = new_subscription p
             in (Some (r, p), invalidate u (w\<lparr>db := put_sub u r (db w)\<rparr>))))"

definition get_or_create_subscription :: "uid \<Rightarrow> world \<Rightarrow> subscription option \<times> world" where
  "get_or_create_subscription u w = (case get_subscription_cached u w of
      (Some s, w') \<Rightarrow> (Some s, w')
    | (None, w') \<Rightarrow> create_default_subscription u w')"

section \<open>Pre-flight check\<close>

definition check_quota :: "uid \<Rightarrow> usd \<Rightarrow> world \<Rightarrow> (exn + quota_check_result) \<times> world" where
  "check_quota u estimated_cost_usd w0 = (case get_or_create_subscription u w0 of
      (None, w1) \<Rightarrow> (Inl (SubscriptionNotFound u), w1)
    | (Some s, w1) \<Rightarrow>
        let weekly_limit = effective_weekly_limit s;
            session_limit = effective_session_limit s;
            (weekly_used, w2) = get_weekly_usage u (weekly_window_start (fst s)) w1;
            (session_used, w3) = get_session_usage u (session_window_start (fst s)) w2;
            weekly_remaining = max 0 (weekly_limit - weekly_used);
            session_remaining = max 0 (session_limit - session_used);
            result = \<lparr>qc_allowed = True, qc_reason = None,
                      qc_remaining_weekly_usd = weekly_remaining,
                      qc_remaining_session_usd = session_remaining,
                      qc_weekly_limit_usd = weekly_limit,
                      qc_session_limit_usd = session_limit,
                      qc_weekly_used_usd = weekly_used,
                      qc_session_used_usd = session_used,
                      qc_weekly_window_end = get_weekly_window_end (weekly_window_start (fst s)),
                      qc_session_window_end = get_session_window_end (session_window_start (fst s))\<rparr>
        in if estimated_cost_usd > weekly_remaining
           then (Inr (result\<lparr>qc_allowed := False, qc_reason := Some ''weekly''\<rparr>), w3)
           else if estimated_cost_usd > session_remaining
           then (Inr (result\<lparr>qc_allowed := False, qc_reason := Some ''session''\<rparr>), w3)
           else (Inr result, w3))"

section \<open>Atomic check and deduct, and plain deduction\<close>

text \<open>Both operations fetch the user's active row under a lock, creating a default one if there
  is none; the second \<^verbatim>\<open>get\<close> raises \<^verbatim>\<open>DoesNotExist\<close> if the row that exists is inactive.\<close>

definition locked_subscription :: "uid \<Rightarrow> world \<Rightarrow> (exn + subscription) \<times> world" where
  "locked_subscription u w = (case active_sub (db w) u of
      Some s \<Rightarrow> (Inr s, w)
    | None \<Rightarrow>
        (case create_default_subscription u w of
           (None, w') \<Rightarrow> (Inl (SubscriptionNotFound u), w')
         | (Some _, w') \<Rightarrow>
             (case active_sub (db w') u of
                None \<Rightarrow> (Inl DoesNotExist, w')
              | Some s \<Rightarrow> (Inr s, w'))))"

definition start_windows :: "datetime \<Rightarrow> user_subscription \<Rightarrow> user_subscription" where
  "start_windows now r =
     (let r1 = (if is_weekly_window_active now (weekly_window_start r) then r
                else r\<lparr>weekly_window_start := Some now\<rparr>)
      in (if is_session_window_active now (session_window_start r1) then r1
          else r1\<lparr>session_window_start := Some now\<rparr>))"

definition make_log ::
  "uid \<Rightarrow> string \<Rightarrow> usd \<Rightarrow> string \<Rightarrow> usage_details \<Rightarrow> world \<Rightarrow> usage_log" where
  "make_log u service cost feature k w =
     \<lparr>log_id = next_log w, log_user = u, log_service = service, log_feature = feature,
      log_session_id = opt_str_or (d_session_id k) '''', log_model_id = d_model_id k,
      log_prompt_tokens = d_prompt_tokens k, log_completion_tokens = d_completion_tokens k,
      log_total_tokens = num_or (d_total_tokens k) (d_prompt_tokens k + d_completion_tokens k),
      log_character_count = d_character_count k, log_audio_seconds = d_audio_seconds k,
      log_request_count = d_request_count k, log_cost_usd = cost,
      log_request_id = d_request_id k, log_extra_data = d_extra_data k,
      log_billing_origin = d_billing_origin k, log_timestamp = clock w\<rparr>"

definition append_log :: "usage_log \<Rightarrow> world \<Rightarrow> world" where
  "append_log l w = w\<lparr>db := (db w)\<lparr>logs := logs (db w) @ [l]\<rparr>, next_log := Suc (next_log w)\<rparr>"

text \<open>\<^verbatim>\<open>UsageLog.objects.create\<close>: the column decides what is stored, or that the insert fails.\<close>

definition create_log ::
  "(usd \<Rightarrow> usd option) \<Rightarrow> uid \<Rightarrow> string \<Rightarrow> usd \<Rightarrow> string \<Rightarrow> usage_details \<Rightarrow> world \<Rightarrow> (exn + nat) \<times> world" where
  "create_log q u service cost feature k w = (case q cost of
      None \<Rightarrow> (Inl DatabaseError, w)
    | Some c \<Rightarrow> (Inr (next_log w), append_log (make_log u service c feature k w) w))"

definition quota_exceeded :: "string \<Rightarrow> usd \<Rightarrow> usd \<Rightarrow> string \<Rightarrow> int option \<Rightarrow> exn" where
  "quota_exceeded message limit used limit_type resets_in =
     QuotaExceeded \<lparr>qe_message = message, qe_limit_usd = limit, qe_used_usd = used,
       qe_remaining_usd = max 0 (limit - used), qe_limit_type = limit_type,
       qe_resets_in_seconds = resets_in, qe_feature_name = None, qe_used_count = None,
       qe_limit_count = None\<rparr>"

definition check_and_deduct_body ::
  "(usd \<Rightarrow> usd option) \<Rightarrow> uid \<Rightarrow> string \<Rightarrow> usd \<Rightarrow> string \<Rightarrow> usage_details \<Rightarrow>
   world \<Rightarrow> (exn + usage_deduct_result) \<times> world" where
  "check_and_deduct_body q u service cost_usd feature k w0 = (case locked_subscription u w0 of
      (Inl e, w1) \<Rightarrow> (Inl e, w1)
    | (Inr (r, p), w1) \<Rightarrow>
        let now = clock w1;
            r' = start_windows now r;
            w2 = w1\<lparr>db := put_sub u r' (db w1)\<rparr>;
            weekly_start = the_default now (weekly_window_start r');
            session_start = the_default now (session_window_start r');
            weekly_used = calculate_weekly_usage_direct (db w2) u weekly_start;
            session_used = calculate_session_usage_direct (db w2) u session_start;
            weekly_limit = effective_weekly_limit (r', p);
            session_limit = effective_session_limit (r', p)
        in if weekly_used + cost_usd > weekly_limit
           then (Inl (quota_exceeded ''Weekly usage limit exceeded'' weekly_limit weekly_used ''weekly''
                   (map_option (\<lambda>e. int_seconds (e - now)) (get_weekly_window_end (Some weekly_start)))), w2)
           else if session_used + cost_usd > session_limit
           then (Inl (quota_exceeded ''Session rate limit exceeded. Try again in a few hours.''
                   session_limit session_used ''session''
                   (map_option (\<lambda>e. int_seconds (e - now)) (get_session_window_end (Some session_start)))), w2)
           else (case create_log q u service cost_usd feature k w2 of
                   (Inl e, w3) \<Rightarrow> (Inl e, w3)
                 | (Inr i, w3) \<Rightarrow>
                     (Inr \<lparr>ud_success = True, ud_usage_log_id = Some i,
                           ud_new_weekly_used_usd = weekly_used + cost_usd,
                           ud_new_remaining_weekly_usd = weekly_limit - (weekly_used + cost_usd)\<rparr>,
                      invalidate u w3)))"

definition check_and_deduct ::
  "(usd \<Rightarrow> usd option) \<Rightarrow> uid \<Rightarrow> string \<Rightarrow> usd \<Rightarrow> string \<Rightarrow> usage_details \<Rightarrow>
   world \<Rightarrow> (exn + usage_deduct_result) \<times> world" where
  "check_and_deduct q u service cost_usd feature k =
     atomic (check_and_deduct_body q u service cost_usd feature k)"

definition deduct_usage_body ::
  "(usd \<Rightarrow> usd option) \<Rightarrow> uid \<Rightarrow> string \<Rightarrow> usd \<Rightarrow> string \<Rightarrow> usage_details \<Rightarrow>
   world \<Rightarrow> (exn + usage_deduct_result) \<times> world" where
  "deduct_usage_body q u service cost_usd feature k w0 = (case locked_subscription u w0 of
      (Inl e, w1) \<Rightarrow> (Inl e, w1)
    | (Inr (r, p), w1) \<Rightarrow>
        let r' = start_windows (clock w1) r;
            w2 = w1\<lparr>db := put_sub u r' (db w1)\<rparr>
        in (case create_log q u service cost_usd feature k w2 of
              (Inl e, w3) \<Rightarrow> (Inl e, w3)
            | (Inr i, w3) \<Rightarrow>
                let w4 = invalidate u w3;
                    (new_weekly_used, w5) = get_weekly_usage u (weekly_window_start r') w4;
                    weekly_limit = effective_weekly_limit (r', p)
                in (Inr \<lparr>ud_success = True, ud_usage_log_id = Some i,
                         ud_new_weekly_used_usd = new_weekly_used,
                         ud_new_remaining_weekly_usd = max 0 (weekly_limit - new_weekly_used)\<rparr>, w5)))"

definition deduct_usage ::
  "(usd \<Rightarrow> usd option) \<Rightarrow> uid \<Rightarrow> string \<Rightarrow> usd \<Rightarrow> string \<Rightarrow> usage_details \<Rightarrow>
   world \<Rightarrow> (exn + usage_deduct_result) \<times> world" where
  "deduct_usage q u service cost_usd feature k = atomic (deduct_usage_body q u service cost_usd feature k)"

section \<open>Feature access and quota summary\<close>

definition check_feature_access :: "uid \<Rightarrow> string \<Rightarrow> world \<Rightarrow> (exn + bool) \<times> world" where
  "check_feature_access u feature w = (case get_or_create_subscription u w of
      (Some s, w') \<Rightarrow>
        (if sub_has_feature s feature then (Inr True, w')
         else (Inl (feature_not_available feature (display_name (snd s)) None), w'))
    | (None, w') \<Rightarrow> (Inl (feature_not_available feature ''Free'' None), w'))"

record service_breakdown =
  sb_used_usd :: usd
  sb_requests :: nat
  sb_tokens :: "int option"
  sb_characters :: "int option"
  sb_audio_seconds :: "rat option"

record feature_breakdown =
  fb_used_usd :: usd
  fb_requests :: nat

definition since :: "uid \<Rightarrow> datetime \<Rightarrow> usage_log list \<Rightarrow> usage_log list" where
  "since u s ls = filter (\<lambda>l. log_user l = u \<and> s \<le> log_timestamp l) ls"

definition truthy_sum :: "'a::zero \<Rightarrow> 'a option" where
  "truthy_sum x = (if x = 0 then None else Some x)"

definition get_usage_by_service :: "db \<Rightarrow> uid \<Rightarrow> datetime option \<Rightarrow> (string \<times> service_breakdown) list" where
  "get_usage_by_service d u start = (case start of
      None \<Rightarrow> []
    | Some s \<Rightarrow>
        let rows = since u s (logs d)
        in map (\<lambda>v.
             (v, \<lparr>sb_used_usd = sum_rows log_cost_usd (\<lambda>l. log_service l = v) rows,
                  sb_requests = length (filter (\<lambda>l. log_service l = v) rows),
                  sb_tokens = truthy_sum (sum_rows log_total_tokens (\<lambda>l. log_service l = v) rows),
                  sb_characters = truthy_sum (sum_rows log_character_count (\<lambda>l. log_service l = v) rows),
                  sb_audio_seconds = truthy_sum (sum_rows log_audio_seconds (\<lambda>l. log_service l = v) rows)\<rparr>))
             (remdups (map log_service rows)))"

definition get_usage_by_feature :: "db \<Rightarrow> uid \<Rightarrow> datetime option \<Rightarrow> (string \<times> feature_breakdown) list" where
  "get_usage_by_feature d u start = (case start of
      None \<Rightarrow> []
    | Some s \<Rightarrow>
        let rows = since u s (logs d)
        in map (\<lambda>v.
             (v, \<lparr>fb_used_usd = sum_rows log_cost_usd (\<lambda>l. log_feature l = v) rows,
                  fb_requests = length (filter (\<lambda>l. log_feature l = v) rows)\<rparr>))
             (remdups (map log_feature rows)))"

text \<open>The instants of the summary are rendered by \<^verbatim>\<open>isoformat()\<close>; they are kept as instants
  here, with \<^verbatim>\<open>None\<close> for the empty string.\<close>

record quota_info =
  qi_plan_name :: string
  qi_plan_display_name :: string
  qi_weekly_limit_usd :: usd
  qi_weekly_used_usd :: usd
  qi_weekly_remaining_usd :: usd
  qi_window_start :: "datetime option"
  qi_window_end :: "datetime option"
  qi_session_limit_usd :: usd
  qi_session_used_usd :: usd
  qi_session_remaining_usd :: usd
  qi_session_window_start :: "datetime option"
  qi_session_window_end :: "datetime option"
  qi_features :: "(string \<times> bool) list"
  qi_by_service :: "(string \<times> service_breakdown) list"
  qi_by_feature :: "(string \<times> feature_breakdown) list"

definition no_quota_info :: quota_info where
  "no_quota_info = \<lparr>qi_plan_name = ''none'', qi_plan_display_name = ''No Plan'',
     qi_weekly_limit_usd = 0, qi_weekly_used_usd = 0, qi_weekly_remaining_usd = 0,
     qi_window_start = None, qi_window_end = None,
     qi_session_limit_usd = 0, qi_session_used_usd = 0, qi_session_remaining_usd = 0,
     qi_session_window_start = None, qi_session_window_end = None,
     qi_features = [], qi_by_service = [], qi_by_feature = []\<rparr>"

definition get_user_quota_info :: "uid \<Rightarrow> world \<Rightarrow> quota_info \<times> world" where
  "get_user_quota_info u w0 = (case get_or_create_subscription u w0 of
      (None, w1) \<Rightarrow> (no_quota_info, w1)
    | (Some s, w1) \<Rightarrow>
        let weekly_limit = effective_weekly_limit s;
            session_limit = effective_session_limit s;
            w_start = weekly_window_start (fst s);
            w_active = is_weekly_window_active (clock w1) w_start;
            (weekly_used, w2) = (if w_active then get_weekly_usage u w_start w1 else (0, w1));
            s_start = session_window_start (fst s);
            s_active = is_session_window_active (clock w1) s_start;
            (session_used, w3) = (if s_active then get_session_usage u s_start w2 else (0, w2));
            active_w_start = (if w_active then w_start else None)
        in (\<lparr>qi_plan_name = plan_name (snd s), qi_plan_display_name = display_name (snd s),
             qi_weekly_limit_usd = weekly_limit, qi_weekly_used_usd = weekly_used,
             qi_weekly_remaining_usd = max 0 (weekly_limit - weekly_used),
             qi_window_start = (if w_active then w_start else None),
             qi_window_end = (if w_active then get_weekly_window_end w_start else None),
             qi_session_limit_usd = session_limit, qi_session_used_usd = session_used,
             qi_session_remaining_usd = max 0 (session_limit - session_used),
             qi_session_window_start = (if s_active then s_start else None),
             qi_session_window_end = (if s_active then get_session_window_end s_start else None),
             qi_features = features (snd s),
             qi_by_service = get_usage_by_service (db w3) u active_w_start,
             qi_by_feature = get_usage_by_feature (db w3) u active_w_start\<rparr>, w3))"

section \<open>Deprecated readers\<close>

definition get_rolling_usage :: "uid \<Rightarrow> int \<Rightarrow> world \<Rightarrow> usd" where
  "get_rolling_usage u n w =
     sum_rows log_cost_usd (\<lambda>l. log_user l = u \<and> clock w - days n \<le> log_timestamp l) (logs (db w))"

text \<open>\<^verbatim>\<open>timedelta.days\<close> is the floored number of whole days.\<close>

definition get_fixed_window_usage :: "uid \<Rightarrow> datetime option \<Rightarrow> timedelta \<Rightarrow> world \<Rightarrow> usd \<times> world" where
  "get_fixed_window_usage u start duration w =
     (if duration div days 1 = WEEKLY_WINDOW_DAYS then get_weekly_usage u start w
      else if duration = hours SESSION_WINDOW_HOURS then get_session_usage u start w
      else (case start of
              None \<Rightarrow> (0, w)
            | Some s \<Rightarrow>
                if s + duration \<le> clock w then (0, w)
                else (window_usage (db w) u s (s + duration), w)))"

end
