(* ===== verification/Quota_Invariants.thy ===== *)
theory Quota_Invariants
  imports Quota_Service
begin

text \<open>
  What \<open>Quota_Service\<close> guarantees: operations that fail leave the database as it was, a
  charge appends exactly one ledger row and keeps both windows within their limits, and the
  runs of the service never exceed a limit.
\<close>

section \<open>Frames\<close>

lemma get_weekly_usage_frame [frame_simps]:
  "db (snd (get_weekly_usage u s w)) = db w"
  "clock (snd (get_weekly_usage u s w)) = clock w"
  "next_log (snd (get_weekly_usage u s w)) = next_log w"
  by (auto simp: get_weekly_usage_def Let_def split: option.splits)

lemma get_session_usage_frame [frame_simps]:
  "db (snd (get_session_usage u s w)) = db w"
  "clock (snd (get_session_usage u s w)) = clock w"
  "next_log (snd (get_session_usage u s w)) = next_log w"
  by (auto simp: get_session_usage_def Let_def split: option.splits)

lemma get_subscription_cached_frame [frame_simps]:
  "db (snd (get_subscription_cached u w)) = db w"
  "clock (snd (get_subscription_cached u w)) = clock w"
  "next_log (snd (get_subscription_cached u w)) = next_log w"
  by (auto simp: get_subscription_cached_def Let_def)

lemma invalidate_frame [simp, frame_simps]:
  "db (invalidate u w) = db w" "clock (invalidate u w) = clock w"
  "next_log (invalidate u w) = next_log w"
  "cache (invalidate u w) = invalidate_user_cache (clock w) u (cache w)"
  by (simp_all add: invalidate_def)

lemma put_sub_frame [simp, frame_simps]:
  "plans (put_sub u r d) = plans d" "logs (put_sub u r d) = logs d"
  "subs (put_sub u r d) = (subs d)(u \<mapsto> r)"
  "prices (put_sub u r d) = prices d" "users (put_sub u r d) = users d"
  "events (put_sub u r d) = events d"
  by (simp_all add: put_sub_def)

lemma append_log_frame [simp, frame_simps]:
  "plans (db (append_log l w)) = plans (db w)" "subs (db (append_log l w)) = subs (db w)"
  "logs (db (append_log l w)) = logs (db w) @ [l]" "clock (append_log l w) = clock w"
  "cache (append_log l w) = cache w" "next_log (append_log l w) = Suc (next_log w)"
  by (simp_all add: append_log_def)

text \<open>Creating the default subscription touches the user's own row only, and only where there
  was none.\<close>

lemma create_default_subscription_cases:
  obtains (no_plan) "get_default_plan (plans (db w)) = None"
      "create_default_subscription u w = (None, w)"
  | (existing) p r where "get_default_plan (plans (db w)) = Some p" "subs (db w) u = Some r"
      "create_default_subscription u w = (load_sub (db w) u, w)"
  | (created) p where "get_default_plan (plans (db w)) = Some p" "subs (db w) u = None"
      "create_default_subscription u w =
         (Some (new_subscription p, p), invalidate u (w\<lparr>db := put_sub u (new_subscription p) (db w)\<rparr>))"
proof (cases "get_default_plan (plans (db w))")
  case None
  then show ?thesis using no_plan by (simp add: create_default_subscription_def)
next
  case (Some p)
  then show ?thesis using existing created
    by (cases "subs (db w) u") (simp_all add: create_default_subscription_def Let_def)
qed

lemma create_default_subscription_frame [frame_simps]:
  "plans (db (snd (create_default_subscription u w))) = plans (db w)"
  "logs (db (snd (create_default_subscription u w))) = logs (db w)"
  "clock (snd (create_default_subscription u w)) = clock w"
  "next_log (snd (create_default_subscription u w)) = next_log w"
  by (cases rule: create_default_subscription_cases [where w = w and u = u]; simp)+

lemma locked_subscription_frame:
  assumes "locked_subscription u w = (res, w')"
  shows "plans (db w') = plans (db w)" "logs (db w') = logs (db w)" "clock w' = clock w"
    "next_log w' = next_log w"
  using assms create_default_subscription_frame [of u w]
  by (auto simp: locked_subscription_def split: option.splits prod.splits)

text \<open>A locked subscription is the user's active row, and no other row has moved.\<close>

lemma locked_subscription_Inr:
  assumes "locked_subscription u w = (Inr s, w')"
  shows "active_sub (db w') u = Some s"
    and "\<And>v. v \<noteq> u \<Longrightarrow> subs (db w') v = subs (db w) v"
    and "active_sub (db w) u = Some s \<and> w' = w \<or>
         subs (db w) u = None \<and> fst s = new_subscription (snd s)"
proof -
  have *: "active_sub (db w') u = Some s \<and> (\<forall>v. v \<noteq> u \<longrightarrow> subs (db w') v = subs (db w) v) \<and>
      (active_sub (db w) u = Some s \<and> w' = w \<or>
       subs (db w) u = None \<and> fst s = new_subscription (snd s))"
  proof (cases "active_sub (db w) u")
    case (Some t)
    with assms show ?thesis by (simp add: locked_subscription_def)
  next
    case None
    show ?thesis
    proof (cases rule: create_default_subscription_cases [where w = w and u = u])
      case no_plan
      with None assms show ?thesis by (simp add: locked_subscription_def)
    next
      case (existing p r)
      with None assms show ?thesis
        by (auto simp: locked_subscription_def split: option.splits)
    next
      case (created p)
      let ?w' = "invalidate u (w\<lparr>db := put_sub u (new_subscription p) (db w)\<rparr>)"
      from created None assms have w': "w' = ?w'" and s: "active_sub (db ?w') u = Some s"
        by (auto simp: locked_subscription_def split: option.splits)
      from s have "fst s = new_subscription p" and "plan_by_id (db ?w') (plan_id p) = Some (snd s)"
        by (auto simp: active_sub_def load_sub_def new_subscription_def split: option.splits if_splits)
      then have "fst s = new_subscription (snd s)"
        using plan_by_id_Some by (fastforce simp: new_subscription_def)
      then show ?thesis using created w' s by auto
    qed
  qed
  then show "active_sub (db w') u = Some s"
    and "\<And>v. v \<noteq> u \<Longrightarrow> subs (db w') v = subs (db w) v"
    and "active_sub (db w) u = Some s \<and> w' = w \<or>
         subs (db w) u = None \<and> fst s = new_subscription (snd s)"
    by blast+
qed

section \<open>Windows after a charge\<close>

lemma start_windows_frame [simp]:
  "sub_plan_id (start_windows now r) = sub_plan_id r"
  "custom_weekly_limit_usd (start_windows now r) = custom_weekly_limit_usd r"
  "custom_session_limit_usd (start_windows now r) = custom_session_limit_usd r"
  "sub_is_active (start_windows now r) = sub_is_active r"
  by (simp_all add: start_windows_def Let_def)

lemma start_windows_starts:
  "weekly_window_start (start_windows now r) =
     (if is_weekly_window_active now (weekly_window_start r) then weekly_window_start r else Some now)"
  "session_window_start (start_windows now r) =
     (if is_session_window_active now (session_window_start r) then session_window_start r else Some now)"
  by (simp_all add: start_windows_def Let_def)

lemma start_windows_limits [simp]:
  "effective_weekly_limit (start_windows now r, p) = effective_weekly_limit (r, p)"
  "effective_session_limit (start_windows now r, p) = effective_session_limit (r, p)"
  by (simp_all add: effective_weekly_limit_def effective_session_limit_def split: option.split)

lemma start_windows_active:
  "is_weekly_window_active now (weekly_window_start (start_windows now r))"
  "is_session_window_active now (session_window_start (start_windows now r))"
  unfolding start_windows_starts by (rule weekly.restart_active, rule session.restart_active)

lemma start_windows_Some:
  obtains ws ss where "weekly_window_start (start_windows now r) = Some ws"
    and "session_window_start (start_windows now r) = Some ss"
    and "now < ws + weekly_len" and "now < ss + session_len"
proof -
  obtain ws where "weekly_window_start (start_windows now r) = Some ws" "now < ws + weekly_len"
    unfolding start_windows_starts by (rule weekly.restart_cases)
  moreover obtain ss where "session_window_start (start_windows now r) = Some ss" "now < ss + session_len"
    unfolding start_windows_starts by (rule session.restart_cases)
  ultimately show ?thesis using that by blast
qed

text \<open>Starting windows twice at one instant is starting them once.\<close>

lemma start_windows_idem: "start_windows now (start_windows now r) = start_windows now r"
  using start_windows_active [of now r] by (simp add: start_windows_def [of _ "start_windows now r"] Let_def)

section \<open>Errors are rolled back\<close>

lemma atomic_error: "atomic f w = (Inl e, w') \<Longrightarrow> db w' = db w"
  by (auto simp: atomic_def split: prod.splits sum.splits)

lemma atomic_Inr: "atomic f w = (Inr x, w') \<longleftrightarrow> f w = (Inr x, w')"
  by (auto simp: atomic_def split: prod.splits sum.splits)

section \<open>A successful charge\<close>

lemma create_log_Inr:
  "create_log q u service cost feature k w = (Inr i, w') \<longleftrightarrow>
     (\<exists>c. q cost = Some c \<and> i = next_log w \<and> w' = append_log (make_log u service c feature k w) w)"
  by (auto simp: create_log_def split: option.splits)

text \<open>Everything a successful \<open>check_and_deduct\<close> did: which row it locked, where the windows
  start, that both checks passed, and the state it left.\<close>

lemma check_and_deduct_Inr:
  assumes "check_and_deduct q u service cost feature k w = (Inr res, w')"
  obtains r p w1 c ws ss where
    "locked_subscription u w = (Inr (r, p), w1)"
    "weekly_window_start (start_windows (clock w) r) = Some ws"
    "session_window_start (start_windows (clock w) r) = Some ss"
    "clock w < ws + weekly_len" "clock w < ss + session_len"
    "q cost = Some c"
    "calculate_weekly_usage_direct (db w) u ws + cost \<le> effective_weekly_limit (r, p)"
    "calculate_session_usage_direct (db w) u ss + cost \<le> effective_session_limit (r, p)"
    "logs (db w') = logs (db w) @ [make_log u service c feature k w]"
    "plans (db w') = plans (db w)"
    "subs (db w') = (subs (db w1))(u \<mapsto> start_windows (clock w) r)"
    "clock w' = clock w"
    "cache w' = invalidate_user_cache (clock w) u (cache w1)"
    "res = \<lparr>ud_success = True, ud_usage_log_id = Some (next_log w),
            ud_new_weekly_used_usd = calculate_weekly_usage_direct (db w) u ws + cost,
            ud_new_remaining_weekly_usd =
              effective_weekly_limit (r, p) - (calculate_weekly_usage_direct (db w) u ws + cost)\<rparr>"
proof -
  from assms have body: "check_and_deduct_body q u service cost feature k w = (Inr res, w')"
    by (simp add: check_and_deduct_def atomic_Inr)
  obtain r p w1 where lk: "locked_subscription u w = (Inr (r, p), w1)"
    using body by (auto simp: check_and_deduct_body_def split: prod.splits sum.splits)
  note fr = locked_subscription_frame [OF lk]
  obtain ws ss where st: "weekly_window_start (start_windows (clock w) r) = Some ws"
      "session_window_start (start_windows (clock w) r) = Some ss"
      "clock w < ws + weekly_len" "clock w < ss + session_len"
    by (rule start_windows_Some)
  have direct: "calculate_weekly_usage_direct (put_sub u x (db w1)) u s = calculate_weekly_usage_direct (db w) u s"
    "calculate_session_usage_direct (put_sub u x (db w1)) u s = calculate_session_usage_direct (db w) u s" for x s
    by (simp_all add: calculate_weekly_usage_direct_def calculate_session_usage_direct_def window_usage_def fr)
  have mk: "make_log u service c feature k (w1\<lparr>db := d\<rparr>) = make_log u service c feature k w" for c d
    by (simp add: make_log_def fr)
  let ?r' = "start_windows (clock w) r"
  let ?used = "calculate_weekly_usage_direct (db w) u ws"
  obtain c where c: "q cost = Some c" and weekly: "?used + cost \<le> effective_weekly_limit (r, p)"
    and session: "calculate_session_usage_direct (db w) u ss + cost \<le> effective_session_limit (r, p)"
    and w': "w' = invalidate u (append_log (make_log u service c feature k w) (w1\<lparr>db := put_sub u ?r' (db w1)\<rparr>))"
    and res: "res = \<lparr>ud_success = True, ud_usage_log_id = Some (next_log w), ud_new_weekly_used_usd = ?used + cost,
       ud_new_remaining_weekly_usd = effective_weekly_limit (r, p) - (?used + cost)\<rparr>"
    using body unfolding check_and_deduct_body_def lk
    by (auto simp: Let_def fr st direct mk create_log_def not_less split: if_splits option.splits)
  show ?thesis
    by (rule that [OF lk st c weekly session]; simp add: w' res fr)
qed

lemma check_and_deduct_error: "check_and_deduct q u service cost feature k w = (Inl e, w') \<Longrightarrow> db w' = db w"
  unfolding check_and_deduct_def by (rule atomic_error)

lemma deduct_usage_Inr:
  assumes "deduct_usage q u service cost feature k w = (Inr res, w')"
  obtains r p w1 c where
    "locked_subscription u w = (Inr (r, p), w1)"
    "q cost = Some c"
    "logs (db w') = logs (db w) @ [make_log u service c feature k w]"
    "plans (db w') = plans (db w)"
    "subs (db w') = (subs (db w1))(u \<mapsto> start_windows (clock w) r)"
    "clock w' = clock w" "ud_success res" "ud_usage_log_id res = Some (next_log w)"
    "\<exists>w4. cache w4 = invalidate_user_cache (clock w) u (cache w1) \<and> db w4 = db w' \<and> clock w4 = clock w \<and>
       (ud_new_weekly_used_usd res, w') = get_weekly_usage u (weekly_window_start (start_windows (clock w) r)) w4"
    "ud_new_remaining_weekly_usd res = max 0 (effective_weekly_limit (r, p) - ud_new_weekly_used_usd res)"
proof -
  from assms have body: "deduct_usage_body q u service cost feature k w = (Inr res, w')"
    by (simp add: deduct_usage_def atomic_Inr)
  obtain r p w1 where lk: "locked_subscription u w = (Inr (r, p), w1)"
    using body by (auto simp: deduct_usage_body_def split: prod.splits sum.splits)
  note fr = locked_subscription_frame [OF lk]
  let ?r' = "start_windows (clock w) r"
  have mk: "make_log u service c feature k (w1\<lparr>db := d\<rparr>) = make_log u service c feature k w" for c d
    by (simp add: make_log_def fr)
  obtain c where c: "q cost = Some c"
    using body by (auto simp: deduct_usage_body_def lk create_log_def Let_def fr split: option.splits)
  define w3 where "w3 = append_log (make_log u service c feature k w) (w1\<lparr>db := put_sub u ?r' (db w1)\<rparr>)"
  define w4 where "w4 = invalidate u w3"
  obtain used w5 where g: "get_weekly_usage u (weekly_window_start ?r') w4 = (used, w5)" by force
  have w5: "db w5 = db w4" "clock w5 = clock w4"
    using get_weekly_usage_frame [of u "weekly_window_start ?r'" w4] g by simp_all
  have w3: "logs (db w3) = logs (db w) @ [make_log u service c feature k w]" "plans (db w3) = plans (db w)"
    "subs (db w3) = (subs (db w1))(u \<mapsto> ?r')" "clock w3 = clock w" "cache w3 = cache w1"
    by (simp_all add: w3_def fr)
  have "w' = w5 \<and> res = \<lparr>ud_success = True, ud_usage_log_id = Some (next_log w), ud_new_weekly_used_usd = used,
      ud_new_remaining_weekly_usd = max 0 (effective_weekly_limit (r, p) - used)\<rparr>"
    using body g c by (simp add: deduct_usage_body_def lk Let_def fr create_log_def mk w3_def [symmetric] w4_def [symmetric])
  then show ?thesis
    using that [OF lk c] w3 w5 g by (simp add: w4_def) (metis invalidate_frame)
qed

section \<open>The limits hold\<close>

text \<open>
  Amounts in the database are whole micro-dollars (\<^verbatim>\<open>decimal_places=6\<close>, and 2 for the
  limits).  The column stores such an amount, and rounding never carries a cost over a
  representable amount that bounds it: this is all the limits need to survive rounding.
\<close>

definition micro :: "usd \<Rightarrow> bool" where
  "micro x \<longleftrightarrow> (\<exists>k::int. x = of_int k / 1000000)"

definition column_ok :: "(usd \<Rightarrow> usd option) \<Rightarrow> bool" where
  "column_ok q \<longleftrightarrow> (\<forall>c c'. q c = Some c' \<longrightarrow> micro c' \<and> (\<forall>g. micro g \<longrightarrow> c \<le> g \<longrightarrow> c' \<le> g))"

text \<open>The column of the model: six decimals, rounded to the nearest, at most ten digits.\<close>

definition numeric_10_6 :: "usd \<Rightarrow> usd option" where
  "numeric_10_6 c = (let c' = of_int \<lfloor>c * 1000000 + 1 / 2\<rfloor> / 1000000
     in if \<bar>c'\<bar> < 10000 then Some c' else None)"

lemma micro_zero [simp]: "micro 0"
  unfolding micro_def by (rule exI [of _ 0]) simp

lemma micro_add [intro]: "micro x \<Longrightarrow> micro y \<Longrightarrow> micro (x + y)"
  unfolding micro_def by (metis add_divide_distrib of_int_add)

lemma micro_diff [intro]: "micro x \<Longrightarrow> micro y \<Longrightarrow> micro (x - y)"
  unfolding micro_def by (metis diff_divide_distrib of_int_diff)

lemma micro_sum_rows: "(\<And>x. x \<in> set xs \<Longrightarrow> micro (f x)) \<Longrightarrow> micro (sum_rows f P xs)"
  by (induction xs) auto

lemma column_ok_numeric: "column_ok numeric_10_6"
  unfolding column_ok_def
proof (intro allI impI conjI)
  fix c c' assume "numeric_10_6 c = Some c'"
  then have c': "c' = of_int \<lfloor>c * 1000000 + 1 / 2\<rfloor> / 1000000"
    by (simp add: numeric_10_6_def Let_def split: if_splits)
  then show "micro c'" unfolding micro_def by blast
  fix g assume "micro g" and le: "c \<le> g"
  then obtain k where k: "g = of_int k / 1000000" unfolding micro_def by blast
  have "c * 1000000 \<le> of_int k" using le k by (simp add: field_simps)
  then have "\<lfloor>c * 1000000 + 1 / 2\<rfloor> \<le> k" by linarith
  then have "(of_int \<lfloor>c * 1000000 + 1 / 2\<rfloor> :: rat) \<le> of_int k" by (simp only: of_int_le_iff)
  then show "c' \<le> g" unfolding c' k by (rule divide_right_mono) simp
qed

text \<open>If a charge fits under a limit before rounding, the stored charge fits too.\<close>

lemma column_fits:
  assumes "column_ok q" "q cost = Some c" "micro used" "micro limit" "used + cost \<le> limit"
  shows "used + c \<le> limit"
proof -
  have "micro (limit - used)" using assms(3,4) by (simp add: micro_diff)
  moreover have "cost \<le> limit - used" using assms(5) by (simp add: le_diff_eq add.commute)
  ultimately have "c \<le> limit - used" using assms(1,2) unfolding column_ok_def by blast
  then show ?thesis by (simp add: le_diff_eq add.commute)
qed

definition money_ok :: "db \<Rightarrow> bool" where
  "money_ok d \<longleftrightarrow> (\<forall>l \<in> set (logs d). micro (log_cost_usd l)) \<and>
     (\<forall>p \<in> set (plans d). micro (weekly_limit_usd p) \<and> micro (session_limit_usd p)) \<and>
     (\<forall>u r. subs d u = Some r \<longrightarrow>
        (\<forall>x. custom_weekly_limit_usd r = Some x \<or> custom_session_limit_usd r = Some x \<longrightarrow> micro x))"

text \<open>A user is within limits when each window that is active now has spent at most its limit.\<close>

definition user_within :: "db \<Rightarrow> datetime \<Rightarrow> uid \<Rightarrow> subscription \<Rightarrow> bool" where
  "user_within d now u s \<longleftrightarrow>
     (\<forall>ws. weekly_window_start (fst s) = Some ws \<longrightarrow> now < ws + weekly_len \<longrightarrow>
        calculate_weekly_usage_direct d u ws \<le> effective_weekly_limit s) \<and>
     (\<forall>ss. session_window_start (fst s) = Some ss \<longrightarrow> now < ss + session_len \<longrightarrow>
        calculate_session_usage_direct d u ss \<le> effective_session_limit s)"

definition within_limits :: "world \<Rightarrow> bool" where
  "within_limits w \<longleftrightarrow> (\<forall>u s. active_sub (db w) u = Some s \<longrightarrow> user_within (db w) (clock w) u s)"

lemma window_usage_append:
  assumes "logs d' = logs d @ [l]"
  shows "window_usage d' u s e = window_usage d u s e + (if in_window u s e l then log_cost_usd l else 0)"
  by (simp add: window_usage_def assms)

lemma window_usage_other:
  assumes "logs d' = logs d @ [l]" "log_user l \<noteq> u"
  shows "window_usage d' u s e = window_usage d u s e"
  using assms by (simp add: window_usage_append in_window_def)

lemma window_usage_le:
  assumes "logs d' = logs d @ [l]" "window_usage d u s e \<le> x" "window_usage d u s e + log_cost_usd l \<le> x"
  shows "window_usage d' u s e \<le> x"
  using assms by (simp add: window_usage_append)

lemma micro_window_usage: "money_ok d \<Longrightarrow> micro (window_usage d u s e)"
  unfolding window_usage_def money_ok_def by (rule micro_sum_rows) auto

lemma micro_limits:
  assumes "money_ok d" "load_sub d u = Some s"
  shows "micro (effective_weekly_limit s)" "micro (effective_session_limit s)"
proof -
  have "subs d u = Some (fst s)" "snd s \<in> set (plans d)"
    using load_sub_row [OF assms(2)] plan_by_id_Some by blast+
  then show "micro (effective_weekly_limit s)" "micro (effective_session_limit s)"
    using assms(1) unfolding money_ok_def effective_weekly_limit_def effective_session_limit_def
    by (auto split: option.split)
qed

lemma active_sub_cong:
  "plans d' = plans d \<Longrightarrow> subs d' u = subs d u \<Longrightarrow> active_sub d' u = active_sub d u"
  by (simp add: active_sub_def load_sub_def plan_by_id_def cong: option.case_cong)

text \<open>What the user's row looks like after a charge: the same plan and limits, windows running.\<close>

lemma active_sub_charged:
  assumes "active_sub d1 u = Some (r, p)" "plans d' = plans d1"
    "subs d' u = Some (start_windows now r)"
  shows "active_sub d' u = Some (start_windows now r, p)"
  using assms by (auto simp: active_sub_def load_sub_def plan_by_id_def split: option.splits if_splits)

lemma money_ok_locked:
  assumes "locked_subscription u w = (Inr s, w')" "money_ok (db w)"
  shows "money_ok (db w')"
proof -
  note fr = locked_subscription_frame [OF assms(1)] and lk = locked_subscription_Inr [OF assms(1)]
  have row: "subs (db w') u = Some (fst s)"
    using lk(1) active_sub_load load_sub_row by blast
  have "subs (db w') v = Some r \<Longrightarrow>
      custom_weekly_limit_usd r = Some x \<or> custom_session_limit_usd r = Some x \<Longrightarrow> micro x" for v r x
    using assms(2) lk row unfolding money_ok_def
    by (cases "v = u") (auto simp: new_subscription_def)
  then show ?thesis using assms(2) fr unfolding money_ok_def by auto
qed

text \<open>The step: a charge that goes through keeps every user within limits.\<close>

lemma check_and_deduct_keeps:
  assumes run: "check_and_deduct q u service cost feature k w = (res, w')"
    and q: "column_ok q" and mok: "money_ok (db w)" and wl: "within_limits w"
  shows "money_ok (db w') \<and> within_limits w' \<and> clock w' = clock w"
proof (cases res)
  case (Inl e)
  have "clock w' = clock w"
    using run unfolding Inl check_and_deduct_def atomic_def check_and_deduct_body_def
    by (auto simp: Let_def create_log_def dest: locked_subscription_frame(3)
        split: prod.splits sum.splits if_splits option.splits)
  with check_and_deduct_error [OF run [unfolded Inl]] mok wl show ?thesis
    by (simp add: within_limits_def)
next
  case (Inr x)
  obtain r p w1 c ws ss where lk: "locked_subscription u w = (Inr (r, p), w1)"
    and ws: "weekly_window_start (start_windows (clock w) r) = Some ws"
    and ss: "session_window_start (start_windows (clock w) r) = Some ss"
    and c: "q cost = Some c"
    and weekly: "calculate_weekly_usage_direct (db w) u ws + cost \<le> effective_weekly_limit (r, p)"
    and session: "calculate_session_usage_direct (db w) u ss + cost \<le> effective_session_limit (r, p)"
    and logs': "logs (db w') = logs (db w) @ [make_log u service c feature k w]"
    and plans': "plans (db w') = plans (db w)"
    and subs': "subs (db w') = (subs (db w1))(u \<mapsto> start_windows (clock w) r)"
    and clock': "clock w' = clock w"
    by (rule check_and_deduct_Inr [OF run [unfolded Inr]]) blast
  note fr = locked_subscription_frame [OF lk] and lki = locked_subscription_Inr [OF lk]
  let ?l = "make_log u service c feature k w"
  have l: "log_user ?l = u" "log_cost_usd ?l = c" by (simp_all add: make_log_def)
  have mok1: "money_ok (db w1)" by (rule money_ok_locked [OF lk mok])
  have "micro c" using q c unfolding column_ok_def by blast
  then have mok': "money_ok (db w')"
    using mok1 l logs' plans' subs' fr active_sub_load [OF lki(1)] load_sub_row
    unfolding money_ok_def by (auto split: if_splits) (metis fst_conv)+
  have row: "active_sub (db w') u = Some (start_windows (clock w) r, p)"
    by (rule active_sub_charged [OF lki(1)]) (simp_all add: plans' subs' fr)
  have lim: "micro (effective_weekly_limit (r, p))" "micro (effective_session_limit (r, p))"
    using micro_limits [OF mok1] active_sub_load [OF lki(1)] by blast+
  have "user_within (db w') (clock w') v s" if v: "active_sub (db w') v = Some s" for v s
  proof (cases "v = u")
    case True
    have "calculate_weekly_usage_direct (db w) u ws + c \<le> effective_weekly_limit (r, p)"
      using column_fits [OF q c _ lim(1) weekly] micro_window_usage [OF mok]
      by (simp add: calculate_weekly_usage_direct_def)
    moreover have "calculate_session_usage_direct (db w) u ss + c \<le> effective_session_limit (r, p)"
      using column_fits [OF q c _ lim(2) session] micro_window_usage [OF mok]
      by (simp add: calculate_session_usage_direct_def)
    moreover have "calculate_weekly_usage_direct (db w) u ws \<le> effective_weekly_limit (r, p)" if "clock w < ws"
    proof -
      have "weekly_window_start r = Some ws"
        using ws that unfolding start_windows_starts by (simp split: if_splits)
      moreover have "clock w < ws + weekly_len" using that weekly_len_pos by linarith
      ultimately show ?thesis using lki(3) wl
        unfolding within_limits_def user_within_def by (auto simp: new_subscription_def)
    qed
    moreover have "calculate_session_usage_direct (db w) u ss \<le> effective_session_limit (r, p)" if "clock w < ss"
    proof -
      have "session_window_start r = Some ss"
        using ss that unfolding start_windows_starts by (simp split: if_splits)
      moreover have "clock w < ss + session_len" using that session_len_pos by linarith
      ultimately show ?thesis using lki(3) wl
        unfolding within_limits_def user_within_def by (auto simp: new_subscription_def)
    qed
    ultimately show ?thesis
      using True v row ws ss l(2)
      by (auto simp: user_within_def calculate_weekly_usage_direct_def calculate_session_usage_direct_def
          window_usage_append [OF logs'] in_window_def make_log_def clock')
  next
    case False
    then have "subs (db w') v = subs (db w) v" using subs' lki(2) by simp
    with plans' have "active_sub (db w) v = Some s" using v active_sub_cong by metis
    then have "user_within (db w) (clock w) v s" using wl unfolding within_limits_def by blast
    then show ?thesis using False l
      by (simp add: user_within_def calculate_weekly_usage_direct_def calculate_session_usage_direct_def
          window_usage_other [OF logs'] clock')
  qed
  with mok' clock' show ?thesis unfolding within_limits_def by blast
qed

end
