(* ===== verification/Quota_Coherence.thy ===== *)
theory Quota_Coherence
  imports Quota_Invariants
begin

text \<open>
  The cache never changes what the quota service answers: as long as every entry that can be
  read is right (\<open>coherent\<close>), the cached operations agree with the same computation done on the
  database alone, and every operation of the service keeps the cache coherent, because it
  bumps the user's cache version whenever it writes the user's row or ledger.

  This is about operations that run one after the other.  It does not extend to a read that
  is interleaved with a charge before its transaction commits (the race shown
  in \<open>Ledger_Properties\<close>).
\<close>

section \<open>The answers without a cache\<close>

definition subscription_spec :: "db \<Rightarrow> uid \<Rightarrow> subscription option" where
  "subscription_spec d u = (case active_sub d u of
      Some s \<Rightarrow> Some s
    | None \<Rightarrow>
        (case get_default_plan (plans d) of
           None \<Rightarrow> None
         | Some p \<Rightarrow> (case subs d u of Some r \<Rightarrow> load_sub d u | None \<Rightarrow> Some (new_subscription p, p))))"

definition weekly_usage_spec :: "db \<Rightarrow> datetime \<Rightarrow> uid \<Rightarrow> datetime option \<Rightarrow> usd" where
  "weekly_usage_spec d now u start = (case start of
      None \<Rightarrow> 0 | Some s \<Rightarrow> if now < s + weekly_len then calculate_weekly_usage_direct d u s else 0)"

definition session_usage_spec :: "db \<Rightarrow> datetime \<Rightarrow> uid \<Rightarrow> datetime option \<Rightarrow> usd" where
  "session_usage_spec d now u start = (case start of
      None \<Rightarrow> 0 | Some s \<Rightarrow> if now < s + session_len then calculate_session_usage_direct d u s else 0)"

definition remaining_weekly :: "db \<Rightarrow> datetime \<Rightarrow> uid \<Rightarrow> subscription \<Rightarrow> usd" where
  "remaining_weekly d now u s =
     max 0 (effective_weekly_limit s - weekly_usage_spec d now u (weekly_window_start (fst s)))"

definition remaining_session :: "db \<Rightarrow> datetime \<Rightarrow> uid \<Rightarrow> subscription \<Rightarrow> usd" where
  "remaining_session d now u s =
     max 0 (effective_session_limit s - session_usage_spec d now u (session_window_start (fst s)))"

section \<open>Coherence\<close>

definition sub_coherent :: "db \<Rightarrow> cache_store \<Rightarrow> uid \<Rightarrow> bool" where
  "sub_coherent d c u \<longleftrightarrow>
     (\<forall>v e. c (Subscription_Key u) = Some (v, e) \<longrightarrow> v = sub_cache_value (active_sub d u))"

definition usage_coherent :: "db \<Rightarrow> datetime \<Rightarrow> cache_store \<Rightarrow> uid \<Rightarrow> bool" where
  "usage_coherent d now c u \<longleftrightarrow>
     (\<forall>r. subs d u = Some r \<longrightarrow>
       (\<forall>v e. c (get_cache_key now u Weekly_Usage c) = Some (v, e) \<longrightarrow>
          (\<forall>s. weekly_window_start r = Some s \<longrightarrow> now < s + weekly_len \<longrightarrow>
             v = CUsd (calculate_weekly_usage_direct d u s))) \<and>
       (\<forall>v e. c (get_cache_key now u Session_Usage c) = Some (v, e) \<longrightarrow>
          (\<forall>s. session_window_start r = Some s \<longrightarrow> now < s + session_len \<longrightarrow>
             v = CUsd (calculate_session_usage_direct d u s))))"

definition coherent :: "world \<Rightarrow> bool" where
  "coherent w \<longleftrightarrow> versions_ok (cache w) \<and>
     (\<forall>u. sub_coherent (db w) (cache w) u \<and> usage_coherent (db w) (clock w) (cache w) u)"

lemma coherentD:
  assumes "coherent w"
  shows "versions_ok (cache w)" "sub_coherent (db w) (cache w) u" "usage_coherent (db w) (clock w) (cache w) u"
  using assms unfolding coherent_def by blast+

lemma coherent_empty: "cache w = Map.empty \<Longrightarrow> coherent w"
  by (simp add: coherent_def sub_coherent_def usage_coherent_def)

lemma cache_get_entry: "cache_get t k c = Some v \<Longrightarrow> \<exists>e. c k = Some (v, e)"
  by (auto simp: cache_get_def split: option.splits if_splits)

text \<open>Reading the cached version does not depend on the instant, nor on other keys.\<close>

lemma get_cache_version_upd:
  "k \<noteq> Version_Key u \<Longrightarrow> get_cache_version t u (c(k := e)) = get_cache_version t u c"
  by (simp add: get_cache_version_def cache_get_def)

lemma versions_ok_upd:
  assumes "versions_ok c" and "\<And>u. k \<noteq> Version_Key u"
    and "\<And>kind u v. k = Usage_Key kind u v \<Longrightarrow> v \<le> get_cache_version t u c"
  shows "versions_ok (c(k \<mapsto> e))"
proof -
  have same: "get_cache_version t' u (c(k \<mapsto> e)) = get_cache_version t' u c" for t' u
    using assms(2) get_cache_version_upd by blast
  have "get_cache_version t' u c = get_cache_version t u c" for t' u
    using versions_ok_version(1) [OF assms(1)] by simp
  then show ?thesis
    using assms versions_ok_VersionD [OF assms(1)] versions_ok_UsageD [OF assms(1)]
    unfolding versions_ok_def same by (auto split: if_splits) metis+
qed

section \<open>Cached reads\<close>

lemma read_through_cases:
  obtains (hit) v' e where "c k = Some (v', e)" "read_through cache_get cache_set t k ttl v c = (v', c)"
  | (miss) "read_through cache_get cache_set t k ttl v c = (v, c(k \<mapsto> (v, Some (t + ttl))))"
  using that by (cases "cache_get t k c")
    (auto simp: read_through_def cache_set_def dest: cache_get_entry)

lemma get_subscription_cached_coherent:
  assumes "coherent w"
  shows "fst (get_subscription_cached u w) = active_sub (db w) u"
    and "coherent (snd (get_subscription_cached u w))"
proof -
  let ?v = "sub_cache_value (active_sub (db w) u)"
  have sub_of: "sub_of ?v = active_sub (db w) u"
    by (simp add: sub_of_def sub_cache_value_def split: option.split)
  have "fst (get_subscription_cached u w) = active_sub (db w) u \<and> coherent (snd (get_subscription_cached u w))"
  proof (cases rule: read_through_cases [of "cache w" "Subscription_Key u" "clock w" CACHE_TTL ?v])
    case (hit v' e)
    then have "v' = ?v" using coherentD(2) [OF assms, of u] unfolding sub_coherent_def by blast
    with hit sub_of assms show ?thesis by (simp add: get_subscription_cached_def)
  next
    case miss
    let ?c = "(cache w)(Subscription_Key u \<mapsto> (?v, Some (clock w + CACHE_TTL)))"
    have "coherent (w\<lparr>cache := ?c\<rparr>)"
      using assms versions_ok_upd [of "cache w" "Subscription_Key u"]
      by (auto simp: coherent_def sub_coherent_def usage_coherent_def get_cache_key_def get_cache_version_upd)
    with miss sub_of show ?thesis by (simp add: get_subscription_cached_def)
  qed
  then show "fst (get_subscription_cached u w) = active_sub (db w) u"
    and "coherent (snd (get_subscription_cached u w))" by blast+
qed

lemma coherent_usage_put:
  assumes coh: "coherent w"
    and val: "\<And>r s. subs (db w) u = Some r \<Longrightarrow>
        (case kind of Weekly_Usage \<Rightarrow> weekly_window_start r | Session_Usage \<Rightarrow> session_window_start r) = Some s \<Longrightarrow>
        clock w < s + (case kind of Weekly_Usage \<Rightarrow> weekly_len | Session_Usage \<Rightarrow> session_len) \<Longrightarrow>
        v = CUsd (case kind of Weekly_Usage \<Rightarrow> calculate_weekly_usage_direct (db w) u s
                  | Session_Usage \<Rightarrow> calculate_session_usage_direct (db w) u s)"
  shows "coherent (w\<lparr>cache := (cache w)(get_cache_key (clock w) u kind (cache w) \<mapsto> (v, e))\<rparr>)"
proof -
  let ?k = "get_cache_key (clock w) u kind (cache w)"
  let ?c = "(cache w)(?k \<mapsto> (v, e))"
  have k: "?k = Usage_Key kind u (get_cache_version (clock w) u (cache w))"
    by (simp add: get_cache_key_def)
  have "versions_ok ?c"
    by (rule versions_ok_upd [OF coherentD(1) [OF coh]]) (auto simp: k)
  moreover have "get_cache_version t u' ?c = get_cache_version t u' (cache w)" for t u'
    by (simp add: k get_cache_version_upd)
  ultimately show ?thesis
    using coh val unfolding coherent_def sub_coherent_def usage_coherent_def get_cache_key_def
    by (cases kind) auto
qed

lemma get_weekly_usage_coherent:
  assumes coh: "coherent w" and row: "subs (db w) u = Some r"
  shows "fst (get_weekly_usage u (weekly_window_start r) w) =
           weekly_usage_spec (db w) (clock w) u (weekly_window_start r)"
    and "coherent (snd (get_weekly_usage u (weekly_window_start r) w))"
proof -
  have "fst (get_weekly_usage u (weekly_window_start r) w) =
          weekly_usage_spec (db w) (clock w) u (weekly_window_start r) \<and>
        coherent (snd (get_weekly_usage u (weekly_window_start r) w))"
  proof (cases "weekly_window_start r")
    case None
    with coh show ?thesis by (simp add: get_weekly_usage_def weekly_usage_spec_def)
  next
    case (Some s)
    let ?v = "CUsd (calculate_weekly_usage_direct (db w) u s)"
    show ?thesis
    proof (cases "clock w < s + weekly_len")
      case False
      with Some coh show ?thesis by (simp add: get_weekly_usage_def weekly_usage_spec_def)
    next
      case True
      show ?thesis
      proof (cases rule: read_through_cases [of "cache w" "get_cache_key (clock w) u Weekly_Usage (cache w)"
            "clock w" CACHE_TTL ?v])
        case (hit v' e)
        then have "v' = ?v" using coherentD(3) [OF coh, of u] Some True row unfolding usage_coherent_def by blast
        with hit Some True coh show ?thesis
          by (simp add: get_weekly_usage_def weekly_usage_spec_def Let_def usd_of_def)
      next
        case miss
        have "coherent (w\<lparr>cache := (cache w)(get_cache_key (clock w) u Weekly_Usage (cache w) \<mapsto>
            (?v, Some (clock w + CACHE_TTL)))\<rparr>)"
          by (rule coherent_usage_put [OF coh]) (use Some row in simp)
        then show ?thesis using Some True
          by (simp add: get_weekly_usage_def weekly_usage_spec_def Let_def usd_of_def miss)
      qed
    qed
  qed
  then show "fst (get_weekly_usage u (weekly_window_start r) w) =
           weekly_usage_spec (db w) (clock w) u (weekly_window_start r)"
    and "coherent (snd (get_weekly_usage u (weekly_window_start r) w))" by blast+
qed

lemma get_session_usage_coherent:
  assumes coh: "coherent w" and row: "subs (db w) u = Some r"
  shows "fst (get_session_usage u (session_window_start r) w) =
           session_usage_spec (db w) (clock w) u (session_window_start r)"
    and "coherent (snd (get_session_usage u (session_window_start r) w))"
proof -
  have "fst (get_session_usage u (session_window_start r) w) =
          session_usage_spec (db w) (clock w) u (session_window_start r) \<and>
        coherent (snd (get_session_usage u (session_window_start r) w))"
  proof (cases "session_window_start r")
    case None
    with coh show ?thesis by (simp add: get_session_usage_def session_usage_spec_def)
  next
    case (Some s)
    let ?v = "CUsd (calculate_session_usage_direct (db w) u s)"
    show ?thesis
    proof (cases "clock w < s + session_len")
      case False
      with Some coh show ?thesis by (simp add: get_session_usage_def session_usage_spec_def)
    next
      case True
      show ?thesis
      proof (cases rule: read_through_cases [of "cache w" "get_cache_key (clock w) u Session_Usage (cache w)"
            "clock w" CACHE_TTL ?v])
        case (hit v' e)
        then have "v' = ?v" using coherentD(3) [OF coh, of u] Some True row unfolding usage_coherent_def by blast
        with hit Some True coh show ?thesis
          by (simp add: get_session_usage_def session_usage_spec_def Let_def usd_of_def)
      next
        case miss
        have "coherent (w\<lparr>cache := (cache w)(get_cache_key (clock w) u Session_Usage (cache w) \<mapsto>
            (?v, Some (clock w + CACHE_TTL)))\<rparr>)"
          by (rule coherent_usage_put [OF coh]) (use Some row in simp)
        then show ?thesis using Some True
          by (simp add: get_session_usage_def session_usage_spec_def Let_def usd_of_def miss)
      qed
    qed
  qed
  then show "fst (get_session_usage u (session_window_start r) w) =
           session_usage_spec (db w) (clock w) u (session_window_start r)"
    and "coherent (snd (get_session_usage u (session_window_start r) w))" by blast+
qed

section \<open>Writes that invalidate\<close>

text \<open>A write confined to one user's row and ledger, followed by that user's invalidation, keeps
  the cache coherent.\<close>

lemma coherent_write:
  assumes coh: "coherent w"
    and frame: "plans (db w') = plans (db w)"
      "\<And>v. v \<noteq> u \<Longrightarrow> subs (db w') v = subs (db w) v"
      "\<And>v s e. v \<noteq> u \<Longrightarrow> window_usage (db w') v s e = window_usage (db w) v s e"
      "clock w' = clock w"
    and inv: "cache w' = invalidate_user_cache (clock w) u (cache w)"
  shows "coherent w'"
proof -
  note ok = coherentD(1) [OF coh]
  have "sub_coherent (db w') (cache w') v \<and> usage_coherent (db w') (clock w') (cache w') v" for v
  proof (cases "v = u")
    case True
    have "cache w' (Usage_Key kind u (get_cache_version (clock w) u (cache w) + 1)) = None" for kind
    proof (rule ccontr)
      assume "cache w' (Usage_Key kind u (get_cache_version (clock w) u (cache w) + 1)) \<noteq> None"
      then have "cache w (Usage_Key kind u (get_cache_version (clock w) u (cache w) + 1)) \<noteq> None"
        by (simp add: inv invalidate_user_cache_eq [OF ok])
      then have "get_cache_version (clock w) u (cache w) + 1 \<le> get_cache_version (clock w) u (cache w)"
        using versions_ok_UsageD [OF ok] by blast
      then show False by simp
    qed
    moreover have "cache w' (Subscription_Key u) = None" by (simp add: inv invalidate_user_cache_eq [OF ok])
    ultimately show ?thesis using True ok
      by (simp add: sub_coherent_def usage_coherent_def get_cache_key_def inv frame(4))
  next
    case False
    have "active_sub (db w') v = active_sub (db w) v"
      by (rule active_sub_cong) (simp_all add: frame False)
    moreover have "cache w' (Subscription_Key v) = cache w (Subscription_Key v)"
      "cache w' (Usage_Key kind v n) = cache w (Usage_Key kind v n)" for kind n
      using False by (simp_all add: inv invalidate_user_cache_eq [OF ok])
    ultimately show ?thesis
      using False coherentD(2) [OF coh, of v] coherentD(3) [OF coh, of v] ok
      by (simp add: sub_coherent_def usage_coherent_def get_cache_key_def inv frame
          calculate_weekly_usage_direct_def calculate_session_usage_direct_def)
  qed
  then show ?thesis using versions_ok_invalidate [OF ok] by (simp add: coherent_def inv)
qed

lemma coherent_cong:
  "coherent w \<Longrightarrow> db w' = db w \<Longrightarrow> cache w' = cache w \<Longrightarrow> clock w' = clock w \<Longrightarrow> coherent w'"
  by (simp add: coherent_def)

text \<open>Dropping cached entries of a user without a write is harmless too.\<close>

lemma coherent_invalidate_only:
  assumes "coherent w" "db w' = db w" "clock w' = clock w"
    "cache w' = invalidate_user_cache (clock w) u (cache w)"
  shows "coherent w'"
  using coherent_write [of w w' u] assms by simp

lemma create_default_coherent:
  assumes "coherent w"
  shows "coherent (snd (create_default_subscription u w))"
proof (cases rule: create_default_subscription_cases [where w = w and u = u])
  case (created p)
  have "coherent (invalidate u (w\<lparr>db := put_sub u (new_subscription p) (db w)\<rparr>))"
    by (rule coherent_write [OF assms, where u = u]) (simp_all add: window_usage_def)
  then show ?thesis by (simp add: created)
qed (simp_all add: assms)

lemma create_default_spec:
  "active_sub (db w) u = None \<Longrightarrow> fst (create_default_subscription u w) = subscription_spec (db w) u"
  by (cases rule: create_default_subscription_cases [where w = w and u = u]) (simp_all add: subscription_spec_def)

lemma get_or_create_coherent:
  assumes coh: "coherent w" and g: "get_or_create_subscription u w = (res, w')"
  shows "res = subscription_spec (db w) u" "coherent w'" "clock w' = clock w"
    "plans (db w') = plans (db w)" "logs (db w') = logs (db w)"
    "\<And>s. res = Some s \<Longrightarrow> subs (db w') u = Some (fst s)"
proof -
  obtain r1 w1 where g1: "get_subscription_cached u w = (r1, w1)" by force
  note c1 = get_subscription_cached_coherent [OF coh, of u, unfolded g1 fst_conv snd_conv]
  have f1: "db w1 = db w" "clock w1 = clock w" using get_subscription_cached_frame [of u w] g1 by simp_all
  have "res = subscription_spec (db w) u \<and> coherent w' \<and> clock w' = clock w \<and>
      plans (db w') = plans (db w) \<and> logs (db w') = logs (db w) \<and>
      (\<forall>s. res = Some s \<longrightarrow> subs (db w') u = Some (fst s))"
  proof (cases r1)
    case (Some s)
    then have "res = Some s" "w' = w1" using g g1 by (simp_all add: get_or_create_subscription_def)
    with Some c1 f1 active_sub_load load_sub_row show ?thesis by (auto simp: subscription_spec_def)
  next
    case None
    then have g2: "create_default_subscription u w1 = (res, w')"
      using g g1 by (simp add: get_or_create_subscription_def)
    have "active_sub (db w1) u = None" using None c1 f1 by simp
    then have "res = subscription_spec (db w1) u" using create_default_spec [of w1 u] g2 by simp
    moreover have "coherent w'" using create_default_coherent [OF c1(2), of u] g2 by simp
    moreover have "subs (db w') u = Some (fst s)" if "res = Some s" for s
      using that g2
      by (cases rule: create_default_subscription_cases [where w = w1 and u = u])
        (auto dest: load_sub_row)
    ultimately show ?thesis using create_default_subscription_frame [of u w1] g2 f1 by simp
  qed
  then show "res = subscription_spec (db w) u" "coherent w'" "clock w' = clock w"
    "plans (db w') = plans (db w)" "logs (db w') = logs (db w)"
    "\<And>s. res = Some s \<Longrightarrow> subs (db w') u = Some (fst s)" by blast+
qed

lemma usage_spec_logs:
  "logs d' = logs d \<Longrightarrow> weekly_usage_spec d' now u s = weekly_usage_spec d now u s"
  "logs d' = logs d \<Longrightarrow> session_usage_spec d' now u s = session_usage_spec d now u s"
  by (auto simp: weekly_usage_spec_def session_usage_spec_def calculate_weekly_usage_direct_def
      calculate_session_usage_direct_def window_usage_def split: option.splits)

section \<open>The pre-flight check\<close>

text \<open>What \<open>check_quota\<close> answers on the database alone.\<close>

definition check_quota_spec :: "db \<Rightarrow> datetime \<Rightarrow> uid \<Rightarrow> usd \<Rightarrow> exn + quota_check_result" where
  "check_quota_spec d now u estimated = (case subscription_spec d u of
      None \<Rightarrow> Inl (SubscriptionNotFound u)
    | Some s \<Rightarrow> Inr
        \<lparr>qc_allowed = (estimated \<le> remaining_weekly d now u s \<and> estimated \<le> remaining_session d now u s),
         qc_reason = (if estimated > remaining_weekly d now u s then Some ''weekly''
                      else if estimated > remaining_session d now u s then Some ''session'' else None),
         qc_remaining_weekly_usd = remaining_weekly d now u s,
         qc_remaining_session_usd = remaining_session d now u s,
         qc_weekly_limit_usd = effective_weekly_limit s,
         qc_session_limit_usd = effective_session_limit s,
         qc_weekly_used_usd = weekly_usage_spec d now u (weekly_window_start (fst s)),
         qc_session_used_usd = session_usage_spec d now u (session_window_start (fst s)),
         qc_weekly_window_end = get_weekly_window_end (weekly_window_start (fst s)),
         qc_session_window_end = get_session_window_end (session_window_start (fst s))\<rparr>)"

lemma check_quota_coherent:
  assumes coh: "coherent w" and run: "check_quota u c w = (res, w')"
  shows "res = check_quota_spec (db w) (clock w) u c" "coherent w'"
    "clock w' = clock w" "plans (db w') = plans (db w)" "logs (db w') = logs (db w)"
proof -
  obtain so w1 where g: "get_or_create_subscription u w = (so, w1)" by force
  note gc = get_or_create_coherent [OF coh g]
  have "res = check_quota_spec (db w) (clock w) u c \<and> coherent w' \<and> clock w' = clock w \<and>
      plans (db w') = plans (db w) \<and> logs (db w') = logs (db w)"
  proof (cases so)
    case None
    with run gc g show ?thesis by (auto simp: check_quota_def check_quota_spec_def)
  next
    case (Some s)
    have row1: "subs (db w1) u = Some (fst s)" using gc(6) Some by blast
    obtain wu w2 where gw: "get_weekly_usage u (weekly_window_start (fst s)) w1 = (wu, w2)" by force
    note cw = get_weekly_usage_coherent [OF gc(2) row1, unfolded gw fst_conv snd_conv]
    have fw: "db w2 = db w1" "clock w2 = clock w1"
      using get_weekly_usage_frame [of u "weekly_window_start (fst s)" w1] gw by simp_all
    obtain su w3 where gs: "get_session_usage u (session_window_start (fst s)) w2 = (su, w3)" by force
    have row2: "subs (db w2) u = Some (fst s)" using row1 fw by simp
    note cs = get_session_usage_coherent [OF cw(2) row2, unfolded gs fst_conv snd_conv]
    have fs: "db w3 = db w2" "clock w3 = clock w2"
      using get_session_usage_frame [of u "session_window_start (fst s)" w2] gs by simp_all
    have used: "wu = weekly_usage_spec (db w) (clock w) u (weekly_window_start (fst s))"
      "su = session_usage_spec (db w) (clock w) u (session_window_start (fst s))"
      using cw(1) cs(1) usage_spec_logs(1) [OF gc(5)] usage_spec_logs(2) [OF gc(5)]
      by (simp_all only: fw gc(3))
    have rem: "max 0 (effective_weekly_limit s - wu) = remaining_weekly (db w) (clock w) u s"
      "max 0 (effective_session_limit s - su) = remaining_session (db w) (clock w) u s"
      by (simp_all add: used remaining_weekly_def remaining_session_def)
    let ?rw = "remaining_weekly (db w) (clock w) u s" and ?rs = "remaining_session (db w) (clock w) u s"
    have spec: "subscription_spec (db w) u = Some s" using gc(1) Some by simp
    consider "?rw < c" | "c \<le> ?rw" "?rs < c" | "c \<le> ?rw" "c \<le> ?rs" by linarith
    then have "check_quota u c w = (check_quota_spec (db w) (clock w) u c, w3)"
    proof cases
      case 1
      then show ?thesis
        by (simp add: check_quota_def check_quota_spec_def g Some spec gw gs Let_def rem used [symmetric] del: max_less_iff_conj)
    next
      case 2
      then show ?thesis
        by (simp add: check_quota_def check_quota_spec_def g Some spec gw gs Let_def rem used [symmetric] del: max_less_iff_conj)
    next
      case 3
      then show ?thesis
        by (simp add: check_quota_def check_quota_spec_def g Some spec gw gs Let_def rem used [symmetric] del: max_less_iff_conj)
    qed
    with run have "w' = w3" "res = check_quota_spec (db w) (clock w) u c" by simp_all
    then show ?thesis using cs(2) fs fw gc by simp
  qed
  then show "res = check_quota_spec (db w) (clock w) u c" "coherent w'"
    "clock w' = clock w" "plans (db w') = plans (db w)" "logs (db w') = logs (db w)" by blast+
qed

section \<open>Charges and deductions keep the cache coherent\<close>

lemma locked_subscription_coherent:
  assumes "coherent w" "locked_subscription u w = (res, w')"
  shows "coherent w'"
  using assms create_default_coherent [OF assms(1), of u]
  by (auto simp: locked_subscription_def split: option.splits prod.splits)

text \<open>Restoring the database of a failed transaction: the cache it may have invalidated stays
  invalidated, which is harmless.\<close>

lemma locked_rollback_coherent:
  assumes coh: "coherent w" and lk: "locked_subscription u w = (res, w1)"
    and w': "cache w' = cache w1" "db w' = db w" "clock w' = clock w"
  shows "coherent w'"
proof -
  have "cache w1 = cache w \<or> cache w1 = invalidate_user_cache (clock w) u (cache w)"
    using lk by (cases rule: create_default_subscription_cases [where w = w and u = u])
      (auto simp: locked_subscription_def split: option.splits)
  then show ?thesis
    using coherent_cong [OF coh, of w'] coherent_invalidate_only [OF coh, of w' u] w' by auto
qed

lemma check_and_deduct_body_Inl:
  assumes "check_and_deduct_body q u service cost feature k w = (Inl e, w')"
  obtains res w1 where "locked_subscription u w = (res, w1)" "cache w' = cache w1" "clock w' = clock w"
proof -
  obtain res w1 where lk: "locked_subscription u w = (res, w1)" by force
  have "cache w' = cache w1 \<and> clock w' = clock w1"
    using assms by (auto simp: check_and_deduct_body_def lk Let_def create_log_def
        split: sum.splits prod.splits if_splits option.splits)
  with that lk locked_subscription_frame(3) [OF lk] show ?thesis by simp
qed

lemma deduct_usage_body_Inl:
  assumes "deduct_usage_body q u service cost feature k w = (Inl e, w')"
  obtains res w1 where "locked_subscription u w = (res, w1)" "cache w' = cache w1" "clock w' = clock w"
proof -
  obtain res w1 where lk: "locked_subscription u w = (res, w1)" by force
  have "cache w' = cache w1 \<and> clock w' = clock w1"
    using assms by (auto simp: deduct_usage_body_def lk Let_def create_log_def
        split: sum.splits prod.splits if_splits option.splits)
  with that lk locked_subscription_frame(3) [OF lk] show ?thesis by simp
qed

lemma charge_frame:
  assumes "locked_subscription u w = (Inr s, w1)" "logs (db w') = logs (db w) @ [make_log u service c feature k w]"
    "subs (db w') = (subs (db w1))(u \<mapsto> r)" "plans (db w') = plans (db w)" "v \<noteq> u"
  shows "subs (db w') v = subs (db w1) v" "plans (db w') = plans (db w1)"
    "window_usage (db w') v a b = window_usage (db w1) v a b"
proof -
  note fr = locked_subscription_frame [OF assms(1)]
  show "subs (db w') v = subs (db w1) v" "plans (db w') = plans (db w1)" using assms fr by simp_all
  have "log_user (make_log u service c feature k w) \<noteq> v" using assms(5) by (simp add: make_log_def)
  with assms(2) fr(2) show "window_usage (db w') v a b = window_usage (db w1) v a b"
    using window_usage_other [of "db w'" "db w1"] by simp
qed

lemma check_and_deduct_coherent:
  assumes coh: "coherent w" and run: "check_and_deduct q u service cost feature k w = (res, w')"
  shows "coherent w'"
proof (cases res)
  case (Inl e)
  obtain w0 where "check_and_deduct_body q u service cost feature k w = (Inl e, w0)" "w' = w0\<lparr>db := db w\<rparr>"
    using run unfolding Inl check_and_deduct_def atomic_def by (auto split: prod.splits sum.splits)
  then show ?thesis
    by (auto elim!: check_and_deduct_body_Inl intro: locked_rollback_coherent [OF coh])
next
  case (Inr x)
  show ?thesis
  proof (rule check_and_deduct_Inr [OF run [unfolded Inr]])
    fix r p w1 c ws ss
    assume lk: "locked_subscription u w = (Inr (r, p), w1)"
      and w': "logs (db w') = logs (db w) @ [make_log u service c feature k w]" "plans (db w') = plans (db w)"
        "subs (db w') = (subs (db w1))(u \<mapsto> start_windows (clock w) r)" "clock w' = clock w"
        "cache w' = invalidate_user_cache (clock w) u (cache w1)"
    note fr = locked_subscription_frame [OF lk]
    show "coherent w'"
      by (rule coherent_write [OF locked_subscription_coherent [OF coh lk], where u = u])
        (use charge_frame [OF lk w'(1,3,2)] w' fr in simp_all)
  qed
qed

lemma deduct_usage_coherent:
  assumes coh: "coherent w" and run: "deduct_usage q u service cost feature k w = (res, w')"
  shows "coherent w'"
proof (cases res)
  case (Inl e)
  obtain w0 where "deduct_usage_body q u service cost feature k w = (Inl e, w0)" "w' = w0\<lparr>db := db w\<rparr>"
    using run unfolding Inl deduct_usage_def atomic_def by (auto split: prod.splits sum.splits)
  then show ?thesis
    by (auto elim!: deduct_usage_body_Inl intro: locked_rollback_coherent [OF coh])
next
  case (Inr x)
  show ?thesis
  proof (rule deduct_usage_Inr [OF run [unfolded Inr]])
    fix r p w1 c
    assume lk: "locked_subscription u w = (Inr (r, p), w1)"
      and w': "logs (db w') = logs (db w) @ [make_log u service c feature k w]" "plans (db w') = plans (db w)"
        "subs (db w') = (subs (db w1))(u \<mapsto> start_windows (clock w) r)" "clock w' = clock w"
      and "\<exists>w4. cache w4 = invalidate_user_cache (clock w) u (cache w1) \<and> db w4 = db w' \<and> clock w4 = clock w \<and>
        (ud_new_weekly_used_usd x, w') = get_weekly_usage u (weekly_window_start (start_windows (clock w) r)) w4"
    then obtain w4 where w4: "cache w4 = invalidate_user_cache (clock w) u (cache w1)" "db w4 = db w'"
        "clock w4 = clock w"
      and g: "get_weekly_usage u (weekly_window_start (start_windows (clock w) r)) w4 = (ud_new_weekly_used_usd x, w')"
      by metis
    note fr = locked_subscription_frame [OF lk]
    have "coherent w4"
      by (rule coherent_write [OF locked_subscription_coherent [OF coh lk], where u = u])
        (use charge_frame [OF lk w'(1,3,2)] w' w4 fr in simp_all)
    moreover have "subs (db w4) u = Some (start_windows (clock w) r)" using w4 w' by simp
    ultimately show "coherent w'" using get_weekly_usage_coherent(2) g by fastforce
  qed
qed

end
