(* ===== verification/Cost_Calculator.thy ===== *)
theory Cost_Calculator
  imports Quota_Coherence
begin

text \<open>
  \<^verbatim>\<open>CostCalculator\<close> (\<^verbatim>\<open>services/cost_calculator.py\<close>) and the part of
  \<^verbatim>\<open>CatalogService\<close> (\<^verbatim>\<open>llm/catalog_service.py\<close>) it prices OpenRouter calls with.

  \<open>catalog\<close> is the table of models of the \<^verbatim>\<open>llm\<close> application: reading the row of a
  model fails, finds no row, or finds its prompt and completion price per thousand tokens.  The
  code converts these prices to floats and multiplies floats; here the products are exact and the
  rounding to eight decimals (\<^verbatim>\<open>quantize\<close>, half to even) is kept.
\<close>

section \<open>Fallback prices\<close>

definition FALLBACK_PRICING :: "(string \<times> (string \<times> usd) list) list" where
  "FALLBACK_PRICING =
    [(''elevenlabs_tts'',
       [(''default'', 30 / 100), (''eleven_flash_v2_5'', 11 / 100), (''eleven_flash_v2'', 11 / 100),
        (''eleven_turbo_v2_5'', 18 / 100), (''eleven_turbo_v2'', 18 / 100),
        (''eleven_multilingual_v2'', 30 / 100), (''eleven_monolingual_v1'', 30 / 100)]),
     (''openai_tts'', [(''default'', 15 / 1000), (''tts-1'', 15 / 1000), (''tts-1-hd'', 30 / 1000)]),
     (''deepgram_stt'',
       [(''default'', 43 / 10000), (''nova-2'', 43 / 10000), (''nova'', 43 / 10000),
        (''enhanced'', 145 / 10000), (''base'', 125 / 10000)]),
     (''brave_search'', [(''default'', 5 / 1000)]),
     (''image_generation'', [(''default'', 0)]),
     (''mcp_tool_invocation'', [(''default'', 1 / 1000)]),
     (''google_maps'',
       [(''default'', 5 / 1000), (''geocoding'', 5 / 1000), (''directions'', 5 / 1000),
        (''places_nearby'', 32 / 1000), (''places_details'', 17 / 1000), (''air_quality'', 5 / 1000),
        (''street_view'', 7 / 1000), (''places_photo'', 39 / 1000)])]"

definition PRICING_CACHE_TTL :: timedelta where "PRICING_CACHE_TTL = seconds 300"

definition MODEL_CATALOG_CACHE_TTL :: timedelta where "MODEL_CATALOG_CACHE_TTL = seconds 86400"

definition PRICE_STORAGE_UNIT :: rat where "PRICE_STORAGE_UNIT = 1000"

text \<open>The hard-coded price of a model of a service, its default otherwise.\<close>

definition fallback_price :: "string \<Rightarrow> string option \<Rightarrow> usd \<Rightarrow> usd" where
  "fallback_price service model_id dflt =
     (let fallback = get_default FALLBACK_PRICING service [];
          default_rate = get_default fallback ''default'' dflt
      in case model_id of
           None \<Rightarrow> default_rate
         | Some m \<Rightarrow> if m \<noteq> [] then get_default fallback m default_rate else default_rate)"

section \<open>Prices in the database\<close>

definition in_force :: "datetime \<Rightarrow> string \<Rightarrow> string \<Rightarrow> service_pricing \<Rightarrow> bool" where
  "in_force now service m p \<longleftrightarrow> price_service p = service \<and> price_model_id p = m \<and> price_is_active p \<and>
     effective_from p \<le> now \<and> (case effective_until p of None \<Rightarrow> True | Some e \<Rightarrow> now \<le> e)"

text \<open>\<^verbatim>\<open>.order_by('-effective_from').first()\<close>\<close>

definition latest_price :: "datetime \<Rightarrow> string \<Rightarrow> string \<Rightarrow> service_pricing list \<Rightarrow> service_pricing option" where
  "latest_price now service m ps = first_by (\<lambda>p. - effective_from p) (filter (in_force now service m) ps)"

definition lookup_price :: "db \<Rightarrow> datetime \<Rightarrow> string \<Rightarrow> string option \<Rightarrow> service_pricing option" where
  "lookup_price d now service model_id =
     (case (if truthy_str model_id then latest_price now service (the model_id) (prices d) else None) of
        Some p \<Rightarrow> Some p
      | None \<Rightarrow> latest_price now service '''' (prices d))"

definition price_value :: "service_pricing option \<Rightarrow> cache_value" where
  "price_value p = (case p of Some x \<Rightarrow> CPrice x | None \<Rightarrow> CNone)"

definition price_of :: "cache_value \<Rightarrow> service_pricing option" where
  "price_of v = (case v of CPrice p \<Rightarrow> Some p | _ \<Rightarrow> None)"

definition get_pricing_from_db :: "string \<Rightarrow> string option \<Rightarrow> world \<Rightarrow> service_pricing option \<times> world" where
  "get_pricing_from_db service model_id w =
     (let r = read_through cache_get cache_set (clock w) (Pricing_Key service (opt_str_or model_id ''default''))
                PRICING_CACHE_TTL (price_value (lookup_price (db w) (clock w) service model_id)) (cache w)
      in (price_of (fst r), w\<lparr>cache := snd r\<rparr>))"

text \<open>\<^verbatim>\<open>if pricing and pricing.price_x\<close>: a price of zero counts as none.\<close>

definition set_price :: "(service_pricing \<Rightarrow> usd option) \<Rightarrow> service_pricing option \<Rightarrow> usd option" where
  "set_price col p = (case p of
      None \<Rightarrow> None
    | Some x \<Rightarrow> (case col x of None \<Rightarrow> None | Some v \<Rightarrow> if v = 0 then None else Some v))"

definition get_tts_price :: "string \<Rightarrow> string option \<Rightarrow> world \<Rightarrow> usd \<times> world" where
  "get_tts_price service model_id w = (case get_pricing_from_db service model_id w of
      (p, w') \<Rightarrow> (case set_price price_per_1k_chars p of
                   Some v \<Rightarrow> (v, w') | None \<Rightarrow> (fallback_price service model_id (1 / 100), w')))"

definition get_stt_price :: "string \<Rightarrow> string option \<Rightarrow> world \<Rightarrow> usd \<times> world" where
  "get_stt_price service model_id w = (case get_pricing_from_db service model_id w of
      (p, w') \<Rightarrow> (case set_price price_per_minute p of
                   Some v \<Rightarrow> (v, w') | None \<Rightarrow> (fallback_price service model_id (1 / 100), w')))"

definition get_search_price :: "string \<Rightarrow> world \<Rightarrow> usd \<times> world" where
  "get_search_price service w = (case get_pricing_from_db service None w of
      (p, w') \<Rightarrow> (case set_price price_per_request p of
                   Some v \<Rightarrow> (v, w') | None \<Rightarrow> (fallback_price service None (5 / 1000), w')))"

definition get_image_generation_price :: "string option \<Rightarrow> world \<Rightarrow> usd \<times> world" where
  "get_image_generation_price model_id w = (case get_pricing_from_db ''image_generation'' model_id w of
      (p, w') \<Rightarrow> (case set_price price_per_request p of
                   Some v \<Rightarrow> (v, w') | None \<Rightarrow> (fallback_price ''image_generation'' model_id (2 / 100), w')))"

section \<open>OpenRouter prices\<close>

definition round_half_even :: "rat \<Rightarrow> int" where
  "round_half_even x =
     (let f = \<lfloor>x\<rfloor>; d = x - of_int f
      in if d < 1 / 2 then f else if 1 / 2 < d then f + 1 else if even f then f else f + 1)"

definition quantize8 :: "rat \<Rightarrow> usd" where
  "quantize8 x = of_int (round_half_even (x * 100000000)) / 100000000"

type_synonym catalog = "string \<Rightarrow> exn + (usd option \<times> usd option) option"

definition base_model_id :: "string \<Rightarrow> string" where
  "base_model_id m = takeWhile (\<lambda>c. c \<noteq> CHR '':'') m"

definition get_model_pricing ::
  "catalog \<Rightarrow> string \<Rightarrow> world \<Rightarrow> (exn + usd option \<times> usd option) \<times> world" where
  "get_model_pricing catalog model_id w = (case cache_get (clock w) (Catalog_Key model_id) (cache w) of
      Some (CCatalog p c) \<Rightarrow> (Inr (p, c), w)
    | _ \<Rightarrow>
        (case catalog (base_model_id model_id) of
           Inl e \<Rightarrow> (Inl e, w)
         | Inr None \<Rightarrow> (Inr (None, None), w)
         | Inr (Some (p, c)) \<Rightarrow>
             (Inr (p, c),
              w\<lparr>cache := cache_set (clock w) (Catalog_Key model_id) (CCatalog p c)
                           (Some MODEL_CATALOG_CACHE_TTL) (cache w)\<rparr>)))"

definition estimate_cost_detailed ::
  "catalog \<Rightarrow> string \<Rightarrow> int \<Rightarrow> int \<Rightarrow> world \<Rightarrow> (exn + usd \<times> usd \<times> usd) \<times> world" where
  "estimate_cost_detailed catalog model_id prompt_tokens completion_tokens w =
     (case get_model_pricing catalog model_id w of
        (Inl e, w') \<Rightarrow> (Inl e, w')
      | (Inr pricing, w') \<Rightarrow>
          let (prompt_price, completion_price) =
                (case pricing of (Some p, Some c) \<Rightarrow> (p, c) | _ \<Rightarrow> (1 / 100, 2 / 100));
              prompt_cost = quantize8 (of_int prompt_tokens * prompt_price / PRICE_STORAGE_UNIT);
              completion_cost = quantize8 (of_int completion_tokens * completion_price / PRICE_STORAGE_UNIT)
          in (Inr (prompt_cost, completion_cost, prompt_cost + completion_cost), w'))"

definition calculate_openrouter_cost :: "catalog \<Rightarrow> string \<Rightarrow> int \<Rightarrow> int \<Rightarrow> world \<Rightarrow> usd \<times> world" where
  "calculate_openrouter_cost catalog model_id prompt_tokens completion_tokens w =
     (case estimate_cost_detailed catalog model_id prompt_tokens completion_tokens w of
        (Inr (_, _, total_cost), w') \<Rightarrow> (total_cost, w')
      | (Inl _, w') \<Rightarrow>
          (of_int prompt_tokens / 1000 * (1 / 100) + of_int completion_tokens / 1000 * (2 / 100), w'))"

definition estimate_openrouter_cost :: "catalog \<Rightarrow> string \<Rightarrow> int \<Rightarrow> world \<Rightarrow> usd \<times> world" where
  "estimate_openrouter_cost catalog model_id estimated_tokens w =
     (let prompt_tokens = estimated_tokens div 2
      in calculate_openrouter_cost catalog model_id prompt_tokens (estimated_tokens - prompt_tokens) w)"

section \<open>Costs per service\<close>

definition calculate_elevenlabs_cost :: "int \<Rightarrow> string option \<Rightarrow> world \<Rightarrow> usd \<times> world" where
  "calculate_elevenlabs_cost character_count model_id w =
     (case get_tts_price ''elevenlabs_tts'' model_id w of (p, w') \<Rightarrow> (of_int character_count / 1000 * p, w'))"

definition calculate_openai_tts_cost :: "int \<Rightarrow> string option \<Rightarrow> world \<Rightarrow> usd \<times> world" where
  "calculate_openai_tts_cost character_count model_id w =
     (case get_tts_price ''openai_tts'' model_id w of (p, w') \<Rightarrow> (of_int character_count / 1000 * p, w'))"

definition calculate_deepgram_cost :: "rat \<Rightarrow> string option \<Rightarrow> world \<Rightarrow> usd \<times> world" where
  "calculate_deepgram_cost audio_seconds model_id w =
     (case get_stt_price ''deepgram_stt'' model_id w of (p, w') \<Rightarrow> (audio_seconds / 60 * p, w'))"

definition calculate_brave_search_cost :: "int \<Rightarrow> world \<Rightarrow> usd \<times> world" where
  "calculate_brave_search_cost request_count w =
     (case get_search_price ''brave_search'' w of (p, w') \<Rightarrow> (of_int request_count * p, w'))"

definition calculate_image_generation_cost :: "string option \<Rightarrow> int \<Rightarrow> world \<Rightarrow> usd \<times> world" where
  "calculate_image_generation_cost model_id request_count w =
     (case get_image_generation_price model_id w of (p, w') \<Rightarrow> (of_int request_count * p, w'))"

text \<open>These two honour a configured price of zero.\<close>

definition calculate_mcp_invocation_cost :: "int \<Rightarrow> world \<Rightarrow> usd \<times> world" where
  "calculate_mcp_invocation_cost request_count w = (case get_pricing_from_db ''mcp_tool_invocation'' None w of
      (p, w') \<Rightarrow> (case Option.bind p price_per_request of
                   Some v \<Rightarrow> (of_int request_count * v, w')
                 | None \<Rightarrow> (of_int request_count * fallback_price ''mcp_tool_invocation'' None (1 / 1000), w')))"

definition calculate_google_maps_cost :: "string option \<Rightarrow> int \<Rightarrow> world \<Rightarrow> usd \<times> world" where
  "calculate_google_maps_cost endpoint request_count w = (case get_pricing_from_db ''google_maps'' endpoint w of
      (p, w') \<Rightarrow> (case Option.bind p price_per_request of
                   Some v \<Rightarrow> (of_int request_count * v, w')
                 | None \<Rightarrow> (of_int request_count * fallback_price ''google_maps'' endpoint (5 / 1000), w')))"

definition calculate_cost ::
  "catalog \<Rightarrow> string \<Rightarrow> string option \<Rightarrow> int \<Rightarrow> int \<Rightarrow> int \<Rightarrow> rat \<Rightarrow> int \<Rightarrow> world \<Rightarrow> usd \<times> world" where
  "calculate_cost catalog service model_id prompt_tokens completion_tokens character_count audio_seconds
     request_count w =
     (if service = ''openrouter'' then
        calculate_openrouter_cost catalog (opt_str_or model_id ''unknown'') prompt_tokens completion_tokens w
      else if service = ''elevenlabs_tts'' then calculate_elevenlabs_cost character_count model_id w
      else if service = ''openai_tts'' then calculate_openai_tts_cost character_count model_id w
      else if service = ''deepgram_stt'' then calculate_deepgram_cost audio_seconds model_id w
      else if service = ''brave_search'' then calculate_brave_search_cost request_count w
      else if service = ''image_generation'' then calculate_image_generation_cost model_id request_count w
      else if service = ''mcp_tool_invocation'' then calculate_mcp_invocation_cost request_count w
      else if service = ''google_maps'' then calculate_google_maps_cost model_id request_count w
      else (0, w))"

section \<open>Pricing leaves the quota state alone\<close>

text \<open>A pricing step writes at most price entries of the cache.\<close>

definition price_key :: "cache_key \<Rightarrow> bool" where
  "price_key k = (case k of Pricing_Key _ _ \<Rightarrow> True | Catalog_Key _ \<Rightarrow> True | _ \<Rightarrow> False)"

definition priced :: "world \<Rightarrow> world \<Rightarrow> bool" where
  "priced w w' \<longleftrightarrow> db w' = db w \<and> clock w' = clock w \<and> next_log w' = next_log w \<and>
     (\<forall>k. \<not> price_key k \<longrightarrow> cache w' k = cache w k)"

lemma priced_refl [simp]: "priced w w"
  by (simp add: priced_def)

lemma get_pricing_priced: "priced w (snd (get_pricing_from_db service m w))"
  by (auto simp: get_pricing_from_db_def priced_def read_through_def cache_set_def price_key_def Let_def
      split: option.split)

lemma get_model_pricing_priced: "priced w (snd (get_model_pricing catalog m w))"
  by (auto simp: get_model_pricing_def priced_def cache_set_def price_key_def
      split: option.split sum.split cache_value.split prod.split)

lemma openrouter_priced: "priced w (snd (calculate_openrouter_cost catalog m pt ct w))"
  using get_model_pricing_priced [of w catalog m]
  by (auto simp: calculate_openrouter_cost_def estimate_cost_detailed_def Let_def
      split: sum.splits prod.splits)

lemma get_pricing_pricedD: "get_pricing_from_db service m w = (p, w') \<Longrightarrow> priced w w'"
  using get_pricing_priced [of w service m] by simp

lemma get_price_pricedD:
  "get_tts_price s m w = (x, w') \<Longrightarrow> priced w w'" "get_stt_price s m w = (x, w') \<Longrightarrow> priced w w'"
  "get_search_price s w = (x, w') \<Longrightarrow> priced w w'" "get_image_generation_price m w = (x, w') \<Longrightarrow> priced w w'"
  unfolding get_tts_price_def get_stt_price_def get_search_price_def get_image_generation_price_def
  by (auto dest: get_pricing_pricedD split: prod.splits option.splits)

lemma service_cost_priced:
  "priced w (snd (calculate_elevenlabs_cost n m w))" "priced w (snd (calculate_openai_tts_cost n m w))"
  "priced w (snd (calculate_deepgram_cost x m w))" "priced w (snd (calculate_brave_search_cost n w))"
  "priced w (snd (calculate_image_generation_cost m n w))" "priced w (snd (calculate_mcp_invocation_cost n w))"
  "priced w (snd (calculate_google_maps_cost m n w))"
  unfolding calculate_elevenlabs_cost_def calculate_openai_tts_cost_def calculate_deepgram_cost_def
    calculate_brave_search_cost_def calculate_image_generation_cost_def calculate_mcp_invocation_cost_def
    calculate_google_maps_cost_def
  by (auto dest: get_pricing_pricedD get_price_pricedD split: prod.splits option.splits)

lemma calculate_cost_priced: "priced w (snd (calculate_cost catalog s m pt ct chars secs n w))"
  by (simp add: calculate_cost_def openrouter_priced service_cost_priced)

text \<open>So the cached totals and subscriptions stay right.\<close>

lemma priced_coherent:
  assumes coh: "coherent w" and pr: "priced w w'"
  shows "coherent w'"
proof -
  have k: "cache w' (Version_Key u) = cache w (Version_Key u)"
    "cache w' (Subscription_Key u) = cache w (Subscription_Key u)"
    "cache w' (Usage_Key kind u v) = cache w (Usage_Key kind u v)" for u kind v
    using pr by (simp_all add: priced_def price_key_def)
  have ver: "get_cache_version t u (cache w') = get_cache_version t u (cache w)" for t u
    by (simp add: get_cache_version_def cache_get_def k)
  have "versions_ok (cache w')"
    using coherentD(1) [OF coh] unfolding versions_ok_def by (simp only: k ver)
  then show ?thesis using coh pr
    by (simp add: coherent_def sub_coherent_def usage_coherent_def priced_def get_cache_key_def k ver)
qed

section \<open>Which price applies\<close>

lemma latest_price_Some:
  assumes "latest_price now service m ps = Some p"
  shows "p \<in> set ps" "in_force now service m p"
    "\<And>p'. p' \<in> set ps \<Longrightarrow> in_force now service m p' \<Longrightarrow> effective_from p' \<le> effective_from p"
  using assms first_by_filter first_by_least unfolding latest_price_def by fastforce+

lemma latest_price_None:
  "latest_price now service m ps = None \<longleftrightarrow> (\<forall>p\<in>set ps. \<not> in_force now service m p)"
  by (simp add: latest_price_def filter_empty_conv)

lemma get_pricing_miss:
  assumes "cache_get (clock w) (Pricing_Key service (opt_str_or m ''default'')) (cache w) = None"
  shows "fst (get_pricing_from_db service m w) = lookup_price (db w) (clock w) service m"
  using assms by (simp add: get_pricing_from_db_def read_through_def price_value_def price_of_def Let_def
      split: option.split)

section \<open>Rounding\<close>

lemma round_half_even_close: "\<bar>of_int (round_half_even x) - x\<bar> \<le> 1 / 2"
proof -
  have "of_int \<lfloor>x\<rfloor> \<le> x" "x < of_int \<lfloor>x\<rfloor> + 1" by linarith+
  then show ?thesis by (auto simp: round_half_even_def Let_def abs_le_iff field_simps)
qed

lemma round_half_even_nonneg: "0 \<le> x \<Longrightarrow> 0 \<le> round_half_even x"
  by (simp add: round_half_even_def Let_def)

lemma quantize8_close: "\<bar>quantize8 x - x\<bar> \<le> 1 / 200000000"
  using round_half_even_close [of "x * 100000000"]
  by (simp add: quantize8_def abs_le_iff field_simps)

lemma quantize8_nonneg: "0 \<le> x \<Longrightarrow> 0 \<le> quantize8 x"
  by (simp add: quantize8_def round_half_even_nonneg)

end
