(* ===== verification/Tier_Seed.thy ===== *)
theory Tier_Seed
  imports Usage_Models
begin

text \<open>
  The canonical tiers and the seeding of the plan table (\<^verbatim>\<open>core/usage_quota/_tier_seed.py\<close>).
  A tier is written as the plan it becomes under a given primary key; the columns that every
  tier leaves null and nothing reads (the three per-feature dollar budgets, the description)
  are not part of the plan record.
\<close>

definition free_tier :: "nat \<Rightarrow> subscription_plan" where
  "free_tier i = \<lparr>plan_id = i, plan_name = ''free'', display_name = ''Free'',
     weekly_limit_usd = 3 / 2, session_limit_usd = 3 / 4,
     features = [(''chat'', True), (''search'', True), (''voice_rooms'', False), (''code_sessions'', False),
       (''knowledge_base'', True), (''image_gen'', True), (''video_gen'', False), (''sparks_view'', True),
       (''sparks_create'', False), (''mcp'', False), (''byok'', True), (''priority_coding_agent'', False)],
     voice_room_sessions_weekly_limit = Some 0, voice_room_minutes_per_session_limit = Some 0,
     code_session_weekly_limit = Some 0, kb_storage_mb_limit = Some 50, kb_docs_limit = Some 10,
     image_gen_weekly_limit = Some 5, video_gen_seconds_weekly_limit = Some 0,
     mcp_invocations_weekly_limit = Some 0,
     stripe_price_id_monthly = None, stripe_price_id_yearly = None,
     plan_is_active = True, plan_is_default = True\<rparr>"

definition plus_tier :: "nat \<Rightarrow> subscription_plan" where
  "plus_tier i = \<lparr>plan_id = i, plan_name = ''plus'', display_name = ''Plus'',
     weekly_limit_usd = 15, session_limit_usd = 5,
     features = [(''chat'', True), (''search'', True), (''voice_rooms'', True), (''code_sessions'', True),
       (''knowledge_base'', True), (''image_gen'', True), (''video_gen'', True), (''sparks_view'', True),
       (''sparks_create'', True), (''mcp'', True), (''byok'', True), (''priority_coding_agent'', False)],
     voice_room_sessions_weekly_limit = Some 5, voice_room_minutes_per_session_limit = Some 10,
     code_session_weekly_limit = Some 20, kb_storage_mb_limit = Some 1024, kb_docs_limit = Some 100,
     image_gen_weekly_limit = Some 50, video_gen_seconds_weekly_limit = Some 30,
     mcp_invocations_weekly_limit = None,
     stripe_price_id_monthly = None, stripe_price_id_yearly = None,
     plan_is_active = True, plan_is_default = False\<rparr>"

definition pro_tier :: "nat \<Rightarrow> subscription_plan" where
  "pro_tier i = \<lparr>plan_id = i, plan_name = ''pro'', display_name = ''Pro'',
     weekly_limit_usd = 80, session_limit_usd = 20,
     features = [(''chat'', True), (''search'', True), (''voice_rooms'', True), (''code_sessions'', True),
       (''knowledge_base'', True), (''image_gen'', True), (''video_gen'', True), (''sparks_view'', True),
       (''sparks_create'', True), (''mcp'', True), (''byok'', True), (''priority_coding_agent'', True)],
     voice_room_sessions_weekly_limit = Some 30, voice_room_minutes_per_session_limit = Some 30,
     code_session_weekly_limit = Some 200, kb_storage_mb_limit = Some 10240, kb_docs_limit = None,
     image_gen_weekly_limit = Some 500, video_gen_seconds_weekly_limit = Some 300,
     mcp_invocations_weekly_limit = None,
     stripe_price_id_monthly = None, stripe_price_id_yearly = None,
     plan_is_active = True, plan_is_default = False\<rparr>"

definition TIER_DEFINITIONS :: "(string \<times> (nat \<Rightarrow> subscription_plan)) list" where
  "TIER_DEFINITIONS = [(''free'', free_tier), (''plus'', plus_tier), (''pro'', pro_tier)]"

text \<open>The primary key of a created row: one that is not in use.\<close>

definition fresh_plan_id :: "subscription_plan list \<Rightarrow> nat" where
  "fresh_plan_id ps = Suc (fold max (map plan_id ps) 0)"

text \<open>Create the tier's row, or overwrite every field of the existing row but its name.\<close>

definition upsert_tier :: "string \<times> (nat \<Rightarrow> subscription_plan) \<Rightarrow> subscription_plan list \<Rightarrow> subscription_plan list" where
  "upsert_tier t ps =
     (if fst t \<in> plan_name ` set ps
      then map (\<lambda>p. if plan_name p = fst t then snd t (plan_id p) else p) ps
      else ps @ [snd t (fresh_plan_id ps)])"

definition drop_other_defaults :: "subscription_plan list \<Rightarrow> subscription_plan list" where
  "drop_other_defaults = map (\<lambda>p. if plan_is_default p \<and> plan_name p \<noteq> ''free'' then p\<lparr>plan_is_default := False\<rparr> else p)"

definition retire_enterprise :: "subscription_plan list \<Rightarrow> subscription_plan list" where
  "retire_enterprise =
     map (\<lambda>p. if plan_name p = ''enterprise'' then p\<lparr>plan_is_active := False, plan_is_default := False\<rparr> else p)"

definition seed_tiers :: "subscription_plan list \<Rightarrow> subscription_plan list" where
  "seed_tiers ps = retire_enterprise (fold upsert_tier TIER_DEFINITIONS (drop_other_defaults ps))"

section \<open>Keys stay unique\<close>

lemma tier_names [simp]:
  "plan_name (free_tier i) = ''free''" "plan_name (plus_tier i) = ''plus''" "plan_name (pro_tier i) = ''pro''"
  by (simp_all add: free_tier_def plus_tier_def pro_tier_def)

lemma tier_ids [simp]:
  "plan_id (free_tier i) = i" "plan_id (plus_tier i) = i" "plan_id (pro_tier i) = i"
  by (simp_all add: free_tier_def plus_tier_def pro_tier_def)

lemma tier_flags [simp]:
  "plan_is_default (free_tier i)" "\<not> plan_is_default (plus_tier i)" "\<not> plan_is_default (pro_tier i)"
  "plan_is_active (free_tier i)" "plan_is_active (plus_tier i)" "plan_is_active (pro_tier i)"
  by (simp_all add: free_tier_def plus_tier_def pro_tier_def)

lemma tier_wf: "t \<in> set TIER_DEFINITIONS \<Longrightarrow> plan_name (snd t i) = fst t \<and> plan_id (snd t i) = i"
  by (auto simp: TIER_DEFINITIONS_def)

lemma fold_max_ge: "(x::nat) \<le> fold max xs x"
proof (induction xs arbitrary: x)
  case (Cons a xs)
  show ?case using Cons.IH [of "max a x"] by simp
qed simp

lemma fold_max_mem: "(y::nat) \<in> set xs \<Longrightarrow> y \<le> fold max xs x"
proof (induction xs arbitrary: x)
  case (Cons a xs)
  then show ?case using fold_max_ge [of "max a x" xs] by auto
qed simp

lemma fresh_plan_id_fresh: "p \<in> set ps \<Longrightarrow> plan_id p < fresh_plan_id ps"
  using fold_max_mem [of "plan_id p" "map plan_id ps" 0] by (simp add: fresh_plan_id_def less_Suc_eq_le)

lemma map_plan_frame:
  "(\<And>p. plan_id (f p) = plan_id p) \<Longrightarrow> map plan_id (map f ps) = map plan_id ps"
  "(\<And>p. plan_name (f p) = plan_name p) \<Longrightarrow> map plan_name (map f ps) = map plan_name ps"
  by (simp_all add: comp_def)

definition keys_ok :: "subscription_plan list \<Rightarrow> bool" where
  "keys_ok ps \<longleftrightarrow> distinct (map plan_id ps) \<and> distinct (map plan_name ps)"

lemma keys_ok_map:
  assumes "\<And>p. plan_id (f p) = plan_id p" "\<And>p. plan_name (f p) = plan_name p"
  shows "keys_ok (map f ps) = keys_ok ps"
  unfolding keys_ok_def map_plan_frame(1) [of f ps, OF assms(1)] map_plan_frame(2) [of f ps, OF assms(2)] ..

lemma upsert_tier_keys:
  assumes "keys_ok ps" "t \<in> set TIER_DEFINITIONS"
  shows "keys_ok (upsert_tier t ps)"
proof (cases "fst t \<in> plan_name ` set ps")
  case True
  have "keys_ok (map (\<lambda>p. if plan_name p = fst t then snd t (plan_id p) else p) ps) = keys_ok ps"
    by (rule keys_ok_map) (use tier_wf [OF assms(2)] in auto)
  with True assms(1) show ?thesis by (simp add: upsert_tier_def)
next
  case False
  then show ?thesis using assms(1) tier_wf [OF assms(2)] fresh_plan_id_fresh [of _ ps]
    by (fastforce simp: upsert_tier_def keys_ok_def)
qed

lemma fold_upsert_keys:
  "keys_ok ps \<Longrightarrow> set ts \<subseteq> set TIER_DEFINITIONS \<Longrightarrow> keys_ok (fold upsert_tier ts ps)"
  by (induction ts arbitrary: ps) (auto intro: upsert_tier_keys)

lemma seed_tiers_keys:
  assumes "keys_ok ps"
  shows "keys_ok (seed_tiers ps)"
proof -
  have "keys_ok (drop_other_defaults ps)"
    unfolding drop_other_defaults_def using assms by (subst keys_ok_map) auto
  then have "keys_ok (fold upsert_tier TIER_DEFINITIONS (drop_other_defaults ps))"
    by (rule fold_upsert_keys) simp
  then show ?thesis unfolding seed_tiers_def retire_enterprise_def by (subst keys_ok_map) auto
qed

section \<open>The seeded table\<close>

text \<open>After the seeding, a row whose name is a tier's is that tier.\<close>

lemma upsert_tier_rows:
  assumes "p \<in> set (upsert_tier t ps)" "t \<in> set TIER_DEFINITIONS"
  shows "plan_name p = fst t \<and> p = snd t (plan_id p) \<or> p \<in> set ps \<and> plan_name p \<noteq> fst t"
proof (cases "fst t \<in> plan_name ` set ps")
  case True
  with assms(1) obtain p' where "p' \<in> set ps" "p = (if plan_name p' = fst t then snd t (plan_id p') else p')"
    by (auto simp: upsert_tier_def)
  then show ?thesis using tier_wf [OF assms(2)] by (cases "plan_name p' = fst t") simp_all
next
  case False
  with assms(1) have "p \<in> set ps \<or> p = snd t (fresh_plan_id ps)" by (auto simp: upsert_tier_def)
  then show ?thesis using tier_wf [OF assms(2)] False by (metis imageI)
qed

lemma upsert_tier_names:
  assumes "t \<in> set TIER_DEFINITIONS"
  shows "plan_name ` set (upsert_tier t ps) = insert (fst t) (plan_name ` set ps)"
proof (cases "fst t \<in> plan_name ` set ps")
  case True
  have "plan_name (if plan_name p = fst t then snd t (plan_id p) else p) = plan_name p" for p
    using tier_wf [OF assms] by simp
  then have "plan_name ` set (map (\<lambda>p. if plan_name p = fst t then snd t (plan_id p) else p) ps) = plan_name ` set ps"
    by (simp only: set_map image_image)
  with True show ?thesis by (simp only: upsert_tier_def if_True insert_absorb)
next
  case False
  then show ?thesis using tier_wf [OF assms] by (simp add: upsert_tier_def)
qed

lemma seeded_row:
  assumes "p \<in> set (seed_tiers ps)"
  shows "plan_name p = ''free'' \<Longrightarrow> p = free_tier (plan_id p)"
    and "plan_name p = ''plus'' \<Longrightarrow> p = plus_tier (plan_id p)"
    and "plan_name p = ''pro'' \<Longrightarrow> p = pro_tier (plan_id p)"
    and "plan_name p \<noteq> ''free'' \<Longrightarrow> \<not> plan_is_default p"
    and "plan_name p = ''enterprise'' \<Longrightarrow> \<not> plan_is_active p"
proof -
  obtain p' where p': "p' \<in> set (fold upsert_tier TIER_DEFINITIONS (drop_other_defaults ps))"
    and p: "p = (if plan_name p' = ''enterprise'' then p'\<lparr>plan_is_active := False, plan_is_default := False\<rparr> else p')"
    using assms unfolding seed_tiers_def retire_enterprise_def by auto
  have T: "(''free'', free_tier) \<in> set TIER_DEFINITIONS" "(''plus'', plus_tier) \<in> set TIER_DEFINITIONS"
    "(''pro'', pro_tier) \<in> set TIER_DEFINITIONS" by (simp_all add: TIER_DEFINITIONS_def)
  from p' have "plan_name p' = ''pro'' \<and> p' = pro_tier (plan_id p') \<or>
      plan_name p' = ''plus'' \<and> p' = plus_tier (plan_id p') \<or>
      plan_name p' = ''free'' \<and> p' = free_tier (plan_id p') \<or>
      p' \<in> set (drop_other_defaults ps) \<and> plan_name p' \<notin> {''free'', ''plus'', ''pro''}"
    using upsert_tier_rows [OF _ T(1)] upsert_tier_rows [OF _ T(2)] upsert_tier_rows [OF _ T(3)]
    by (simp add: TIER_DEFINITIONS_def) metis
  then consider (pro) "p = pro_tier (plan_id p')" | (plus) "p = plus_tier (plan_id p')"
    | (free) "p = free_tier (plan_id p')"
    | (other) "p' \<in> set (drop_other_defaults ps)" "plan_name p' \<notin> {''free'', ''plus'', ''pro''}"
    unfolding p by force
  then have "(plan_name p = ''free'' \<longrightarrow> p = free_tier (plan_id p)) \<and>
    (plan_name p = ''plus'' \<longrightarrow> p = plus_tier (plan_id p)) \<and>
    (plan_name p = ''pro'' \<longrightarrow> p = pro_tier (plan_id p)) \<and>
    (plan_name p \<noteq> ''free'' \<longrightarrow> \<not> plan_is_default p) \<and>
    (plan_name p = ''enterprise'' \<longrightarrow> \<not> plan_is_active p)"
  proof cases
    case other
    then have "plan_name p' \<noteq> ''free'' \<longrightarrow> \<not> plan_is_default p'"
      by (auto simp: drop_other_defaults_def)
    with other show ?thesis unfolding p by simp
  qed simp_all
  then show "plan_name p = ''free'' \<Longrightarrow> p = free_tier (plan_id p)"
    "plan_name p = ''plus'' \<Longrightarrow> p = plus_tier (plan_id p)"
    "plan_name p = ''pro'' \<Longrightarrow> p = pro_tier (plan_id p)"
    "plan_name p \<noteq> ''free'' \<Longrightarrow> \<not> plan_is_default p"
    "plan_name p = ''enterprise'' \<Longrightarrow> \<not> plan_is_active p" by blast+
qed

lemma retire_names: "plan_name ` set (retire_enterprise ps) = plan_name ` set ps"
proof -
  have "plan_name (if plan_name p = ''enterprise'' then p\<lparr>plan_is_active := False, plan_is_default := False\<rparr> else p)
      = plan_name p" for p :: subscription_plan by simp
  then show ?thesis unfolding retire_enterprise_def by (simp only: set_map image_image)
qed

lemma seeded_names: "{''free'', ''plus'', ''pro''} \<subseteq> plan_name ` set (seed_tiers ps)"
  unfolding seed_tiers_def retire_names by (simp add: TIER_DEFINITIONS_def upsert_tier_names)

end
