(* ===== verification/Feature_Registry.thy ===== *)
theory Feature_Registry
  imports Tier_Seed Quota_Service
begin

text \<open>
  The registry of feature gates (\<^verbatim>\<open>core/usage_quota/feature_registry.py\<close>): which plan flag
  and which limit column guard a feature, and the function that counts what the user has
  consumed.  A count provider reads the database only.
\<close>

record feature_spec =
  feature_name :: string
  flag_key :: "string option"
  limit_field :: "string option"
  count_provider :: "(uid \<Rightarrow> db \<Rightarrow> int) option"
  unit :: string
  quota_window :: string

definition is_disabled :: "feature_spec \<Rightarrow> subscription_plan \<Rightarrow> bool" where
  "is_disabled spec plan \<longleftrightarrow>
     truthy_str (flag_key spec) \<and> \<not> get_default (features plan) (the (flag_key spec)) False \<or>
     truthy_str (limit_field spec) \<and> plan_attr plan (the (limit_field spec)) = Some 0"

section \<open>Count providers\<close>

definition user_weekly_window_start :: "uid \<Rightarrow> db \<Rightarrow> datetime option" where
  "user_weekly_window_start u d = (case subs d u of
      None \<Rightarrow> None
    | Some r \<Rightarrow> if sub_is_active r then weekly_window_start r else None)"

definition count_voice_sessions :: "uid \<Rightarrow> db \<Rightarrow> int" where
  "count_voice_sessions u d = (case user_weekly_window_start u d of
      None \<Rightarrow> 0
    | Some s \<Rightarrow> int (length (filter (\<lambda>(owner, t). owner = u \<and> s \<le> t) (voice_sessions d))))"

definition count_code_sessions :: "uid \<Rightarrow> db \<Rightarrow> int" where
  "count_code_sessions u d = (case user_weekly_window_start u d of
      None \<Rightarrow> 0
    | Some s \<Rightarrow> int (length (filter (\<lambda>(owner, t). owner = u \<and> s \<le> t) (code_jobs d))))"

definition service_rows :: "uid \<Rightarrow> string \<Rightarrow> datetime \<Rightarrow> db \<Rightarrow> usage_log list" where
  "service_rows u service s d =
     filter (\<lambda>l. log_user l = u \<and> log_service l = service \<and> s \<le> log_timestamp l) (logs d)"

definition count_image_generations :: "uid \<Rightarrow> db \<Rightarrow> int" where
  "count_image_generations u d = (case user_weekly_window_start u d of
      None \<Rightarrow> 0 | Some s \<Rightarrow> int (length (service_rows u ''image_generation'' s d)))"

text \<open>\<^verbatim>\<open>int(x)\<close> truncates towards zero.\<close>

definition int_trunc :: "rat \<Rightarrow> int" where
  "int_trunc x = (if x < 0 then - \<lfloor>- x\<rfloor> else \<lfloor>x\<rfloor>)"

definition sum_video_seconds :: "uid \<Rightarrow> db \<Rightarrow> int" where
  "sum_video_seconds u d = (case user_weekly_window_start u d of
      None \<Rightarrow> 0
    | Some s \<Rightarrow> int_trunc (sum_list (map log_audio_seconds (service_rows u ''video_generation'' s d))))"

definition count_mcp_invocations :: "uid \<Rightarrow> db \<Rightarrow> int" where
  "count_mcp_invocations u d = (case user_weekly_window_start u d of
      None \<Rightarrow> 0 | Some s \<Rightarrow> int (length (service_rows u ''mcp_tool_invocation'' s d)))"

definition count_kb_docs :: "uid \<Rightarrow> db \<Rightarrow> int" where
  "count_kb_docs u d = int (length (filter (\<lambda>owner. owner = u) (kb_docs d)))"

definition kb_storage_used_mb :: "uid \<Rightarrow> db \<Rightarrow> int" where
  "kb_storage_used_mb u d = (case kb_bytes d u of None \<Rightarrow> 0 | Some b \<Rightarrow> b div (1024 * 1024))"

section \<open>Registration\<close>

type_synonym registry = "(string \<times> feature_spec) list"

text \<open>\<^verbatim>\<open>register\<close>; \<^verbatim>\<open>None\<close> is its \<^verbatim>\<open>ValueError\<close> for a name registered twice.\<close>

definition register :: "feature_spec \<Rightarrow> registry \<Rightarrow> registry option" where
  "register spec reg =
     (if feature_name spec \<in> fst ` set reg then None else Some (reg @ [(feature_name spec, spec)]))"

fun register_all :: "feature_spec list \<Rightarrow> registry \<Rightarrow> registry option" where
  "register_all [] reg = Some reg"
| "register_all (s # ss) reg = (case register s reg of None \<Rightarrow> None | Some reg' \<Rightarrow> register_all ss reg')"

definition flag_only :: "string \<Rightarrow> string option \<Rightarrow> feature_spec" where
  "flag_only name flag =
     \<lparr>feature_name = name, flag_key = flag, limit_field = None, count_provider = None,
      unit = ''count'', quota_window = ''weekly''\<rparr>"

definition limited :: "string \<Rightarrow> string \<Rightarrow> string \<Rightarrow> (uid \<Rightarrow> db \<Rightarrow> int) option \<Rightarrow> string \<Rightarrow> string \<Rightarrow> feature_spec" where
  "limited name flag limit counter un win =
     \<lparr>feature_name = name, flag_key = Some flag, limit_field = Some limit, count_provider = counter,
      unit = un, quota_window = win\<rparr>"

definition registrations :: "feature_spec list" where
  "registrations =
    [flag_only ''brave_search'' (Some ''search''),
     flag_only ''chat'' (Some ''chat''),
     limited ''code_session'' ''code_sessions'' ''code_session_weekly_limit'' (Some count_code_sessions)
       ''count'' ''weekly'',
     limited ''image_generation'' ''image_gen'' ''image_gen_weekly_limit'' (Some count_image_generations)
       ''count'' ''weekly'',
     flag_only ''kb_query'' (Some ''knowledge_base''),
     limited ''kb_storage_mb'' ''knowledge_base'' ''kb_storage_mb_limit'' (Some kb_storage_used_mb)
       ''mb'' ''storage'',
     limited ''kb_upload'' ''knowledge_base'' ''kb_docs_limit'' (Some count_kb_docs) ''count'' ''storage'',
     flag_only ''maps_invocation'' None,
     limited ''mcp_tool_invocation'' ''mcp'' ''mcp_invocations_weekly_limit'' (Some count_mcp_invocations)
       ''count'' ''weekly'',
     flag_only ''spark_deploy'' (Some ''sparks_create''),
     flag_only ''spark_generation'' (Some ''sparks_create''),
     limited ''video_generation_seconds'' ''video_gen'' ''video_gen_seconds_weekly_limit''
       (Some sum_video_seconds) ''seconds'' ''weekly'',
     flag_only ''voice_llm'' (Some ''voice_rooms''),
     limited ''voice_minutes'' ''voice_rooms'' ''voice_room_minutes_per_session_limit'' None
       ''minutes_per_session'' ''weekly'',
     limited ''voice_session'' ''voice_rooms'' ''voice_room_sessions_weekly_limit''
       (Some count_voice_sessions) ''count'' ''weekly'',
     flag_only ''voice_stt'' (Some ''voice_rooms''),
     flag_only ''voice_tts'' (Some ''voice_rooms'')]"

text \<open>The module's dictionary after its registrations ran; empty if one of them raised.\<close>

definition FEATURES :: registry where
  "FEATURES = (case register_all registrations [] of None \<Rightarrow> [] | Some reg \<Rightarrow> reg)"

definition get_spec :: "string \<Rightarrow> feature_spec option" where
  "get_spec name = map_of FEATURES name"

section \<open>The registry is consistent\<close>

lemma register_all_distinct:
  "distinct (map feature_name ss) \<Longrightarrow> fst ` set reg \<inter> feature_name ` set ss = {} \<Longrightarrow>
   register_all ss reg = Some (reg @ map (\<lambda>s. (feature_name s, s)) ss)"
  by (induction ss arbitrary: reg) (auto simp: register_def)

lemma registrations_distinct: "distinct (map feature_name registrations)"
  by (simp add: registrations_def flag_only_def limited_def)

lemma FEATURES_eq: "FEATURES = map (\<lambda>s. (feature_name s, s)) registrations"
  using register_all_distinct [OF registrations_distinct, of "[]"] by (simp add: FEATURES_def)

lemma get_spec_Some: "get_spec name = Some spec \<Longrightarrow> spec \<in> set registrations \<and> feature_name spec = name"
  unfolding get_spec_def FEATURES_eq by (drule map_of_SomeD) auto

lemma get_spec_registered: "spec \<in> set registrations \<Longrightarrow> get_spec (feature_name spec) = Some spec"
  unfolding get_spec_def FEATURES_eq using registrations_distinct
  by (intro map_of_is_SomeI) (auto simp: comp_def)

text \<open>The flags of the registry are spelled as in the seeded tiers, its limits as columns.\<close>

definition limit_columns :: "string list" where
  "limit_columns = [''voice_room_sessions_weekly_limit'', ''voice_room_minutes_per_session_limit'',
     ''code_session_weekly_limit'', ''kb_storage_mb_limit'', ''kb_docs_limit'', ''image_gen_weekly_limit'',
     ''video_gen_seconds_weekly_limit'', ''mcp_invocations_weekly_limit'']"

definition tier_flag_names :: "string list" where
  "tier_flag_names = [''chat'', ''search'', ''voice_rooms'', ''code_sessions'', ''knowledge_base'', ''image_gen'',
     ''video_gen'', ''sparks_view'', ''sparks_create'', ''mcp'', ''byok'', ''priority_coding_agent'']"

lemma tier_flag_keys:
  "map fst (features (free_tier i)) = tier_flag_names" "map fst (features (plus_tier i)) = tier_flag_names"
  "map fst (features (pro_tier i)) = tier_flag_names"
  by (simp_all add: tier_flag_names_def free_tier_def plus_tier_def pro_tier_def)

lemma spec_fields [simp]:
  "feature_name (flag_only n fl) = n" "flag_key (flag_only n fl) = fl" "limit_field (flag_only n fl) = None"
  "count_provider (flag_only n fl) = None" "quota_window (flag_only n fl) = ''weekly''"
  "feature_name (limited n f l c un win) = n" "flag_key (limited n f l c un win) = Some f"
  "limit_field (limited n f l c un win) = Some l" "count_provider (limited n f l c un win) = c"
  "quota_window (limited n f l c un win) = win"
  by (simp_all add: flag_only_def limited_def)

lemma registry_flags:
  "\<forall>spec\<in>set registrations. (case flag_key spec of None \<Rightarrow> True | Some f \<Rightarrow> f \<in> set tier_flag_names)"
  by (simp add: registrations_def tier_flag_names_def)

lemma registry_limits:
  "\<forall>spec\<in>set registrations. (case limit_field spec of None \<Rightarrow> True | Some l \<Rightarrow> l \<in> set limit_columns)"
  by (simp add: registrations_def limit_columns_def)

text \<open>In the seeded tiers the flag and the limit of a feature agree: a limit of zero comes with a
  flag that is off.\<close>

definition gates_agree :: "subscription_plan \<Rightarrow> feature_spec \<Rightarrow> bool" where
  "gates_agree p spec = (case (flag_key spec, limit_field spec) of
      (Some f, Some l) \<Rightarrow> get_default (features p) f False \<longleftrightarrow> plan_attr p l \<noteq> Some 0
    | _ \<Rightarrow> True)"

lemma plan_attr_columns:
  "plan_attr p ''voice_room_sessions_weekly_limit'' = voice_room_sessions_weekly_limit p"
  "plan_attr p ''voice_room_minutes_per_session_limit'' = voice_room_minutes_per_session_limit p"
  "plan_attr p ''code_session_weekly_limit'' = code_session_weekly_limit p"
  "plan_attr p ''kb_storage_mb_limit'' = kb_storage_mb_limit p" "plan_attr p ''kb_docs_limit'' = kb_docs_limit p"
  "plan_attr p ''image_gen_weekly_limit'' = image_gen_weekly_limit p"
  "plan_attr p ''video_gen_seconds_weekly_limit'' = video_gen_seconds_weekly_limit p"
  "plan_attr p ''mcp_invocations_weekly_limit'' = mcp_invocations_weekly_limit p"
  by (simp_all add: plan_attr_def)

lemma free_gates: "\<forall>spec\<in>set registrations. gates_agree (free_tier i) spec"
  by (simp add: registrations_def gates_agree_def plan_attr_columns free_tier_def get_default_def)

lemma plus_gates: "\<forall>spec\<in>set registrations. gates_agree (plus_tier i) spec"
  by (simp add: registrations_def gates_agree_def plan_attr_columns plus_tier_def get_default_def)

lemma pro_gates: "\<forall>spec\<in>set registrations. gates_agree (pro_tier i) spec"
  by (simp add: registrations_def gates_agree_def plan_attr_columns pro_tier_def get_default_def)

end
