(* ===== verification/Quota_Runs.thy ===== *)
theory Quota_Runs
  imports Quota_Coherence Tier_Seed
begin

text \<open>
  Runs of the quota service: every sequence of charges, pre-flight checks, feature checks,
  summaries and passing time, by any users in any order.  The properties of the quota
  service that the manifest lists are stated here.
\<close>

inductive quota_step :: "(usd \<Rightarrow> usd option) \<Rightarrow> world \<Rightarrow> world \<Rightarrow> bool" for q where
  charge: "check_and_deduct q u service cost feature k w = (res, w') \<Longrightarrow> quota_step q w w'"
| preflight: "check_quota u estimated w = (res, w') \<Longrightarrow> quota_step q w w'"
| feature_check: "check_feature_access u f w = (res, w') \<Longrightarrow> quota_step q w w'"
| tick: "clock w \<le> t \<Longrightarrow> quota_step q w (w\<lparr>clock := t\<rparr>)"

inductive quota_run :: "(usd \<Rightarrow> usd option) \<Rightarrow> world \<Rightarrow> world \<Rightarrow> bool" for q where
  refl: "quota_run q w w"
| step: "quota_run q w w' \<Longrightarrow> quota_step q w' w'' \<Longrightarrow> quota_run q w w''"

inductive_cases quota_stepE: "quota_step q w w'"

text \<open>What the run keeps, beside the limits: a coherent cache, money at the columns' grid.\<close>

definition quota_inv :: "world \<Rightarrow> bool" where
  "quota_inv w \<longleftrightarrow> money_ok (db w) \<and> within_limits w \<and> coherent w"

lemma user_within_logs:
  "logs d' = logs d \<Longrightarrow> user_within d' now u s = user_within d now u s"
  by (simp add: user_within_def calculate_weekly_usage_direct_def calculate_session_usage_direct_def
      window_usage_def)

text \<open>Creating a default row is the only write of the reading operations.\<close>

lemma create_default_subscription_keeps:
  assumes "money_ok (db w)" "within_limits w"
  shows "money_ok (db (snd (create_default_subscription u w))) \<and>
         within_limits (snd (create_default_subscription u w))"
proof (cases rule: create_default_subscription_cases [where w = w and u = u])
  case (created p)
  let ?d = "put_sub u (new_subscription p) (db w)"
  have "money_ok ?d"
    using assms(1) by (auto simp: money_ok_def new_subscription_def)
  moreover have "user_within ?d (clock w) v s" if "active_sub ?d v = Some s" for v s
  proof (cases "v = u")
    case True
    then have "fst s = new_subscription p"
      using that active_sub_load load_sub_row by fastforce
    then show ?thesis by (simp add: user_within_def new_subscription_def)
  next
    case False
    then have "active_sub (db w) v = Some s"
      using that active_sub_cong [of ?d "db w" v] by simp
    then show ?thesis using assms(2) user_within_logs [of ?d "db w"] by (cases s) (simp add: within_limits_def)
  qed
  ultimately show ?thesis using created by (simp add: within_limits_def)
qed (use assms in simp_all)

lemma get_or_create_keeps:
  assumes inv: "quota_inv w" and g: "get_or_create_subscription u w = (res, w')"
  shows "quota_inv w'" "clock w' = clock w"
proof -
  obtain r1 w1 where g1: "get_subscription_cached u w = (r1, w1)" by force
  have f1: "db w1 = db w" "clock w1 = clock w" using get_subscription_cached_frame [of u w] g1 by simp_all
  have m1: "money_ok (db w1)" "within_limits w1" using inv f1 by (simp_all add: quota_inv_def within_limits_def)
  have "w' = w1 \<or> w' = snd (create_default_subscription u w1)"
    using g g1 by (auto simp: get_or_create_subscription_def split: option.splits)
  then have "money_ok (db w') \<and> within_limits w'" using m1 create_default_subscription_keeps [OF m1] by metis
  moreover have "coherent w'" "clock w' = clock w"
    using get_or_create_coherent [OF _ g] inv by (simp_all add: quota_inv_def)
  ultimately show "quota_inv w'" "clock w' = clock w" by (simp_all add: quota_inv_def)
qed

lemma check_quota_db:
  assumes "check_quota u c w = (res, w')" and "get_or_create_subscription u w = (s, w1)"
  shows "db w' = db w1" "clock w' = clock w1"
proof -
  have "db w' = db w1 \<and> clock w' = clock w1"
  proof (cases s)
    case None
    with assms show ?thesis by (simp add: check_quota_def)
  next
    case (Some x)
    obtain wu w2 where gw: "get_weekly_usage u (weekly_window_start (fst x)) w1 = (wu, w2)" by force
    obtain su w3 where gs: "get_session_usage u (session_window_start (fst x)) w2 = (su, w3)" by force
    have "w' = w3" using assms(1) unfolding check_quota_def assms(2) Some option.case prod.case Let_def gw gs
      by (simp only: prod.inject split: if_splits)
    then show ?thesis
      using get_weekly_usage_frame [of u "weekly_window_start (fst x)" w1]
        get_session_usage_frame [of u "session_window_start (fst x)" w2] gw gs by simp
  qed
  then show "db w' = db w1" "clock w' = clock w1" by blast+
qed

lemma quota_step_inv:
  assumes "quota_step q w w'" and q: "column_ok q" and inv: "quota_inv w"
  shows "quota_inv w'"
  using assms(1)
proof cases
  case (charge u service cost feature k res)
  with q inv show ?thesis
    using check_and_deduct_keeps check_and_deduct_coherent unfolding quota_inv_def by blast
next
  case (preflight u estimated res)
  obtain s w1 where g: "get_or_create_subscription u w = (s, w1)" by force
  from get_or_create_keeps [OF inv g] check_quota_db [OF preflight g] check_quota_coherent(2) [OF _ preflight] inv
  show ?thesis by (simp add: quota_inv_def within_limits_def)
next
  case (feature_check u f res)
  then have "w' = snd (get_or_create_subscription u w)"
    by (auto simp: check_feature_access_def split: option.splits prod.splits if_splits)
  then show ?thesis using get_or_create_keeps(1) [OF inv] by (metis prod.collapse)
next
  case (tick t)
  have "versions_ok (cache w)" using inv coherentD(1) by (auto simp: quota_inv_def)
  then have key: "get_cache_key t u kind (cache w) = get_cache_key (clock w) u kind (cache w)" for u kind
    by (simp add: get_cache_key_def versions_ok_version(1))
  have "within_limits w'" using inv tick
    by (simp add: quota_inv_def within_limits_def user_within_def)
  moreover have "coherent w'" using inv tick key
    by (simp add: quota_inv_def coherent_def usage_coherent_def sub_coherent_def)
  ultimately show ?thesis using inv tick by (simp add: quota_inv_def)
qed

lemma quota_run_inv: "quota_run q w w' \<Longrightarrow> column_ok q \<Longrightarrow> quota_inv w \<Longrightarrow> quota_inv w'"
  by (induction rule: quota_run.induct) (auto intro: quota_step_inv)

text \<open>A fresh ledger: nothing spent, nothing cached.\<close>

definition fresh_world :: "world \<Rightarrow> bool" where
  "fresh_world w \<longleftrightarrow> logs (db w) = [] \<and> cache w = Map.empty \<and> money_ok (db w) \<and>
     (\<forall>u s. active_sub (db w) u = Some s \<longrightarrow> 0 \<le> effective_weekly_limit s \<and> 0 \<le> effective_session_limit s)"

lemma fresh_inv: "fresh_world w \<Longrightarrow> quota_inv w"
  by (auto simp: fresh_world_def quota_inv_def within_limits_def user_within_def coherent_empty
      calculate_weekly_usage_direct_def calculate_session_usage_direct_def window_usage_def)

section \<open>Runs with unconditional deductions\<close>

text \<open>With \<open>deduct_usage\<close> among the steps the limits no longer bind; the cache stays coherent,
  the ledger only grows and the windows stay where they started.\<close>

inductive service_step :: "(usd \<Rightarrow> usd option) \<Rightarrow> world \<Rightarrow> world \<Rightarrow> bool" for q where
  quota: "quota_step q w w' \<Longrightarrow> service_step q w w'"
| deduct: "deduct_usage q u service cost feature k w = (res, w') \<Longrightarrow> service_step q w w'"

inductive service_run :: "(usd \<Rightarrow> usd option) \<Rightarrow> world \<Rightarrow> world \<Rightarrow> bool" for q where
  refl: "service_run q w w"
| step: "service_run q w w' \<Longrightarrow> service_step q w' w'' \<Longrightarrow> service_run q w w''"

lemma get_or_create_step_coherent:
  "coherent w \<Longrightarrow> coherent (snd (get_or_create_subscription u w))"
  using get_or_create_coherent(2) by (metis prod.collapse)

lemma check_feature_access_state:
  "snd (check_feature_access u f w) = snd (get_or_create_subscription u w)"
  by (auto simp: check_feature_access_def split: option.splits prod.splits)

lemma coherent_tick:
  assumes "coherent w" "clock w \<le> t"
  shows "coherent (w\<lparr>clock := t\<rparr>)"
proof -
  have "versions_ok (cache w)" using assms coherentD(1) by blast
  then have "get_cache_key t u kind (cache w) = get_cache_key (clock w) u kind (cache w)" for u kind
    by (simp add: get_cache_key_def versions_ok_version(1))
  then show ?thesis using assms by (simp add: coherent_def usage_coherent_def sub_coherent_def)
qed

lemma service_step_coherent: "service_step q w w' \<Longrightarrow> coherent w \<Longrightarrow> coherent w'"
proof (induction rule: service_step.induct)
  case (quota w w')
  from quota.hyps show ?case
  proof cases
    case (charge u service cost feature k res)
    then show ?thesis using check_and_deduct_coherent quota.prems by blast
  next
    case (preflight u estimated res)
    then show ?thesis using check_quota_coherent(2) quota.prems by blast
  next
    case (feature_check u f res)
    then show ?thesis using check_feature_access_state get_or_create_step_coherent [OF quota.prems]
      by (metis snd_conv)
  next
    case (tick t)
    then show ?thesis using coherent_tick quota.prems by blast
  qed
next
  case (deduct u service cost feature k w res w')
  then show ?case using deduct_usage_coherent by blast
qed

lemma service_run_coherent: "service_run q w w' \<Longrightarrow> coherent w \<Longrightarrow> coherent w'"
  by (induction rule: service_run.induct) (auto intro: service_step_coherent)

section \<open>What one step does to the database\<close>

text \<open>Reading operations at most create the default row of a user without one.\<close>

definition default_row_only :: "uid \<Rightarrow> world \<Rightarrow> world \<Rightarrow> bool" where
  "default_row_only u w w' \<longleftrightarrow> clock w' = clock w \<and> next_log w' = next_log w \<and>
     plans (db w') = plans (db w) \<and> logs (db w') = logs (db w) \<and>
     (subs (db w') = subs (db w) \<or>
      subs (db w) u = None \<and> (\<exists>p. subs (db w') = (subs (db w))(u \<mapsto> new_subscription p)))"

lemma default_row_only_refl: "default_row_only u w w"
  by (simp add: default_row_only_def)

lemma create_default_row_only: "default_row_only u w (snd (create_default_subscription u w))"
  by (cases rule: create_default_subscription_cases [where w = w and u = u])
    (auto simp: default_row_only_def)

lemma get_or_create_row_only: "default_row_only u w (snd (get_or_create_subscription u w))"
proof -
  obtain r1 w1 where g1: "get_subscription_cached u w = (r1, w1)" by force
  have "default_row_only u w x \<longleftrightarrow> default_row_only u w1 x" for x
    using get_subscription_cached_frame [of u w] g1 by (simp add: default_row_only_def)
  then show ?thesis using create_default_row_only [of u w1] default_row_only_refl [of u w1]
    by (cases r1) (simp_all add: get_or_create_subscription_def g1)
qed

lemma check_quota_row_only:
  assumes "check_quota u c w = (res, w')"
  shows "default_row_only u w w'"
proof -
  obtain so w1 where g: "get_or_create_subscription u w = (so, w1)" by force
  have "next_log w' = next_log w1"
  proof (cases so)
    case None
    with assms g show ?thesis by (simp add: check_quota_def)
  next
    case (Some x)
    obtain wu w2 where gw: "get_weekly_usage u (weekly_window_start (fst x)) w1 = (wu, w2)" by force
    obtain su w3 where gs: "get_session_usage u (session_window_start (fst x)) w2 = (su, w3)" by force
    have "w' = w3" using assms unfolding check_quota_def g Some option.case prod.case Let_def gw gs
      by (simp only: prod.inject split: if_splits)
    then show ?thesis
      using get_weekly_usage_frame [of u "weekly_window_start (fst x)" w1]
        get_session_usage_frame [of u "session_window_start (fst x)" w2] gw gs by simp
  qed
  with check_quota_db [OF assms g] get_or_create_row_only [of u w] g
  show ?thesis by (simp add: default_row_only_def)
qed

lemma locked_row_only: "locked_subscription u w = (res, w1) \<Longrightarrow> default_row_only u w w1"
  using create_default_row_only [of u w] default_row_only_refl [of u w]
  by (auto simp: locked_subscription_def split: option.splits prod.splits)

text \<open>A recorded charge or deduction: one ledger row, the user's windows running.\<close>

definition recorded :: "uid \<Rightarrow> usd \<Rightarrow> world \<Rightarrow> world \<Rightarrow> bool" where
  "recorded u c w w' \<longleftrightarrow> clock w' = clock w \<and> plans (db w') = plans (db w) \<and>
     (\<exists>service feature k. logs (db w') = logs (db w) @ [make_log u service c feature k w]) \<and>
     next_log w' = Suc (next_log w) \<and>
     (\<exists>r. (subs (db w) u = Some r \<or> subs (db w) u = None \<and> (\<exists>p. r = new_subscription p)) \<and>
          subs (db w') = (subs (db w))(u \<mapsto> start_windows (clock w) r))"

lemma locked_recorded_subs:
  assumes lk: "locked_subscription u w = (Inr (r, p), w1)"
    and "subs (db w') = (subs (db w1))(u \<mapsto> start_windows (clock w) r)"
  shows "\<exists>r. (subs (db w) u = Some r \<or> subs (db w) u = None \<and> (\<exists>p. r = new_subscription p)) \<and>
          subs (db w') = (subs (db w))(u \<mapsto> start_windows (clock w) r)"
proof -
  have "subs (db w1) u = Some r"
    using locked_subscription_Inr(1) [OF lk] active_sub_load load_sub_row by fastforce
  moreover have "(subs (db w1))(u \<mapsto> x) = (subs (db w))(u \<mapsto> x)" for x
    using locked_subscription_Inr(2) [OF lk] by fastforce
  moreover have "subs (db w) u = Some r \<or> subs (db w) u = None \<and> r = new_subscription p"
    using locked_subscription_Inr(3) [OF lk] active_sub_load load_sub_row by fastforce
  ultimately show ?thesis using assms(2) by metis
qed

lemma check_and_deduct_next_log:
  assumes "check_and_deduct q u service cost feature k w = (res, w')"
  shows "next_log w' = (case res of Inl _ \<Rightarrow> next_log w | Inr _ \<Rightarrow> Suc (next_log w))"
proof -
  obtain lr w1 where lk: "locked_subscription u w = (lr, w1)" by force
  note fr = locked_subscription_frame(4) [OF lk]
  show ?thesis
    using assms fr unfolding check_and_deduct_def atomic_def check_and_deduct_body_def lk
    by (auto simp: Let_def create_log_def split: sum.splits prod.splits if_splits option.splits)
qed

lemma deduct_usage_next_log:
  assumes "deduct_usage q u service cost feature k w = (res, w')"
  shows "next_log w' = (case res of Inl _ \<Rightarrow> next_log w | Inr _ \<Rightarrow> Suc (next_log w))"
proof -
  obtain lr w1 where lk: "locked_subscription u w = (lr, w1)" by force
  note fr = locked_subscription_frame(4) [OF lk]
  have g: "get_weekly_usage u x y = (a, b) \<Longrightarrow> next_log b = next_log y" for x y a b
    using get_weekly_usage_frame(3) [of u x y] by simp
  show ?thesis
    using assms fr unfolding deduct_usage_def atomic_def deduct_usage_body_def lk
    by (auto simp: Let_def create_log_def dest!: g split: sum.splits prod.splits if_splits option.splits)
qed

lemma check_and_deduct_recorded:
  assumes run: "check_and_deduct q u service cost feature k w = (Inr x, w')"
  shows "\<exists>c. q cost = Some c \<and> recorded u c w w'"
  by (rule check_and_deduct_Inr [OF run], intro exI conjI, assumption, unfold recorded_def)
    (intro conjI; (drule (1) locked_recorded_subs)?; use check_and_deduct_next_log [OF run] in fastforce)

lemma deduct_usage_recorded:
  assumes run: "deduct_usage q u service cost feature k w = (Inr x, w')"
  shows "\<exists>c. q cost = Some c \<and> recorded u c w w'"
  by (rule deduct_usage_Inr [OF run], intro exI conjI, assumption, unfold recorded_def)
    (intro conjI; (drule (1) locked_recorded_subs)?; use deduct_usage_next_log [OF run] in fastforce)

lemma check_and_deduct_clock: "check_and_deduct q u service cost feature k w = (Inl e, w') \<Longrightarrow> clock w' = clock w"
  unfolding check_and_deduct_def atomic_def
  by (auto elim!: check_and_deduct_body_Inl split: prod.splits sum.splits)

lemma deduct_usage_clock: "deduct_usage q u service cost feature k w = (Inl e, w') \<Longrightarrow> clock w' = clock w"
  unfolding deduct_usage_def atomic_def
  by (auto elim!: deduct_usage_body_Inl split: prod.splits sum.splits)

lemma deduct_usage_error: "deduct_usage q u service cost feature k w = (Inl e, w') \<Longrightarrow> db w' = db w"
  unfolding deduct_usage_def by (rule atomic_error)

text \<open>Every step is one of three: the database at rest (perhaps later), a default row, a
  recorded usage.\<close>

lemma service_step_cases:
  assumes "service_step q w w'"
  obtains (rest) "db w' = db w" "next_log w' = next_log w" "clock w \<le> clock w'"
  | (row) u where "default_row_only u w w'"
  | (usage) u c where "recorded u c w w'"
  using assms
proof cases
  case quota
  then show ?thesis
  proof cases
    case (charge u service cost feature k res)
    then show ?thesis
      using rest usage check_and_deduct_recorded check_and_deduct_error check_and_deduct_clock
        check_and_deduct_next_log [OF charge]
      by (cases res) (metis order_refl sum.case(1), metis)
  next
    case (preflight u estimated res)
    then show ?thesis using row check_quota_row_only by blast
  next
    case (feature_check u f res)
    then show ?thesis using row get_or_create_row_only check_feature_access_state by (metis snd_conv)
  next
    case (tick t)
    then show ?thesis using rest by simp
  qed
next
  case (deduct u service cost feature k res)
  then show ?thesis
    using rest usage deduct_usage_recorded deduct_usage_error deduct_usage_clock deduct_usage_next_log [OF deduct]
    by (cases res) (metis order_refl sum.case(1), metis)
qed

end
