(* ===== verification/Deduction_Retry.thy ===== *)
theory Deduction_Retry
  imports Quota_Runs
begin

text \<open>
  The retry of failed deductions (\<^verbatim>\<open>core/usage_quota/tasks.py\<close>): queueing at Celery with a Redis
  list as fallback, the Celery task with its retries, and the periodic task that drains the
  list.

  The broker and the Redis server are outside the repository.  Whether they accept a message is
  part of the state (\<open>broker_up\<close>, \<open>redis_up\<close>), or, for the draining task which talks to the broker
  many times, a function of the attempt.  A queued message keeps its fields as values;
  \<^verbatim>\<open>str\<close> and \<^verbatim>\<open>Decimal\<close>, \<^verbatim>\<open>isoformat\<close> and \<^verbatim>\<open>fromisoformat\<close> give them back
  unchanged.
\<close>

record deduction_data =
  dd_user_id :: string
  dd_service :: string
  dd_cost_usd :: usd
  dd_feature :: string
  dd_extra :: usage_details
  dd_queued_at :: "datetime option"

text \<open>An element of the Redis list: a message, or bytes that are not JSON.\<close>

datatype raw = Json deduction_data | Garbage string

record retry_state =
  base :: world
  celery_queue :: "deduction_data list"
  redis_list :: "raw list"
  broker_up :: bool
  redis_up :: bool

definition MAX_DEDUCTION_AGE :: timedelta where "MAX_DEDUCTION_AGE = seconds 86400"

section \<open>Queueing\<close>

definition queue_failed_deduction ::
  "string \<Rightarrow> string \<Rightarrow> usd \<Rightarrow> string \<Rightarrow> usage_details \<Rightarrow> retry_state \<Rightarrow> bool \<times> retry_state" where
  "queue_failed_deduction usr service cost_usd feature extra st =
     (let d = \<lparr>dd_user_id = usr, dd_service = service, dd_cost_usd = cost_usd, dd_feature = feature,
               dd_extra = extra, dd_queued_at = Some (clock (base st))\<rparr>
      in if broker_up st then (True, st\<lparr>celery_queue := celery_queue st @ [d]\<rparr>)
         else if redis_up st then (True, st\<lparr>redis_list := redis_list st @ [Json d]\<rparr>)
         else (False, st))"

section \<open>The task\<close>

definition too_old :: "datetime \<Rightarrow> deduction_data \<Rightarrow> bool" where
  "too_old now d \<longleftrightarrow> (case dd_queued_at d of None \<Rightarrow> False | Some t \<Rightarrow> now - t > MAX_DEDUCTION_AGE)"

text \<open>One attempt; \<^verbatim>\<open>Inl\<close> is the exception that makes Celery retry.\<close>

definition retry_failed_deduction ::
  "(usd \<Rightarrow> usd option) \<Rightarrow> deduction_data \<Rightarrow> world \<Rightarrow> (exn + bool) \<times> world" where
  "retry_failed_deduction q d w =
     (if dd_user_id d = [] then (Inr False, w)
      else if too_old (clock w) d then (Inr False, w)
      else if dd_user_id d \<notin> user_id ` set (users (db w)) then (Inr False, w)
      else (case deduct_usage q (dd_user_id d) (dd_service d) (dd_cost_usd d) (dd_feature d) (dd_extra d) w of
              (Inl e, w') \<Rightarrow> (Inl e, w')
            | (Inr r, w') \<Rightarrow> (Inr (ud_success r), w')))"

definition max_retries :: nat where "max_retries = 5"

text \<open>\<^verbatim>\<open>autoretry_for=(Exception,)\<close>: up to \<open>n\<close> further attempts; \<open>between\<close> is what the rest of
  the system does while the task waits.\<close>

fun run_task ::
  "(usd \<Rightarrow> usd option) \<Rightarrow> (nat \<Rightarrow> world \<Rightarrow> world) \<Rightarrow> nat \<Rightarrow> deduction_data \<Rightarrow> world \<Rightarrow> (exn + bool) \<times> world" where
  "run_task q between n d w = (case retry_failed_deduction q d w of
      (Inr b, w') \<Rightarrow> (Inr b, w')
    | (Inl e, w') \<Rightarrow> (case n of 0 \<Rightarrow> (Inl e, w') | Suc m \<Rightarrow> run_task q between m d (between m w')))"

declare run_task.simps [simp del]

section \<open>Draining the Redis list\<close>

text \<open>The loop pops from the left until the list is empty (or pops empty bytes), or until the broker
  refuses a message, which then goes back to the right end if Redis still takes it.  \<open>up n\<close> tells
  whether the broker takes the message after \<open>n\<close> accepted ones.\<close>

fun drain ::
  "(nat \<Rightarrow> bool) \<Rightarrow> bool \<Rightarrow> raw list \<Rightarrow> deduction_data list \<Rightarrow> nat \<Rightarrow> raw list \<times> deduction_data list \<times> nat" where
  "drain up push_ok [] queue n = ([], queue, n)"
| "drain up push_ok (Garbage s # rs) queue n =
     (if s = [] then (rs, queue, n) else drain up push_ok rs queue n)"
| "drain up push_ok (Json d # rs) queue n =
     (if up n then drain up push_ok rs (queue @ [d]) (Suc n)
      else ((if push_ok then rs @ [Json d] else rs), queue, n))"

definition process_failed_deductions_queue ::
  "(nat \<Rightarrow> bool) \<Rightarrow> bool \<Rightarrow> retry_state \<Rightarrow> nat \<times> retry_state" where
  "process_failed_deductions_queue up push_ok st =
     (if redis_up st
      then (case drain up push_ok (redis_list st) (celery_queue st) 0 of
              (rs, queue, n) \<Rightarrow> (n, st\<lparr>redis_list := rs, celery_queue := queue\<rparr>))
      else (0, st))"

section \<open>Lemmas\<close>

text \<open>The messages in a list of raw elements.\<close>

fun messages :: "raw list \<Rightarrow> deduction_data list" where
  "messages [] = []"
| "messages (Json d # rs) = d # messages rs"
| "messages (Garbage s # rs) = messages rs"

lemma messages_append [simp]: "messages (xs @ ys) = messages xs @ messages ys"
  by (induction xs rule: messages.induct) auto

lemma drain_messages:
  "drain up True rs queue n = (rs', queue', n') \<Longrightarrow>
     \<exists>moved kept. queue' = queue @ moved \<and> n' = n + length moved \<and>
       (messages rs' = kept \<or> (\<exists>d ds. kept = d # ds \<and> messages rs' = ds @ [d])) \<and>
       messages rs = moved @ kept"
proof (induction up True rs queue n arbitrary: rs' queue' n' rule: drain.induct)
  case (1 up queue n)
  then show ?case by auto
next
  case (2 up s rs queue n)
  then show ?case by (cases "s = []") (auto intro: exI [of _ "[]"])
next
  case (3 up d rs queue n)
  show ?case
  proof (cases "up n")
    case True
    with 3 obtain moved kept where "queue' = (queue @ [d]) @ moved" "n' = Suc n + length moved"
        "messages rs' = kept \<or> (\<exists>d ds. kept = d # ds \<and> messages rs' = ds @ [d])" "messages rs = moved @ kept"
      by fastforce
    then show ?thesis by (intro exI [of _ "d # moved"] exI [of _ kept]) simp
  next
    case False
    with 3 show ?thesis by (intro exI [of _ "[]"] exI [of _ "d # messages rs"]) auto
  qed
qed

lemma drain_all_up:
  "(\<And>n. up n) \<Longrightarrow> Garbage [] \<notin> set rs \<Longrightarrow> drain up p rs queue n = ([], queue @ messages rs, n + length (messages rs))"
  by (induction up p rs queue n rule: drain.induct) auto

text \<open>One attempt leaves the ledger alone or records the item once.\<close>

lemma retry_attempt:
  assumes "retry_failed_deduction q d w = (res, w')"
  shows "if res = Inr True then \<exists>c. q (dd_cost_usd d) = Some c \<and>
             logs (db w') = logs (db w) @ [make_log (dd_user_id d) (dd_service d) c (dd_feature d) (dd_extra d) w]
         else logs (db w') = logs (db w)"
proof (cases "deduct_usage q (dd_user_id d) (dd_service d) (dd_cost_usd d) (dd_feature d) (dd_extra d) w")
  case (Pair r w1)
  show ?thesis
  proof (cases r)
    case (Inl e)
    with Pair have "db w1 = db w" using deduct_usage_error by blast
    with assms Pair Inl show ?thesis by (auto simp: retry_failed_deduction_def split: if_splits)
  next
    case (Inr x)
    obtain c where "q (dd_cost_usd d) = Some c" "ud_success x"
      "logs (db w1) = logs (db w) @ [make_log (dd_user_id d) (dd_service d) c (dd_feature d) (dd_extra d) w]"
      by (rule deduct_usage_Inr [OF Pair [unfolded Inr]])
    with assms Pair Inr show ?thesis by (auto simp: retry_failed_deduction_def split: if_splits)
  qed
qed

lemma run_task_once:
  assumes "\<And>m w. logs (db (between m w)) = logs (db w)" and "run_task q between n d w = (res, w')"
  shows "if res = Inr True then \<exists>c l. q (dd_cost_usd d) = Some c \<and> logs (db w') = logs (db w) @ [l] \<and>
             log_user l = dd_user_id d \<and> log_cost_usd l = c
         else logs (db w') = logs (db w)"
  using assms(2)
proof (induction n arbitrary: w)
  case 0
  then have "retry_failed_deduction q d w = (res, w')"
    by (auto simp: run_task.simps split: prod.splits sum.splits)
  from retry_attempt [OF this] show ?case by (auto simp: make_log_def split: if_splits)
next
  case (Suc n)
  obtain r w1 where a: "retry_failed_deduction q d w = (r, w1)" by force
  show ?case
  proof (cases r)
    case (Inl e)
    then have "run_task q between n d (between n w1) = (res, w')" using Suc.prems a by (simp add: run_task.simps)
    from Suc.IH [OF this] show ?thesis using retry_attempt [OF a] Inl assms(1)
      by (auto split: if_splits)
  next
    case (Inr b)
    then have "res = r" "w' = w1" using Suc.prems a by (auto simp: run_task.simps)
    with retry_attempt [OF a] show ?thesis by (auto simp: make_log_def split: if_splits)
  qed
qed

end
