(* ===== verification/Billing_Service.thy ===== *)
theory Billing_Service
  imports Cost_Calculator Feature_Registry Deduction_Retry
begin

text \<open>
  \<^verbatim>\<open>BillingService\<close> (\<^verbatim>\<open>core/usage_quota/billing/service.py\<close>), the entry point of every
  billable operation: cost, the pre-flight cascade of feature gates and the dollar limit, who
  pays (\<^verbatim>\<open>platform\<close> or the user's own key, \<^verbatim>\<open>byok\<close>), recording with the retry queue behind
  it; and the \<^verbatim>\<open>billable\<close> decorator around it (\<^verbatim>\<open>billing/decorators.py\<close>).

  The methods write their result into the operation object they are given; the operations
  below return the operation as they leave it.
\<close>

section \<open>Plans and costs\<close>

definition get_user_plan :: "uid \<Rightarrow> world \<Rightarrow> (exn + subscription_plan) \<times> world" where
  "get_user_plan u w = (case get_or_create_subscription u w of
      (Some s, w') \<Rightarrow> (Inr (snd s), w')
    | (None, w') \<Rightarrow>
        (case get_default_plan (plans (db w')) of
           None \<Rightarrow> (Inl (SubscriptionNotFound u), w') | Some p \<Rightarrow> (Inr p, w')))"

definition billing_calculate_cost :: "catalog \<Rightarrow> billable_operation \<Rightarrow> world \<Rightarrow> usd \<times> world" where
  "billing_calculate_cost catalog op w =
     (if op_cost_usd op > 0 then (op_cost_usd op, w)
      else calculate_cost catalog (service_value (op_service op))
             (if op_model_id op = [] then None else Some (op_model_id op))
             (op_prompt_tokens op) (op_completion_tokens op) (op_character_count op) (op_audio_seconds op)
             (num_or (op_request_count op) 1) w)"

section \<open>Pre-flight check\<close>

definition resets_in :: "datetime \<Rightarrow> datetime option \<Rightarrow> int" where
  "resets_in now window_end = (case window_end of None \<Rightarrow> 0 | Some e \<Rightarrow> max 0 (int_seconds (e - now)))"

definition byok_status :: quota_status where
  "byok_status = \<lparr>qs_allowed = True, qs_weekly_limit_usd = 0, qs_weekly_used_usd = 0,
     qs_weekly_remaining_usd = 0, qs_session_limit_usd = 0, qs_session_used_usd = 0,
     qs_session_remaining_usd = 0, qs_weekly_resets_in_seconds = 0, qs_session_resets_in_seconds = 0,
     qs_denial_reason = None\<rparr>"

definition byok_bypasses :: "string option \<Rightarrow> string \<Rightarrow> bool" where
  "byok_bypasses assume_origin service \<longleftrightarrow> assume_origin = Some BILLING_ORIGIN_BYOK \<and>
     service \<in> set OPENROUTER_BACKED_SERVICES \<and> service \<notin> set PLATFORM_ONLY_SERVICES"

definition check_global_quota ::
  "uid \<Rightarrow> service_type \<Rightarrow> usd \<Rightarrow> string option \<Rightarrow> world \<Rightarrow> (exn + quota_status) \<times> world" where
  "check_global_quota u service estimated_cost assume_origin w =
     (if byok_bypasses assume_origin (service_value service) then (Inr byok_status, w)
      else (case check_quota u estimated_cost w of
              (Inl e, w') \<Rightarrow> (Inl e, w')
            | (Inr r, w') \<Rightarrow>
                (Inr \<lparr>qs_allowed = qc_allowed r,
                      qs_weekly_limit_usd = qc_weekly_limit_usd r,
                      qs_weekly_used_usd = qc_weekly_used_usd r,
                      qs_weekly_remaining_usd = qc_remaining_weekly_usd r,
                      qs_session_limit_usd = qc_session_limit_usd r,
                      qs_session_used_usd = qc_session_used_usd r,
                      qs_session_remaining_usd = qc_remaining_session_usd r,
                      qs_weekly_resets_in_seconds = resets_in (clock w') (qc_weekly_window_end r),
                      qs_session_resets_in_seconds = resets_in (clock w') (qc_session_window_end r),
                      qs_denial_reason = (if qc_allowed r then None else qc_reason r)\<rparr>, w')))"

definition weekly_resets_in_seconds :: "uid \<Rightarrow> world \<Rightarrow> int option \<times> world" where
  "weekly_resets_in_seconds u w = (case get_or_create_subscription u w of
      (None, w') \<Rightarrow> (None, w')
    | (Some s, w') \<Rightarrow>
        (case weekly_window_start (fst s) of
           None \<Rightarrow> (None, w')
         | Some t \<Rightarrow> (Some (max 0 (int_seconds (t + days 7 - clock w'))), w')))"

definition count_exceeded :: "string \<Rightarrow> int \<Rightarrow> int \<Rightarrow> string \<Rightarrow> int option \<Rightarrow> exn" where
  "count_exceeded name used limit window resets =
     QuotaExceeded
       \<lparr>qe_message = name @ '' limit reached ('' @ string_of_int used @ ''/'' @ string_of_int limit @ '')'',
        qe_limit_usd = 0, qe_used_usd = 0, qe_remaining_usd = 0, qe_limit_type = window,
        qe_resets_in_seconds = resets, qe_feature_name = Some name, qe_used_count = Some used,
        qe_limit_count = Some limit\<rparr>"

text \<open>Steps 1 and 2 of the cascade: the flag gate, then the limit gate.\<close>

definition feature_gates :: "uid \<Rightarrow> string \<Rightarrow> int \<Rightarrow> world \<Rightarrow> (exn + unit) \<times> world" where
  "feature_gates u name request_units w = (case get_spec name of
      None \<Rightarrow> (Inl (BillingMisconfiguration (UnknownFeatureName name)), w)
    | Some spec \<Rightarrow>
       (case get_user_plan u w of
          (Inl e, w1) \<Rightarrow> (Inl e, w1)
        | (Inr plan, w1) \<Rightarrow>
           if (case flag_key spec of None \<Rightarrow> False | Some f \<Rightarrow> \<not> get_default (features plan) f False)
           then (Inl (feature_not_available name (display_name plan) (Some (plan_name plan))), w1)
           else
             (case limit_field spec of
                None \<Rightarrow> (Inr (), w1)
              | Some field \<Rightarrow>
                  (case plan_attr plan field of
                     None \<Rightarrow> (Inr (), w1)
                   | Some limit \<Rightarrow>
                       if limit = 0
                       then (Inl (feature_not_available name (display_name plan) (Some (plan_name plan))), w1)
                       else
                         (case count_provider spec of
                            None \<Rightarrow> (Inr (), w1)
                          | Some count \<Rightarrow>
                              let used = count u (db w1)
                              in if used + request_units > limit
                                 then (if quota_window spec = ''storage''
                                       then (Inl (count_exceeded name used limit (quota_window spec) None), w1)
                                       else (case weekly_resets_in_seconds u w1 of
                                               (r, w2) \<Rightarrow>
                                                 (Inl (count_exceeded name used limit (quota_window spec) r), w2)))
                                 else (Inr (), w1))))))"

definition usd_denial :: "string \<Rightarrow> quota_status \<Rightarrow> exn" where
  "usd_denial name st =
     (let denial = opt_str_or (qs_denial_reason st) ''weekly''; weekly = (denial = ''weekly'')
      in QuotaExceeded
           \<lparr>qe_message = (if weekly then ''Weekly usage limit exceeded'' else ''Session rate limit exceeded''),
            qe_limit_usd = (if weekly then qs_weekly_limit_usd st else qs_session_limit_usd st),
            qe_used_usd = (if weekly then qs_weekly_used_usd st else qs_session_used_usd st),
            qe_remaining_usd = (if weekly then qs_weekly_remaining_usd st else qs_session_remaining_usd st),
            qe_limit_type = denial,
            qe_resets_in_seconds = Some (if weekly then qs_weekly_resets_in_seconds st
                                         else qs_session_resets_in_seconds st),
            qe_feature_name = Some name, qe_used_count = None, qe_limit_count = None\<rparr>)"

definition billing_check_quota ::
  "uid \<Rightarrow> service_type \<Rightarrow> usd \<Rightarrow> string option \<Rightarrow> string option \<Rightarrow> int \<Rightarrow> world \<Rightarrow> (exn + quota_status) \<times> world" where
  "billing_check_quota u service estimated_cost assume_origin feature_nm request_units w =
     (case feature_nm of
        None \<Rightarrow> check_global_quota u service estimated_cost assume_origin w
      | Some name \<Rightarrow>
         (case feature_gates u name request_units w of
            (Inl e, w1) \<Rightarrow> (Inl e, w1)
          | (Inr _, w1) \<Rightarrow>
             (case check_global_quota u service estimated_cost assume_origin w1 of
                (Inl e, w2) \<Rightarrow> (Inl e, w2)
              | (Inr st, w2) \<Rightarrow> if qs_allowed st then (Inr st, w2) else (Inl (usd_denial name st), w2))))"

definition get_quota_status :: "uid \<Rightarrow> world \<Rightarrow> (exn + quota_status) \<times> world" where
  "get_quota_status u w = billing_check_quota u OPENROUTER 0 None None 1 w"

definition get_feature_usage :: "uid \<Rightarrow> string \<Rightarrow> world \<Rightarrow> (exn + int option \<times> int option) \<times> world" where
  "get_feature_usage u name w = (case get_spec name of
      None \<Rightarrow> (Inr (None, None), w)
    | Some spec \<Rightarrow>
       (case get_user_plan u w of
          (Inl e, w1) \<Rightarrow> (Inl e, w1)
        | (Inr plan, w1) \<Rightarrow>
           (case (limit_field spec, count_provider spec) of
              (Some field, Some count) \<Rightarrow> (Inr (Some (count u (db w1)), plan_attr plan field), w1)
            | _ \<Rightarrow> (Inr (None, None), w1))))"

definition billing_check_feature_access :: "uid \<Rightarrow> string \<Rightarrow> world \<Rightarrow> (exn + bool) \<times> world" where
  "billing_check_feature_access u name w = (case get_user_plan u w of
      (Inl e, w') \<Rightarrow> (Inl e, w') | (Inr plan, w') \<Rightarrow> (Inr (has_feature plan name), w'))"

definition invalidate_for_user :: "uid \<Rightarrow> world \<Rightarrow> world" where
  "invalidate_for_user u w = invalidate u w"

section \<open>Who pays\<close>

definition resolve_origin :: "billable_operation \<Rightarrow> string \<Rightarrow> string option \<Rightarrow> exn + string" where
  "resolve_origin op service billing_origin =
     (let final = opt_str_or billing_origin (str_or (op_billing_origin op) BILLING_ORIGIN_PLATFORM)
      in if final \<notin> set VALID_BILLING_ORIGINS
         then Inl (BillingMisconfiguration (InvalidBillingOrigin final))
         else if final = BILLING_ORIGIN_BYOK \<and> service \<notin> set OPENROUTER_BACKED_SERVICES
         then Inl (BillingMisconfiguration (ByokNotPermitted service))
         else Inr final)"

section \<open>Recording\<close>

definition details_of :: "billable_operation \<Rightarrow> int \<Rightarrow> string \<Rightarrow> usage_details" where
  "details_of op requests origin =
     \<lparr>d_session_id = Some (op_session_id op), d_model_id = op_model_id op,
      d_prompt_tokens = op_prompt_tokens op, d_completion_tokens = op_completion_tokens op,
      d_total_tokens = op_total_tokens op, d_character_count = op_character_count op,
      d_audio_seconds = op_audio_seconds op, d_request_count = requests,
      d_request_id = op_request_id op, d_extra_data = op_extra_data op, d_billing_origin = origin\<rparr>"

definition record_byok_analytics_row ::
  "(usd \<Rightarrow> usd option) \<Rightarrow> uid \<Rightarrow> billable_operation \<Rightarrow> world \<Rightarrow> (exn + unit) \<times> world" where
  "record_byok_analytics_row q u op w =
     (case create_log q u (service_value (op_service op)) 0 (feature_value (op_feature op))
             (details_of op (num_or (op_request_count op) 1) BILLING_ORIGIN_BYOK) w of
        (Inl e, w') \<Rightarrow> (Inl e, w') | (Inr _, w') \<Rightarrow> (Inr (), w'))"

definition billing_queue_failed_deduction :: "uid \<Rightarrow> billable_operation \<Rightarrow> retry_state \<Rightarrow> retry_state" where
  "billing_queue_failed_deduction u op st =
     snd (queue_failed_deduction u (service_value (op_service op)) (op_cost_usd op)
            (feature_value (op_feature op)) (details_of op (op_request_count op) (op_billing_origin op)) st)"

text \<open>The first steps of both recording methods: price the operation and decide who pays.\<close>

definition price_and_origin ::
  "catalog \<Rightarrow> billable_operation \<Rightarrow> string option \<Rightarrow> world \<Rightarrow> (exn + unit) \<times> billable_operation \<times> world" where
  "price_and_origin catalog op billing_origin w =
     (let (cost, w1) = (if op_cost_usd op = 0 then billing_calculate_cost catalog op w else (op_cost_usd op, w));
          op1 = op\<lparr>op_cost_usd := cost\<rparr>
      in case resolve_origin op1 (service_value (op_service op1)) billing_origin of
           Inl e \<Rightarrow> (Inl e, op1, w1)
         | Inr origin \<Rightarrow> (Inr (), op1\<lparr>op_billing_origin := origin\<rparr>, w1))"

definition record_usage ::
  "(usd \<Rightarrow> usd option) \<Rightarrow> catalog \<Rightarrow> uid \<Rightarrow> billable_operation \<Rightarrow> string option \<Rightarrow> retry_state \<Rightarrow>
   (exn + unit) \<times> billable_operation \<times> retry_state" where
  "record_usage q catalog u op billing_origin st =
     (case price_and_origin catalog op billing_origin (base st) of
        (Inl e, op1, w1) \<Rightarrow> (Inl e, op1, st\<lparr>base := w1\<rparr>)
      | (Inr _, op1, w1) \<Rightarrow>
          if op_billing_origin op1 = BILLING_ORIGIN_BYOK
          then (case record_byok_analytics_row q u op1 w1 of (r, w2) \<Rightarrow> (r, op1, st\<lparr>base := w2\<rparr>))
          else (case deduct_usage q u (service_value (op_service op1)) (op_cost_usd op1)
                       (feature_value (op_feature op1))
                       (details_of op1 (num_or (op_request_count op1) 1) (op_billing_origin op1)) w1 of
                  (Inr _, w2) \<Rightarrow> (Inr (), op1, st\<lparr>base := w2\<rparr>)
                | (Inl _, w2) \<Rightarrow>
                    (Inr (), op1, billing_queue_failed_deduction u op1 (st\<lparr>base := w2\<rparr>))))"

definition check_and_record ::
  "(usd \<Rightarrow> usd option) \<Rightarrow> catalog \<Rightarrow> uid \<Rightarrow> billable_operation \<Rightarrow> bool \<Rightarrow> string option \<Rightarrow> retry_state \<Rightarrow>
   (exn + unit) \<times> billable_operation \<times> retry_state" where
  "check_and_record q catalog u op enforce_quota billing_origin st =
     (case price_and_origin catalog op billing_origin (base st) of
        (Inl e, op1, w1) \<Rightarrow> (Inl e, op1, st\<lparr>base := w1\<rparr>)
      | (Inr _, op1, w1) \<Rightarrow>
          if op_billing_origin op1 = BILLING_ORIGIN_BYOK
          then (case record_byok_analytics_row q u op1 w1 of (r, w2) \<Rightarrow> (r, op1, st\<lparr>base := w2\<rparr>))
          else if enforce_quota
          then (case check_and_deduct q u (service_value (op_service op1)) (op_cost_usd op1)
                       (feature_value (op_feature op1))
                       (details_of op1 (num_or (op_request_count op1) 1) (op_billing_origin op1)) w1 of
                  (Inl e, w2) \<Rightarrow> (Inl e, op1, st\<lparr>base := w2\<rparr>)
                | (Inr _, w2) \<Rightarrow> (Inr (), op1, st\<lparr>base := w2\<rparr>))
          else record_usage q catalog u op1 (Some (op_billing_origin op1)) (st\<lparr>base := w1\<rparr>))"

section \<open>The decorator\<close>

text \<open>What \<^verbatim>\<open>billable(service, feature, pre_check, estimated_cost_usd, extract_operation)\<close> makes of
  a function: \<open>func\<close> is the wrapped function with its arguments, \<open>extract\<close> the optional extractor
  (which may raise).  The user was found in the arguments, or is \<^verbatim>\<open>None\<close>.\<close>

definition pre_check_denial :: "quota_status \<Rightarrow> exn" where
  "pre_check_denial st =
     (let weekly = (qs_denial_reason st = Some ''weekly'')
      in QuotaExceeded
           \<lparr>qe_message = (if qs_denial_reason st = Some ''session''
                          then ''Session rate limit exceeded. Try again in a few hours.''
                          else ''Weekly usage limit exceeded''),
            qe_limit_usd = (if weekly then qs_weekly_limit_usd st else qs_session_limit_usd st),
            qe_used_usd = (if weekly then qs_weekly_used_usd st else qs_session_used_usd st),
            qe_remaining_usd = (if weekly then qs_weekly_remaining_usd st else qs_session_remaining_usd st),
            qe_limit_type = opt_str_or (qs_denial_reason st) ''quota'',
            qe_resets_in_seconds = Some (if weekly then qs_weekly_resets_in_seconds st
                                         else qs_session_resets_in_seconds st),
            qe_feature_name = None, qe_used_count = None, qe_limit_count = None\<rparr>)"

definition billable_pre_check ::
  "uid \<Rightarrow> service_type \<Rightarrow> bool \<Rightarrow> usd option \<Rightarrow> world \<Rightarrow> (exn + unit) \<times> world" where
  "billable_pre_check u service pre_check estimated w =
     (if \<not> pre_check then (Inr (), w)
      else (case billing_check_quota u service (num_or (the_default 0 estimated) (1 / 100)) None None 1 w of
              (Inl e, w') \<Rightarrow> (Inl e, w')
            | (Inr st, w') \<Rightarrow> if qs_allowed st then (Inr (), w') else (Inl (pre_check_denial st), w')))"

definition billable ::
  "(usd \<Rightarrow> usd option) \<Rightarrow> catalog \<Rightarrow> service_type \<Rightarrow> bool \<Rightarrow> usd option \<Rightarrow>
   ('r \<Rightarrow> exn + billable_operation) option \<Rightarrow>
   (retry_state \<Rightarrow> (exn + 'r) \<times> retry_state) \<Rightarrow> uid option \<Rightarrow> retry_state \<Rightarrow> (exn + 'r) \<times> retry_state" where
  "billable q catalog service pre_check estimated extract func user st = (case user of
      None \<Rightarrow> func st
    | Some u \<Rightarrow>
       (case billable_pre_check u service pre_check estimated (base st) of
          (Inl e, w1) \<Rightarrow> (Inl e, st\<lparr>base := w1\<rparr>)
        | (Inr _, w1) \<Rightarrow>
           (case func (st\<lparr>base := w1\<rparr>) of
              (Inl e, st2) \<Rightarrow> (Inl e, st2)
            | (Inr result, st2) \<Rightarrow>
               (case extract of
                  None \<Rightarrow> (Inr result, st2)
                | Some ex \<Rightarrow>
                   (case ex result of
                      Inl _ \<Rightarrow> (Inr result, st2)
                    | Inr op \<Rightarrow> (Inr result, snd (snd (record_usage q catalog u op None st2))))))))"

end
