(* ===== verification/Quota_Properties.thy ===== *)
theory Quota_Properties
  imports Quota_Runs
begin

text \<open>The properties of the quota service, with a concrete state for their witnesses: the three
  seeded plans, one user on the Free plan with both windows open and one charge on the ledger,
  and one user whose row was deactivated.\<close>

section \<open>A concrete state\<close>

definition demo_now :: datetime where "demo_now = seconds 1000000"

definition demo_row :: user_subscription where
  "demo_row = (new_subscription (free_tier 10))
     \<lparr>weekly_window_start := Some (demo_now - seconds 3600),
      session_window_start := Some (demo_now - seconds 3600)\<rparr>"

definition demo_details :: usage_details where
  "demo_details = \<lparr>d_session_id = None, d_model_id = ''m'', d_prompt_tokens = 10, d_completion_tokens = 5,
     d_total_tokens = 0, d_character_count = 0, d_audio_seconds = 0, d_request_count = 1,
     d_request_id = [], d_extra_data = [], d_billing_origin = ''platform''\<rparr>"

definition demo_log :: usage_log where
  "demo_log = \<lparr>log_id = 0, log_user = ''ann'', log_service = ''openrouter'', log_feature = ''chat'',
     log_session_id = [], log_model_id = ''m'', log_prompt_tokens = 10, log_completion_tokens = 5,
     log_total_tokens = 15, log_character_count = 0, log_audio_seconds = 0, log_request_count = 1,
     log_cost_usd = 1 / 4, log_request_id = [], log_extra_data = [], log_billing_origin = ''platform'',
     log_timestamp = demo_now - seconds 3600\<rparr>"

definition demo_db :: db where
  "demo_db = \<lparr>plans = [free_tier 10, plus_tier 20, pro_tier 30],
     subs = [''ann'' \<mapsto> demo_row, ''bob'' \<mapsto> (new_subscription (free_tier 10))\<lparr>sub_is_active := False\<rparr>],
     logs = [demo_log], prices = [], events = Map.empty, users = [],
     voice_sessions = [], code_jobs = [], kb_docs = [], kb_bytes = Map.empty\<rparr>"

definition demo_world :: world where
  "demo_world = \<lparr>db = demo_db, cache = Map.empty, clock = demo_now, next_log = 1\<rparr>"

definition fresh_demo :: world where
  "fresh_demo = demo_world\<lparr>db := demo_db\<lparr>logs := []\<rparr>\<rparr>"

lemma demo_fields [simp]:
  "db demo_world = demo_db" "clock demo_world = demo_now" "cache demo_world = Map.empty"
  "logs demo_db = [demo_log]" "plans demo_db = [free_tier 10, plus_tier 20, pro_tier 30]"
  "subs demo_db ''ann'' = Some demo_row"
  "subs demo_db ''bob'' = Some ((new_subscription (free_tier 10))\<lparr>sub_is_active := False\<rparr>)"
  by (simp_all add: demo_world_def demo_db_def)

lemma tier_limits [simp]:
  "weekly_limit_usd (free_tier i) = 3 / 2" "session_limit_usd (free_tier i) = 3 / 4"
  "weekly_limit_usd (plus_tier i) = 15" "session_limit_usd (plus_tier i) = 5"
  "weekly_limit_usd (pro_tier i) = 80" "session_limit_usd (pro_tier i) = 20"
  by (simp_all add: free_tier_def plus_tier_def pro_tier_def)

lemma demo_row_fields [simp]:
  "sub_plan_id demo_row = 10" "sub_is_active demo_row"
  "weekly_window_start demo_row = Some (demo_now - seconds 3600)"
  "session_window_start demo_row = Some (demo_now - seconds 3600)"
  "custom_weekly_limit_usd demo_row = None" "custom_session_limit_usd demo_row = None"
  by (simp_all add: demo_row_def new_subscription_def)

lemma demo_active [simp]: "active_sub demo_db ''ann'' = Some (demo_row, free_tier 10)"
  by (simp add: active_sub_def load_sub_def plan_by_id_def)

lemma demo_limits [simp]:
  "effective_weekly_limit (demo_row, free_tier 10) = 3 / 2"
  "effective_session_limit (demo_row, free_tier 10) = 3 / 4"
  by (simp_all add: effective_weekly_limit_def effective_session_limit_def)

lemma demo_coherent: "coherent demo_world"
  by (rule coherent_empty) simp

lemma demo_windows:
  "is_weekly_window_active demo_now (Some (demo_now - seconds 3600))"
  "is_session_window_active demo_now (Some (demo_now - seconds 3600))"
  by (simp_all add: is_weekly_window_active_def is_session_window_active_def weekly_len_def session_len_def
      days_def hours_def seconds_def WEEKLY_WINDOW_DAYS_def SESSION_WINDOW_HOURS_def demo_now_def)

lemma demo_started [simp]: "start_windows demo_now demo_row = demo_row"
  by (simp add: start_windows_def demo_windows Let_def)

lemma demo_usage [simp]:
  "calculate_weekly_usage_direct demo_db ''ann'' (demo_now - seconds 3600) = 1 / 4"
  "calculate_session_usage_direct demo_db ''ann'' (demo_now - seconds 3600) = 1 / 4"
  by (simp_all add: calculate_weekly_usage_direct_def calculate_session_usage_direct_def window_usage_def
      in_window_def demo_log_def)

lemma fresh_demo_active:
  "active_sub (db fresh_demo) u = Some s \<Longrightarrow> u = ''ann'' \<and> s = (demo_row, free_tier 10)"
  by (cases "u = ''bob''"; cases "u = ''ann''")
    (simp_all add: fresh_demo_def demo_world_def demo_db_def active_sub_def load_sub_def plan_by_id_def
      new_subscription_def)

lemma fresh_demo_money: "money_ok (db fresh_demo)"
proof -
  have "micro (of_int k)" for k unfolding micro_def by (rule exI [of _ "k * 1000000"]) simp
  from this [of 15] this [of 5] this [of 80] this [of 20]
  have "micro 15" "micro 5" "micro 80" "micro 20" by simp_all
  moreover have "micro (3 / 2)" unfolding micro_def by (rule exI [of _ 1500000]) simp
  moreover have "micro (3 / 4)" unfolding micro_def by (rule exI [of _ 750000]) simp
  ultimately show ?thesis
    by (auto simp: money_ok_def fresh_demo_def demo_db_def demo_row_def new_subscription_def split: if_splits)
qed

lemma fresh_demo_fresh: "fresh_world fresh_demo"
proof -
  have "0 \<le> effective_weekly_limit s \<and> 0 \<le> effective_session_limit s"
    if "active_sub (db fresh_demo) u = Some s" for u s
    using fresh_demo_active [OF that] by simp
  then show ?thesis using fresh_demo_money by (simp add: fresh_world_def) (simp add: fresh_demo_def demo_world_def)
qed

section \<open>Limits\<close>

text \<open>C1: Starting from an empty ledger, no sequence of charges (\<^verbatim>\<open>check_and_deduct\<close>),
  pre-flight checks, feature checks and passing time, by any users in any order, ever puts the
  recorded spending of a user's running weekly or session window above that user's limit,
  although stored costs are rounded by the database column.\<close>

theorem runs_stay_within_limits:
  assumes "fresh_world w" and "column_ok q" and "quota_run q w w'"
    and "active_sub (db w') u = Some s"
  shows "(\<forall>ws. weekly_window_start (fst s) = Some ws \<and> is_weekly_window_active (clock w') (Some ws) \<longrightarrow>
            window_usage (db w') u ws (ws + days 7) \<le> effective_weekly_limit s) \<and>
         (\<forall>ss. session_window_start (fst s) = Some ss \<and> is_session_window_active (clock w') (Some ss) \<longrightarrow>
            window_usage (db w') u ss (ss + hours 3) \<le> effective_session_limit s)"
proof -
  have "within_limits w'"
    using quota_run_inv [OF assms(3,2) fresh_inv [OF assms(1)]] by (simp add: quota_inv_def)
  then have "user_within (db w') (clock w') u s" using assms(4) unfolding within_limits_def by blast
  then show ?thesis
    by (simp add: user_within_def window_simps calculate_weekly_usage_direct_def
        calculate_session_usage_direct_def weekly_len_def session_len_def WEEKLY_WINDOW_DAYS_def
        SESSION_WINDOW_HOURS_def)
qed

lemma fresh_demo_fields [simp]:
  "clock fresh_demo = demo_now" "active_sub (db fresh_demo) ''ann'' = Some (demo_row, free_tier 10)"
  by (simp_all add: fresh_demo_def demo_world_def demo_db_def active_sub_def load_sub_def plan_by_id_def)

lemma demo_charge_run:
  "\<exists>w' res. check_and_deduct numeric_10_6 ''ann'' ''openrouter'' (1 / 2) ''chat'' demo_details fresh_demo
     = (Inr res, w') \<and> active_sub (db w') ''ann'' = Some (demo_row, free_tier 10)"
proof -
  have "calculate_weekly_usage_direct (put_sub ''ann'' demo_row (db fresh_demo)) ''ann'' (demo_now - seconds 3600) = 0"
    "calculate_session_usage_direct (put_sub ''ann'' demo_row (db fresh_demo)) ''ann'' (demo_now - seconds 3600) = 0"
    by (simp_all add: fresh_demo_def calculate_weekly_usage_direct_def calculate_session_usage_direct_def
        window_usage_def)
  then show ?thesis
    by (simp add: check_and_deduct_def atomic_def check_and_deduct_body_def locked_subscription_def Let_def
        create_log_def numeric_10_6_def)
      (simp add: active_sub_def load_sub_def plan_by_id_def fresh_demo_def demo_world_def)
qed

lemma runs_stay_within_limits_witness:
  "\<exists>w' s. quota_run numeric_10_6 fresh_demo w' \<and> active_sub (db w') ''ann'' = Some s \<and>
     (\<forall>ws. weekly_window_start (fst s) = Some ws \<and> is_weekly_window_active (clock w') (Some ws) \<longrightarrow>
        window_usage (db w') ''ann'' ws (ws + days 7) \<le> effective_weekly_limit s) \<and>
     (\<forall>ss. session_window_start (fst s) = Some ss \<and> is_session_window_active (clock w') (Some ss) \<longrightarrow>
        window_usage (db w') ''ann'' ss (ss + hours 3) \<le> effective_session_limit s)"
proof -
  obtain w' res where c: "check_and_deduct numeric_10_6 ''ann'' ''openrouter'' (1 / 2) ''chat'' demo_details fresh_demo
      = (Inr res, w')" and a: "active_sub (db w') ''ann'' = Some (demo_row, free_tier 10)"
    using demo_charge_run by blast
  have r: "quota_run numeric_10_6 fresh_demo w'"
    by (rule quota_run.step [OF quota_run.refl quota_step.charge [OF c]])
  show ?thesis
    using r a runs_stay_within_limits [OF fresh_demo_fresh column_ok_numeric r a] by blast
qed

section \<open>The cache is transparent\<close>


lemma demo_check_quota_spec:
  "check_quota_spec demo_db demo_now ''ann'' 1 = Inr
     \<lparr>qc_allowed = False, qc_reason = Some ''session'', qc_remaining_weekly_usd = 5 / 4,
      qc_remaining_session_usd = 1 / 2, qc_weekly_limit_usd = 3 / 2, qc_session_limit_usd = 3 / 4,
      qc_weekly_used_usd = 1 / 4, qc_session_used_usd = 1 / 4,
      qc_weekly_window_end = Some (demo_now - seconds 3600 + weekly_len),
      qc_session_window_end = Some (demo_now - seconds 3600 + session_len)\<rparr>"
  using demo_windows
  by (simp add: check_quota_spec_def subscription_spec_def remaining_weekly_def remaining_session_def
      weekly_usage_spec_def session_usage_spec_def window_simps)


section \<open>Charges\<close>

text \<open>C3: A charge is all or nothing. If it raises, the database is untouched, the window
  starts and a default subscription it may have created on the way included; if it returns,
  exactly one ledger row was added, carrying the call's arguments and the stored cost, the
  user's windows run, and no other user's subscription, plan or ledger row changed.\<close>

theorem charge_all_or_nothing:
  "case check_and_deduct q u service cost feature k w of
     (Inl e, w') \<Rightarrow> db w' = db w
   | (Inr res, w') \<Rightarrow>
       (\<exists>c. q cost = Some c \<and> logs (db w') = logs (db w) @ [make_log u service c feature k w]) \<and>
       plans (db w') = plans (db w) \<and>
       (\<exists>r. subs (db w') = (subs (db w))(u \<mapsto> r) \<and>
            is_weekly_window_active (clock w) (weekly_window_start r) \<and>
            is_session_window_active (clock w) (session_window_start r))"
proof (cases "check_and_deduct q u service cost feature k w")
  case (Pair res w')
  show ?thesis
  proof (cases res)
    case (Inl e)
    with Pair check_and_deduct_error show ?thesis by auto
  next
    case (Inr x)
    have run: "check_and_deduct q u service cost feature k w = (Inr x, w')" using Pair Inr by simp
    show ?thesis
    proof (rule check_and_deduct_Inr [OF run])
      fix r p w1 c ws ss
      assume lk: "locked_subscription u w = (Inr (r, p), w1)"
        and starts: "weekly_window_start (start_windows (clock w) r) = Some ws"
          "session_window_start (start_windows (clock w) r) = Some ss"
          "clock w < ws + weekly_len" "clock w < ss + session_len"
        and left: "q cost = Some c" "logs (db w') = logs (db w) @ [make_log u service c feature k w]"
          "plans (db w') = plans (db w)" "subs (db w') = (subs (db w1))(u \<mapsto> start_windows (clock w) r)"
      have "subs (db w') = (subs (db w))(u \<mapsto> start_windows (clock w) r)"
        using left(4) locked_subscription_Inr(2) [OF lk] by (auto simp: fun_eq_iff)
      moreover have "is_weekly_window_active (clock w) (weekly_window_start (start_windows (clock w) r))"
        "is_session_window_active (clock w) (session_window_start (start_windows (clock w) r))"
        using starts by (simp_all add: window_simps)
      ultimately show ?thesis using Pair Inr left(1-3) by auto blast?
    qed
  qed
qed

text \<open>With no ledger row of the user from this very instant on, what the locked check adds up
  is the spending of the running windows.\<close>

lemma locked_usage_spec:
  assumes "\<And>l. l \<in> set (logs d) \<Longrightarrow> log_user l = u \<Longrightarrow> log_timestamp l < now"
  shows "weekly_window_start (start_windows now r) = Some ws \<Longrightarrow>
           calculate_weekly_usage_direct d u ws = weekly_usage_spec d now u (weekly_window_start r)"
    and "session_window_start (start_windows now r) = Some ss \<Longrightarrow>
           calculate_session_usage_direct d u ss = session_usage_spec d now u (session_window_start r)"
proof -
  have zero: "window_usage d u now e = 0" for e
    unfolding window_usage_def using assms by (intro sum_rows_none) (force simp: in_window_def)
  show "weekly_window_start (start_windows now r) = Some ws \<Longrightarrow>
      calculate_weekly_usage_direct d u ws = weekly_usage_spec d now u (weekly_window_start r)"
    using zero by (auto simp: start_windows_starts weekly_usage_spec_def calculate_weekly_usage_direct_def
        window_simps split: if_splits option.splits)
  show "session_window_start (start_windows now r) = Some ss \<Longrightarrow>
      calculate_session_usage_direct d u ss = session_usage_spec d now u (session_window_start r)"
    using zero by (auto simp: start_windows_starts session_usage_spec_def calculate_session_usage_direct_def
        window_simps split: if_splits option.splits)
qed

text \<open>The outcome of the charge of a user with an active row.\<close>

lemma charge_outcome:
  assumes act: "active_sub (db w) u = Some s"
    and past: "\<And>l. l \<in> set (logs (db w)) \<Longrightarrow> log_user l = u \<Longrightarrow> log_timestamp l < clock w"
  defines "W \<equiv> weekly_usage_spec (db w) (clock w) u (weekly_window_start (fst s))"
    and "S \<equiv> session_usage_spec (db w) (clock w) u (session_window_start (fst s))"
  shows "case fst (check_and_deduct q u service cost feature k w) of
      Inl (QuotaExceeded i) \<Rightarrow>
        W + cost > effective_weekly_limit s \<and> qe_limit_type i = ''weekly'' \<and> qe_used_usd i = W \<or>
        W + cost \<le> effective_weekly_limit s \<and> S + cost > effective_session_limit s \<and>
          qe_limit_type i = ''session'' \<and> qe_used_usd i = S
    | Inl e \<Rightarrow> e = DatabaseError \<and> q cost = None \<and>
        W + cost \<le> effective_weekly_limit s \<and> S + cost \<le> effective_session_limit s
    | Inr res \<Rightarrow> q cost \<noteq> None \<and> ud_new_weekly_used_usd res = W + cost \<and>
        W + cost \<le> effective_weekly_limit s \<and> S + cost \<le> effective_session_limit s"
proof -
  obtain r p where s: "s = (r, p)" by force
  have lk: "locked_subscription u w = (Inr (r, p), w)" using act s by (simp add: locked_subscription_def)
  obtain ws ss where st: "weekly_window_start (start_windows (clock w) r) = Some ws"
      "session_window_start (start_windows (clock w) r) = Some ss"
    by (rule start_windows_Some)
  have u: "calculate_weekly_usage_direct (db w) u ws = W" "calculate_session_usage_direct (db w) u ss = S"
    using locked_usage_spec [OF past] st unfolding W_def S_def s by simp_all
  have d: "calculate_weekly_usage_direct (put_sub u x (db w)) u ws = W"
    "calculate_session_usage_direct (put_sub u x (db w)) u ss = S" for x
    using u by (simp_all add: calculate_weekly_usage_direct_def calculate_session_usage_direct_def window_usage_def)
  consider "W + cost > effective_weekly_limit s"
    | "W + cost \<le> effective_weekly_limit s" "S + cost > effective_session_limit s"
    | "W + cost \<le> effective_weekly_limit s" "S + cost \<le> effective_session_limit s" by linarith
  then show ?thesis
    by cases (simp_all add: check_and_deduct_def atomic_def check_and_deduct_body_def lk st d s Let_def
        quota_exceeded_def create_log_def split: option.split)
qed

text \<open>For a user with an active subscription and no usage recorded at this very instant, a
  charge goes through exactly when it fits under both limits next to what the running windows
  have spent (and the database column can hold it); otherwise the exception says which limit,
  the weekly one first, and how much of it was used.\<close>

theorem charge_accepted_iff_it_fits:
  assumes "active_sub (db w) u = Some s"
    and "\<forall>l \<in> set (logs (db w)). log_user l = u \<longrightarrow> log_timestamp l < clock w"
  shows "((\<exists>res. fst (check_and_deduct q u service cost feature k w) = Inr res) \<longleftrightarrow>
           weekly_usage_spec (db w) (clock w) u (weekly_window_start (fst s)) + cost \<le> effective_weekly_limit s \<and>
           session_usage_spec (db w) (clock w) u (session_window_start (fst s)) + cost \<le> effective_session_limit s \<and>
           q cost \<noteq> None)
       \<and> (\<forall>i. fst (check_and_deduct q u service cost feature k w) = Inl (QuotaExceeded i) \<longrightarrow>
           (qe_limit_type i, qe_used_usd i) =
             (if weekly_usage_spec (db w) (clock w) u (weekly_window_start (fst s)) + cost > effective_weekly_limit s
              then (''weekly'', weekly_usage_spec (db w) (clock w) u (weekly_window_start (fst s)))
              else (''session'', session_usage_spec (db w) (clock w) u (session_window_start (fst s)))))"
proof -
  note o = charge_outcome [OF assms(1), where q = q and service = service and cost = cost and feature = feature and k = k]
  have past: "\<And>l. l \<in> set (logs (db w)) \<Longrightarrow> log_user l = u \<Longrightarrow> log_timestamp l < clock w"
    using assms(2) by blast
  from o [OF past] show ?thesis
    by (cases "fst (check_and_deduct q u service cost feature k w)") (auto split: exn.splits)
qed

lemma charge_accepted_iff_it_fits_witness:
  "(\<exists>res. fst (check_and_deduct numeric_10_6 ''ann'' ''openrouter'' (1 / 2) ''chat'' demo_details demo_world) = Inr res) \<and>
   \<not> (\<exists>res. fst (check_and_deduct numeric_10_6 ''ann'' ''openrouter'' 1 ''chat'' demo_details demo_world) = Inr res)"
proof -
  have a: "active_sub (db demo_world) ''ann'' = Some (demo_row, free_tier 10)" by simp
  have l: "\<forall>l \<in> set (logs (db demo_world)). log_user l = ''ann'' \<longrightarrow> log_timestamp l < clock demo_world"
    by (simp add: demo_log_def seconds_def)
  show ?thesis
    using charge_accepted_iff_it_fits [OF a l, of numeric_10_6 "''openrouter''" "1 / 2" "''chat''" demo_details]
      charge_accepted_iff_it_fits [OF a l, of numeric_10_6 "''openrouter''" 1 "''chat''" demo_details] demo_windows
    by (simp add: weekly_usage_spec_def session_usage_spec_def window_simps numeric_10_6_def)
qed

text \<open>A pre-flight check is a promise: if it allows a positive cost that the column can
  hold, and the user has no deactivated row and no usage recorded at this very instant, the
  charge made next, at the same instant, goes through.\<close>

theorem preflight_then_charge:
  assumes coh: "coherent w" and "check_quota u c w = (Inr r, w1)" and "qc_allowed r"
    and "0 < c" and "q c \<noteq> None"
    and "\<forall>x. subs (db w) u = Some x \<longrightarrow> sub_is_active x" and "db_ok (db w)"
    and "\<forall>l \<in> set (logs (db w)). log_user l = u \<longrightarrow> log_timestamp l < clock w"
  shows "\<exists>res. fst (check_and_deduct q u service c feature k w1) = Inr res"
proof -
  note cc = check_quota_coherent [OF coh assms(2)]
  obtain s where s: "subscription_spec (db w) u = Some s"
    and fits: "c \<le> remaining_weekly (db w) (clock w) u s" "c \<le> remaining_session (db w) (clock w) u s"
    using cc(1) assms(3) by (auto simp: check_quota_spec_def split: option.splits)
  obtain so w0 where g: "get_or_create_subscription u w = (so, w0)" by force
  have so: "so = Some s" using get_or_create_coherent(1) [OF coh g] s by simp
  have row0: "subs (db w0) u = Some (fst s)" using get_or_create_coherent(6) [OF coh g so] .
  have same: "db w1 = db w0" "clock w1 = clock w" using check_quota_db [OF assms(2) g] cc(3) by simp_all
  have plan: "plan_by_id (db w) (sub_plan_id (fst s)) = Some (snd s) \<and> sub_is_active (fst s)"
  proof (cases "subs (db w) u")
    case None
    then obtain p where p: "get_default_plan (plans (db w)) = Some p" "s = (new_subscription p, p)"
      using s by (auto simp: subscription_spec_def active_sub_def load_sub_def split: option.splits)
    have "plan_by_id (db w) (plan_id p) = Some p"
      by (rule plan_by_id_self) (use assms(7) get_default_plan_spec [OF p(1)] in \<open>auto simp: db_ok_def\<close>)
    with p show ?thesis by (simp add: new_subscription_def)
  next
    case (Some x)
    have "load_sub (db w) u = Some s"
      using s Some by (auto simp: subscription_spec_def dest: active_sub_load split: option.splits)
    with load_sub_row [OF this] assms(6) show ?thesis by auto
  qed
  have act: "active_sub (db w1) u = Some s"
    using row0 plan cc(4) same by (simp add: active_sub_def load_sub_def plan_by_id_def)
  have rest: "weekly_usage_spec (db w1) (clock w1) u x = weekly_usage_spec (db w) (clock w) u x"
    "session_usage_spec (db w1) (clock w1) u x = session_usage_spec (db w) (clock w) u x" for x
    using usage_spec_logs [OF cc(5)] same(2) by simp_all
  have past: "\<forall>l \<in> set (logs (db w1)). log_user l = u \<longrightarrow> log_timestamp l < clock w1"
    using assms(8) cc(5) same(2) by simp
  show ?thesis
    using charge_accepted_iff_it_fits [OF act past, where q = q and service = service and cost = c and feature = feature and k = k]
      fits assms(4,5)
    by (auto simp: rest remaining_weekly_def remaining_session_def max_def split: if_splits)
qed

lemma demo_check_quota:
  "\<exists>r w1. check_quota ''ann'' (1 / 2) demo_world = (Inr r, w1) \<and> qc_allowed r"
proof -
  have "fst (check_quota ''ann'' (1 / 2) demo_world) = check_quota_spec demo_db demo_now ''ann'' (1 / 2)"
    using check_quota_coherent(1) [OF demo_coherent, of "''ann''" "1 / 2"] by (metis demo_fields(1,2) prod.collapse)
  moreover have "\<exists>r. check_quota_spec demo_db demo_now ''ann'' (1 / 2) = Inr r \<and> qc_allowed r"
    using demo_windows
    by (simp add: check_quota_spec_def subscription_spec_def remaining_weekly_def remaining_session_def
        weekly_usage_spec_def session_usage_spec_def window_simps)
  ultimately show ?thesis by (metis prod.collapse)
qed

lemma preflight_then_charge_witness:
  "\<exists>w1 res. fst (check_and_deduct numeric_10_6 ''ann'' ''openrouter'' (1 / 2) ''chat'' demo_details w1) = Inr res"
proof -
  obtain r w1 where c: "check_quota ''ann'' (1 / 2) demo_world = (Inr r, w1)" and "qc_allowed r"
    using demo_check_quota by blast
  have "db_ok demo_db"
    by (auto simp: db_ok_def demo_db_def demo_row_def new_subscription_def split: if_splits)
  then have "\<exists>res. fst (check_and_deduct numeric_10_6 ''ann'' ''openrouter'' (1 / 2) ''chat'' demo_details w1) = Inr res"
    by (intro preflight_then_charge [OF demo_coherent c \<open>qc_allowed r\<close>])
      (simp_all add: numeric_10_6_def demo_log_def seconds_def)
  then show ?thesis by blast
qed

text \<open>\<^verbatim>\<open>deduct_usage\<close> never refuses for quota: it fails only if there is no usable
  subscription or the database rejects the row, and then changes nothing; otherwise it appends
  exactly the one ledger row and reports the weekly total of the database, the new row
  included, whatever was cached before.\<close>

theorem deduct_usage_exact:
  assumes coh: "coherent w"
  shows "case deduct_usage q u service cost feature k w of
     (Inl e, w') \<Rightarrow> e \<in> {SubscriptionNotFound u, DoesNotExist, DatabaseError} \<and> db w' = db w
   | (Inr res, w') \<Rightarrow>
       (\<exists>c ws. q cost = Some c \<and> logs (db w') = logs (db w) @ [make_log u service c feature k w] \<and>
          weekly_window_start (the (subs (db w') u)) = Some ws \<and>
          ud_new_weekly_used_usd res = window_usage (db w') u ws (ws + days 7))"
proof (cases "deduct_usage q u service cost feature k w")
  case (Pair res w')
  show ?thesis
  proof (cases res)
    case (Inl e)
    obtain lr w1 where lk: "locked_subscription u w = (lr, w1)" by force
    have "lr = Inl x \<Longrightarrow> x \<in> {SubscriptionNotFound u, DoesNotExist}" for x
      using lk by (auto simp: locked_subscription_def split: option.splits prod.splits)
    then have "e \<in> {SubscriptionNotFound u, DoesNotExist, DatabaseError}"
      using Pair Inl unfolding deduct_usage_def atomic_def deduct_usage_body_def lk
      by (auto simp: create_log_def Let_def split: sum.splits prod.splits option.splits)
    with Pair Inl deduct_usage_error show ?thesis by auto
  next
    case (Inr x)
    have run: "deduct_usage q u service cost feature k w = (Inr x, w')" using Pair Inr by simp
    show ?thesis
    proof (rule deduct_usage_Inr [OF run])
      fix r p w1 c
      assume lk: "locked_subscription u w = (Inr (r, p), w1)" and c: "q cost = Some c"
        and w': "logs (db w') = logs (db w) @ [make_log u service c feature k w]" "plans (db w') = plans (db w)"
          "subs (db w') = (subs (db w1))(u \<mapsto> start_windows (clock w) r)" "clock w' = clock w"
        and ex: "\<exists>w4. cache w4 = invalidate_user_cache (clock w) u (cache w1) \<and> db w4 = db w' \<and> clock w4 = clock w \<and>
          (ud_new_weekly_used_usd x, w') = get_weekly_usage u (weekly_window_start (start_windows (clock w) r)) w4"
      obtain w4 where w4: "cache w4 = invalidate_user_cache (clock w) u (cache w1)" "db w4 = db w'" "clock w4 = clock w"
        and g: "(ud_new_weekly_used_usd x, w') = get_weekly_usage u (weekly_window_start (start_windows (clock w) r)) w4"
        using ex by blast
      have coh4: "coherent w4"
        by (rule coherent_write [OF locked_subscription_coherent [OF coh lk], where u = u])
          (use charge_frame [OF lk w'(1,3,2)] w' w4 locked_subscription_frame [OF lk] in simp_all)
      obtain ws where ws: "weekly_window_start (start_windows (clock w) r) = Some ws" "clock w < ws + weekly_len"
        by (rule start_windows_Some)
      have "ud_new_weekly_used_usd x = weekly_usage_spec (db w4) (clock w4) u (Some ws)"
        using get_weekly_usage_coherent(1) [OF coh4, of u "start_windows (clock w) r"] g w' w4 ws
        by (metis fst_conv fun_upd_same)
      then show ?thesis
        using Pair Inr c w' w4 ws
        by (auto simp: weekly_usage_spec_def calculate_weekly_usage_direct_def weekly_len_def WEEKLY_WINDOW_DAYS_def)
    qed
  qed
qed

lemma deduct_usage_exact_witness:
  "case deduct_usage numeric_10_6 ''ann'' ''openrouter'' 1 ''chat'' demo_details demo_world of
     (Inl e, w') \<Rightarrow> e \<in> {SubscriptionNotFound ''ann'', DoesNotExist, DatabaseError} \<and> db w' = db demo_world
   | (Inr res, w') \<Rightarrow>
       (\<exists>c ws. numeric_10_6 1 = Some c \<and>
          logs (db w') = logs (db demo_world) @ [make_log ''ann'' ''openrouter'' c ''chat'' demo_details demo_world] \<and>
          weekly_window_start (the (subs (db w') ''ann'')) = Some ws \<and>
          ud_new_weekly_used_usd res = window_usage (db w') ''ann'' ws (ws + days 7))"
  by (rule deduct_usage_exact [OF demo_coherent])

text \<open>The pre-flight check never denies a zero estimate, however far the user is over the
  limits: what remains is clamped at zero before it is compared. The quota status query, which
  checks a zero cost, therefore always reports \<^verbatim>\<open>allowed\<close>.\<close>

theorem zero_estimate_always_allowed:
  assumes "check_quota u 0 w = (Inr r, w')"
  shows "qc_allowed r \<and> qc_reason r = None"
proof -
  obtain so w1 where g: "get_or_create_subscription u w = (so, w1)" by force
  with assms obtain s where s: "so = Some s" by (cases so) (auto simp: check_quota_def)
  obtain wu w2 where gw: "get_weekly_usage u (weekly_window_start (fst s)) w1 = (wu, w2)" by force
  obtain su w3 where gs: "get_session_usage u (session_window_start (fst s)) w2 = (su, w3)" by force
  show ?thesis using assms unfolding check_quota_def g s option.case prod.case Let_def gw gs
    by (auto simp: max_def split: if_splits)
qed

text \<open>The witness: a user whose custom weekly limit is below what is already spent.\<close>

lemma zero_estimate_always_allowed_witness:
  "\<exists>w r. fst (check_quota ''ann'' 0 w) = Inr r \<and> qc_allowed r \<and> qc_weekly_limit_usd r < qc_weekly_used_usd r"
proof -
  define w where "w = demo_world\<lparr>db := put_sub ''ann'' (demo_row\<lparr>custom_weekly_limit_usd := Some (1 / 10)\<rparr>) demo_db\<rparr>"
  have coh: "coherent w" by (rule coherent_empty) (simp add: w_def demo_world_def)
  have spec: "\<exists>r. check_quota_spec (db w) (clock w) ''ann'' 0 = Inr r \<and> qc_weekly_limit_usd r < qc_weekly_used_usd r"
    using demo_windows
    by (simp add: w_def check_quota_spec_def subscription_spec_def active_sub_def load_sub_def plan_by_id_def
        effective_weekly_limit_def weekly_usage_spec_def window_simps calculate_weekly_usage_direct_def
        window_usage_def in_window_def demo_log_def)
  obtain res w' where run: "check_quota ''ann'' 0 w = (res, w')" by force
  then obtain r where r: "res = Inr r" "qc_weekly_limit_usd r < qc_weekly_used_usd r"
    using check_quota_coherent(1) [OF coh run] spec by auto
  then show ?thesis using zero_estimate_always_allowed [of "''ann''" w r w'] run by (metis fst_conv)
qed

text \<open>C39: A user whose subscription row was deactivated makes the locked charge raise the
  database's \<^verbatim>\<open>DoesNotExist\<close>, not the \<^verbatim>\<open>SubscriptionNotFoundException\<close> the
  documentation promises, while the pre-flight check still answers from the inactive row.\<close>

theorem inactive_subscription_breaks_the_charge:
  assumes "subs (db w) u = Some r" and "\<not> sub_is_active r" and "db_ok (db w)"
    and "get_default_plan (plans (db w)) \<noteq> None" and "coherent w"
  shows "fst (check_and_deduct q u service cost feature k w) = Inl DoesNotExist \<and>
         (\<exists>x. fst (check_quota u cost w) = Inr x)"
proof -
  obtain p where p: "load_sub (db w) u = Some (r, p)" using load_sub_total [OF assms(3,1)] by blast
  have none: "active_sub (db w) u = None" using p assms(2) by (simp add: active_sub_def)
  obtain d where d: "get_default_plan (plans (db w)) = Some d" using assms(4) by blast
  have "create_default_subscription u w = (Some (r, p), w)"
    using d assms(1) p by (simp add: create_default_subscription_def)
  then have "locked_subscription u w = (Inl DoesNotExist, w)"
    using none by (simp add: locked_subscription_def)
  moreover have "subscription_spec (db w) u = Some (r, p)"
    using none d assms(1) p by (simp add: subscription_spec_def)
  then have "\<exists>x. check_quota_spec (db w) (clock w) u cost = Inr x" by (simp add: check_quota_spec_def)
  ultimately show ?thesis
    using check_quota_coherent(1) [OF assms(5), of u cost]
    by (simp add: check_and_deduct_def atomic_def check_and_deduct_body_def) (metis prod.collapse)
qed

lemma inactive_subscription_breaks_the_charge_witness:
  "fst (check_and_deduct numeric_10_6 ''bob'' ''openrouter'' 1 ''chat'' demo_details demo_world) = Inl DoesNotExist"
proof -
  have ok: "db_ok (db demo_world)"
    by (auto simp: db_ok_def demo_db_def demo_world_def demo_row_def new_subscription_def split: if_splits)
  have default: "get_default_plan (plans (db demo_world)) \<noteq> None" by (simp add: get_default_plan_def)
  show ?thesis
    using inactive_subscription_breaks_the_charge [OF _ _ ok default demo_coherent, of "''bob''"
        "(new_subscription (free_tier 10))\<lparr>sub_is_active := False\<rparr>" numeric_10_6 "''openrouter''" 1 "''chat''" demo_details]
    by simp
qed

end
