(* ===== verification/Ledger_Properties.thy ===== *)
theory Ledger_Properties
  imports Quota_Properties
begin

text \<open>
  Properties of what the quota service keeps over time: the breakdowns of the summary, the history
  of the ledger and of the windows, the race between a charge and a concurrent reader, and
  the seeded plan table.
\<close>

section \<open>Breakdowns\<close>

lemma sum_list_single_key:
  fixes c :: rat
  shows "distinct vs \<Longrightarrow> sum_list (map (\<lambda>v. if k = v then c else 0) vs) = (if k \<in> set vs then c else 0)"
  by (induction vs) auto

lemma sum_rows_by_key:
  fixes f :: "'a \<Rightarrow> rat"
  assumes "distinct vs" "set (map key xs) \<subseteq> set vs"
  shows "sum_list (map (\<lambda>v. sum_rows f (\<lambda>x. key x = v) xs) vs) = sum_rows f (\<lambda>x. True) xs"
  using assms
proof (induction xs)
  case Nil
  then show ?case by (simp add: sum_rows_def)
next
  case (Cons x xs)
  have "sum_list (map (\<lambda>v. sum_rows f (\<lambda>y. key y = v) (x # xs)) vs) =
      sum_list (map (\<lambda>v. (if key x = v then f x else 0) + sum_rows f (\<lambda>y. key y = v) xs) vs)"
    by (rule arg_cong [of _ _ sum_list]) auto
  also have "\<dots> = sum_list (map (\<lambda>v. if key x = v then f x else 0) vs) + sum_rows f (\<lambda>x. True) xs"
    using Cons by (simp add: sum_list_addf)
  also have "sum_list (map (\<lambda>v. if key x = v then f x else 0) vs) = f x"
    using Cons.prems sum_list_single_key [of vs "key x" "f x"] by simp
  finally show ?case by simp
qed

lemma by_service_total:
  "sum_list (map (\<lambda>e. sb_used_usd (snd e)) (get_usage_by_service d u (Some s))) =
     sum_rows log_cost_usd (\<lambda>l. log_user l = u \<and> s \<le> log_timestamp l) (logs d)"
proof -
  let ?rows = "since u s (logs d)"
  have "sum_list (map (\<lambda>v. sum_rows log_cost_usd (\<lambda>l. log_service l = v) ?rows) (remdups (map log_service ?rows))) =
      sum_rows log_cost_usd (\<lambda>l. True) ?rows"
    by (rule sum_rows_by_key) simp_all
  then show ?thesis by (simp add: get_usage_by_service_def Let_def comp_def sum_rows_def since_def)
qed

lemma by_feature_total:
  "sum_list (map (\<lambda>e. fb_used_usd (snd e)) (get_usage_by_feature d u (Some s))) =
     sum_rows log_cost_usd (\<lambda>l. log_user l = u \<and> s \<le> log_timestamp l) (logs d)"
proof -
  let ?rows = "since u s (logs d)"
  have "sum_list (map (\<lambda>v. sum_rows log_cost_usd (\<lambda>l. log_feature l = v) ?rows) (remdups (map log_feature ?rows))) =
      sum_rows log_cost_usd (\<lambda>l. True) ?rows"
    by (rule sum_rows_by_key) simp_all
  then show ?thesis by (simp add: get_usage_by_feature_def Let_def comp_def sum_rows_def since_def)
qed

text \<open>With no row from the future, everything since the start of a running window is in it.\<close>

lemma open_window_usage:
  assumes "\<And>l. l \<in> set (logs d) \<Longrightarrow> log_timestamp l \<le> now" "now < s + weekly_len"
  shows "sum_rows log_cost_usd (\<lambda>l. log_user l = u \<and> s \<le> log_timestamp l) (logs d) =
     calculate_weekly_usage_direct d u s"
  unfolding calculate_weekly_usage_direct_def window_usage_def
  by (rule sum_rows_cong) (use assms in \<open>force simp: in_window_def\<close>)

text \<open>The parts of the summary, on the database alone.\<close>

lemma quota_info_parts:
  assumes coh: "coherent w" and sub: "subscription_spec (db w) u = Some s"
  shows "qi_weekly_used_usd (fst (get_user_quota_info u w)) =
           weekly_usage_spec (db w) (clock w) u (weekly_window_start (fst s)) \<and>
         qi_by_service (fst (get_user_quota_info u w)) = get_usage_by_service (db w) u
           (if is_weekly_window_active (clock w) (weekly_window_start (fst s)) then weekly_window_start (fst s) else None) \<and>
         qi_by_feature (fst (get_user_quota_info u w)) = get_usage_by_feature (db w) u
           (if is_weekly_window_active (clock w) (weekly_window_start (fst s)) then weekly_window_start (fst s) else None)"
proof -
  obtain so w1 where g: "get_or_create_subscription u w = (so, w1)" by force
  note gc = get_or_create_coherent [OF coh g]
  have so: "so = Some s" using gc(1) sub by simp
  have row1: "subs (db w1) u = Some (fst s)" using gc(6) so by blast
  let ?ws = "weekly_window_start (fst s)" and ?ss = "session_window_start (fst s)"
  obtain wu w2 where gw: "(if is_weekly_window_active (clock w1) ?ws then get_weekly_usage u ?ws w1 else (0, w1)) = (wu, w2)"
    by force
  obtain su w3 where gs: "(if is_session_window_active (clock w1) ?ss then get_session_usage u ?ss w2 else (0, w2)) = (su, w3)"
    by force
  have f: "logs (db w2) = logs (db w1)" "logs (db w3) = logs (db w2)"
    using gw gs get_weekly_usage_frame [of u ?ws w1] get_session_usage_frame [of u ?ss w2]
    by (auto split: if_splits)
  have "wu = weekly_usage_spec (db w1) (clock w1) u ?ws"
    using gw get_weekly_usage_coherent(1) [OF gc(2) row1]
    by (auto simp: weekly_usage_spec_def window_simps split: if_splits option.splits)
  then have wu: "wu = weekly_usage_spec (db w) (clock w) u ?ws"
    using usage_spec_logs(1) [OF gc(5)] gc(3) by simp
  have br: "get_usage_by_service (db w3) u x = get_usage_by_service (db w) u x"
    "get_usage_by_feature (db w3) u x = get_usage_by_feature (db w) u x" for x
    using f gc(5) by (simp_all add: get_usage_by_service_def get_usage_by_feature_def split: option.split)
  have "clock w1 = clock w" using gc(3) .
  then show ?thesis using wu br gw gs by (simp add: get_user_quota_info_def g so Let_def)
qed

text \<open>In the quota summary the breakdown by service and the breakdown by feature each add up
  exactly to the reported weekly usage: no charge is counted twice or lost between them, provided
  no ledger row is from the future and the cached totals are coherent.\<close>

theorem breakdowns_add_up:
  assumes "coherent w" and "\<And>l. l \<in> set (logs (db w)) \<Longrightarrow> log_timestamp l \<le> clock w"
  shows "let info = fst (get_user_quota_info u w) in
     sum_list (map (\<lambda>e. sb_used_usd (snd e)) (qi_by_service info)) = qi_weekly_used_usd info \<and>
     sum_list (map (\<lambda>e. fb_used_usd (snd e)) (qi_by_feature info)) = qi_weekly_used_usd info"
proof (cases "subscription_spec (db w) u")
  case None
  obtain so w1 where g: "get_or_create_subscription u w = (so, w1)" by force
  have "so = None" using get_or_create_coherent(1) [OF assms(1) g] None by simp
  then show ?thesis by (simp add: get_user_quota_info_def g no_quota_info_def)
next
  case (Some s)
  note parts = quota_info_parts [OF assms(1) Some]
  show ?thesis
  proof (cases "weekly_window_start (fst s)")
    case None
    then show ?thesis using parts
      by (simp add: weekly_usage_spec_def get_usage_by_service_def get_usage_by_feature_def Let_def)
  next
    case (Some ws)
    then show ?thesis using parts open_window_usage [of "db w" "clock w" ws u, OF assms(2)]
      by (cases "clock w < ws + weekly_len")
        (simp_all add: Let_def window_simps weekly_usage_spec_def by_service_total by_feature_total,
         simp_all add: get_usage_by_service_def get_usage_by_feature_def)
  qed
qed

lemma breakdowns_add_up_witness:
  "let info = fst (get_user_quota_info ''ann'' demo_world) in
     qi_weekly_used_usd info = 1 / 4 \<and> qi_by_service info \<noteq> [] \<and>
     sum_list (map (\<lambda>e. sb_used_usd (snd e)) (qi_by_service info)) = 1 / 4"
proof -
  have past: "\<And>l. l \<in> set (logs (db demo_world)) \<Longrightarrow> log_timestamp l \<le> clock demo_world"
    by (simp add: demo_log_def seconds_def)
  have "subscription_spec (db demo_world) ''ann'' = Some (demo_row, free_tier 10)" by (simp add: subscription_spec_def)
  from quota_info_parts [OF demo_coherent this] breakdowns_add_up [OF demo_coherent past, of "''ann''"] demo_windows
  show ?thesis
    by (simp add: Let_def weekly_usage_spec_def window_simps get_usage_by_service_def since_def demo_log_def)
qed

section \<open>History of the ledger and of the windows\<close>

definition ledger_ok :: "world \<Rightarrow> bool" where
  "ledger_ok w \<longleftrightarrow> sorted (map log_timestamp (logs (db w))) \<and>
     (\<forall>l\<in>set (logs (db w)). log_timestamp l \<le> clock w \<and> log_id l < next_log w) \<and>
     distinct (map log_id (logs (db w)))"

text \<open>A window start is left alone, or moved after its window is over, never into the future.\<close>

definition window_kept :: "timedelta \<Rightarrow> datetime \<Rightarrow> datetime option \<Rightarrow> datetime option \<Rightarrow> bool" where
  "window_kept len now start start' \<longleftrightarrow>
     (\<forall>s. start = Some s \<longrightarrow> (\<exists>s'. start' = Some s' \<and> (s' = s \<or> s + len \<le> s' \<and> s' \<le> now)))"

definition rows_kept :: "world \<Rightarrow> world \<Rightarrow> bool" where
  "rows_kept w w' \<longleftrightarrow> (\<forall>u r. subs (db w) u = Some r \<longrightarrow> (\<exists>r'. subs (db w') u = Some r' \<and>
     window_kept weekly_len (clock w') (weekly_window_start r) (weekly_window_start r') \<and>
     window_kept session_len (clock w') (session_window_start r) (session_window_start r')))"

lemma window_kept_trans:
  assumes "window_kept len t a b" "window_kept len t' b c" "t \<le> t'" "0 < len"
  shows "window_kept len t' a c"
  unfolding window_kept_def
proof (intro allI impI)
  fix s
  assume "a = Some s"
  then obtain s1 where s1: "b = Some s1" "s1 = s \<or> s + len \<le> s1 \<and> s1 \<le> t"
    using assms(1) unfolding window_kept_def by blast
  then obtain s2 where "c = Some s2" "s2 = s1 \<or> s1 + len \<le> s2 \<and> s2 \<le> t'"
    using assms(2) unfolding window_kept_def by blast
  with s1 assms(3,4) show "\<exists>s'. c = Some s' \<and> (s' = s \<or> s + len \<le> s' \<and> s' \<le> t')" by auto
qed

lemma window_kept_refl [simp]: "window_kept len t a a"
  by (simp add: window_kept_def)

lemma window_kept_start:
  "window_kept weekly_len now (weekly_window_start r) (weekly_window_start (start_windows now r))"
  "window_kept session_len now (session_window_start r) (session_window_start (start_windows now r))"
  by (auto simp: window_kept_def start_windows_starts window_simps)

lemma rows_kept_trans:
  assumes "rows_kept w w'" "rows_kept w' w''" "clock w' \<le> clock w''"
  shows "rows_kept w w''"
  unfolding rows_kept_def
proof (intro allI impI)
  fix u r
  assume "subs (db w) u = Some r"
  then obtain r1 where r1: "subs (db w') u = Some r1"
      "window_kept weekly_len (clock w') (weekly_window_start r) (weekly_window_start r1)"
      "window_kept session_len (clock w') (session_window_start r) (session_window_start r1)"
    using assms(1) unfolding rows_kept_def by blast
  then obtain r2 where r2: "subs (db w'') u = Some r2"
      "window_kept weekly_len (clock w'') (weekly_window_start r1) (weekly_window_start r2)"
      "window_kept session_len (clock w'') (session_window_start r1) (session_window_start r2)"
    using assms(2) unfolding rows_kept_def by blast
  from window_kept_trans [OF r1(2) r2(2) assms(3)] window_kept_trans [OF r1(3) r2(3) assms(3)] r2(1)
  show "\<exists>r'. subs (db w'') u = Some r' \<and>
     window_kept weekly_len (clock w'') (weekly_window_start r) (weekly_window_start r') \<and>
     window_kept session_len (clock w'') (session_window_start r) (session_window_start r')" by simp
qed

lemma service_step_history:
  assumes "service_step q w w'"
  shows "clock w \<le> clock w' \<and> rows_kept w w' \<and> (ledger_ok w \<longrightarrow> ledger_ok w') \<and>
     (\<exists>ls. logs (db w') = logs (db w) @ ls)"
  using assms
proof (cases rule: service_step_cases)
  case rest
  then show ?thesis by (auto simp: rows_kept_def ledger_ok_def)
next
  case (row u)
  then show ?thesis by (auto simp: default_row_only_def rows_kept_def ledger_ok_def)
next
  case (usage u c)
  then obtain service feature k r where
    l: "logs (db w') = logs (db w) @ [make_log u service c feature k w]" "clock w' = clock w"
      "next_log w' = Suc (next_log w)"
    and r: "subs (db w) u = Some r \<or> subs (db w) u = None"
      "subs (db w') = (subs (db w))(u \<mapsto> start_windows (clock w) r)"
    unfolding recorded_def by blast
  have "rows_kept w w'"
    using r l(2) window_kept_start [of "clock w"] unfolding rows_kept_def by auto
  moreover have "ledger_ok w \<longrightarrow> ledger_ok w'"
    using l by (force simp: ledger_ok_def sorted_append make_log_def)
  ultimately show ?thesis using l by simp
qed

lemma service_run_history:
  "service_run q w w' \<Longrightarrow> clock w \<le> clock w' \<and> rows_kept w w' \<and> (ledger_ok w \<longrightarrow> ledger_ok w') \<and>
     (\<exists>ls. logs (db w') = logs (db w) @ ls)"
proof (induction rule: service_run.induct)
  case (refl w)
  then show ?case by (auto simp: rows_kept_def)
next
  case (step w w' w'')
  then show ?case using service_step_history [OF step.hyps(2)] rows_kept_trans
    by (metis append_assoc order_trans)
qed

text \<open>Whatever the service does, the ledger is append-only, its rows stay in time order with
  distinct keys and none from the future; and a user's weekly or session window, once started,
  keeps its start until the full seven days or three hours are over, so a window can neither be
  reset early nor be extended by using the service.\<close>

theorem ledger_and_windows_history:
  assumes "service_run q w w'" and "ledger_ok w"
  shows "(\<exists>ls. logs (db w') = logs (db w) @ ls) \<and>
     sorted (map log_timestamp (logs (db w'))) \<and> distinct (map log_id (logs (db w'))) \<and>
     (\<forall>l\<in>set (logs (db w')). log_timestamp l \<le> clock w') \<and>
     (\<forall>u r s. subs (db w) u = Some r \<longrightarrow> weekly_window_start r = Some s \<longrightarrow>
        (\<exists>r' s'. subs (db w') u = Some r' \<and> weekly_window_start r' = Some s' \<and>
           (s' = s \<or> s + days 7 \<le> s' \<and> s' \<le> clock w'))) \<and>
     (\<forall>u r s. subs (db w) u = Some r \<longrightarrow> session_window_start r = Some s \<longrightarrow>
        (\<exists>r' s'. subs (db w') u = Some r' \<and> session_window_start r' = Some s' \<and>
           (s' = s \<or> s + hours 3 \<le> s' \<and> s' \<le> clock w')))"
proof -
  have len: "weekly_len = days 7" "session_len = hours 3"
    by (simp_all add: weekly_len_def session_len_def WEEKLY_WINDOW_DAYS_def SESSION_WINDOW_HOURS_def)
  note h = service_run_history [OF assms(1)]
  from h assms(2) have ok: "ledger_ok w'" by blast
  have rows: "rows_kept w w'" using h by blast
  have "\<exists>r' s'. subs (db w') u = Some r' \<and> weekly_window_start r' = Some s' \<and>
      (s' = s \<or> s + days 7 \<le> s' \<and> s' \<le> clock w')"
    if "subs (db w) u = Some r" "weekly_window_start r = Some s" for u r s
    using rows that unfolding rows_kept_def window_kept_def len by fast
  moreover have "\<exists>r' s'. subs (db w') u = Some r' \<and> session_window_start r' = Some s' \<and>
      (s' = s \<or> s + hours 3 \<le> s' \<and> s' \<le> clock w')"
    if "subs (db w) u = Some r" "session_window_start r = Some s" for u r s
    using rows that unfolding rows_kept_def window_kept_def len by fast
  ultimately show ?thesis using h ok unfolding ledger_ok_def by blast
qed

text \<open>The demo user's charge, seen as a run of the service.\<close>

lemma demo_service_run:
  "\<exists>w'. service_run numeric_10_6 fresh_demo w' \<and> length (logs (db w')) = 1"
proof -
  obtain w' res where c: "check_and_deduct numeric_10_6 ''ann'' ''openrouter'' (1 / 2) ''chat'' demo_details fresh_demo
      = (Inr res, w')" using demo_charge_run by blast
  have "service_run numeric_10_6 fresh_demo w'"
    by (rule service_run.step [OF service_run.refl service_step.quota [OF quota_step.charge [OF c]]])
  moreover have "length (logs (db w')) = 1"
    using check_and_deduct_recorded [OF c] by (auto simp: recorded_def fresh_demo_def demo_db_def)
  ultimately show ?thesis by blast
qed

lemma ledger_and_windows_history_witness:
  "\<exists>w'::world. length (logs (db w')) = 1 \<and> sorted (map log_timestamp (logs (db w'))) \<and>
     (\<exists>r' s'. subs (db w') ''ann'' = Some r' \<and> weekly_window_start r' = Some s' \<and>
        (s' = demo_now - seconds 3600 \<or> demo_now - seconds 3600 + days 7 \<le> s' \<and> s' \<le> clock w'))"
proof -
  obtain w' where run: "service_run numeric_10_6 fresh_demo w'" and len: "length (logs (db w')) = 1"
    using demo_service_run by blast
  have "ledger_ok fresh_demo" by (simp add: ledger_ok_def fresh_demo_def)
  from ledger_and_windows_history [OF run this] have
    "sorted (map log_timestamp (logs (db w')))"
    "\<And>r s. subs (db fresh_demo) ''ann'' = Some r \<Longrightarrow> weekly_window_start r = Some s \<Longrightarrow>
        \<exists>r' s'. subs (db w') ''ann'' = Some r' \<and> weekly_window_start r' = Some s' \<and>
           (s' = s \<or> s + days 7 \<le> s' \<and> s' \<le> clock w')" by blast+
  moreover have "subs (db fresh_demo) ''ann'' = Some demo_row" by (simp add: fresh_demo_def)
  ultimately show ?thesis using len demo_row_fields(3) by (intro exI [of _ w'] conjI)
qed

section \<open>The race between a charge and a reader\<close>

text \<open>\<open>check_and_deduct\<close> invalidates the cache inside its transaction.  Here another request of
  the same user runs the pre-flight check after the invalidation and before the commit: it sees
  the shared cache but the committed database.\<close>

definition charge_read_commit ::
  "(usd \<Rightarrow> usd option) \<Rightarrow> uid \<Rightarrow> string \<Rightarrow> usd \<Rightarrow> string \<Rightarrow> usage_details \<Rightarrow> usd \<Rightarrow> world \<Rightarrow>
   (exn + usage_deduct_result) \<times> (exn + quota_check_result) \<times> world" where
  "charge_read_commit q u service cost feature k estimated w =
     (let (res, w1) = check_and_deduct q u service cost feature k w;
          (chk, w2) = check_quota u estimated (w1\<lparr>db := db w\<rparr>)
      in (res, chk, w2\<lparr>db := db w1\<rparr>))"

lemma get_session_usage_cache:
  "\<exists>c. snd (get_session_usage u x w) = w\<lparr>cache := c\<rparr> \<and>
     (\<forall>k. (\<forall>v. k \<noteq> Usage_Key Session_Usage u v) \<longrightarrow> c k = cache w k)"
  by (auto simp: get_session_usage_def read_through_def cache_set_def get_cache_key_def Let_def
      intro: exI [of _ "cache w"] split: option.splits)

text \<open>A check whose subscription and weekly total both miss the cache leaves them there for five
  minutes.\<close>

lemma check_quota_fills_cache:
  assumes act: "active_sub (db w) u = Some (r, p)" and ws: "weekly_window_start r = Some ws"
    and now: "clock w < ws + weekly_len"
    and miss: "cache_get (clock w) (Subscription_Key u) (cache w) = None"
      "cache_get (clock w) (get_cache_key (clock w) u Weekly_Usage (cache w)) (cache w) = None"
    and run: "check_quota u c w = (res, w')"
  shows "clock w' = clock w \<and>
    cache w' (Subscription_Key u) = Some (CSub (r, p), Some (clock w + CACHE_TTL)) \<and>
    cache w' (get_cache_key (clock w) u Weekly_Usage (cache w)) =
      Some (CUsd (calculate_weekly_usage_direct (db w) u ws), Some (clock w + CACHE_TTL)) \<and>
    cache w' (Version_Key u) = cache w (Version_Key u)"
proof -
  let ?t = "Some (clock w + CACHE_TTL)" and ?k = "get_cache_key (clock w) u Weekly_Usage (cache w)"
  let ?c1 = "(cache w)(Subscription_Key u \<mapsto> (CSub (r, p), ?t))"
  let ?v = "CUsd (calculate_weekly_usage_direct (db w) u ws)"
  have key: "get_cache_key (clock w) u Weekly_Usage ?c1 = ?k" "?k \<noteq> Subscription_Key u" "?k \<noteq> Version_Key u"
    by (simp_all add: get_cache_key_def get_cache_version_def cache_get_def)
  have missk: "cache_get (clock w) ?k ?c1 = None"
    using miss(2) key by (simp add: cache_get_def)
  have g: "get_or_create_subscription u w = (Some (r, p), w\<lparr>cache := ?c1\<rparr>)"
    using miss(1) act by (simp add: get_or_create_subscription_def get_subscription_cached_def read_through_def
        cache_set_def sub_of_def sub_cache_value_def Let_def)
  have gw: "get_weekly_usage u (Some ws) (w\<lparr>cache := ?c1\<rparr>) =
      (calculate_weekly_usage_direct (db w) u ws, w\<lparr>cache := ?c1(?k \<mapsto> (?v, ?t))\<rparr>)"
    using missk now key(1)
    by (simp add: get_weekly_usage_def read_through_def cache_set_def usd_of_def Let_def)
  obtain su w3 where gs: "get_session_usage u (session_window_start r) (w\<lparr>cache := ?c1(?k \<mapsto> (?v, ?t))\<rparr>) = (su, w3)"
    by force
  have "w' = w3"
    using run unfolding check_quota_def g option.case prod.case fst_conv ws gw gs Let_def
    by (simp only: prod.inject split: if_splits)
  moreover obtain c3 where "w3 = w\<lparr>cache := c3\<rparr>"
      "\<And>k. (\<forall>v. k \<noteq> Usage_Key Session_Usage u v) \<Longrightarrow> c3 k = (?c1(?k \<mapsto> (?v, ?t))) k"
    using get_session_usage_cache [of u "session_window_start r" "w\<lparr>cache := ?c1(?k \<mapsto> (?v, ?t))\<rparr>"] gs by auto
  ultimately show ?thesis using key(2,3) by (simp add: get_cache_key_def)
qed

text \<open>While both entries live, a check reports the cached total, whatever the database says.\<close>

lemma check_quota_serves_cache:
  assumes "cache w (Subscription_Key u) = Some (CSub (r, p), Some e)"
    and "cache w (get_cache_key (clock w) u Weekly_Usage (cache w)) = Some (CUsd x, Some e)"
    and "weekly_window_start r = Some ws" and "clock w < ws + weekly_len" and "clock w < e"
  shows "\<exists>res. fst (check_quota u c w) = Inr res \<and> qc_weekly_used_usd res = x"
proof -
  have g: "get_or_create_subscription u w = (Some (r, p), w)"
    using assms by (simp add: get_or_create_subscription_def get_subscription_cached_def read_through_def
        cache_get_def sub_of_def Let_def)
  have gw: "get_weekly_usage u (Some ws) w = (x, w)"
    using assms by (simp add: get_weekly_usage_def read_through_def cache_get_def usd_of_def Let_def)
  show ?thesis
    by (simp add: check_quota_def g assms(3) gw Let_def split: prod.split)
qed

lemma charge_invalidates:
  assumes act: "active_sub (db w) u = Some (r, p)"
    and run: "check_and_deduct q u service cost feature k w = (Inr res, w1)"
  shows "cache w1 = invalidate_user_cache (clock w) u (cache w)" "clock w1 = clock w"
    "\<exists>c. q cost = Some c \<and> logs (db w1) = logs (db w) @ [make_log u service c feature k w]"
proof -
  have lk: "locked_subscription u w = (Inr (r, p), w)" using act by (simp add: locked_subscription_def)
  have "cache w1 = invalidate_user_cache (clock w) u (cache w) \<and> clock w1 = clock w \<and>
      (\<exists>c. q cost = Some c \<and> logs (db w1) = logs (db w) @ [make_log u service c feature k w])"
    by (rule check_and_deduct_Inr [OF run]) (use lk in auto)
  then show "cache w1 = invalidate_user_cache (clock w) u (cache w)" "clock w1 = clock w"
    "\<exists>c. q cost = Some c \<and> logs (db w1) = logs (db w) @ [make_log u service c feature k w]" by blast+
qed

text \<open>The invalidation inside the transaction leaves a race. If, in a running weekly window,
  a pre-flight check of the same user falls between a successful charge's invalidation and its
  commit, the total without the charge is cached again: for the next five minutes the pre-flight
  check reports a weekly usage that misses exactly the stored cost of that charge.\<close>

theorem charge_race_leaves_stale_total:
  assumes "coherent w" and "active_sub (db w) u = Some (r, p)" and "weekly_window_start r = Some ws"
    and "charge_read_commit q u service cost feature k estimated w = (Inr res, chk, w')"
    and "clock w \<le> t" and "t < clock w + seconds 300" and "t < ws + days 7" and "ws \<le> clock w"
  shows "\<exists>c stale. q cost = Some c \<and>
     fst (check_quota u estimated' (w'\<lparr>clock := t\<rparr>)) = Inr stale \<and>
     window_usage (db w') u ws (ws + days 7) = qc_weekly_used_usd stale + c"
proof -
  obtain w1 w2 where ch: "check_and_deduct q u service cost feature k w = (Inr res, w1)"
    and rd: "check_quota u estimated (w1\<lparr>db := db w\<rparr>) = (chk, w2)" and w': "w' = w2\<lparr>db := db w1\<rparr>"
    using assms(4) by (auto simp: charge_read_commit_def Let_def split: prod.splits)
  note inv = charge_invalidates [OF assms(2) ch]
  note ok = coherentD(1) [OF assms(1)]
  have len: "weekly_len = days 7" by (simp add: weekly_len_def WEEKLY_WINDOW_DAYS_def)
  let ?w = "w1\<lparr>db := db w\<rparr>" and ?x = "calculate_weekly_usage_direct (db w) u ws"
  have f: "clock w2 = clock w"
      "cache w2 (Subscription_Key u) = Some (CSub (r, p), Some (clock w + CACHE_TTL))"
      "cache w2 (get_cache_key (clock w) u Weekly_Usage (cache w1)) = Some (CUsd ?x, Some (clock w + CACHE_TTL))"
      "cache w2 (Version_Key u) = cache w1 (Version_Key u)"
    using check_quota_fills_cache [OF _ assms(3) _ _ _ rd, of p] assms(2,5,7) inv
      invalidate_subscription_miss [OF ok] invalidate_usage_miss [OF ok] by (simp_all add: len)
  have ok1: "versions_ok (cache w1)" using versions_ok_invalidate [OF ok] inv(1) by simp
  have "get_cache_version t u (cache w2) = get_cache_version t u (cache w1)"
    using f(4) by (simp add: get_cache_version_def cache_get_def)
  then have "get_cache_key t u Weekly_Usage (cache w2) = get_cache_key (clock w) u Weekly_Usage (cache w1)"
    using versions_ok_version(1) [OF ok1] by (simp add: get_cache_key_def)
  then have "\<exists>stale. fst (check_quota u estimated' (w'\<lparr>clock := t\<rparr>)) = Inr stale \<and> qc_weekly_used_usd stale = ?x"
    using f(2,3) assms(3,6,7)
    by (intro check_quota_serves_cache [where r = r and p = p and ws = ws and e = "clock w + CACHE_TTL"])
      (simp_all add: w' len CACHE_TTL_def)
  moreover obtain c where c: "q cost = Some c" "logs (db w1) = logs (db w) @ [make_log u service c feature k w]"
    using inv(3) by blast
  moreover have "window_usage (db w') u ws (ws + days 7) = ?x + c"
    using c(2) assms(5,7,8)
    by (simp add: w' calculate_weekly_usage_direct_def window_usage_def len in_window_def make_log_def)
  ultimately show ?thesis by metis
qed

lemma demo_charge_ok:
  "\<exists>res w1. check_and_deduct numeric_10_6 ''ann'' ''openrouter'' (1 / 4) ''chat'' demo_details demo_world = (Inr res, w1)"
proof -
  have "calculate_weekly_usage_direct (put_sub ''ann'' demo_row demo_db) ''ann'' (demo_now - seconds 3600) = 1 / 4"
    "calculate_session_usage_direct (put_sub ''ann'' demo_row demo_db) ''ann'' (demo_now - seconds 3600) = 1 / 4"
    using demo_usage by (simp_all add: calculate_weekly_usage_direct_def calculate_session_usage_direct_def
        window_usage_def)
  then show ?thesis
    by (simp add: check_and_deduct_def atomic_def check_and_deduct_body_def locked_subscription_def Let_def
        create_log_def numeric_10_6_def)
qed

lemma charge_race_leaves_stale_total_witness:
  "\<exists>res chk w' c stale.
     charge_read_commit numeric_10_6 ''ann'' ''openrouter'' (1 / 4) ''chat'' demo_details 0 demo_world = (Inr res, chk, w') \<and>
     numeric_10_6 (1 / 4) = Some c \<and> fst (check_quota ''ann'' 0 (w'\<lparr>clock := demo_now + seconds 60\<rparr>)) = Inr stale \<and>
     window_usage (db w') ''ann'' (demo_now - seconds 3600) (demo_now - seconds 3600 + days 7) = qc_weekly_used_usd stale + c"
proof -
  obtain res w1 where "check_and_deduct numeric_10_6 ''ann'' ''openrouter'' (1 / 4) ''chat'' demo_details demo_world
      = (Inr res, w1)" using demo_charge_ok by blast
  then obtain chk w' where race:
    "charge_read_commit numeric_10_6 ''ann'' ''openrouter'' (1 / 4) ''chat'' demo_details 0 demo_world = (Inr res, chk, w')"
    by (cases "check_quota ''ann'' 0 (w1\<lparr>db := demo_db\<rparr>)") (simp add: charge_read_commit_def Let_def)
  have "\<exists>c stale. numeric_10_6 (1 / 4) = Some c \<and>
     fst (check_quota ''ann'' 0 (w'\<lparr>clock := demo_now + seconds 60\<rparr>)) = Inr stale \<and>
     window_usage (db w') ''ann'' (demo_now - seconds 3600) (demo_now - seconds 3600 + days 7) = qc_weekly_used_usd stale + c"
    by (rule charge_race_leaves_stale_total [OF demo_coherent _ demo_row_fields(3) race])
      (simp_all, simp_all add: seconds_def days_def)
  with race show ?thesis by blast
qed

section \<open>The seeded plan table\<close>

lemma seeded_fixpoint:
  assumes "t \<in> set TIER_DEFINITIONS" "fst t \<in> plan_name ` set ps"
    and "\<And>p. p \<in> set ps \<Longrightarrow> plan_name p = fst t \<Longrightarrow> p = snd t (plan_id p)"
  shows "upsert_tier t ps = ps"
  using assms(2,3) by (auto simp: upsert_tier_def intro!: map_idI)

lemma seed_tiers_idem: "seed_tiers (seed_tiers ps) = seed_tiers ps"
proof -
  let ?s = "seed_tiers ps"
  note row = seeded_row [of _ ps]
  have names: "''free'' \<in> plan_name ` set ?s" "''plus'' \<in> plan_name ` set ?s" "''pro'' \<in> plan_name ` set ?s"
    using seeded_names [of ps] by auto
  have "drop_other_defaults ?s = ?s"
    unfolding drop_other_defaults_def using row(4) by (intro map_idI) auto
  moreover have "upsert_tier (''free'', free_tier) ?s = ?s" "upsert_tier (''plus'', plus_tier) ?s = ?s"
    "upsert_tier (''pro'', pro_tier) ?s = ?s"
    using names row(1-3) by (auto intro!: seeded_fixpoint simp: TIER_DEFINITIONS_def)
  moreover have "retire_enterprise ?s = ?s"
    unfolding retire_enterprise_def using row(4,5) by (intro map_idI) auto
  ultimately show ?thesis by (simp add: seed_tiers_def [of ?s] TIER_DEFINITIONS_def)
qed

text \<open>Seeding the tiers repairs any plan table: afterwards exactly one plan is a default,
  it is the Free tier and it is the plan a new user gets; keys and names that were unique stay
  unique; and seeding again changes nothing.\<close>

theorem seeding_is_idempotent_with_one_default:
  assumes "distinct (map plan_id ps) \<and> distinct (map plan_name ps)"
  shows "seed_tiers (seed_tiers ps) = seed_tiers ps \<and>
     distinct (map plan_id (seed_tiers ps)) \<and> distinct (map plan_name (seed_tiers ps)) \<and>
     (\<exists>i. get_default_plan (seed_tiers ps) = Some (free_tier i) \<and>
        (\<forall>p\<in>set (seed_tiers ps). plan_is_default p \<longrightarrow> p = free_tier i))"
proof -
  let ?s = "seed_tiers ps"
  have keys: "keys_ok ?s" using assms by (intro seed_tiers_keys) (simp add: keys_ok_def)
  obtain f where f: "f \<in> set ?s" "plan_name f = ''free''" using seeded_names [of ps] by auto
  have tier: "f = free_tier (plan_id f)" using seeded_row(1) f by blast
  have only: "p = f" if "p \<in> set ?s" "plan_is_default p" for p
    using seeded_row(4) [OF that(1)] that f keys unfolding keys_ok_def distinct_map by (metis inj_onD)
  have "get_default_plan ?s \<noteq> None"
    using f tier tier_flags by (auto simp: get_default_plan_def filter_empty_conv) (metis tier_flags(1,4))
  then obtain d where d: "get_default_plan ?s = Some d" by blast
  then have "d = f" using get_default_plan_spec only by blast
  then show ?thesis using d only tier keys seed_tiers_idem unfolding keys_ok_def by metis
qed

lemma seeding_is_idempotent_with_one_default_witness:
  "\<exists>i. get_default_plan (seed_tiers [(pro_tier 4)\<lparr>plan_is_default := True\<rparr>]) = Some (free_tier i)"
  using seeding_is_idempotent_with_one_default [of "[(pro_tier 4)\<lparr>plan_is_default := True\<rparr>]"] by auto

end
