(* ===== verification/Billing_Properties.thy ===== *)
theory Billing_Properties
  imports Billing_Service Ledger_Properties
begin

text \<open>The properties of pricing, of the feature gates, of recording and of the retry queue.\<close>

section \<open>Prices\<close>

text \<open>On a cache miss the price lookup answers the right row: active, in force now, for the
  service; the most recent one for the given model if the model has a price in force, otherwise
  the most recent service-wide one; and \<^verbatim>\<open>None\<close> only if there is neither.\<close>

theorem price_in_force_applies:
  assumes "cache_get (clock w) (Pricing_Key service (opt_str_or m ''default'')) (cache w) = None"
  defines "own \<equiv> truthy_str m \<and> (\<exists>p\<in>set (prices (db w)). in_force (clock w) service (the m) p)"
  shows "case fst (get_pricing_from_db service m w) of
      Some p \<Rightarrow> p \<in> set (prices (db w)) \<and> in_force (clock w) service (if own then the m else []) p \<and>
        (\<forall>p'\<in>set (prices (db w)). in_force (clock w) service (if own then the m else []) p' \<longrightarrow>
           effective_from p' \<le> effective_from p)
    | None \<Rightarrow> \<not> own \<and> (\<forall>p\<in>set (prices (db w)). \<not> in_force (clock w) service [] p)"
proof (cases own)
  case True
  then obtain p where "latest_price (clock w) service (the m) (prices (db w)) = Some p"
    unfolding own_def using latest_price_None by fast
  then show ?thesis
    using True latest_price_Some [of "clock w" service "the m" "prices (db w)" p]
    by (simp add: get_pricing_miss [OF assms(1)] lookup_price_def own_def)
next
  case False
  then have "truthy_str m \<Longrightarrow> latest_price (clock w) service (the m) (prices (db w)) = None"
    unfolding own_def latest_price_None by blast
  then have "lookup_price (db w) (clock w) service m = latest_price (clock w) service [] (prices (db w))"
    by (simp add: lookup_price_def)
  then show ?thesis
    using False latest_price_Some [of "clock w" service "[]" "prices (db w)"] latest_price_None
    by (fastforce simp: get_pricing_miss [OF assms(1)] split: option.split)
qed

definition demo_price :: "string \<Rightarrow> usd \<Rightarrow> service_pricing" where
  "demo_price m c = \<lparr>price_service = ''openai_tts'', price_model_id = m, price_per_1m_input_tokens = None,
     price_per_1m_output_tokens = None, price_per_1k_chars = Some c, price_per_minute = None,
     price_per_request = None, effective_from = 0, effective_until = None, price_is_active = True\<rparr>"

definition priced_demo :: world where
  "priced_demo = demo_world\<lparr>db := demo_db\<lparr>prices := [demo_price [] 0, demo_price ''tts-1'' (2 / 100)]\<rparr>\<rparr>"

lemma priced_demo_fields [simp]:
  "cache priced_demo = Map.empty" "clock priced_demo = demo_now"
  "prices (db priced_demo) = [demo_price [] 0, demo_price ''tts-1'' (2 / 100)]"
  by (simp_all add: priced_demo_def)

lemma priced_demo_force:
  "in_force demo_now ''openai_tts'' ''tts-1'' (demo_price ''tts-1'' c)"
  "in_force demo_now ''openai_tts'' [] (demo_price [] c)"
  by (simp_all add: in_force_def demo_price_def demo_now_def seconds_def)

lemma price_in_force_applies_witness:
  "\<exists>p. fst (get_pricing_from_db ''openai_tts'' (Some ''tts-1'') priced_demo) = Some p \<and> price_model_id p = ''tts-1''"
  using price_in_force_applies [of priced_demo "''openai_tts''" "Some ''tts-1''"] priced_demo_force
  by (auto simp: cache_get_def in_force_def split: option.splits)

lemma abs_sum_close: "\<bar>a - x\<bar> \<le> e \<Longrightarrow> \<bar>b - y\<bar> \<le> e \<Longrightarrow> \<bar>a + b - (x + y)\<bar> \<le> 2 * (e::rat)"
  using abs_triangle_ineq [of "a - x" "b - y"] by (simp add: algebra_simps)

text \<open>With prices from the catalogue, the cost of an OpenRouter call is never negative and
  differs from the exact price of its tokens by at most one part in 100 million of a dollar
  (two roundings to eight decimals); with an unreadable catalogue it is the documented
  fallback rate of one and two cents per thousand tokens.\<close>

theorem openrouter_cost_accurate:
  assumes "0 \<le> pt" and "0 \<le> ct" and "cache_get (clock w) (Catalog_Key m) (cache w) = None"
    and "\<And>p c. catalog (base_model_id m) = Inr (Some (Some p, Some c)) \<Longrightarrow> 0 \<le> p \<and> 0 \<le> c"
  shows "let cost = fst (calculate_openrouter_cost catalog m pt ct w) in
     0 \<le> cost \<and>
     (\<forall>p c. catalog (base_model_id m) = Inr (Some (Some p, Some c)) \<longrightarrow>
        \<bar>cost - (of_int pt * p + of_int ct * c) / 1000\<bar> \<le> 1 / 100000000) \<and>
     (\<forall>e. catalog (base_model_id m) = Inl e \<longrightarrow> cost = (of_int pt * (1 / 100) + of_int ct * (2 / 100)) / 1000)"
proof -
  have quant: "0 \<le> quantize8 (of_int pt * p / 1000) + quantize8 (of_int ct * c / 1000)"
    "\<bar>quantize8 (of_int pt * p / 1000) + quantize8 (of_int ct * c / 1000) - (of_int pt * p + of_int ct * c) / 1000\<bar>
       \<le> 1 / 100000000" if "0 \<le> p" "0 \<le> c" for p c :: rat
    using that assms(1,2) quantize8_nonneg [of "of_int pt * p / 1000"] quantize8_nonneg [of "of_int ct * c / 1000"]
      abs_sum_close [OF quantize8_close [of "of_int pt * p / 1000"] quantize8_close [of "of_int ct * c / 1000"]]
    by (simp_all add: add_divide_distrib)
  show ?thesis
  proof (cases "catalog (base_model_id m)")
    case (Inl e)
    then show ?thesis using assms
      by (simp add: calculate_openrouter_cost_def estimate_cost_detailed_def get_model_pricing_def add_divide_distrib)
  next
    case (Inr r)
    have dflt: "0 \<le> quantize8 (of_int pt / 100000) + quantize8 (of_int ct / 50000)"
      using quantize8_nonneg [of "of_int pt / 100000"] quantize8_nonneg [of "of_int ct / 50000"] assms(1,2) by simp
    consider (none) "r = None" | (both) p c where "r = Some (Some p, Some c)"
      | (some) x y where "r = Some (x, y)" "x = None \<or> y = None"
      by (metis not_None_eq surj_pair)
    then show ?thesis
    proof cases
      case (both p c)
      then have "0 \<le> p" "0 \<le> c" using assms(4) Inr by blast+
      from quant [OF this] both Inr assms(3) show ?thesis
        by (simp add: Let_def calculate_openrouter_cost_def estimate_cost_detailed_def get_model_pricing_def
            PRICE_STORAGE_UNIT_def)
    next
      case (some x y)
      then show ?thesis using Inr assms(3) dflt
        by (cases x; cases y)
          (simp_all add: Let_def calculate_openrouter_cost_def estimate_cost_detailed_def get_model_pricing_def
            PRICE_STORAGE_UNIT_def)
    next
      case none
      then show ?thesis using Inr assms(3) dflt
        by (simp add: Let_def calculate_openrouter_cost_def estimate_cost_detailed_def get_model_pricing_def
            PRICE_STORAGE_UNIT_def)
    qed
  qed
qed

lemma openrouter_cost_accurate_witness:
  "\<bar>fst (calculate_openrouter_cost (\<lambda>_. Inr (Some (Some (3), Some (15)))) ''a/b:free'' 1000 10 demo_world)
     - (1000 * (3) + 10 * (15)) / 1000\<bar> \<le> 1 / 100000000"
proof -
  have "let cost = fst (calculate_openrouter_cost (\<lambda>_. Inr (Some (Some (3), Some (15)))) ''a/b:free'' 1000 10 demo_world) in
     0 \<le> cost \<and>
     (\<forall>p c. Inr (Some (Some (3), Some (15))) = (Inr (Some (Some p, Some c)) :: exn + _) \<longrightarrow>
        \<bar>cost - (of_int 1000 * p + of_int 10 * c) / 1000\<bar> \<le> 1 / 100000000) \<and>
     (\<forall>e. Inr (Some (Some (3), Some (15))) = (Inl e :: exn + (usd option \<times> usd option) option) \<longrightarrow>
        cost = (of_int 1000 * (1 / 100) + of_int 10 * (2 / 100)) / 1000)"
    by (rule openrouter_cost_accurate) (auto simp: cache_get_def)
  then show ?thesis by (simp add: Let_def)
qed

text \<open>A service-wide price of zero in the database is not honoured for speech, search and
  images: the hard-coded price is charged instead; for MCP calls and Google Maps a zero price
  is honoured.\<close>

theorem zero_price_only_honoured_for_tools:
  assumes "\<And>k. cache_get (clock w) k (cache w) = None"
    and "\<And>s. s \<in> set [''elevenlabs_tts'', ''openai_tts'', ''deepgram_stt'', ''brave_search'',
             ''mcp_tool_invocation'', ''google_maps''] \<Longrightarrow>
           \<exists>p. latest_price (clock w) s [] (prices (db w)) = Some p \<and>
             price_per_1k_chars p = Some 0 \<and> price_per_minute p = Some 0 \<and> price_per_request p = Some 0"
  shows "fst (calculate_elevenlabs_cost 1000 None w) = 3 / 10 \<and>
     fst (calculate_openai_tts_cost 1000 None w) = 15 / 1000 \<and>
     fst (calculate_deepgram_cost 60 None w) = 43 / 10000 \<and>
     fst (calculate_brave_search_cost 1 w) = 5 / 1000 \<and>
     fst (calculate_mcp_invocation_cost 1 w) = 0 \<and> fst (calculate_google_maps_cost None 1 w) = 0"
proof -
  have zero: "\<exists>p w'. get_pricing_from_db s None w = (Some p, w') \<and> price_per_1k_chars p = Some 0 \<and>
      price_per_minute p = Some 0 \<and> price_per_request p = Some 0"
    if "s \<in> set [''elevenlabs_tts'', ''openai_tts'', ''deepgram_stt'', ''brave_search'',
             ''mcp_tool_invocation'', ''google_maps'']" for s
  proof -
    have "fst (get_pricing_from_db s None w) = lookup_price (db w) (clock w) s None"
      by (rule get_pricing_miss) (use assms(1) in simp)
    then show ?thesis using assms(2) [OF that] by (auto simp: lookup_price_def) (metis prod.collapse)
  qed
  have fb: "fallback_price ''elevenlabs_tts'' None x = 3 / 10" "fallback_price ''openai_tts'' None x = 15 / 1000"
    "fallback_price ''deepgram_stt'' None x = 43 / 10000" "fallback_price ''brave_search'' None x = 5 / 1000" for x
    by (simp_all add: fallback_price_def FALLBACK_PRICING_def get_default_def)
  show ?thesis
    using zero [of "''elevenlabs_tts''"] zero [of "''openai_tts''"] zero [of "''deepgram_stt''"]
      zero [of "''brave_search''"] zero [of "''mcp_tool_invocation''"] zero [of "''google_maps''"]
    by (auto simp: calculate_elevenlabs_cost_def calculate_openai_tts_cost_def calculate_deepgram_cost_def
        calculate_brave_search_cost_def calculate_mcp_invocation_cost_def calculate_google_maps_cost_def
        get_tts_price_def get_stt_price_def get_search_price_def set_price_def fb)
qed

definition free_price :: "string \<Rightarrow> service_pricing" where
  "free_price service = (demo_price [] 0)\<lparr>price_service := service, price_per_minute := Some 0, price_per_request := Some 0\<rparr>"

definition free_demo :: world where
  "free_demo = demo_world\<lparr>db := demo_db\<lparr>prices := map free_price
     [''elevenlabs_tts'', ''openai_tts'', ''deepgram_stt'', ''brave_search'', ''mcp_tool_invocation'', ''google_maps'']\<rparr>\<rparr>"

lemma zero_price_only_honoured_for_tools_witness:
  "fst (calculate_brave_search_cost 1 free_demo) = 5 / 1000 \<and> fst (calculate_mcp_invocation_cost 1 free_demo) = 0"
proof -
  have "\<exists>p. latest_price (clock free_demo) s [] (prices (db free_demo)) = Some p \<and>
       price_per_1k_chars p = Some 0 \<and> price_per_minute p = Some 0 \<and> price_per_request p = Some 0"
    if "s \<in> set [''elevenlabs_tts'', ''openai_tts'', ''deepgram_stt'', ''brave_search'',
             ''mcp_tool_invocation'', ''google_maps'']" for s
    using that by (auto simp: latest_price_def free_demo_def free_price_def in_force_def demo_price_def
        demo_now_def seconds_def)
  from zero_price_only_honoured_for_tools [OF _ this] show ?thesis
    by (simp add: cache_get_def free_demo_def)
qed

section \<open>Feature gates\<close>

lemma get_or_create_db:
  assumes "get_or_create_subscription u w = (res, w')"
  shows "db w' = db w \<or> subs (db w) u = None \<and> (\<exists>p. db w' = put_sub u (new_subscription p) (db w))"
proof -
  obtain r1 w1 where g1: "get_subscription_cached u w = (r1, w1)" by force
  have f: "db w1 = db w" using get_subscription_cached_frame [of u w] g1 by simp
  show ?thesis
  proof (cases r1)
    case (Some s)
    then show ?thesis using assms g1 f by (simp add: get_or_create_subscription_def)
  next
    case None
    then have "create_default_subscription u w1 = (res, w')"
      using assms g1 by (simp add: get_or_create_subscription_def)
    then show ?thesis
      by (cases rule: create_default_subscription_cases [where w = w1 and u = u]) (use f in auto)
  qed
qed

lemma get_or_create_active:
  assumes coh: "coherent w" and act: "active_sub (db w) u = Some s"
  obtains w1 where "get_or_create_subscription u w = (Some s, w1)" "db w1 = db w" "clock w1 = clock w" "coherent w1"
proof -
  obtain res w1 where g: "get_or_create_subscription u w = (res, w1)" by force
  note gc = get_or_create_coherent [OF coh g]
  have "res = Some s" using gc(1) act by (simp add: subscription_spec_def)
  moreover have "subs (db w) u \<noteq> None" using act active_sub_load load_sub_row by fastforce
  then have "db w1 = db w" using get_or_create_db [OF g] by auto
  ultimately show ?thesis using that g gc by blast
qed

lemma get_user_plan_coherent:
  assumes coh: "coherent w" and ok: "db_ok (db w)" and g: "get_user_plan u w = (res, w1)"
  shows "res = (case subscription_spec (db w) u of Some s \<Rightarrow> Inr (snd s) | None \<Rightarrow> Inl (SubscriptionNotFound u))"
    and "coherent w1"
    and "db w1 = db w \<or> subs (db w) u = None \<and> (\<exists>p. db w1 = put_sub u (new_subscription p) (db w))"
proof -
  obtain so w2 where gs: "get_or_create_subscription u w = (so, w2)" by force
  note gc = get_or_create_coherent [OF coh gs]
  have "get_default_plan (plans (db w)) = None" if "subscription_spec (db w) u = None"
    using that load_sub_total [OF ok] by (fastforce simp: subscription_spec_def split: option.splits)
  then show "res = (case subscription_spec (db w) u of Some s \<Rightarrow> Inr (snd s) | None \<Rightarrow> Inl (SubscriptionNotFound u))"
    using g gs gc by (auto simp: get_user_plan_def split: option.splits)
  have "w1 = w2" using g gs by (auto simp: get_user_plan_def split: option.splits)
  then show "coherent w1"
    "db w1 = db w \<or> subs (db w) u = None \<and> (\<exists>p. db w1 = put_sub u (new_subscription p) (db w))"
    using gc(2) get_or_create_db [OF gs] by simp_all
qed

text \<open>Creating the default row of a user does not change what the registry counts.\<close>

lemma registered_counters:
  "\<forall>spec\<in>set registrations. (case count_provider spec of None \<Rightarrow> True | Some count \<Rightarrow>
     (\<forall>u p d. subs d u = None \<longrightarrow> count u (put_sub u (new_subscription p) d) = count u d))"
  by (simp add: registrations_def count_code_sessions_def count_image_generations_def kb_storage_used_mb_def
      count_kb_docs_def count_mcp_invocations_def sum_video_seconds_def count_voice_sessions_def
      user_weekly_window_start_def put_sub_def new_subscription_def)

lemma feature_gates_Inr:
  assumes "feature_gates u name units w = (Inr x, w1)" and "get_spec name = Some spec"
  obtains plan where "get_user_plan u w = (Inr plan, w1)"
    "\<And>f. flag_key spec = Some f \<Longrightarrow> get_default (features plan) f False"
    "\<And>field limit. limit_field spec = Some field \<Longrightarrow> plan_attr plan field = Some limit \<Longrightarrow>
       limit \<noteq> 0 \<and> (\<forall>count. count_provider spec = Some count \<longrightarrow> count u (db w1) + units \<le> limit)"
proof -
  obtain r w2 where g: "get_user_plan u w = (r, w2)" by force
  show ?thesis
  proof (cases r)
    case (Inl e)
    then show ?thesis using assms g by (simp add: feature_gates_def)
  next
    case (Inr plan)
    have "w1 = w2" using assms g Inr
      by (auto simp: feature_gates_def Let_def split: option.splits if_splits prod.splits)
    then show ?thesis using assms g Inr
      by (intro that [of plan]) (auto simp: feature_gates_def Let_def split: option.splits if_splits prod.splits)
  qed
qed

text \<open>The gates hold whoever pays. If the pre-flight check for a named feature returns, then
  the global check allowed the cost, the user's plan has the feature's flag, its limit column is
  not zero, and what the user has consumed plus the request stays within the limit, also with a
  personal key (\<^verbatim>\<open>assume_origin='byok'\<close>): a denial is always raised, never returned.\<close>

theorem feature_gates_hold_whoever_pays:
  assumes "coherent w" and "db_ok (db w)" and "get_spec name = Some spec"
    and "billing_check_quota u service estimated assume_origin (Some name) units w = (Inr st, w')"
  shows "qs_allowed st \<and> (\<exists>r p. subscription_spec (db w) u = Some (r, p) \<and>
     (\<forall>f. flag_key spec = Some f \<longrightarrow> get_default (features p) f False) \<and>
     (\<forall>field limit. limit_field spec = Some field \<longrightarrow> plan_attr p field = Some limit \<longrightarrow>
        limit \<noteq> 0 \<and> (\<forall>count. count_provider spec = Some count \<longrightarrow> count u (db w) + units \<le> limit)))"
proof -
  obtain x w1 where gate: "feature_gates u name units w = (Inr x, w1)" and allowed: "qs_allowed st"
    using assms(4) unfolding billing_check_quota_def by (auto split: sum.splits prod.splits if_splits)
  obtain plan where plan: "get_user_plan u w = (Inr plan, w1)"
    "\<And>f. flag_key spec = Some f \<Longrightarrow> get_default (features plan) f False"
    "\<And>field limit. limit_field spec = Some field \<Longrightarrow> plan_attr plan field = Some limit \<Longrightarrow>
       limit \<noteq> 0 \<and> (\<forall>count. count_provider spec = Some count \<longrightarrow> count u (db w1) + units \<le> limit)"
    by (rule feature_gates_Inr [OF gate assms(3)]) (rule that)
  note pc = get_user_plan_coherent [OF assms(1,2) plan(1)]
  obtain r where spec: "subscription_spec (db w) u = Some (r, plan)"
    using pc(1) by (auto split: option.splits)
  have "count u (db w1) = count u (db w)" if "count_provider spec = Some count" for count
    using pc(3) registered_counters get_spec_Some [OF assms(3)] that by fastforce
  with plan(2,3) allowed spec show ?thesis by fastforce
qed

lemma feature_gates_hold_whoever_pays_witness:
  "\<exists>st w' r p. billing_check_quota ''ann'' KNOWLEDGE_BASE_QUERY 1 (Some BILLING_ORIGIN_BYOK) (Some ''kb_upload'') 1 demo_world
      = (Inr st, w') \<and> qs_allowed st \<and> subscription_spec demo_db ''ann'' = Some (r, p) \<and>
     get_default (features p) ''knowledge_base'' False \<and> count_kb_docs ''ann'' demo_db + 1 \<le> 10"
proof -
  obtain w1 where w1: "get_or_create_subscription ''ann'' demo_world = (Some (demo_row, free_tier 10), w1)"
      "db w1 = demo_db"
    using get_or_create_active [OF demo_coherent, of "''ann''" "(demo_row, free_tier 10)"] by auto
  have spec: "get_spec ''kb_upload'' = Some (limited ''kb_upload'' ''knowledge_base'' ''kb_docs_limit''
      (Some count_kb_docs) ''count'' ''storage'')"
    using get_spec_registered [of "limited ''kb_upload'' ''knowledge_base'' ''kb_docs_limit'' (Some count_kb_docs) ''count'' ''storage''"]
    by (simp add: registrations_def)
  have plan: "get_default (features (free_tier 10)) ''knowledge_base'' False" "kb_docs_limit (free_tier 10) = Some 10"
    by (simp_all add: free_tier_def get_default_def)
  have run: "billing_check_quota ''ann'' KNOWLEDGE_BASE_QUERY 1 (Some BILLING_ORIGIN_BYOK) (Some ''kb_upload'') 1 demo_world
      = (Inr byok_status, w1)"
    using w1 plan spec
    by (simp add: billing_check_quota_def feature_gates_def get_user_plan_def plan_attr_columns count_kb_docs_def
        demo_db_def check_global_quota_def byok_bypasses_def OPENROUTER_BACKED_SERVICES_def
        PLATFORM_ONLY_SERVICES_def byok_status_def Let_def)
  have ok: "db_ok (db demo_world)"
    by (auto simp: db_ok_def demo_db_def demo_world_def demo_row_def new_subscription_def split: if_splits)
  have "subscription_spec demo_db ''ann'' = Some (demo_row, free_tier 10)" by (simp add: subscription_spec_def)
  with feature_gates_hold_whoever_pays [OF demo_coherent ok spec run] run plan show ?thesis
    by (auto simp: plan_attr_columns)
qed

text \<open>The weekly counters of the feature gates do not notice that the window is over. A user
  whose code sessions reached the plan's limit stays locked out of the feature after the seven
  days, at any later time and with a reset announced in zero seconds, although the same
  window no longer counts any dollar: only a charge restarts it.\<close>

theorem expired_window_keeps_the_gate_shut:
  assumes "coherent w" and "active_sub (db w) u = Some (r, p)" and "weekly_window_start r = Some ws"
    and "ws + days 7 \<le> clock w"
    and "get_default (features p) ''code_sessions'' False" and "code_session_weekly_limit p = Some limit"
    and "limit \<noteq> 0" and "limit \<le> count_code_sessions u (db w)"
  shows "fst (billing_check_quota u CODE_SESSION estimated assume_origin (Some ''code_session'') 1 w) =
       Inl (count_exceeded ''code_session'' (count_code_sessions u (db w)) limit ''weekly'' (Some 0)) \<and>
     weekly_usage_spec (db w) (clock w) u (Some ws) = 0"
proof -
  obtain w1 where w1: "get_or_create_subscription u w = (Some (r, p), w1)" "db w1 = db w" "clock w1 = clock w"
      "coherent w1"
    by (rule get_or_create_active [OF assms(1,2)])
  obtain w2 where w2: "get_or_create_subscription u w1 = (Some (r, p), w2)" "db w2 = db w1" "clock w2 = clock w1"
    using get_or_create_active [OF w1(4), of u "(r, p)"] assms(2) w1(2) by auto
  have spec: "get_spec ''code_session'' = Some (limited ''code_session'' ''code_sessions''
      ''code_session_weekly_limit'' (Some count_code_sessions) ''count'' ''weekly'')"
    using get_spec_registered [of "limited ''code_session'' ''code_sessions'' ''code_session_weekly_limit''
        (Some count_code_sessions) ''count'' ''weekly''"] by (simp add: registrations_def)
  have "weekly_resets_in_seconds u w1 = (Some (max 0 (int_seconds (ws + days 7 - clock w))), w2)"
    using w1 w2 assms(3) by (simp add: weekly_resets_in_seconds_def)
  moreover have "int_seconds (ws + days 7 - clock w) \<le> 0"
    using int_seconds_mono [of "ws + days 7 - clock w" 0] assms(4) by (simp add: int_seconds_def)
  ultimately have "feature_gates u ''code_session'' 1 w =
      (Inl (count_exceeded ''code_session'' (count_code_sessions u (db w)) limit ''weekly'' (Some 0)), w2)"
    using assms w1 spec by (simp add: feature_gates_def get_user_plan_def plan_attr_columns Let_def)
  moreover have "weekly_usage_spec (db w) (clock w) u (Some ws) = 0"
    using assms(4) by (simp add: weekly_usage_spec_def weekly_len_def WEEKLY_WINDOW_DAYS_def)
  ultimately show ?thesis by (simp add: billing_check_quota_def)
qed

definition locked_out_world :: world where
  "locked_out_world = demo_world\<lparr>clock := demo_now + days 30, db := demo_db
     \<lparr>plans := [(free_tier 10)\<lparr>features := [(''code_sessions'', True)], code_session_weekly_limit := Some 1\<rparr>],
      code_jobs := [(''ann'', demo_now)]\<rparr>\<rparr>"

lemma expired_window_keeps_the_gate_shut_witness:
  "\<exists>e. fst (billing_check_quota ''ann'' CODE_SESSION 0 None (Some ''code_session'') 1 locked_out_world) =
     Inl (QuotaExceeded e) \<and> qe_resets_in_seconds e = Some 0"
proof -
  let ?p = "(free_tier 10)\<lparr>features := [(''code_sessions'', True)], code_session_weekly_limit := Some 1\<rparr>"
  have "count_code_sessions ''ann'' (db locked_out_world) = 1"
    by (simp add: locked_out_world_def count_code_sessions_def user_weekly_window_start_def seconds_def)
  moreover have "active_sub (db locked_out_world) ''ann'' = Some (demo_row, ?p)"
    by (simp add: locked_out_world_def active_sub_def load_sub_def plan_by_id_def free_tier_def)
  moreover have "coherent locked_out_world" by (rule coherent_empty) (simp add: locked_out_world_def)
  ultimately show ?thesis
    using expired_window_keeps_the_gate_shut [of locked_out_world "''ann''" demo_row ?p "demo_now - seconds 3600" 1 0 None]
    by (simp add: locked_out_world_def get_default_def count_exceeded_def days_def seconds_def)
qed



end
