(* ===== verification/Recording_Properties.thy ===== *)
theory Recording_Properties
  imports Billing_Properties
begin

text \<open>Properties of recording usage: who pays, nothing is lost, the retry queue, and the decorator.\<close>

section \<open>Pricing and origin\<close>

lemma calculate_cost_pricedD: "calculate_cost catalog s m pt ct chars secs n w = (c, w') \<Longrightarrow> priced w w'"
  using calculate_cost_priced [of w catalog s m pt ct chars secs n] by simp

lemma billing_calculate_cost_priced: "billing_calculate_cost catalog op w = (c, w') \<Longrightarrow> priced w w'"
  by (auto simp: billing_calculate_cost_def dest: calculate_cost_pricedD split: if_splits)

lemma price_and_origin_spec:
  assumes "price_and_origin catalog op bo w = (res, op1, w1)"
  shows "priced w w1 \<and> op_service op1 = op_service op \<and> op_feature op1 = op_feature op \<and>
    op_request_count op1 = op_request_count op \<and>
    (case res of
       Inl e \<Rightarrow> (\<exists>m. e = BillingMisconfiguration m)
     | Inr _ \<Rightarrow> op_billing_origin op1 = opt_str_or bo (str_or (op_billing_origin op) BILLING_ORIGIN_PLATFORM) \<and>
         op_billing_origin op1 \<in> set VALID_BILLING_ORIGINS \<and>
         (op_billing_origin op1 = BILLING_ORIGIN_BYOK \<longrightarrow>
            service_value (op_service op) \<in> set OPENROUTER_BACKED_SERVICES))"
proof -
  obtain c w2 where c: "(if op_cost_usd op = 0 then billing_calculate_cost catalog op w else (op_cost_usd op, w)) = (c, w2)"
    by force
  then have "priced w w2" using billing_calculate_cost_priced by (auto split: if_splits)
  with assms show ?thesis unfolding price_and_origin_def c
    by (auto simp: resolve_origin_def Let_def split: sum.splits if_splits)
qed

text \<open>A row that costs nothing, without any invalidation, keeps the cached totals right.\<close>

lemma coherent_same_usage:
  assumes coh: "coherent w" and same: "cache w' = cache w" "clock w' = clock w" "subs (db w') = subs (db w)"
      "plans (db w') = plans (db w)" "\<And>v s e. window_usage (db w') v s e = window_usage (db w) v s e"
  shows "coherent w'"
proof -
  have "active_sub (db w') u = active_sub (db w) u" for u
    using same(3,4) by (intro active_sub_cong) simp_all
  then show ?thesis using coh same
    by (simp add: coherent_def sub_coherent_def usage_coherent_def calculate_weekly_usage_direct_def
        calculate_session_usage_direct_def)
qed

lemma byok_row:
  assumes run: "record_byok_analytics_row q u op w = (Inr x, w')" and zero: "q 0 = Some 0"
  obtains l where "logs (db w') = logs (db w) @ [l]" "log_user l = u" "log_cost_usd l = 0"
    "log_billing_origin l = BILLING_ORIGIN_BYOK" "log_service l = service_value (op_service op)"
    "subs (db w') = subs (db w)" "plans (db w') = plans (db w)" "cache w' = cache w" "clock w' = clock w"
  using assms by (auto simp: record_byok_analytics_row_def create_log_def append_log_def make_log_def details_of_def)

lemma byok_branch:
  assumes "record_usage q catalog u op bo st = (Inr x, op', st') \<or>
      check_and_record q catalog u op enforce bo st = (Inr x, op', st')"
    and "op_billing_origin op' = BILLING_ORIGIN_BYOK"
  obtains op1 w1 w2 where "price_and_origin catalog op bo (base st) = (Inr (), op1, w1)"
    "op_billing_origin op1 = BILLING_ORIGIN_BYOK"
    "record_byok_analytics_row q u op1 w1 = (Inr x, w2)" "st' = st\<lparr>base := w2\<rparr>"
proof -
  obtain r op1 w1 where p: "price_and_origin catalog op bo (base st) = (r, op1, w1)" by (metis surj_pair)
  note spec = price_and_origin_spec [OF p]
  have r: "r = Inr ()" using assms p
    by (cases r) (auto simp: record_usage_def check_and_record_def)
  have "op_billing_origin op1 = BILLING_ORIGIN_BYOK"
  proof (rule ccontr)
    assume no: "op_billing_origin op1 \<noteq> BILLING_ORIGIN_BYOK"
    have nonempty: "op_billing_origin op1 \<noteq> []" using spec r by (auto simp: VALID_BILLING_ORIGINS_def)
    obtain r2 op2 w3 where p2: "price_and_origin catalog op1 (Some (op_billing_origin op1)) w1 = (r2, op2, w3)"
      by (metis surj_pair)
    have "op_billing_origin op2 = op_billing_origin op1" if "r2 = Inr ()"
      using price_and_origin_spec [OF p2] that nonempty by (simp add: opt_str_or_def str_or_def)
    then show False using assms p r no p2
      by (cases r2) (auto simp: record_usage_def check_and_record_def split: sum.splits prod.splits if_splits)
  qed
  then show ?thesis using assms(1) p r
    by (auto simp: record_usage_def check_and_record_def intro: that split: prod.splits)
qed

text \<open>C11: Usage paid with the user's own key is only ever recorded for services that go through
  OpenRouter, and costs no quota: recording it, by either method and with or without
  enforcement, appends one row of cost zero marked \<^verbatim>\<open>byok\<close>, leaves every user's
  subscription, windows and usage totals as they were, and keeps the cached totals right.\<close>

theorem byok_usage_costs_no_quota:
  assumes "record_usage q catalog u op bo st = (Inr x, op', st') \<or>
      check_and_record q catalog u op enforce bo st = (Inr x, op', st')"
    and "op_billing_origin op' = BILLING_ORIGIN_BYOK" and "q 0 = Some 0"
  shows "service_value (op_service op) \<in> set OPENROUTER_BACKED_SERVICES \<and>
     (\<exists>l. logs (db (base st')) = logs (db (base st)) @ [l] \<and> log_user l = u \<and> log_cost_usd l = 0 \<and>
        log_billing_origin l = BILLING_ORIGIN_BYOK \<and> log_service l = service_value (op_service op)) \<and>
     subs (db (base st')) = subs (db (base st)) \<and>
     (\<forall>v s e. window_usage (db (base st')) v s e = window_usage (db (base st)) v s e) \<and>
     celery_queue st' = celery_queue st \<and> redis_list st' = redis_list st \<and>
     (coherent (base st) \<longrightarrow> coherent (base st'))"
proof -
  obtain op1 w1 w2 where p: "price_and_origin catalog op bo (base st) = (Inr (), op1, w1)"
    and o: "op_billing_origin op1 = BILLING_ORIGIN_BYOK"
    and row: "record_byok_analytics_row q u op1 w1 = (Inr x, w2)" and st': "st' = st\<lparr>base := w2\<rparr>"
    by (rule byok_branch [OF assms(1,2)])
  note spec = price_and_origin_spec [OF p]
  have pr: "priced (base st) w1" using spec by blast
  then have w1: "db w1 = db (base st)" by (simp add: priced_def)
  obtain l where l: "logs (db w2) = logs (db w1) @ [l]" "log_user l = u" "log_cost_usd l = 0"
    "log_billing_origin l = BILLING_ORIGIN_BYOK" "log_service l = service_value (op_service op1)"
    "subs (db w2) = subs (db w1)" "plans (db w2) = plans (db w1)" "cache w2 = cache w1" "clock w2 = clock w1"
    by (rule byok_row [OF row assms(3)])
  have usage: "window_usage (db w2) v s e = window_usage (db w1) v s e" for v s e
    using l(1,3) by (simp add: window_usage_def)
  have "coherent (base st) \<Longrightarrow> coherent w2"
    using coherent_same_usage [OF priced_coherent [OF _ pr] l(8,9,6,7) usage] .
  then show ?thesis using spec o l w1 usage by (simp add: st')
qed

definition demo_op :: "service_type \<Rightarrow> string \<Rightarrow> billable_operation" where
  "demo_op service origin = \<lparr>op_service = service, op_feature = CHAT, op_model_id = ''m'', op_prompt_tokens = 10,
     op_completion_tokens = 5, op_character_count = 0, op_audio_seconds = 0, op_request_count = 0,
     op_cost_usd = 1 / 4, op_request_id = [], op_session_id = [], op_extra_data = [], op_timestamp = 0,
     op_billing_origin = origin\<rparr>"

lemma demo_op_fields [simp]:
  "op_billing_origin (demo_op s org) = org" "op_request_count (demo_op s org) = 0" "op_service (demo_op s org) = s"
  by (simp_all add: demo_op_def)

definition demo_state :: "world \<Rightarrow> retry_state" where
  "demo_state w = \<lparr>base = w, celery_queue = [], redis_list = [], broker_up = True, redis_up = True\<rparr>"

definition no_catalog :: catalog where
  "no_catalog = (\<lambda>m. Inr None)"

lemma demo_price_and_origin:
  "price_and_origin no_catalog (demo_op OPENROUTER org) None w =
     (if org \<in> {BILLING_ORIGIN_BYOK, BILLING_ORIGIN_PLATFORM} then (Inr (), demo_op OPENROUTER org, w)
      else price_and_origin no_catalog (demo_op OPENROUTER org) None w)"
  by (auto simp: price_and_origin_def demo_op_def resolve_origin_def opt_str_or_def str_or_def
      VALID_BILLING_ORIGINS_def OPENROUTER_BACKED_SERVICES_def)

lemma byok_usage_costs_no_quota_witness:
  "\<exists>op' st'. record_usage numeric_10_6 no_catalog ''ann'' (demo_op OPENROUTER BILLING_ORIGIN_BYOK) None
      (demo_state demo_world) = (Inr (), op', st') \<and>
     subs (db (base st')) = subs demo_db \<and> length (logs (db (base st'))) = 2"
proof -
  have q: "numeric_10_6 0 = Some 0" by (simp add: numeric_10_6_def round_def floor_eq_iff)
  obtain op' st' where run: "record_usage numeric_10_6 no_catalog ''ann'' (demo_op OPENROUTER BILLING_ORIGIN_BYOK) None
      (demo_state demo_world) = (Inr (), op', st')" "op_billing_origin op' = BILLING_ORIGIN_BYOK"
    using demo_price_and_origin [of BILLING_ORIGIN_BYOK demo_world] q
    by (auto simp: record_usage_def demo_state_def record_byok_analytics_row_def create_log_def)
  from byok_usage_costs_no_quota [OF disjI1 [OF run(1)] run(2) q] run(1)
  show ?thesis by (auto simp: demo_state_def)
qed

section \<open>Nothing is lost\<close>

lemma queue_outcome:
  assumes "broker_up st \<or> redis_up st"
  shows "base (billing_queue_failed_deduction u op st) = base st \<and>
    (\<exists>d. (celery_queue (billing_queue_failed_deduction u op st) = celery_queue st @ [d] \<and>
            redis_list (billing_queue_failed_deduction u op st) = redis_list st \<or>
          celery_queue (billing_queue_failed_deduction u op st) = celery_queue st \<and>
            redis_list (billing_queue_failed_deduction u op st) = redis_list st @ [Json d]) \<and>
       dd_user_id d = u \<and> dd_service d = service_value (op_service op) \<and> dd_cost_usd d = op_cost_usd op \<and>
       dd_feature d = feature_value (op_feature op) \<and>
       dd_extra d = details_of op (op_request_count op) (op_billing_origin op))"
  using assms by (auto simp: billing_queue_failed_deduction_def queue_failed_deduction_def Let_def)

text \<open>C12: Usage billed to the platform is never lost while the broker or Redis is reachable:
  \<^verbatim>\<open>record_usage\<close> either refuses a misconfigured origin without any trace, or appends exactly
  one ledger row carrying the stored cost, or leaves the database alone and puts exactly one
  message with the same user, service, feature and cost into a retry queue. The two paths
  differ in the request count: a count of zero is recorded as one but queued as zero.\<close>

theorem platform_usage_is_never_lost:
  assumes "record_usage q catalog u op bo st = (res, op', st')"
    and "opt_str_or bo (str_or (op_billing_origin op) BILLING_ORIGIN_PLATFORM) \<noteq> BILLING_ORIGIN_BYOK"
    and "broker_up st \<or> redis_up st"
  shows "(\<exists>m. res = Inl (BillingMisconfiguration m)) \<and> db (base st') = db (base st) \<and>
       celery_queue st' = celery_queue st \<and> redis_list st' = redis_list st \<or>
     res = Inr () \<and> (\<exists>c l. q (op_cost_usd op') = Some c \<and> logs (db (base st')) = logs (db (base st)) @ [l] \<and>
       log_user l = u \<and> log_service l = service_value (op_service op) \<and> log_cost_usd l = c \<and>
       log_request_count l = num_or (op_request_count op) 1 \<and>
       celery_queue st' = celery_queue st \<and> redis_list st' = redis_list st) \<or>
     res = Inr () \<and> db (base st') = db (base st) \<and>
       (\<exists>d. (celery_queue st' = celery_queue st @ [d] \<and> redis_list st' = redis_list st \<or>
             celery_queue st' = celery_queue st \<and> redis_list st' = redis_list st @ [Json d]) \<and>
          dd_user_id d = u \<and> dd_service d = service_value (op_service op) \<and> dd_cost_usd d = op_cost_usd op' \<and>
          dd_feature d = feature_value (op_feature op) \<and> d_request_count (dd_extra d) = op_request_count op)"
proof -
  obtain r op1 w1 where p: "price_and_origin catalog op bo (base st) = (r, op1, w1)" by (metis surj_pair)
  note spec = price_and_origin_spec [OF p]
  then have w1: "db w1 = db (base st)" by (simp add: priced_def)
  show ?thesis
  proof (cases r)
    case (Inl e)
    then show ?thesis using assms(1) p spec w1 by (auto simp: record_usage_def)
  next
    case (Inr x)
    then have o: "op_billing_origin op1 \<noteq> BILLING_ORIGIN_BYOK" using spec assms(2) by simp
    let ?k = "details_of op1 (num_or (op_request_count op1) 1) (op_billing_origin op1)"
    obtain dr w2 where d: "deduct_usage q u (service_value (op_service op1)) (op_cost_usd op1)
        (feature_value (op_feature op1)) ?k w1 = (dr, w2)" by force
    show ?thesis
    proof (cases dr)
      case (Inl e)
      have "op' = op1" "res = Inr ()" "st' = billing_queue_failed_deduction u op1 (st\<lparr>base := w2\<rparr>)"
        using assms(1) p Inr o d Inl by (auto simp: record_usage_def)
      moreover have "db w2 = db w1" using deduct_usage_error d Inl by blast
      ultimately show ?thesis
        using queue_outcome [of "st\<lparr>base := w2\<rparr>" u op1] assms(3) spec w1 by (auto simp: details_of_def)
    next
      case (Inr y)
      have st': "op' = op1" "res = Inr ()" "st' = st\<lparr>base := w2\<rparr>"
        using assms(1) p \<open>r = Inr x\<close> o d Inr by (auto simp: record_usage_def)
      obtain c where "q (op_cost_usd op1) = Some c" "logs (db w2) = logs (db w1) @
          [make_log u (service_value (op_service op1)) c (feature_value (op_feature op1)) ?k w1]"
        by (rule deduct_usage_Inr [OF d [unfolded Inr]])
      then show ?thesis using st' spec w1 by (auto simp: make_log_def details_of_def)
    qed
  qed
qed

lemma platform_usage_is_never_lost_witness:
  "\<exists>res op' st'. record_usage numeric_10_6 no_catalog ''bob'' (demo_op OPENROUTER BILLING_ORIGIN_PLATFORM) None
      (demo_state demo_world) = (res, op', st') \<and>
     (\<exists>d. celery_queue st' = [d] \<and> dd_user_id d = ''bob'' \<and> d_request_count (dd_extra d) = 0)"
proof -
  have none: "active_sub demo_db ''bob'' = None"
    by (simp add: active_sub_def load_sub_def plan_by_id_def new_subscription_def)
  have "locked_subscription ''bob'' demo_world = (Inl DoesNotExist, demo_world)"
    using none by (simp add: locked_subscription_def create_default_subscription_def get_default_plan_def
        load_sub_def plan_by_id_def new_subscription_def)
  then have "deduct_usage numeric_10_6 ''bob'' s c f k demo_world = (Inl DoesNotExist, demo_world)" for s c f k
    by (simp add: deduct_usage_def atomic_def deduct_usage_body_def)
  then obtain res op' st' where run: "record_usage numeric_10_6 no_catalog ''bob''
      (demo_op OPENROUTER BILLING_ORIGIN_PLATFORM) None (demo_state demo_world) = (res, op', st')"
    "base st' = demo_world" "res = Inr ()" "redis_list st' = []"
    using demo_price_and_origin [of BILLING_ORIGIN_PLATFORM demo_world]
    by (auto simp: record_usage_def demo_state_def billing_queue_failed_deduction_def queue_failed_deduction_def Let_def)
  have "opt_str_or None (str_or (op_billing_origin (demo_op OPENROUTER BILLING_ORIGIN_PLATFORM)) BILLING_ORIGIN_PLATFORM)
      \<noteq> BILLING_ORIGIN_BYOK" by (simp add: opt_str_or_def str_or_def demo_op_def)
  from platform_usage_is_never_lost [OF run(1) this] run show ?thesis
    by (auto simp: demo_state_def demo_op_def)
qed

section \<open>The retry queue\<close>

text \<open>C13: A queued deduction is recorded at most once. Whatever the Celery task meets over its
  attempts, it ends with exactly one new ledger row for the message's user, with the stored
  cost, if it reports success, and with none if it reports failure, discards the message or
  gives up, as long as nobody else writes the ledger meanwhile.\<close>

theorem retried_deduction_recorded_at_most_once:
  assumes "\<And>m v. logs (db (between m v)) = logs (db v)"
    and "run_task q between max_retries d w = (res, w')"
  shows "if res = Inr True
     then \<exists>c l. q (dd_cost_usd d) = Some c \<and> logs (db w') = logs (db w) @ [l] \<and>
            log_user l = dd_user_id d \<and> log_cost_usd l = c
     else logs (db w') = logs (db w)"
  by (rule run_task_once [OF assms])

definition demo_message :: deduction_data where
  "demo_message = \<lparr>dd_user_id = ''bob'', dd_service = ''openrouter'', dd_cost_usd = 1, dd_feature = ''chat'',
     dd_extra = demo_details, dd_queued_at = None\<rparr>"

lemma demo_run_task: "fst (run_task numeric_10_6 (\<lambda>m v. v) n demo_message demo_world) = Inr False"
  by (cases n) (simp_all add: run_task.simps retry_failed_deduction_def demo_message_def too_old_def demo_world_def demo_db_def)

lemma retried_deduction_recorded_at_most_once_witness:
  "logs (db (snd (run_task numeric_10_6 (\<lambda>m v. v) max_retries demo_message demo_world))) = [demo_log]"
proof -
  obtain w' where "run_task numeric_10_6 (\<lambda>m v. v) max_retries demo_message demo_world = (Inr False, w')"
    using demo_run_task [of max_retries] by (metis prod.collapse)
  from retried_deduction_recorded_at_most_once [OF _ this] this show ?thesis by simp
qed

text \<open>Draining the Redis list loses no message while Redis accepts the one that is put back:
  the messages the broker took, in list order, and the ones still in the list are together
  exactly the messages that were there, the task reports how many it moved, and with a broker
  that takes everything (and no empty element) the list ends empty.\<close>

theorem draining_conserves_messages:
  assumes "process_failed_deductions_queue up True st = (n, st')" and "redis_up st"
  shows "(\<exists>moved. celery_queue st' = celery_queue st @ moved \<and> n = length moved \<and>
       (messages (redis_list st) = moved @ messages (redis_list st') \<or>
        (\<exists>d ds. messages (redis_list st) = moved @ d # ds \<and> messages (redis_list st') = ds @ [d]))) \<and>
     ((\<forall>k. up k) \<and> Garbage [] \<notin> set (redis_list st) \<longrightarrow> redis_list st' = [])"
proof -
  obtain rs queue k where d: "drain up True (redis_list st) (celery_queue st) 0 = (rs, queue, k)"
    by (metis surj_pair)
  then have st': "st' = st\<lparr>redis_list := rs, celery_queue := queue\<rparr>" "n = k"
    using assms by (simp_all add: process_failed_deductions_queue_def)
  obtain moved kept where m: "queue = celery_queue st @ moved" "k = length moved" "messages (redis_list st) = moved @ kept"
      "messages rs = kept \<or> (\<exists>d ds. kept = d # ds \<and> messages rs = ds @ [d])"
    using drain_messages [OF d] by auto
  have "\<exists>moved. queue = celery_queue st @ moved \<and> k = length moved \<and>
       (messages (redis_list st) = moved @ messages rs \<or>
        (\<exists>d ds. messages (redis_list st) = moved @ d # ds \<and> messages rs = ds @ [d]))"
    using m by (intro exI [of _ moved]) auto
  moreover have "(\<forall>k. up k) \<and> Garbage [] \<notin> set (redis_list st) \<longrightarrow> rs = []"
    using drain_all_up [of up "redis_list st" True "celery_queue st" 0] d by auto
  ultimately show ?thesis by (simp add: st')
qed

lemma draining_conserves_messages_witness:
  "celery_queue (snd (process_failed_deductions_queue (\<lambda>n. n < 1) True
     ((demo_state demo_world)\<lparr>redis_list := [Json demo_message, Garbage ''x'', Json demo_message]\<rparr>))) = [demo_message]"
proof -
  let ?st = "(demo_state demo_world)\<lparr>redis_list := [Json demo_message, Garbage ''x'', Json demo_message]\<rparr>"
  obtain n st' where run: "process_failed_deductions_queue (\<lambda>n. n < 1) True ?st = (n, st')" by force
  have "redis_up ?st" by (simp add: demo_state_def)
  from draining_conserves_messages [OF run this] obtain moved where "celery_queue st' = moved" "n = length moved"
    "messages (redis_list ?st) = moved @ messages (redis_list st') \<or>
        (\<exists>d ds. messages (redis_list ?st) = moved @ d # ds \<and> messages (redis_list st') = ds @ [d])"
    by (auto simp: demo_state_def)
  moreover have "n = 1" "length (messages (redis_list st')) = 1"
    using run by (auto simp: process_failed_deductions_queue_def demo_state_def)
  ultimately show ?thesis using run by (auto simp: length_Suc_conv Cons_eq_append_conv)
qed

section \<open>The decorator\<close>

text \<open>A function decorated with a pre-check runs exactly when its estimated cost (one cent if
  none or zero is given) fits what remains of the user's weekly and session budgets. If it does
  not fit, a quota error is raised and the function is not run; if it fits, the caller gets the
  function's own result or exception, whatever happens to the recording of its usage.\<close>

theorem decorated_call_runs_iff_it_fits:
  fixes estimated :: "usd option"
  assumes "coherent (base st)" and "subscription_spec (db (base st)) u = Some s"
  defines "cost \<equiv> num_or (the_default 0 estimated) (1 / 100)"
  shows "if cost \<le> remaining_weekly (db (base st)) (clock (base st)) u s \<and>
            cost \<le> remaining_session (db (base st)) (clock (base st)) u s
     then \<exists>w1. default_row_only u (base st) w1 \<and>
            fst (billable q catalog service True estimated extract func (Some u) st) = fst (func (st\<lparr>base := w1\<rparr>))
     else \<exists>e w1. default_row_only u (base st) w1 \<and>
            billable q catalog service True estimated extract func (Some u) st =
              (Inl (QuotaExceeded e), st\<lparr>base := w1\<rparr>)"
proof -
  obtain r w1 where run: "check_quota u cost (base st) = (r, w1)" by force
  note row = check_quota_row_only [OF run]
  have r: "r = check_quota_spec (db (base st)) (clock (base st)) u cost"
    using check_quota_coherent(1) [OF assms(1) run] .
  have glob: "billing_check_quota u service cost None None 1 (base st) =
      (case r of Inl e \<Rightarrow> (Inl e, w1) | Inr x \<Rightarrow> (fst (check_global_quota u service cost None (base st)), w1))"
    by (auto simp: billing_check_quota_def check_global_quota_def byok_bypasses_def run split: sum.split)
  show ?thesis
  proof (cases "cost \<le> remaining_weekly (db (base st)) (clock (base st)) u s \<and>
            cost \<le> remaining_session (db (base st)) (clock (base st)) u s")
    case True
    then have "billable_pre_check u service True estimated (base st) = (Inr (), w1)"
      using glob r assms(2) run
      by (simp add: billable_pre_check_def cost_def [symmetric] check_quota_spec_def check_global_quota_def byok_bypasses_def)
    then have "fst (billable q catalog service True estimated extract func (Some u) st) = fst (func (st\<lparr>base := w1\<rparr>))"
      by (auto simp: billable_def split: sum.split prod.split option.split)
    with True row show ?thesis by auto
  next
    case False
    then have "\<exists>e. billable_pre_check u service True estimated (base st) = (Inl (QuotaExceeded e), w1)"
      using glob r assms(2) run
      by (simp add: billable_pre_check_def cost_def [symmetric] check_quota_spec_def check_global_quota_def
          byok_bypasses_def pre_check_denial_def Let_def)
    then have "\<exists>e. billable q catalog service True estimated extract func (Some u) st =
        (Inl (QuotaExceeded e), st\<lparr>base := w1\<rparr>)"
      by (auto simp: billable_def)
    with False row show ?thesis by auto
  qed
qed

lemma decorated_call_runs_iff_it_fits_witness:
  "\<exists>e w1. billable numeric_10_6 no_catalog OPENROUTER True (Some 1) None (\<lambda>st. (Inr (), st)) (Some ''ann'')
     (demo_state demo_world) = (Inl (QuotaExceeded e), (demo_state demo_world)\<lparr>base := w1\<rparr>)"
proof -
  have spec: "subscription_spec (db (base (demo_state demo_world))) ''ann'' = Some (demo_row, free_tier 10)"
    by (simp add: subscription_spec_def demo_state_def)
  have coh: "coherent (base (demo_state demo_world))" by (simp add: demo_state_def demo_coherent)
  have "\<not> 1 \<le> remaining_session demo_db demo_now ''ann'' (demo_row, free_tier 10)"
    using demo_windows by (simp add: remaining_session_def session_usage_spec_def window_simps)
  with decorated_call_runs_iff_it_fits [OF coh spec, of "Some 1" numeric_10_6 no_catalog OPENROUTER None "\<lambda>st. (Inr (), st)"]
  show ?thesis by (auto simp: num_or_def demo_state_def)
qed

end
