(* ===== verification/Stripe_Events.thy ===== *)
theory Stripe_Events
  imports Prelude
begin

text \<open>
  Reading Stripe objects: the accessors of \<^verbatim>\<open>services/stripe_helpers.py\<close> and the event
  accessors and formatters of \<^verbatim>\<open>services/stripe_webhooks.py\<close>, for objects in their
  deserialised (dictionary) shape.  Every accessor returns the value at the type its caller
  uses it with; a value of another type reads as absent.
\<close>

section \<open>Dictionaries\<close>

definition jhas :: "json \<Rightarrow> string \<Rightarrow> bool" where
  "jhas j k = (case j of JObj kvs \<Rightarrow> k \<in> fst ` set kvs | _ \<Rightarrow> False)"

text \<open>\<^verbatim>\<open>x or {}\<close>\<close>

definition or_empty :: "json \<Rightarrow> json" where
  "or_empty j = (if truthy j then j else JObj [])"

definition nonempty_str :: "json \<Rightarrow> string option" where
  "nonempty_str j = (case jstr j of Some s \<Rightarrow> if s = [] then None else Some s | None \<Rightarrow> None)"

definition first_item :: "json \<Rightarrow> json option" where
  "first_item j = (case j of JList (x # _) \<Rightarrow> Some x | _ \<Rightarrow> None)"

section \<open>stripe_helpers.py\<close>

definition subscription_metadata_user_id :: "json \<Rightarrow> string option" where
  "subscription_metadata_user_id s =
     (let meta = or_empty (jget s ''metadata'') in if is_dict meta then nonempty_str (jget meta ''user_id'') else None)"

definition subscription_metadata_plan_slug :: "json \<Rightarrow> string option" where
  "subscription_metadata_plan_slug s =
     (let meta = or_empty (jget s ''metadata'') in if is_dict meta then nonempty_str (jget meta ''plan_slug'') else None)"

definition subscription_price_id :: "json \<Rightarrow> string option" where
  "subscription_price_id s =
     (let root = or_empty (jget s ''items'')
      in case first_item (if is_dict root then jget root ''data'' else JList []) of
           None \<Rightarrow> None
         | Some item \<Rightarrow>
             (if is_dict item
              then (let price = or_empty (jget item ''price'') in if is_dict price then jstr (jget price ''id'') else None)
              else None))"

definition subscription_current_period_end :: "json \<Rightarrow> int option" where
  "subscription_current_period_end s = jint (jget s ''current_period_end'')"

definition subscription_cancel_at_period_end :: "json \<Rightarrow> bool" where
  "subscription_cancel_at_period_end s = truthy (jget s ''cancel_at_period_end'')"

definition subscription_id :: "json \<Rightarrow> string option" where
  "subscription_id s = jstr (jget s ''id'')"

definition subscription_status :: "json \<Rightarrow> string option" where
  "subscription_status s = jstr (jget s ''status'')"

definition subscription_customer_id :: "json \<Rightarrow> string option" where
  "subscription_customer_id s = jstr (jget s ''customer'')"

section \<open>Event accessors\<close>

text \<open>\<^verbatim>\<open>event['data']['object']\<close>; \<^verbatim>\<open>None\<close> is the \<^verbatim>\<open>KeyError\<close>.\<close>

definition event_object :: "json \<Rightarrow> json option" where
  "event_object event =
     (if jhas event ''data'' \<and> jhas (jget event ''data'') ''object''
      then Some (jget (jget event ''data'') ''object'') else None)"

definition event_previous_attributes :: "json \<Rightarrow> json" where
  "event_previous_attributes event = or_empty (jget (jget event ''data'') ''previous_attributes'')"

definition event_created :: "json \<Rightarrow> int option" where
  "event_created event = jint (jget event ''created'')"

definition event_type :: "json \<Rightarrow> string option" where
  "event_type event = jstr (jget event ''type'')"

definition is_stale_event :: "int option \<Rightarrow> int option \<Rightarrow> bool" where
  "is_stale_event marker created = (case (created, marker) of (Some c, Some m) \<Rightarrow> c < m | _ \<Rightarrow> False)"

section \<open>Formatting amounts\<close>

definition upper_char :: "char \<Rightarrow> char" where
  "upper_char c = (if 97 \<le> (of_char c :: nat) \<and> (of_char c :: nat) \<le> 122
     then char_of ((of_char c :: nat) - 32) else c)"

definition upper :: "string \<Rightarrow> string" where
  "upper s = map upper_char s"

text \<open>\<^verbatim>\<open>f"${n / 100:.2f}"\<close> of an integer number of cents.\<close>

definition dollars :: "int \<Rightarrow> string" where
  "dollars n = (if n < 0 then ''-'' else []) @ string_of_nat (nat \<bar>n\<bar> div 100) @ ''.'' @
     [digit_char (nat \<bar>n\<bar> mod 100 div 10), digit_char (nat \<bar>n\<bar> mod 10)]"

definition format_amount :: "int option \<Rightarrow> string \<Rightarrow> string" where
  "format_amount amount currency = (case amount of
      None \<Rightarrow> [] | Some n \<Rightarrow> ''$'' @ dollars n @ '' '' @ upper currency)"

definition format_minor_units :: "int option \<Rightarrow> string \<Rightarrow> string" where
  "format_minor_units amount currency = (case amount of
      None \<Rightarrow> [] | Some n \<Rightarrow> if n = 0 then [] else ''$'' @ dollars n @ '' '' @ upper currency)"

text \<open>The label and the percentage of the first tax rate (the code joins them with \<^verbatim>\<open>:g\<close>).\<close>

definition resolve_tax_rate :: "json \<Rightarrow> (string \<times> rat) option" where
  "resolve_tax_rate invoice = (case first_item (jget invoice ''total_tax_amounts'') of
      None \<Rightarrow> None
    | Some item \<Rightarrow>
        (case jget (jget item ''tax_rate'') ''percentage'' of
           JNum pct \<Rightarrow> Some (opt_str_or (jstr (jget (jget item ''tax_rate'') ''display_name'')) ''VAT'', pct)
         | _ \<Rightarrow> None))"

text \<open>\<^verbatim>\<open>invoice.get(key, default)\<close>: the default is for an absent key only.\<close>

definition invoice_field :: "json \<Rightarrow> string \<Rightarrow> json \<Rightarrow> json" where
  "invoice_field invoice key dflt = (if jhas invoice key then jget invoice key else dflt)"

lemma is_stale_event_None [simp]: "\<not> is_stale_event None c" "\<not> is_stale_event m None"
  by (simp_all add: is_stale_event_def split: option.split)

lemma is_stale_event_Some [simp]: "is_stale_event (Some m) (Some c) \<longleftrightarrow> c < m"
  by (simp add: is_stale_event_def)

end
