(* ===== verification/Subscription_Service.thy ===== *)
theory Subscription_Service
  imports Quota_Runs
begin

text \<open>
  \<^verbatim>\<open>SubscriptionService.change_plan\<close>
  (\<^verbatim>\<open>core/usage_quota/services/subscription_service.py\<close>).  The mail to the user and the audit
  entry are best effort (their exceptions are swallowed); they are returned as a list of
  notices.  The database refuses a second row for the same user, so creating one beside an
  inactive row fails.
\<close>

datatype notice =
    PlanChangeMail uid "string option" string
  | PlanChangeAudit uid "string option" string string string

record plan_change =
  pc_from :: "string option"
  pc_to :: string
  pc_is_downgrade :: bool
  pc_session_window_reset :: bool

definition active_plan_named :: "string \<Rightarrow> subscription_plan list \<Rightarrow> subscription_plan option" where
  "active_plan_named slug ps = List.find (\<lambda>p. plan_name p = slug \<and> plan_is_active p) ps"

definition notices ::
  "uid \<Rightarrow> string option \<Rightarrow> string \<Rightarrow> string \<Rightarrow> string \<Rightarrow> notice list" where
  "notices u from_plan to_plan initiated_by reason =
     [PlanChangeMail u from_plan to_plan, PlanChangeAudit u from_plan to_plan initiated_by reason]"

text \<open>Reassigning the plan of a row; a downgrade also resets the session window.\<close>

definition reassign :: "subscription_plan \<Rightarrow> subscription_plan \<Rightarrow> user_subscription \<Rightarrow> user_subscription" where
  "reassign from_plan target r =
     (let r1 = r\<lparr>sub_plan_id := plan_id target\<rparr>
      in if weekly_limit_usd target < weekly_limit_usd from_plan
         then r1\<lparr>session_window_start := None\<rparr> else r1)"

definition change_plan_body ::
  "uid \<Rightarrow> string \<Rightarrow> string \<Rightarrow> string \<Rightarrow> world \<Rightarrow> (exn + plan_change \<times> notice list) \<times> world" where
  "change_plan_body u target_plan_slug initiated_by reason w =
     (case active_plan_named target_plan_slug (plans (db w)) of
        None \<Rightarrow> (Inl (SubscriptionNotFound target_plan_slug), w)
      | Some target \<Rightarrow>
         (case active_sub (db w) u of
            None \<Rightarrow>
              (if subs (db w) u \<noteq> None then (Inl DatabaseError, w)
               else (Inr (\<lparr>pc_from = None, pc_to = plan_name target, pc_is_downgrade = False,
                           pc_session_window_reset = False\<rparr>,
                          notices u None (plan_name target) initiated_by reason),
                     invalidate u (w\<lparr>db := put_sub u (new_subscription target) (db w)\<rparr>)))
          | Some (r, from_plan) \<Rightarrow>
              (if plan_id from_plan = plan_id target
               then (Inr (\<lparr>pc_from = Some (plan_name from_plan), pc_to = plan_name target,
                           pc_is_downgrade = False, pc_session_window_reset = False\<rparr>, []), w)
               else
                 let is_downgrade = weekly_limit_usd target < weekly_limit_usd from_plan
                 in (Inr (\<lparr>pc_from = Some (plan_name from_plan), pc_to = plan_name target,
                           pc_is_downgrade = is_downgrade, pc_session_window_reset = is_downgrade\<rparr>,
                          notices u (Some (plan_name from_plan)) (plan_name target) initiated_by reason),
                     invalidate u (w\<lparr>db := put_sub u (reassign from_plan target r) (db w)\<rparr>)))))"

definition change_plan ::
  "uid \<Rightarrow> string \<Rightarrow> string \<Rightarrow> string \<Rightarrow> world \<Rightarrow> (exn + plan_change \<times> notice list) \<times> world" where
  "change_plan u target_plan_slug initiated_by reason = atomic (change_plan_body u target_plan_slug initiated_by reason)"

section \<open>Lemmas\<close>

lemma active_plan_named_Some:
  "active_plan_named slug ps = Some p \<Longrightarrow> p \<in> set ps \<and> plan_name p = slug \<and> plan_is_active p"
  by (auto simp: active_plan_named_def find_Some_iff)

lemma active_plan_named_None:
  "active_plan_named slug ps = None \<longleftrightarrow> (\<forall>p\<in>set ps. plan_name p = slug \<longrightarrow> \<not> plan_is_active p)"
  by (auto simp: active_plan_named_def find_None_iff)

lemma reassign_frame [simp]:
  "weekly_window_start (reassign f t r) = weekly_window_start r"
  "sub_plan_id (reassign f t r) = plan_id t"
  "sub_is_active (reassign f t r) = sub_is_active r"
  "custom_weekly_limit_usd (reassign f t r) = custom_weekly_limit_usd r"
  "custom_session_limit_usd (reassign f t r) = custom_session_limit_usd r"
  "session_window_start (reassign f t r) =
     (if weekly_limit_usd t < weekly_limit_usd f then None else session_window_start r)"
  by (simp_all add: reassign_def Let_def)

lemma change_plan_coherent:
  assumes coh: "coherent w" and run: "change_plan u slug by why w = (res, w')"
  shows "coherent w'"
proof -
  obtain r w1 where body: "change_plan_body u slug by why w = (r, w1)" by force
  have w1: "w1 = w \<or> (\<exists>row. w1 = invalidate u (w\<lparr>db := put_sub u row (db w)\<rparr>))"
    using body by (auto simp: change_plan_body_def Let_def split: option.splits if_splits)
  have inv: "coherent (invalidate u (w\<lparr>db := put_sub u row (db w)\<rparr>))" for row
    by (rule coherent_write [OF coh, where u = u]) (simp_all add: window_usage_def)
  show ?thesis
  proof (cases r)
    case (Inl e)
    then have "w1 = w" using body by (auto simp: change_plan_body_def Let_def split: option.splits if_splits)
    with run body Inl coh show ?thesis by (auto simp: change_plan_def atomic_def)
  next
    case (Inr x)
    with run body have "w' = w1" by (auto simp: change_plan_def atomic_def)
    with w1 inv coh show ?thesis by blast
  qed
qed

end
