(* ===== verification/Stripe_Webhooks.thy ===== *)
theory Stripe_Webhooks
  imports Stripe_Events Subscription_Service Billing_Service
begin

text \<open>
  The handlers of the Stripe webhook events (\<^verbatim>\<open>services/stripe_webhooks.py\<close>).

  A handler maps an event to a result (\<^verbatim>\<open>Inl\<close> is an exception) and a new state: the
  world of the quota service and the \<open>outbox\<close>, what the handler asked the outside for: mails
  (\<^verbatim>\<open>_safe_email\<close> swallows their failures), audit entries, and the deletion of a
  superseded subscription at Stripe.  \<open>stripe\<close> answers what Stripe says about a subscription:
  its status, or \<^verbatim>\<open>None\<close> for a \<^verbatim>\<open>StripeError\<close>; \<open>delete_ok\<close> whether a deletion succeeds.
  Dates in mails stay unix seconds.
\<close>

record receipt =
  rc_plan_name :: string
  rc_amount_display :: string
  rc_subtotal_display :: string
  rc_tax_display :: string
  rc_tax_rate :: "(string \<times> rat) option"
  rc_period_start :: "int option"
  rc_period_end :: "int option"
  rc_date_paid :: "int option"
  rc_invoice_number :: string
  rc_hosted_invoice_url :: string
  rc_invoice_pdf :: string

datatype effect =
    MailPlanChange uid "string option" string
  | MailCanceled uid "int option"
  | MailReceipt uid receipt
  | MailPaymentFailed uid
  | MailTrialEnding uid "int option"
  | StripeDelete string
  | AuditSuperseded uid string "string option"

record hook_state =
  hw :: world
  outbox :: "effect list"

definition send :: "effect \<Rightarrow> hook_state \<Rightarrow> hook_state" where
  "send e h = h\<lparr>outbox := outbox h @ [e]\<rparr>"

definition set_row :: "uid \<Rightarrow> user_subscription \<Rightarrow> hook_state \<Rightarrow> hook_state" where
  "set_row u r h = h\<lparr>hw := (hw h)\<lparr>db := put_sub u r (db (hw h))\<rparr>\<rparr>"

definition hook_invalidate :: "uid \<Rightarrow> hook_state \<Rightarrow> hook_state" where
  "hook_invalidate u h = h\<lparr>hw := invalidate_for_user u (hw h)\<rparr>"

section \<open>Users and plans\<close>

definition resolve_user :: "db \<Rightarrow> string option \<Rightarrow> string option \<Rightarrow> uid option" where
  "resolve_user d customer_id meta_user_id =
     (let by_customer = (if truthy_str customer_id
                         then List.find (\<lambda>a. stripe_customer_id a = customer_id) (users d) else None);
          by_id = (if truthy_str meta_user_id
                   then List.find (\<lambda>a. Some (user_id a) = meta_user_id) (users d) else None)
      in case by_customer of Some a \<Rightarrow> Some (user_id a) | None \<Rightarrow> map_option user_id by_id)"

definition resolve_plan :: "db \<Rightarrow> string option \<Rightarrow> string option \<Rightarrow> subscription_plan option" where
  "resolve_plan d plan_slug price_id =
     (let via_slug = (if truthy_str plan_slug
                      then first_by weekly_limit_usd
                             (filter (\<lambda>p. Some (plan_name p) = plan_slug \<and> plan_is_active p) (plans d)) else None);
          via_price = (if truthy_str price_id
                       then first_by weekly_limit_usd
                              (filter (\<lambda>p. plan_is_active p \<and>
                                 (stripe_price_id_monthly p = price_id \<or> stripe_price_id_yearly p = price_id)) (plans d))
                       else None)
      in case (via_slug, via_price) of
           (Some a, Some b) \<Rightarrow> if plan_id a \<noteq> plan_id b then Some b else Some a
         | (Some a, None) \<Rightarrow> Some a
         | (None, p) \<Rightarrow> p)"

definition plan_of_row :: "db \<Rightarrow> user_subscription \<Rightarrow> subscription_plan option" where
  "plan_of_row d r = plan_by_id d (sub_plan_id r)"

definition row_plan_name :: "db \<Rightarrow> user_subscription \<Rightarrow> string option" where
  "row_plan_name d r = map_option plan_name (plan_of_row d r)"

definition active_free_plan :: "db \<Rightarrow> subscription_plan option" where
  "active_free_plan d =
     first_by weekly_limit_usd (filter (\<lambda>p. plan_name p = ''free'' \<and> plan_is_active p) (plans d))"

section \<open>Shared steps\<close>

definition cancel_superseded_subscription ::
  "(string \<Rightarrow> string option) \<Rightarrow> (string \<Rightarrow> bool) \<Rightarrow> uid \<Rightarrow> string \<Rightarrow> string option \<Rightarrow> hook_state \<Rightarrow> hook_state" where
  "cancel_superseded_subscription stripe delete_ok u old_sub_id new_sub_id h =
     (case stripe old_sub_id of
        None \<Rightarrow> h
      | Some old_status \<Rightarrow>
          if old_status \<in> {''canceled'', ''incomplete_expired''} then h
          else if delete_ok old_sub_id
          then send (AuditSuperseded u old_sub_id new_sub_id) (send (StripeDelete old_sub_id) h)
          else h)"

definition set_marker :: "int option \<Rightarrow> user_subscription \<Rightarrow> user_subscription" where
  "set_marker created r = (case created of None \<Rightarrow> r | Some c \<Rightarrow> r\<lparr>stripe_event_created := Some c\<rparr>)"

definition downgraded_row :: "subscription_plan \<Rightarrow> int option \<Rightarrow> user_subscription \<Rightarrow> user_subscription" where
  "downgraded_row free created r =
     set_marker created (r\<lparr>sub_plan_id := plan_id free, stripe_subscription_id := None, current_period_end := None,
       cancel_at_period_end := False, session_window_start := None\<rparr>)"

definition downgrade_to_free :: "uid \<Rightarrow> int option \<Rightarrow> int option \<Rightarrow> hook_state \<Rightarrow> (exn + unit) \<times> hook_state" where
  "downgrade_to_free u period_end created h = (case active_free_plan (db (hw h)) of
      None \<Rightarrow> (Inl (RuntimeError ''No active free plan''), h)
    | Some free \<Rightarrow>
        let row = the_default (new_subscription free) (subs (db (hw h)) u);
            was_paid = (row_plan_name (db (hw h)) row \<noteq> Some ''free'');
            h1 = hook_invalidate u (set_row u (downgraded_row free created row) h)
        in (Inr (), if was_paid then send (MailCanceled u period_end) h1 else h1))"

section \<open>Subscription events\<close>

text \<open>Whose event it is: the object of the event and the user it resolves to.\<close>

definition event_subject :: "db \<Rightarrow> json \<Rightarrow> exn + json \<times> uid" where
  "event_subject d event = (case event_object event of
      None \<Rightarrow> Inl (RuntimeError ''KeyError'')
    | Some s \<Rightarrow>
        (case resolve_user d (subscription_customer_id s) (subscription_metadata_user_id s) of
           None \<Rightarrow> Inl (IgnorableEvent ''No user for stripe_customer_id'')
         | Some u \<Rightarrow> Inr (s, u)))"

definition created_row :: "subscription_plan \<Rightarrow> json \<Rightarrow> int option \<Rightarrow> user_subscription option \<Rightarrow> user_subscription" where
  "created_row plan s created existing =
     set_marker created ((the_default (new_subscription plan) existing)
       \<lparr>sub_plan_id := plan_id plan, stripe_subscription_id := subscription_id s, sub_is_active := True,
        current_period_end := subscription_current_period_end s,
        cancel_at_period_end := subscription_cancel_at_period_end s\<rparr>)"

definition superseded :: "user_subscription option \<Rightarrow> string option \<Rightarrow> string option" where
  "superseded existing sub_id = (case existing of
      None \<Rightarrow> None
    | Some r \<Rightarrow>
        if truthy_str sub_id \<and> truthy_str (stripe_subscription_id r) \<and> stripe_subscription_id r \<noteq> sub_id
        then stripe_subscription_id r else None)"

definition handle_subscription_created ::
  "(string \<Rightarrow> string option) \<Rightarrow> (string \<Rightarrow> bool) \<Rightarrow> json \<Rightarrow> hook_state \<Rightarrow> (exn + unit) \<times> hook_state" where
  "handle_subscription_created stripe delete_ok event h = (case event_subject (db (hw h)) event of
      Inl e \<Rightarrow> (Inl e, h)
    | Inr (s, u) \<Rightarrow>
       (case resolve_plan (db (hw h)) (subscription_metadata_plan_slug s) (subscription_price_id s) of
          None \<Rightarrow> (Inl (RuntimeError ''No SubscriptionPlan''), h)
        | Some plan \<Rightarrow>
           let existing = subs (db (hw h)) u;
               created = event_created event
           in if is_stale_event (Option.bind existing stripe_event_created) created then (Inr (), h)
              else
                let from_plan = Option.bind existing (row_plan_name (db (hw h)));
                    was_first = (existing = None \<or> from_plan = Some ''free'');
                    h1 = hook_invalidate u (set_row u (created_row plan s created existing) h);
                    h2 = (case superseded existing (subscription_id s) of
                            None \<Rightarrow> h1
                          | Some old \<Rightarrow>
                              cancel_superseded_subscription stripe delete_ok u old (subscription_id s) h1)
                in (Inr (), send (MailPlanChange u (if was_first then None else from_plan) (plan_name plan)) h2)))"

definition updated_row ::
  "db \<Rightarrow> subscription_plan option \<Rightarrow> json \<Rightarrow> int option \<Rightarrow> user_subscription \<Rightarrow> user_subscription" where
  "updated_row d new_plan s created r =
     (let r1 = (case new_plan of Some p \<Rightarrow> r\<lparr>sub_plan_id := plan_id p\<rparr> | None \<Rightarrow> r);
          r2 = (if truthy_str (subscription_id s) then r1\<lparr>stripe_subscription_id := subscription_id s\<rparr> else r1);
          r3 = r2\<lparr>current_period_end := subscription_current_period_end s,
                  cancel_at_period_end := subscription_cancel_at_period_end s\<rparr>;
          r4 = (case (new_plan, plan_of_row d r) of
                  (Some p, Some old) \<Rightarrow>
                    if plan_id p \<noteq> sub_plan_id r \<and> weekly_limit_usd p < weekly_limit_usd old
                    then r3\<lparr>session_window_start := None\<rparr> else r3
                | _ \<Rightarrow> r3)
      in set_marker created r4)"

definition apply_subscription_updated :: "uid \<Rightarrow> json \<Rightarrow> json \<Rightarrow> hook_state \<Rightarrow> (exn + unit) \<times> hook_state" where
  "apply_subscription_updated u s event h =
     (let d = db (hw h);
          new_plan = resolve_plan d None (subscription_price_id s);
          created = event_created event;
          cancel_at_end = subscription_cancel_at_period_end s
      in case subs d u of
           None \<Rightarrow>
             (case new_plan of
                None \<Rightarrow> (Inl (RuntimeError ''No SubscriptionPlan for price_id''), h)
              | Some p \<Rightarrow> (Inr (), hook_invalidate u (set_row u (created_row p s created None) h)))
         | Some r \<Rightarrow>
             let plan_changed = (case new_plan of None \<Rightarrow> False | Some p \<Rightarrow> plan_id p \<noteq> sub_plan_id r);
                 previous = event_previous_attributes event;
                 prev_cancel = (if jhas previous ''cancel_at_period_end'' then truthy (jget previous ''cancel_at_period_end'')
                                else cancel_at_period_end r);
                 h1 = hook_invalidate u (set_row u (updated_row d new_plan s created r) h);
                 h2 = (if plan_changed
                       then send (MailPlanChange u (row_plan_name d r) (plan_name (the new_plan))) h1 else h1)
             in (Inr (), if cancel_at_end \<and> \<not> prev_cancel
                         then send (MailCanceled u (subscription_current_period_end s)) h2 else h2))"

definition stale_for :: "db \<Rightarrow> uid \<Rightarrow> json \<Rightarrow> bool" where
  "stale_for d u event = is_stale_event (Option.bind (subs d u) stripe_event_created) (event_created event)"

definition handle_subscription_updated :: "json \<Rightarrow> hook_state \<Rightarrow> (exn + unit) \<times> hook_state" where
  "handle_subscription_updated event h = (case event_subject (db (hw h)) event of
      Inl e \<Rightarrow> (Inl e, h)
    | Inr (s, u) \<Rightarrow>
        if stale_for (db (hw h)) u event then (Inr (), h)
        else if subscription_status s = Some ''unpaid'' \<or> subscription_status s = Some ''incomplete_expired''
        then downgrade_to_free u (subscription_current_period_end s) (event_created event) h
        else apply_subscription_updated u s event h)"

definition handle_subscription_deleted :: "json \<Rightarrow> hook_state \<Rightarrow> (exn + unit) \<times> hook_state" where
  "handle_subscription_deleted event h = (case event_subject (db (hw h)) event of
      Inl e \<Rightarrow> (Inl e, h)
    | Inr (s, u) \<Rightarrow>
        if stale_for (db (hw h)) u event then (Inr (), h)
        else downgrade_to_free u (subscription_current_period_end s) (event_created event) h)"

definition handle_subscription_trial_will_end :: "json \<Rightarrow> hook_state \<Rightarrow> (exn + unit) \<times> hook_state" where
  "handle_subscription_trial_will_end event h = (case event_subject (db (hw h)) event of
      Inl e \<Rightarrow> (Inl e, h)
    | Inr (s, u) \<Rightarrow> (Inr (), send (MailTrialEnding u (jint (jget s ''trial_end''))) h))"

section \<open>Invoice events\<close>

definition invoice_subject :: "db \<Rightarrow> json \<Rightarrow> exn + json \<times> uid" where
  "invoice_subject d event = (case event_object event of
      None \<Rightarrow> Inl (RuntimeError ''KeyError'')
    | Some invoice \<Rightarrow>
        (case resolve_user d (jstr (invoice_field invoice ''customer'' JNull)) None of
           None \<Rightarrow> Inl (IgnorableEvent ''No user for stripe_customer_id'')
         | Some u \<Rightarrow> Inr (invoice, u)))"

definition resolve_plan_name_from_invoice :: "json \<Rightarrow> uid \<Rightarrow> hook_state \<Rightarrow> (exn + string) \<times> hook_state" where
  "resolve_plan_name_from_invoice invoice u h =
     (let price = (case first_item (jget (jget invoice ''lines'') ''data'') of
                     None \<Rightarrow> JNull | Some line \<Rightarrow> jget line ''price'')
      in case (if truthy price then resolve_plan (db (hw h)) None (jstr (jget price ''id'')) else None) of
           Some p \<Rightarrow> (Inr (display_name p), h)
         | None \<Rightarrow>
             (case get_user_plan u (hw h) of
                (Inl e, w') \<Rightarrow> (Inl e, h\<lparr>hw := w'\<rparr>)
              | (Inr p, w') \<Rightarrow> (Inr (display_name p), h\<lparr>hw := w'\<rparr>)))"

definition str_field :: "json \<Rightarrow> string \<Rightarrow> string" where
  "str_field invoice key = opt_str_or (jstr (jget invoice key)) []"

definition handle_invoice_payment_succeeded :: "json \<Rightarrow> hook_state \<Rightarrow> (exn + unit) \<times> hook_state" where
  "handle_invoice_payment_succeeded event h = (case invoice_subject (db (hw h)) event of
      Inl e \<Rightarrow> (Inl e, h)
    | Inr (invoice, u) \<Rightarrow>
       (case resolve_plan_name_from_invoice invoice u h of
          (Inl e, h') \<Rightarrow> (Inl e, h')
        | (Inr name, h') \<Rightarrow>
           let currency = the_default [] (jstr (invoice_field invoice ''currency'' (JStr ''usd'')));
               rc = \<lparr>rc_plan_name = name,
                     rc_amount_display = format_amount (jint (jget invoice ''amount_paid'')) currency,
                     rc_subtotal_display = format_minor_units (jint (jget invoice ''subtotal'')) currency,
                     rc_tax_display = format_minor_units (jint (jget invoice ''tax'')) currency,
                     rc_tax_rate = resolve_tax_rate invoice,
                     rc_period_start = jint (jget invoice ''period_start''),
                     rc_period_end = jint (jget invoice ''period_end''),
                     rc_date_paid = jint (jget (or_empty (jget invoice ''status_transitions'')) ''paid_at''),
                     rc_invoice_number = str_or (str_field invoice ''number'') (str_field invoice ''id''),
                     rc_hosted_invoice_url = str_field invoice ''hosted_invoice_url'',
                     rc_invoice_pdf = str_field invoice ''invoice_pdf''\<rparr>
           in (Inr (), send (MailReceipt u rc) h')))"

definition handle_invoice_payment_failed :: "json \<Rightarrow> hook_state \<Rightarrow> (exn + unit) \<times> hook_state" where
  "handle_invoice_payment_failed event h = (case invoice_subject (db (hw h)) event of
      Inl e \<Rightarrow> (Inl e, h)
    | Inr (_, u) \<Rightarrow> (Inr (), send (MailPaymentFailed u) h))"

section \<open>Dispatch\<close>

type_synonym handler = "json \<Rightarrow> hook_state \<Rightarrow> (exn + unit) \<times> hook_state"

definition EVENT_HANDLERS ::
  "(string \<Rightarrow> string option) \<Rightarrow> (string \<Rightarrow> bool) \<Rightarrow> (string \<times> handler) list" where
  "EVENT_HANDLERS stripe delete_ok =
     [(''customer.subscription.created'', handle_subscription_created stripe delete_ok),
      (''customer.subscription.updated'', handle_subscription_updated),
      (''customer.subscription.deleted'', handle_subscription_deleted),
      (''customer.subscription.trial_will_end'', handle_subscription_trial_will_end),
      (''invoice.payment_succeeded'', handle_invoice_payment_succeeded),
      (''invoice.payment_failed'', handle_invoice_payment_failed)]"

definition dispatch ::
  "(string \<Rightarrow> string option) \<Rightarrow> (string \<Rightarrow> bool) \<Rightarrow> json \<Rightarrow> hook_state \<Rightarrow> (exn + string) \<times> hook_state" where
  "dispatch stripe delete_ok event h =
     (case Option.bind (event_type event) (map_of (EVENT_HANDLERS stripe delete_ok)) of
        None \<Rightarrow> (Inr ''skipped'', h)
      | Some handler \<Rightarrow>
          (case handler event h of (Inl e, h') \<Rightarrow> (Inl e, h') | (Inr _, h') \<Rightarrow> (Inr ''ok'', h')))"

end
