(* ===== verification/Subscription_Properties.thy ===== *)
theory Subscription_Properties
  imports Recording_Properties Stripe_Webhooks
begin

text \<open>Properties of plan changes and of the Stripe webhook handlers.\<close>

section \<open>Plan changes\<close>

text \<open>Changing the plan of a user with an active subscription to another active plan assigns
  exactly that plan; the weekly window, the user's own limits and the ledger are kept; the
  session window is reset exactly when the weekly limit goes down; nobody else's subscription
  changes; and the cached quota state stays right, so the new limits apply to the next check.\<close>

theorem change_plan_spec:
  assumes "coherent w" and "active_sub (db w) u = Some (r, p)" and "active_plan_named slug (plans (db w)) = Some t"
    and "plan_id t \<noteq> plan_id p" and "distinct (map plan_id (plans (db w)))"
  shows "\<exists>c ns r' w'. change_plan u slug by why w = (Inr (c, ns), w') \<and>
     active_sub (db w') u = Some (r', t) \<and> plan_name t = slug \<and>
     weekly_window_start r' = weekly_window_start r \<and>
     custom_weekly_limit_usd r' = custom_weekly_limit_usd r \<and>
     session_window_start r' =
       (if weekly_limit_usd t < weekly_limit_usd p then None else session_window_start r) \<and>
     (\<forall>v. v \<noteq> u \<longrightarrow> subs (db w') v = subs (db w) v) \<and> logs (db w') = logs (db w) \<and>
     fst (check_quota u cost w') = check_quota_spec (db w') (clock w) u cost"
proof -
  let ?r = "reassign p t r"
  let ?w = "invalidate u (w\<lparr>db := put_sub u ?r (db w)\<rparr>)"
  obtain c ns where run: "change_plan u slug by why w = (Inr (c, ns), ?w)"
    using assms(2-4) by (simp add: change_plan_def atomic_def change_plan_body_def Let_def)
  have t: "t \<in> set (plans (db w))" "plan_name t = slug" using active_plan_named_Some [OF assms(3)] by simp_all
  have "plan_by_id (put_sub u ?r (db w)) (plan_id t) = Some t"
    using plan_by_id_self [OF _ t(1)] assms(5) by (simp add: plan_by_id_def)
  moreover have "sub_is_active r" using active_sub_load [OF assms(2)] by simp
  ultimately have act: "active_sub (db ?w) u = Some (?r, t)"
    by (simp add: active_sub_def load_sub_def)
  have "coherent ?w" by (rule change_plan_coherent [OF assms(1) run])
  then have "fst (check_quota u cost ?w) = check_quota_spec (db ?w) (clock ?w) u cost"
    using check_quota_coherent(1) by (metis prod.collapse)
  with run act t show ?thesis by (intro exI [of _ c] exI [of _ ns] exI [of _ ?r] exI [of _ ?w]) simp
qed

lemma demo_plus: "active_plan_named ''plus'' [free_tier 10, plus_tier 20, pro_tier 30] = Some (plus_tier 20)"
  by (simp add: active_plan_named_def)

lemma change_plan_spec_witness:
  "\<exists>r' (w'::world). active_sub (db w') ''ann'' = Some (r', plus_tier 20) \<and>
     session_window_start r' = Some (demo_now - seconds 3600)"
proof -
  have "\<exists>c ns r' w'. change_plan ''ann'' ''plus'' ''admin'' [] demo_world = (Inr (c, ns), w') \<and>
     active_sub (db w') ''ann'' = Some (r', plus_tier 20) \<and> plan_name (plus_tier 20) = ''plus'' \<and>
     weekly_window_start r' = weekly_window_start demo_row \<and>
     custom_weekly_limit_usd r' = custom_weekly_limit_usd demo_row \<and>
     session_window_start r' =
       (if weekly_limit_usd (plus_tier 20) < weekly_limit_usd (free_tier 10) then None else session_window_start demo_row) \<and>
     (\<forall>v. v \<noteq> ''ann'' \<longrightarrow> subs (db w') v = subs (db demo_world) v) \<and> logs (db w') = logs (db demo_world) \<and>
     fst (check_quota ''ann'' 1 w') = check_quota_spec (db w') (clock demo_world) ''ann'' 1"
    by (rule change_plan_spec [OF demo_coherent]) (simp_all add: demo_plus)
  then show ?thesis by auto
qed

text \<open>The plan of a user whose subscription row was deactivated cannot be changed: the
  method looks for an active row only, tries to create a second row for the same user and
  fails with a database error, for every active target plan.\<close>

theorem change_plan_fails_for_deactivated_users:
  assumes "subs (db w) u = Some r" and "\<not> sub_is_active r" and "active_plan_named slug (plans (db w)) = Some t"
  shows "change_plan u slug by why w = (Inl DatabaseError, w)"
proof -
  have "active_sub (db w) u = None"
    using assms(1,2) by (auto simp: active_sub_def load_sub_def split: option.split)
  then show ?thesis using assms by (simp add: change_plan_def atomic_def change_plan_body_def)
qed

lemma change_plan_fails_for_deactivated_users_witness:
  "change_plan ''bob'' ''plus'' ''admin'' [] demo_world = (Inl DatabaseError, demo_world)"
  using change_plan_fails_for_deactivated_users [of demo_world "''bob''" _ "''plus''" "plus_tier 20" "''admin''" "[]"]
    demo_plus by (simp add: new_subscription_def)

section \<open>What a handler does to the database\<close>

lemma hook_simps [simp]:
  "hw (send e h) = hw h" "db (hw (hook_invalidate u h)) = db (hw h)" "clock (hw (hook_invalidate u h)) = clock (hw h)"
  "db (hw (set_row u r h)) = put_sub u r (db (hw h))"
  "clock (hw (set_row u r h)) = clock (hw h)"
  by (simp_all add: send_def hook_invalidate_def set_row_def invalidate_for_user_def)

lemma cancel_superseded_hw [simp]: "hw (cancel_superseded_subscription stripe ok u old new h) = hw h"
  by (simp add: cancel_superseded_subscription_def split: option.split)

lemma set_marker_simps [simp]:
  "sub_plan_id (set_marker c r) = sub_plan_id r" "stripe_subscription_id (set_marker c r) = stripe_subscription_id r"
  "sub_is_active (set_marker c r) = sub_is_active r"
  "weekly_window_start (set_marker c r) = weekly_window_start r"
  "session_window_start (set_marker c r) = session_window_start r"
  "custom_weekly_limit_usd (set_marker c r) = custom_weekly_limit_usd r"
  "custom_session_limit_usd (set_marker c r) = custom_session_limit_usd r"
  "stripe_event_created (set_marker c r) = (case c of None \<Rightarrow> stripe_event_created r | Some x \<Rightarrow> Some x)"
  by (simp_all add: set_marker_def split: option.split)

text \<open>A subscription handler raises without a trace, leaves the database alone, or writes one row of
  the subject and invalidates that user's cache.  The row's marker becomes the event's.\<close>

definition wrote_row :: "uid \<Rightarrow> int option \<Rightarrow> hook_state \<Rightarrow> hook_state \<Rightarrow> bool" where
  "wrote_row u created h h' \<longleftrightarrow>
     (\<exists>r. hw h' = invalidate u ((hw h)\<lparr>db := put_sub u r (db (hw h))\<rparr>) \<and>
        stripe_event_created r =
          (case created of None \<Rightarrow> Option.bind (subs (db (hw h)) u) stripe_event_created | Some c \<Rightarrow> Some c))"

lemma wrote_rowI:
  assumes "hw h' = hw (hook_invalidate u (set_row u r h))"
    and "stripe_event_created r =
          (case created of None \<Rightarrow> Option.bind (subs (db (hw h)) u) stripe_event_created | Some c \<Rightarrow> Some c)"
  shows "wrote_row u created h h'"
  using assms by (auto simp: wrote_row_def hook_invalidate_def set_row_def invalidate_for_user_def)

lemma downgrade_wrote:
  assumes "downgrade_to_free u pe created h = (res, h')"
  shows "h' = h \<and> (\<exists>e. res = Inl e) \<or> res = Inr () \<and> wrote_row u created h h'"
proof (cases "active_free_plan (db (hw h))")
  case None
  then show ?thesis using assms by (auto simp: downgrade_to_free_def)
next
  case (Some free)
  let ?row = "the_default (new_subscription free) (subs (db (hw h)) u)"
  have "res = Inr ()" "hw h' = hw (hook_invalidate u (set_row u (downgraded_row free created ?row) h))"
    using assms Some by (auto simp: downgrade_to_free_def Let_def split: if_splits)
  then show ?thesis
    by (intro disjI2 conjI, simp, intro wrote_rowI)
      (auto simp: downgraded_row_def new_subscription_def the_default_def split: option.split)
qed

lemma apply_updated_wrote:
  assumes "apply_subscription_updated u s event h = (res, h')"
  shows "h' = h \<and> (\<exists>e. res = Inl e) \<or> res = Inr () \<and> wrote_row u (event_created event) h h'"
proof (cases "subs (db (hw h)) u")
  case None
  show ?thesis
  proof (cases "resolve_plan (db (hw h)) None (subscription_price_id s)")
    case None
    then show ?thesis using assms \<open>subs (db (hw h)) u = None\<close> by (auto simp: apply_subscription_updated_def Let_def)
  next
    case (Some p)
    then have "res = Inr ()" "h' = hook_invalidate u (set_row u (created_row p s (event_created event) None) h)"
      using assms None by (simp_all add: apply_subscription_updated_def Let_def)
    then show ?thesis using None
      by (intro disjI2 conjI, simp, intro wrote_rowI) (auto simp: created_row_def new_subscription_def split: option.split)
  qed
next
  case (Some r)
  let ?p = "resolve_plan (db (hw h)) None (subscription_price_id s)"
  have "res = Inr ()" "hw h' = hw (hook_invalidate u (set_row u (updated_row (db (hw h)) ?p s (event_created event) r) h))"
    using assms Some by (auto simp: apply_subscription_updated_def Let_def split: if_splits)
  then show ?thesis using Some
    by (intro disjI2 conjI, simp, intro wrote_rowI) (auto simp: updated_row_def Let_def split: option.split)
qed

lemma created_wrote:
  assumes "handle_subscription_created stripe ok event h = (res, h')"
  shows "h' = h \<or> (\<exists>s u. event_subject (db (hw h)) event = Inr (s, u) \<and> res = Inr () \<and>
     \<not> stale_for (db (hw h)) u event \<and> wrote_row u (event_created event) h h')"
proof (cases "event_subject (db (hw h)) event")
  case (Inl e)
  then show ?thesis using assms by (simp add: handle_subscription_created_def)
next
  case (Inr su)
  obtain s u where su: "su = (s, u)" by force
  let ?existing = "subs (db (hw h)) u"
  show ?thesis
  proof (cases "resolve_plan (db (hw h)) (subscription_metadata_plan_slug s) (subscription_price_id s)")
    case None
    then show ?thesis using assms Inr su by (simp add: handle_subscription_created_def)
  next
    case (Some plan)
    show ?thesis
    proof (cases "stale_for (db (hw h)) u event")
      case True
      then show ?thesis using assms Inr su Some by (simp add: handle_subscription_created_def stale_for_def Let_def)
    next
      case False
      have "res = Inr ()" "hw h' = hw (hook_invalidate u (set_row u (created_row plan s (event_created event) ?existing) h))"
        using assms Inr su Some False
        by (auto simp: handle_subscription_created_def stale_for_def Let_def split: option.splits)
      moreover have "stripe_event_created (created_row plan s (event_created event) ?existing) =
          (case event_created event of None \<Rightarrow> Option.bind ?existing stripe_event_created | Some c \<Rightarrow> Some c)"
        by (auto simp: created_row_def the_default_def new_subscription_def split: option.split)
      ultimately show ?thesis using Inr su False wrote_rowI by blast
    qed
  qed
qed

lemma updated_wrote:
  assumes "handle_subscription_updated event h = (res, h')"
  shows "h' = h \<or> (\<exists>s u. event_subject (db (hw h)) event = Inr (s, u) \<and> res = Inr () \<and>
     \<not> stale_for (db (hw h)) u event \<and> wrote_row u (event_created event) h h')"
  using assms unfolding handle_subscription_updated_def
  by (cases "event_subject (db (hw h)) event") (auto dest: downgrade_wrote apply_updated_wrote split: if_splits)

lemma deleted_wrote:
  assumes "handle_subscription_deleted event h = (res, h')"
  shows "h' = h \<or> (\<exists>s u. event_subject (db (hw h)) event = Inr (s, u) \<and> res = Inr () \<and>
     \<not> stale_for (db (hw h)) u event \<and> wrote_row u (event_created event) h h')"
  using assms unfolding handle_subscription_deleted_def
  by (cases "event_subject (db (hw h)) event") (auto dest: downgrade_wrote split: if_splits)

end
