(* ===== verification/Webhook_Properties.thy ===== *)
theory Webhook_Properties
  imports Subscription_Properties
begin

text \<open>Properties of the webhook dispatcher over single events and over deliveries in any order.\<close>

section \<open>The effect of one dispatch\<close>

definition subscription_events :: "string list" where
  "subscription_events =
     [''customer.subscription.created'', ''customer.subscription.updated'', ''customer.subscription.deleted'']"

lemma invoice_succeeded_hw:
  assumes "handle_invoice_payment_succeeded event h = (res, h')"
  shows "hw h' = hw h \<or> (\<exists>u. hw h' = snd (get_or_create_subscription u (hw h)))"
proof -
  have plan: "hw h1 = hw h \<or> hw h1 = snd (get_or_create_subscription u (hw h))"
    if "resolve_plan_name_from_invoice i u h = (r, h1)" for i u r h1
    using that by (auto simp: resolve_plan_name_from_invoice_def get_user_plan_def Let_def
        split: option.splits sum.splits prod.splits)
  show ?thesis using assms plan
    by (auto simp: handle_invoice_payment_succeeded_def Let_def split: sum.splits prod.splits) blast+
qed

lemma dispatch_effect:
  assumes "dispatch stripe ok event h = (res, h')"
  shows "(\<exists>s u. event_subject (db (hw h)) event = Inr (s, u) \<and> res = Inr ''ok'' \<and>
            \<not> stale_for (db (hw h)) u event \<and> wrote_row u (event_created event) h h') \<or>
         hw h' = hw h \<or> (\<exists>u. hw h' = snd (get_or_create_subscription u (hw h)))"
proof (cases "Option.bind (event_type event) (map_of (EVENT_HANDLERS stripe ok))")
  case None
  then show ?thesis using assms by (simp add: dispatch_def)
next
  case (Some handler)
  obtain r where run: "handler event h = (r, h')" and res: "res = (case r of Inl e \<Rightarrow> Inl e | Inr _ \<Rightarrow> Inr ''ok'')"
    using assms Some by (auto simp: dispatch_def split: sum.splits prod.splits)
  have "handler \<in> {handle_subscription_created stripe ok, handle_subscription_updated, handle_subscription_deleted,
      handle_subscription_trial_will_end, handle_invoice_payment_succeeded, handle_invoice_payment_failed}"
    using Some by (cases "event_type event") (auto simp: EVENT_HANDLERS_def split: if_splits)
  then consider "handler = handle_subscription_created stripe ok" | "handler = handle_subscription_updated"
    | "handler = handle_subscription_deleted" | "handler = handle_invoice_payment_succeeded"
    | "handler = handle_subscription_trial_will_end \<or> handler = handle_invoice_payment_failed" by blast
  then show ?thesis
  proof cases
    case 1
    then show ?thesis using run res created_wrote by fastforce
  next
    case 2
    then show ?thesis using run res updated_wrote by fastforce
  next
    case 3
    then show ?thesis using run res deleted_wrote by fastforce
  next
    case 4
    then show ?thesis using run invoice_succeeded_hw by blast
  next
    case 5
    then have "hw h' = hw h" using run
      by (auto simp: handle_subscription_trial_will_end_def handle_invoice_payment_failed_def split: sum.splits)
    then show ?thesis by blast
  qed
qed

section \<open>The cache stays coherent\<close>

text \<open>No webhook leaves the quota cache behind the database: after any event, whether it
  succeeds, is skipped or raises, the cached pre-flight check of every user answers what the
  database says, so a plan change is visible to the next check.\<close>

theorem webhooks_keep_the_cache_right:
  assumes "coherent (hw h)" and "dispatch stripe ok event h = (res, h')"
  shows "fst (check_quota u c (hw h')) = check_quota_spec (db (hw h')) (clock (hw h')) u c"
proof -
  have "coherent (hw h')"
    using dispatch_effect [OF assms(2)]
  proof (elim disjE exE conjE)
    fix s v
    assume "wrote_row v (event_created event) h h'"
    then obtain r where "hw h' = invalidate v ((hw h)\<lparr>db := put_sub v r (db (hw h))\<rparr>)"
      by (auto simp: wrote_row_def)
    then show "coherent (hw h')"
      by (intro coherent_write [OF assms(1), where u = v]) (simp_all add: window_usage_def)
  next
    assume "hw h' = hw h"
    then show "coherent (hw h')" using assms(1) by simp
  next
    fix v
    assume "hw h' = snd (get_or_create_subscription v (hw h))"
    then show "coherent (hw h')" using get_or_create_step_coherent [OF assms(1)] by simp
  qed
  then show ?thesis using check_quota_coherent(1) by (metis prod.collapse)
qed

definition sub_json :: "string \<Rightarrow> string \<Rightarrow> json" where
  "sub_json sub_id slug = JObj [(''id'', JStr sub_id), (''customer'', JStr ''cus_ann''), (''status'', JStr ''active''),
     (''metadata'', JObj [(''plan_slug'', JStr slug)])]"

definition event_json :: "string \<Rightarrow> int \<Rightarrow> json \<Rightarrow> json" where
  "event_json typ created obj =
     JObj [(''type'', JStr typ), (''created'', JNum (of_int created)), (''data'', JObj [(''object'', obj)])]"

definition hook_demo :: hook_state where
  "hook_demo = \<lparr>hw = demo_world\<lparr>db := demo_db\<lparr>users := [\<lparr>user_id = ''ann'', stripe_customer_id = Some ''cus_ann''\<rparr>],
      subs := [''ann'' \<mapsto> demo_row\<lparr>sub_plan_id := 20, stripe_subscription_id := Some ''sub_old'',
                             stripe_event_created := Some 100\<rparr>]\<rparr>\<rparr>, outbox = []\<rparr>"

lemma sub_json_fields [simp]:
  "subscription_id (sub_json i p) = Some i" "subscription_customer_id (sub_json i p) = Some ''cus_ann''"
  "subscription_metadata_user_id (sub_json i p) = None" "subscription_status (sub_json i p) = Some ''active''"
  "subscription_metadata_plan_slug (sub_json i p) = (if p = [] then None else Some p)"
  "subscription_price_id (sub_json i p) = None" "subscription_current_period_end (sub_json i p) = None"
  "\<not> subscription_cancel_at_period_end (sub_json i p)"
  by (simp_all add: sub_json_def subscription_id_def subscription_customer_id_def subscription_status_def
      subscription_metadata_user_id_def subscription_metadata_plan_slug_def subscription_price_id_def or_empty_def
      nonempty_str_def first_item_def subscription_current_period_end_def subscription_cancel_at_period_end_def)

lemma event_json_fields [simp]:
  "event_type (event_json t c j) = Some t" "event_created (event_json t c j) = Some c"
  "event_object (event_json t c j) = Some j"
  by (simp_all add: event_json_def event_type_def event_created_def event_object_def jhas_def)

lemma hook_demo_fields [simp]:
  "db (hw hook_demo) = demo_db\<lparr>users := [\<lparr>user_id = ''ann'', stripe_customer_id = Some ''cus_ann''\<rparr>],
     subs := [''ann'' \<mapsto> demo_row\<lparr>sub_plan_id := 20, stripe_subscription_id := Some ''sub_old'',
                             stripe_event_created := Some 100\<rparr>]\<rparr>"
  "clock (hw hook_demo) = demo_now" "outbox hook_demo = []"
  by (simp_all add: hook_demo_def)

lemma demo_subject:
  assumes "users d = [\<lparr>user_id = ''ann'', stripe_customer_id = Some ''cus_ann''\<rparr>]"
  shows "event_subject d (event_json t c (sub_json i p)) = Inr (sub_json i p, ''ann'')"
  using assms by (simp add: event_subject_def resolve_user_def Let_def)

lemma demo_handlers [simp]:
  "map_of (EVENT_HANDLERS stripe ok) ''customer.subscription.created'' = Some (handle_subscription_created stripe ok)"
  "map_of (EVENT_HANDLERS stripe ok) ''customer.subscription.updated'' = Some handle_subscription_updated"
  "map_of (EVENT_HANDLERS stripe ok) ''customer.subscription.deleted'' = Some handle_subscription_deleted"
  by (simp_all add: EVENT_HANDLERS_def)

lemma webhooks_keep_the_cache_right_witness:
  "\<exists>res h'. dispatch (\<lambda>s. None) (\<lambda>s. True) (event_json ''customer.subscription.deleted'' 200 (sub_json ''sub_old'' [])) hook_demo
      = (res, h') \<and> fst (check_quota ''ann'' 1 (hw h')) = check_quota_spec (db (hw h')) (clock (hw h')) ''ann'' 1"
proof -
  have "coherent (hw hook_demo)" by (rule coherent_empty) (simp add: hook_demo_def)
  from webhooks_keep_the_cache_right [OF this] show ?thesis by (metis surj_pair)
qed

section \<open>Deliveries out of order\<close>

definition marker_of :: "hook_state \<Rightarrow> uid \<Rightarrow> int option" where
  "marker_of h u = Option.bind (subs (db (hw h)) u) stripe_event_created"

definition deliver ::
  "(string \<Rightarrow> string option) \<Rightarrow> (string \<Rightarrow> bool) \<Rightarrow> json list \<Rightarrow> hook_state \<Rightarrow> hook_state" where
  "deliver stripe ok evs h = foldl (\<lambda>h e. snd (dispatch stripe ok e h)) h evs"

lemma dispatch_marker:
  assumes "dispatch stripe ok event h = (res, h')" and m: "marker_of h u = Some m"
  shows "\<exists>m'. marker_of h' u = Some m' \<and> m \<le> m'"
  using dispatch_effect [OF assms(1)]
proof (elim disjE exE conjE)
  fix s v
  assume fresh: "\<not> stale_for (db (hw h)) v event" and wr: "wrote_row v (event_created event) h h'"
  show ?thesis
  proof (cases "u = v")
    case True
    with fresh wr m show ?thesis
      by (auto simp: wrote_row_def marker_of_def stale_for_def put_sub_def is_stale_event_def split: option.splits)
  next
    case False
    with wr m show ?thesis by (auto simp: wrote_row_def marker_of_def put_sub_def)
  qed
next
  assume "hw h' = hw h"
  with m show ?thesis by (simp add: marker_of_def)
next
  fix v
  assume "hw h' = snd (get_or_create_subscription v (hw h))"
  then obtain so where "get_or_create_subscription v (hw h) = (so, hw h')" by (metis prod.collapse)
  from get_or_create_db [OF this] m show ?thesis by (auto simp: marker_of_def put_sub_def split: if_splits)
qed

lemma stale_dispatch:
  assumes "event_subject (db (hw h)) event = Inr (s, u)" and "stale_for (db (hw h)) u event"
    and "event_type event = Some t" and "t \<in> set subscription_events"
  shows "snd (dispatch stripe ok event h) = h"
proof -
  have "snd (handle_subscription_created stripe ok event h) = h" "snd (handle_subscription_updated event h) = h"
    "snd (handle_subscription_deleted event h) = h"
    using assms(1,2) by (auto simp: handle_subscription_created_def handle_subscription_updated_def
        handle_subscription_deleted_def stale_for_def Let_def split: option.split)
  then show ?thesis using assms(3,4)
    by (auto simp: dispatch_def subscription_events_def split: sum.split prod.split)
qed

text \<open>C15: Late deliveries cannot undo newer ones. Over any sequence of deliveries the marker of a
  user's subscription never goes back, and at any point a created, updated or deleted event
  older than the marker changes nothing at all: no row, no cache, no mail.\<close>

theorem late_events_change_nothing:
  fixes stripe :: "string \<Rightarrow> string option" and ok :: "string \<Rightarrow> bool" and evs :: "json list"
  assumes "marker_of h u = Some m"
  defines "h1 \<equiv> deliver stripe ok evs h"
  shows "(\<exists>m1. marker_of h1 u = Some m1 \<and> m \<le> m1) \<and>
     (\<forall>event s t c. event_subject (db (hw h1)) event = Inr (s, u) \<longrightarrow> event_type event = Some t \<longrightarrow>
        t \<in> set subscription_events \<longrightarrow> event_created event = Some c \<longrightarrow> c < m \<longrightarrow>
        snd (dispatch stripe ok event h1) = h1)"
proof -
  have mono: "\<exists>m1. marker_of h1 u = Some m1 \<and> m \<le> m1" unfolding h1_def
    using assms(1)
  proof (induction evs arbitrary: h m)
    case Nil
    then show ?case by (simp add: deliver_def)
  next
    case (Cons e es)
    obtain r h2 where d: "dispatch stripe ok e h = (r, h2)" by force
    obtain m2 where "marker_of h2 u = Some m2" "m \<le> m2" using dispatch_marker [OF d Cons.prems] by blast
    with Cons.IH [of h2 m2] d show ?case by (fastforce simp: deliver_def)
  qed
  moreover have "snd (dispatch stripe ok event h1) = h1"
    if "event_subject (db (hw h1)) event = Inr (s, u)" "event_type event = Some t" "t \<in> set subscription_events"
      "event_created event = Some c" "c < m" for event s t c
  proof -
    obtain m1 where "marker_of h1 u = Some m1" "m \<le> m1" using mono by blast
    with that(4,5) have "stale_for (db (hw h1)) u event" by (simp add: stale_for_def marker_of_def)
    from stale_dispatch [OF that(1) this that(2,3)] show ?thesis .
  qed
  ultimately show ?thesis by blast
qed

lemma late_events_change_nothing_witness:
  "snd (dispatch (\<lambda>s. None) (\<lambda>s. True) (event_json ''customer.subscription.deleted'' 50 (sub_json ''sub_x'' [])) hook_demo)
     = hook_demo"
proof -
  have m: "marker_of hook_demo ''ann'' = Some 100" by (simp add: marker_of_def)
  have h: "deliver (\<lambda>s. None) (\<lambda>s. True) [] hook_demo = hook_demo" by (simp add: deliver_def)
  have s: "event_subject (db (hw hook_demo)) (event_json ''customer.subscription.deleted'' 50 (sub_json ''sub_x'' []))
      = Inr (sub_json ''sub_x'' [], ''ann'')" by (rule demo_subject) simp
  show ?thesis
    using late_events_change_nothing [OF m, of "\<lambda>s. None" "\<lambda>s. True" "[]", unfolded h] s
    by (simp add: subscription_events_def)
qed

end
