(* ===== verification/Webhook_Replays.thy ===== *)
theory Webhook_Replays
  imports Webhook_Properties
begin

text \<open>Replayed events, lost payments, and two orders of events the handlers do not withstand.\<close>

section \<open>Writing a row twice\<close>

lemma created_row_idem [simp]:
  "created_row p s c (Some (created_row p s c x)) = created_row p s c x"
  by (simp add: created_row_def set_marker_def split: option.split)

lemma downgraded_row_idem [simp]: "downgraded_row free c (downgraded_row free c r) = downgraded_row free c r"
  by (simp add: downgraded_row_def set_marker_def split: option.split)

definition plan_drops :: "db \<Rightarrow> subscription_plan option \<Rightarrow> user_subscription \<Rightarrow> bool" where
  "plan_drops d p r = (case (p, plan_of_row d r) of
     (Some a, Some b) \<Rightarrow> plan_id a \<noteq> sub_plan_id r \<and> weekly_limit_usd a < weekly_limit_usd b | _ \<Rightarrow> False)"

lemma updated_row_fields:
  "sub_plan_id (updated_row d p s c r) = (case p of Some a \<Rightarrow> plan_id a | None \<Rightarrow> sub_plan_id r)"
  "custom_weekly_limit_usd (updated_row d p s c r) = custom_weekly_limit_usd r"
  "custom_session_limit_usd (updated_row d p s c r) = custom_session_limit_usd r"
  "stripe_subscription_id (updated_row d p s c r) =
     (if truthy_str (subscription_id s) then subscription_id s else stripe_subscription_id r)"
  "current_period_end (updated_row d p s c r) = subscription_current_period_end s"
  "cancel_at_period_end (updated_row d p s c r) = subscription_cancel_at_period_end s"
  "stripe_event_created (updated_row d p s c r) = (case c of None \<Rightarrow> stripe_event_created r | Some x \<Rightarrow> Some x)"
  "session_window_start (updated_row d p s c r) = (if plan_drops d p r then None else session_window_start r)"
  "weekly_window_start (updated_row d p s c r) = weekly_window_start r"
  "sub_is_active (updated_row d p s c r) = sub_is_active r"
  by (auto simp: updated_row_def plan_drops_def Let_def set_marker_def split: option.split)

lemma updated_row_idem: "updated_row d' p s c (updated_row d p s c r) = updated_row d p s c r"
  by (rule user_subscription.equality)
    (auto simp: updated_row_fields plan_drops_def split: option.split)

lemma created_row_fields:
  "sub_plan_id (created_row p s c x) = plan_id p"
  "stripe_subscription_id (created_row p s c x) = subscription_id s"
  "current_period_end (created_row p s c x) = subscription_current_period_end s"
  "cancel_at_period_end (created_row p s c x) = subscription_cancel_at_period_end s"
  "stripe_event_created (created_row p s c x) =
     (case c of None \<Rightarrow> stripe_event_created (the_default (new_subscription p) x) | Some y \<Rightarrow> Some y)"
  by (simp_all add: created_row_def set_marker_def split: option.split)

lemma updated_after_created: "updated_row d (Some p) s c (created_row p s c x) = created_row p s c x"
  by (rule user_subscription.equality)
    (auto simp: updated_row_fields created_row_fields plan_drops_def split: option.split)

lemma put_sub_simps [simp]:
  "put_sub u r (put_sub u r' d) = put_sub u r d" "subs (put_sub u r d) u = Some r"
  "plans (put_sub u r d) = plans d" "users (put_sub u r d) = users d"
  by (simp_all add: put_sub_def)

text \<open>The parts of the database a handler decides from are untouched by its own write.\<close>

lemma resolve_user_put [simp]: "resolve_user (put_sub u r d) x y = resolve_user d x y"
  by (simp add: resolve_user_def Let_def cong: if_cong option.case_cong)

lemma same_decisions [simp]:
  "event_subject (put_sub u r d) event = event_subject d event"
  "resolve_plan (put_sub u r d) x y = resolve_plan d x y"
  "active_free_plan (put_sub u r d) = active_free_plan d"
  by (simp_all add: event_subject_def resolve_plan_def active_free_plan_def cong: option.case_cong)

section \<open>The database after an event\<close>

definition downgrade_effect :: "db \<Rightarrow> uid \<Rightarrow> int option \<Rightarrow> db" where
  "downgrade_effect d u c = (case active_free_plan d of
      None \<Rightarrow> d
    | Some free \<Rightarrow> put_sub u (downgraded_row free c (the_default (new_subscription free) (subs d u))) d)"

definition created_effect :: "db \<Rightarrow> json \<Rightarrow> db" where
  "created_effect d event = (case event_subject d event of
      Inl _ \<Rightarrow> d
    | Inr (s, u) \<Rightarrow>
       (case resolve_plan d (subscription_metadata_plan_slug s) (subscription_price_id s) of
          None \<Rightarrow> d
        | Some p \<Rightarrow> if stale_for d u event then d
                    else put_sub u (created_row p s (event_created event) (subs d u)) d))"

definition updated_effect :: "db \<Rightarrow> json \<Rightarrow> db" where
  "updated_effect d event = (case event_subject d event of
      Inl _ \<Rightarrow> d
    | Inr (s, u) \<Rightarrow>
       (let p = resolve_plan d None (subscription_price_id s)
        in if stale_for d u event then d
           else if subscription_status s = Some ''unpaid'' \<or> subscription_status s = Some ''incomplete_expired''
           then downgrade_effect d u (event_created event)
           else (case subs d u of
                   None \<Rightarrow> (case p of None \<Rightarrow> d | Some x \<Rightarrow> put_sub u (created_row x s (event_created event) None) d)
                 | Some r \<Rightarrow> put_sub u (updated_row d p s (event_created event) r) d)))"

definition deleted_effect :: "db \<Rightarrow> json \<Rightarrow> db" where
  "deleted_effect d event = (case event_subject d event of
      Inl _ \<Rightarrow> d
    | Inr (s, u) \<Rightarrow> if stale_for d u event then d else downgrade_effect d u (event_created event))"

lemma downgrade_db: "db (hw (snd (downgrade_to_free u pe c h))) = downgrade_effect (db (hw h)) u c"
  by (simp add: downgrade_to_free_def downgrade_effect_def Let_def split: option.split)

lemma created_db: "db (hw (snd (handle_subscription_created stripe ok event h))) = created_effect (db (hw h)) event"
  by (simp add: handle_subscription_created_def created_effect_def stale_for_def Let_def split: sum.split option.split prod.split)

lemma apply_updated_db:
  "db (hw (snd (apply_subscription_updated u s event h))) = (case subs (db (hw h)) u of
      None \<Rightarrow> (case resolve_plan (db (hw h)) None (subscription_price_id s) of
                None \<Rightarrow> db (hw h) | Some x \<Rightarrow> put_sub u (created_row x s (event_created event) None) (db (hw h)))
    | Some r \<Rightarrow> put_sub u (updated_row (db (hw h)) (resolve_plan (db (hw h)) None (subscription_price_id s)) s
                  (event_created event) r) (db (hw h)))"
  by (simp add: apply_subscription_updated_def Let_def split: option.split)

lemma updated_db: "db (hw (snd (handle_subscription_updated event h))) = updated_effect (db (hw h)) event"
  by (simp add: handle_subscription_updated_def updated_effect_def downgrade_db apply_updated_db Let_def
      split: sum.split prod.split)

lemma deleted_db: "db (hw (snd (handle_subscription_deleted event h))) = deleted_effect (db (hw h)) event"
  by (simp add: handle_subscription_deleted_def deleted_effect_def downgrade_db split: sum.split prod.split)

lemma stale_after_write:
  "stripe_event_created r = (case event_created event of None \<Rightarrow> x | Some c \<Rightarrow> Some c) \<Longrightarrow>
     \<not> stale_for (put_sub u r d) u event"
  by (auto simp: stale_for_def is_stale_event_def split: option.splits)

lemma downgraded_marker:
  "stripe_event_created (downgraded_row free c r) = (case c of None \<Rightarrow> stripe_event_created r | Some y \<Rightarrow> Some y)"
  by (simp add: downgraded_row_def split: option.split)

lemmas row_markers = created_row_fields(5) downgraded_marker updated_row_fields(7)

lemma downgrade_effect_idem: "downgrade_effect (downgrade_effect d u c) u c = downgrade_effect d u c"
  by (auto simp: downgrade_effect_def split: option.split)

lemma not_stale_after:
  "\<not> stale_for (put_sub u (created_row p s (event_created event) x) d) u event"
  "\<not> stale_for (put_sub u (downgraded_row p (event_created event) r) d) u event"
  "\<not> stale_for (put_sub u (updated_row d' q s (event_created event) r) d) u event"
  by (rule stale_after_write, simp add: row_markers)+

lemma created_effect_idem: "created_effect (created_effect d event) event = created_effect d event"
  by (auto simp: created_effect_def not_stale_after split: sum.split option.split)

lemma deleted_effect_idem: "deleted_effect (deleted_effect d event) event = deleted_effect d event"
  by (auto simp: deleted_effect_def downgrade_effect_def not_stale_after split: sum.split option.split)

lemma updated_effect_idem: "updated_effect (updated_effect d event) event = updated_effect d event"
proof (cases "event_subject d event")
  case (Inr su)
  obtain s u where su: "su = (s, u)" by force
  let ?c = "event_created event" and ?p = "resolve_plan d None (subscription_price_id s)"
  consider "stale_for d u event"
    | (down) "\<not> stale_for d u event" "subscription_status s = Some ''unpaid'' \<or> subscription_status s = Some ''incomplete_expired''"
    | (new) "\<not> stale_for d u event" "\<not> (subscription_status s = Some ''unpaid'' \<or> subscription_status s = Some ''incomplete_expired'')"
        "subs d u = None"
    | (old) r where "\<not> stale_for d u event" "\<not> (subscription_status s = Some ''unpaid'' \<or> subscription_status s = Some ''incomplete_expired'')"
        "subs d u = Some r"
    by (cases "subs d u") auto
  then show ?thesis
  proof cases
    case 1
    then show ?thesis using Inr su by (simp add: updated_effect_def Let_def)
  next
    case down
    then show ?thesis using Inr su
      by (auto simp: updated_effect_def downgrade_effect_def not_stale_after Let_def split: option.split)
  next
    case new
    then show ?thesis using Inr su
      by (cases ?p) (auto simp: updated_effect_def not_stale_after updated_after_created Let_def)
  next
    case old
    then show ?thesis using Inr su
      by (auto simp: updated_effect_def not_stale_after updated_row_idem Let_def)
  qed
qed (simp add: updated_effect_def)

section \<open>Replays\<close>

lemma get_or_create_None:
  assumes "get_or_create_subscription u w = (None, w')"
  shows "db w' = db w"
proof -
  obtain r1 w1 where g1: "get_subscription_cached u w = (r1, w1)" by force
  then have "r1 = None" "create_default_subscription u w1 = (None, w')"
    using assms by (auto simp: get_or_create_subscription_def split: option.splits)
  then have "w' = w1" by (auto simp: create_default_subscription_def Let_def split: option.splits)
  then show ?thesis using get_subscription_cached_frame [of u w] g1 by simp
qed

lemma invoice_replay:
  assumes coh: "coherent (hw h)" and "handle_invoice_payment_succeeded event h = (Inr x, h1)"
    and "handle_invoice_payment_succeeded event h1 = (y, h2)"
  shows "db (hw h2) = db (hw h1)"
proof -
  obtain i u where su: "invoice_subject (db (hw h)) event = Inr (i, u)"
    using assms(2) by (auto simp: handle_invoice_payment_succeeded_def split: sum.splits)
  have subj: "invoice_subject (put_sub v r d) event = invoice_subject d event" for v r d
    by (simp add: invoice_subject_def cong: option.case_cong)
  obtain name h1' where n1: "resolve_plan_name_from_invoice i u h = (Inr name, h1')" "hw h1 = hw h1'"
    using assms(2) su by (auto simp: handle_invoice_payment_succeeded_def Let_def split: sum.splits prod.splits)
  let ?direct = "\<lambda>d. (let price = (case first_item (jget (jget i ''lines'') ''data'') of
                     None \<Rightarrow> JNull | Some line \<Rightarrow> jget line ''price'')
      in if truthy price then resolve_plan d None (jstr (jget price ''id'')) else None)"
  have second: "hw h2 = hw h1 \<or> (?direct (db (hw h1)) = None \<and> hw h2 = snd (get_user_plan u (hw h1)))"
    if "invoice_subject (db (hw h1)) event = Inr (i, u)"
    using assms(3) that
    by (auto simp: handle_invoice_payment_succeeded_def resolve_plan_name_from_invoice_def Let_def
        split: sum.splits prod.splits option.splits if_splits)
  show ?thesis
  proof (cases "?direct (db (hw h))")
    case (Some p)
    then have eq: "hw h1 = hw h" using n1 by (auto simp: resolve_plan_name_from_invoice_def Let_def)
    show ?thesis using second [unfolded eq] su Some eq by simp
  next
    case None
    then obtain q where gq: "get_user_plan u (hw h) = (Inr q, hw h1)"
      using n1 by (auto simp: resolve_plan_name_from_invoice_def Let_def split: prod.splits sum.splits)
    obtain so w1 where g: "get_or_create_subscription u (hw h) = (so, w1)" by force
    have w1: "w1 = hw h1" using gq g by (auto simp: get_user_plan_def split: option.splits)
    have db1: "db (hw h1) = db (hw h) \<or> (\<exists>p. db (hw h1) = put_sub u (new_subscription p) (db (hw h)))"
      using get_or_create_db [OF g] w1 by blast
    then have su1: "invoice_subject (db (hw h1)) event = Inr (i, u)" using su subj by auto
    obtain so2 w2 where g2: "get_or_create_subscription u (hw h1) = (so2, w2)" by force
    have "snd (get_user_plan u (hw h1)) = w2" using g2 by (auto simp: get_user_plan_def split: option.split)
    moreover have "db w2 = db (hw h1)"
    proof (cases so)
      case (Some x)
      then have "subs (db (hw h1)) u \<noteq> None" using get_or_create_coherent(6) [OF coh g] w1 by auto
      then show ?thesis using get_or_create_db [OF g2] by auto
    next
      case None
      note gc = get_or_create_coherent [OF coh g]
      have "db w1 = db (hw h)" using get_or_create_None g None by blast
      then have "so2 = None" using get_or_create_coherent(1) [OF gc(2), of u so2 w2] g2 gc(1) w1 None by simp
      then show ?thesis using get_or_create_None g2 by blast
    qed
    ultimately show ?thesis using second [OF su1] by auto
  qed
qed

lemma dispatch_handler:
  assumes "dispatch stripe ok event h = (Inr x, h')"
  obtains (none) "h' = h" "Option.bind (event_type event) (map_of (EVENT_HANDLERS stripe ok)) = None"
  | (handled) handler y where "Option.bind (event_type event) (map_of (EVENT_HANDLERS stripe ok)) = Some handler"
      "handler event h = (Inr y, h')"
      "handler \<in> {handle_subscription_created stripe ok, handle_subscription_updated, handle_subscription_deleted,
      handle_subscription_trial_will_end, handle_invoice_payment_succeeded, handle_invoice_payment_failed}"
proof (cases "Option.bind (event_type event) (map_of (EVENT_HANDLERS stripe ok))")
  case None
  then show ?thesis using assms none by (simp add: dispatch_def)
next
  case (Some handler)
  moreover have "handler \<in> {handle_subscription_created stripe ok, handle_subscription_updated, handle_subscription_deleted,
      handle_subscription_trial_will_end, handle_invoice_payment_succeeded, handle_invoice_payment_failed}"
    using Some by (cases "event_type event") (auto simp: EVENT_HANDLERS_def split: if_splits)
  moreover obtain y where "handler event h = (Inr y, h')"
    using assms Some by (auto simp: dispatch_def split: sum.splits prod.splits)
  ultimately show ?thesis using handled by blast
qed

lemma mail_only_hw:
  "hw (snd (handle_subscription_trial_will_end event h)) = hw h" "hw (snd (handle_invoice_payment_failed event h)) = hw h"
  by (simp_all add: handle_subscription_trial_will_end_def handle_invoice_payment_failed_def split: sum.split prod.split)

text \<open>C14: The handlers are idempotent on the database: dispatching an event that was handled once
  more, to whatever end, leaves every table exactly as the first time did, for all six event
  types and also for events without a timestamp.\<close>

theorem replayed_event_changes_nothing:
  assumes "coherent (hw h)" and "dispatch stripe ok event h = (Inr x, h1)"
    and "dispatch stripe ok event h1 = (y, h2)"
  shows "db (hw h2) = db (hw h1)"
  using assms(2)
proof (cases rule: dispatch_handler)
  case none
  then show ?thesis using assms(3) by (simp add: dispatch_def)
next
  case (handled handler z)
  then obtain r where r: "handler event h1 = (r, h2)"
    using assms(3) by (auto simp: dispatch_def split: sum.splits prod.splits)
  from handled(3) consider "handler = handle_subscription_created stripe ok" | "handler = handle_subscription_updated"
    | "handler = handle_subscription_deleted" | "handler = handle_invoice_payment_succeeded"
    | "handler = handle_subscription_trial_will_end \<or> handler = handle_invoice_payment_failed" by blast
  then show ?thesis
  proof cases
    case 1
    then show ?thesis using handled(2) r created_effect_idem created_db by (metis snd_conv)
  next
    case 2
    then show ?thesis using handled(2) r updated_effect_idem updated_db by (metis snd_conv)
  next
    case 3
    then show ?thesis using handled(2) r deleted_effect_idem deleted_db by (metis snd_conv)
  next
    case 4
    then show ?thesis using handled(2) r invoice_replay [OF assms(1)] by blast
  next
    case 5
    then show ?thesis using r mail_only_hw [of event h1] by auto
  qed
qed

lemma demo_deleted:
  "\<exists>h'. dispatch stripe ok (event_json ''customer.subscription.deleted'' 200 (sub_json ''sub_old'' [])) hook_demo
      = (Inr ''ok'', h')"
  by (simp add: dispatch_def handle_subscription_deleted_def demo_subject stale_for_def downgrade_to_free_def
      active_free_plan_def Let_def split: prod.split)

lemma replayed_event_changes_nothing_witness:
  "\<exists>h1 y h2. dispatch (\<lambda>s. None) (\<lambda>s. True) (event_json ''customer.subscription.deleted'' 200 (sub_json ''sub_old'' [])) hook_demo
      = (Inr ''ok'', h1) \<and>
     dispatch (\<lambda>s. None) (\<lambda>s. True) (event_json ''customer.subscription.deleted'' 200 (sub_json ''sub_old'' [])) h1 = (y, h2) \<and>
     db (hw h2) = db (hw h1)"
proof -
  have coh: "coherent (hw hook_demo)" by (rule coherent_empty) (simp add: hook_demo_def)
  obtain h1 where "dispatch (\<lambda>s. None) (\<lambda>s. True)
      (event_json ''customer.subscription.deleted'' 200 (sub_json ''sub_old'' [])) hook_demo = (Inr ''ok'', h1)"
    using demo_deleted by blast
  with replayed_event_changes_nothing [OF coh this] show ?thesis by (metis surj_pair)
qed

section \<open>Lost payments\<close>

text \<open>When Stripe gives up on a subscription (it is deleted, or updated to
  \<^verbatim>\<open>unpaid\<close> or \<^verbatim>\<open>incomplete_expired\<close>) and the event is not older than the row, the
  user is on the active Free plan afterwards, without Stripe subscription, period or
  cancellation flag and with the session window reset; the weekly window, the user's own
  limits and whether the row is active stay.\<close>

theorem lost_subscription_becomes_free:
  assumes "event_subject (db (hw h)) event = Inr (s, u)" and "\<not> stale_for (db (hw h)) u event"
    and "subs (db (hw h)) u = Some r" and "active_free_plan (db (hw h)) = Some free"
    and "event_type event = Some ''customer.subscription.deleted'' \<or>
         event_type event = Some ''customer.subscription.updated'' \<and>
           subscription_status s \<in> {Some ''unpaid'', Some ''incomplete_expired''}"
  shows "\<exists>h' r'. dispatch stripe ok event h = (Inr ''ok'', h') \<and> subs (db (hw h')) u = Some r' \<and>
     plan_name free = ''free'' \<and> sub_plan_id r' = plan_id free \<and> stripe_subscription_id r' = None \<and>
     current_period_end r' = None \<and> \<not> cancel_at_period_end r' \<and> session_window_start r' = None \<and>
     weekly_window_start r' = weekly_window_start r \<and> sub_is_active r' = sub_is_active r \<and>
     custom_weekly_limit_usd r' = custom_weekly_limit_usd r \<and>
     custom_session_limit_usd r' = custom_session_limit_usd r"
proof -
  have name: "plan_name free = ''free''"
    using assms(4) first_by_filter unfolding active_free_plan_def by fastforce
  obtain h' where h': "downgrade_to_free u (subscription_current_period_end s) (event_created event) h = (Inr (), h')"
    using assms(4) by (simp add: downgrade_to_free_def Let_def)
  have "dispatch stripe ok event h = (Inr ''ok'', h')"
    using assms(1,2,5) h' by (auto simp: dispatch_def handle_subscription_deleted_def handle_subscription_updated_def)
  moreover have "subs (db (hw h')) u = Some (downgraded_row free (event_created event) r)"
    using downgrade_db [of u "subscription_current_period_end s" "event_created event" h] h' assms(3,4)
    by (simp add: downgrade_effect_def)
  ultimately show ?thesis using name
    by (auto simp: downgraded_row_def set_marker_def split: option.split)
qed

lemma lost_subscription_becomes_free_witness:
  "\<exists>h' r'. dispatch (\<lambda>s. None) (\<lambda>s. True) (event_json ''customer.subscription.deleted'' 200 (sub_json ''sub_old'' [])) hook_demo
      = (Inr ''ok'', h') \<and> subs (db (hw h')) ''ann'' = Some r' \<and> sub_plan_id r' = 10"
proof -
  let ?e = "event_json ''customer.subscription.deleted'' 200 (sub_json ''sub_old'' [])"
  have "event_subject (db (hw hook_demo)) ?e = Inr (sub_json ''sub_old'' [], ''ann'')" by (rule demo_subject) simp
  moreover have "\<not> stale_for (db (hw hook_demo)) ''ann'' ?e" by (simp add: stale_for_def)
  moreover have "active_free_plan (db (hw hook_demo)) = Some (free_tier 10)" by (simp add: active_free_plan_def)
  ultimately show ?thesis
    using lost_subscription_becomes_free [of hook_demo ?e "sub_json ''sub_old'' []" "''ann''" _ "free_tier 10" "\<lambda>s. None" "\<lambda>s. True"]
    by auto
qed

section \<open>Orders the handlers do not withstand\<close>

text \<open>Cancelling a superseded subscription ends the new one. When a created event replaces a
  user's live Stripe subscription, the handler deletes the old one at Stripe; Stripe reports that
  deletion with a later timestamp, and the deleted event, although it names the old
  subscription, moves the user, who pays for the new one, to the Free plan.\<close>

theorem cancelling_the_superseded_subscription_downgrades:
  assumes "event_subject (db (hw h)) e1 = Inr (s1, u)" and "\<not> stale_for (db (hw h)) u e1"
    and "event_type e1 = Some ''customer.subscription.created''" and "event_created e1 = Some c1"
    and "resolve_plan (db (hw h)) (subscription_metadata_plan_slug s1) (subscription_price_id s1) = Some plan"
    and "subs (db (hw h)) u = Some r" and "stripe_subscription_id r = Some old" and "old \<noteq> []"
    and "subscription_id s1 = Some new" and "new \<noteq> []" and "new \<noteq> old"
    and "stripe old = Some ''active''" and "ok old"
    and "event_type e2 = Some ''customer.subscription.deleted''" and "event_created e2 = Some c2" and "c1 \<le> c2"
    and "event_subject (db (hw h)) e2 = Inr (s2, u)" and "subscription_id s2 = Some old"
    and "active_free_plan (db (hw h)) = Some free"
  shows "\<exists>h1 h2 r1 r2. dispatch stripe ok e1 h = (Inr ''ok'', h1) \<and> StripeDelete old \<in> set (outbox h1) \<and>
     subs (db (hw h1)) u = Some r1 \<and> sub_plan_id r1 = plan_id plan \<and> stripe_subscription_id r1 = Some new \<and>
     dispatch stripe ok e2 h1 = (Inr ''ok'', h2) \<and>
     subs (db (hw h2)) u = Some r2 \<and> sub_plan_id r2 = plan_id free \<and> stripe_subscription_id r2 = None"
proof -
  let ?r1 = "created_row plan s1 (Some c1) (Some r)"
  have sup: "superseded (Some r) (Some new) = Some old"
    using assms(7-11) by (simp add: superseded_def)
  obtain h1 where h1: "dispatch stripe ok e1 h = (Inr ''ok'', h1)" "StripeDelete old \<in> set (outbox h1)"
    using assms(1-6,9,12,13) sup
    by (simp add: dispatch_def handle_subscription_created_def stale_for_def Let_def
        cancel_superseded_subscription_def send_def)
  have "Option.bind (event_type e1) (map_of (EVENT_HANDLERS stripe ok)) = Some (handle_subscription_created stripe ok)"
    using assms(3) by simp
  then have "h1 = snd (handle_subscription_created stripe ok e1 h)"
    using h1(1) by (auto simp: dispatch_def split: sum.splits prod.splits)
  then have d1: "db (hw h1) = put_sub u ?r1 (db (hw h))"
    using created_db [of stripe ok e1 h] assms(1,2,4,5,6) by (simp add: created_effect_def)
  obtain h2 where h2: "downgrade_to_free u (subscription_current_period_end s2) (Some c2) h1 = (Inr (), h2)"
    using d1 assms(19) by (simp add: downgrade_to_free_def Let_def)
  have "\<not> stale_for (db (hw h1)) u e2"
    using assms(15,16) by (simp add: d1 stale_for_def created_row_fields)
  then have "dispatch stripe ok e2 h1 = (Inr ''ok'', h2)"
    using assms(14,15,17) h2 by (simp add: dispatch_def handle_subscription_deleted_def d1)
  moreover have "subs (db (hw h2)) u = Some (downgraded_row free (Some c2) ?r1)"
    using downgrade_db [of u "subscription_current_period_end s2" "Some c2" h1] h2 d1 assms(19)
    by (simp add: downgrade_effect_def)
  moreover have "sub_plan_id ?r1 = plan_id plan" "stripe_subscription_id ?r1 = Some new"
    using assms(9) by (simp_all add: created_row_fields)
  moreover have "sub_plan_id (downgraded_row free (Some c2) ?r1) = plan_id free"
    "stripe_subscription_id (downgraded_row free (Some c2) ?r1) = None"
    by (simp_all add: downgraded_row_def)
  moreover have "subs (db (hw h1)) u = Some ?r1" by (simp add: d1)
  ultimately show ?thesis using h1
    by (intro exI [of _ h1] exI [of _ h2] exI [of _ ?r1] exI [of _ "downgraded_row free (Some c2) ?r1"] conjI)
qed

lemma cancelling_the_superseded_subscription_downgrades_witness:
  "\<exists>h1 h2 r2. dispatch (\<lambda>x. Some ''active'') (\<lambda>x. True)
       (event_json ''customer.subscription.created'' 200 (sub_json ''sub_new'' ''pro'')) hook_demo = (Inr ''ok'', h1) \<and>
     dispatch (\<lambda>x. Some ''active'') (\<lambda>x. True)
       (event_json ''customer.subscription.deleted'' 201 (sub_json ''sub_old'' [])) h1 = (Inr ''ok'', h2) \<and>
     subs (db (hw h2)) ''ann'' = Some r2 \<and> sub_plan_id r2 = 10"
proof -
  let ?e1 = "event_json ''customer.subscription.created'' 200 (sub_json ''sub_new'' ''pro'')"
  let ?e2 = "event_json ''customer.subscription.deleted'' 201 (sub_json ''sub_old'' [])"
  have s: "event_subject (db (hw hook_demo)) ?e1 = Inr (sub_json ''sub_new'' ''pro'', ''ann'')"
    "event_subject (db (hw hook_demo)) ?e2 = Inr (sub_json ''sub_old'' [], ''ann'')"
    by (rule demo_subject, simp)+
  have p: "resolve_plan (db (hw hook_demo)) (subscription_metadata_plan_slug (sub_json ''sub_new'' ''pro''))
      (subscription_price_id (sub_json ''sub_new'' ''pro'')) = Some (pro_tier 30)"
    by (simp add: resolve_plan_def Let_def)
  have f: "active_free_plan (db (hw hook_demo)) = Some (free_tier 10)" by (simp add: active_free_plan_def)
  show ?thesis
    using cancelling_the_superseded_subscription_downgrades [OF s(1) _ _ _ p, of 200 _ "''sub_old''" "''sub_new''"
        "\<lambda>x. Some ''active''" "\<lambda>x. True" ?e2 201, OF _ _ _ _ _ _ _ _ _ _ _ _ _ _ s(2) _ f]
    by (fastforce simp: stale_for_def)
qed

text \<open>The staleness check of an updated event is not part of its locked transaction. If a newer
  event of the user is handled completely between the check and the transaction, the older event
  is applied on top of it: the marker goes back to the older timestamp and the row carries the
  older period and cancellation flag, which a delivery after the newer event would not do.\<close>

theorem unlocked_check_lets_an_older_event_win:
  assumes "event_subject (db (hw h)) old = Inr (s, u)" and "\<not> stale_for (db (hw h)) u old"
    and "event_type old = Some ''customer.subscription.updated''"
    and "event_created old = Some c_old" and "c_old < c_new"
    and "dispatch stripe ok new h = (Inr ''ok'', h1)" and "marker_of h1 u = Some c_new"
    and "event_subject (db (hw h1)) old = Inr (s, u)"
  shows "(\<exists>h2 r2. apply_subscription_updated u s old h1 = (Inr (), h2) \<and>
       marker_of h2 u = Some c_old \<and> subs (db (hw h2)) u = Some r2 \<and>
       current_period_end r2 = subscription_current_period_end s \<and>
       cancel_at_period_end r2 = subscription_cancel_at_period_end s) \<and>
     snd (dispatch stripe ok old h1) = h1"
proof -
  obtain r1 where r1: "subs (db (hw h1)) u = Some r1" "stripe_event_created r1 = Some c_new"
    using assms(7) by (auto simp: marker_of_def bind_eq_Some_conv)
  let ?p = "resolve_plan (db (hw h1)) None (subscription_price_id s)"
  let ?r2 = "updated_row (db (hw h1)) ?p s (Some c_old) r1"
  have "fst (apply_subscription_updated u s old h1) = Inr ()"
    using r1 by (simp add: apply_subscription_updated_def Let_def)
  then obtain h2 where h2: "apply_subscription_updated u s old h1 = (Inr (), h2)" by (metis prod.collapse)
  have "db (hw h2) = put_sub u ?r2 (db (hw h1))"
    using apply_updated_db [of u s old h1] h2 r1(1) assms(4) by simp
  then have "subs (db (hw h2)) u = Some ?r2" by simp
  moreover from this have "marker_of h2 u = Some c_old" by (simp add: marker_of_def updated_row_fields)
  ultimately have part1: "\<exists>h2 r2. apply_subscription_updated u s old h1 = (Inr (), h2) \<and>
       marker_of h2 u = Some c_old \<and> subs (db (hw h2)) u = Some r2 \<and>
       current_period_end r2 = subscription_current_period_end s \<and>
       cancel_at_period_end r2 = subscription_cancel_at_period_end s"
    using h2 by (intro exI [of _ h2] exI [of _ ?r2]) (simp add: updated_row_fields)
  have "stale_for (db (hw h1)) u old" using r1 assms(4,5) by (simp add: stale_for_def)
  from part1 stale_dispatch [OF assms(8) this assms(3)] show ?thesis by (simp add: subscription_events_def)
qed

lemma unlocked_check_lets_an_older_event_win_witness:
  "\<exists>h1 h2. dispatch (\<lambda>x. None) (\<lambda>x. True)
       (event_json ''customer.subscription.deleted'' 200 (sub_json ''sub_old'' [])) hook_demo = (Inr ''ok'', h1) \<and>
     apply_subscription_updated ''ann'' (sub_json ''sub_old'' [])
       (event_json ''customer.subscription.updated'' 150 (sub_json ''sub_old'' [])) h1 = (Inr (), h2) \<and>
     marker_of h2 ''ann'' = Some 150"
proof -
  let ?old = "event_json ''customer.subscription.updated'' 150 (sub_json ''sub_old'' [])"
  let ?new = "event_json ''customer.subscription.deleted'' 200 (sub_json ''sub_old'' [])"
  have s: "event_subject (db (hw hook_demo)) ?old = Inr (sub_json ''sub_old'' [], ''ann'')"
    "event_subject (db (hw hook_demo)) ?new = Inr (sub_json ''sub_old'' [], ''ann'')" by (rule demo_subject, simp)+
  obtain h1 where h1: "dispatch (\<lambda>x. None) (\<lambda>x. True) ?new hook_demo = (Inr ''ok'', h1)" using demo_deleted by blast
  have "h1 = snd (handle_subscription_deleted ?new hook_demo)"
    using h1 by (auto simp: dispatch_def split: sum.splits prod.splits)
  then have "db (hw h1) = deleted_effect (db (hw hook_demo)) ?new" by (simp add: deleted_db)
  then have d1: "db (hw h1) = put_sub ''ann'' (downgraded_row (free_tier 10) (Some 200)
      (demo_row\<lparr>sub_plan_id := 20, stripe_subscription_id := Some ''sub_old'', stripe_event_created := Some 100\<rparr>))
      (db (hw hook_demo))"
    using s(2) by (simp add: deleted_effect_def stale_for_def downgrade_effect_def active_free_plan_def)
  have "marker_of h1 ''ann'' = Some 200" by (simp add: marker_of_def d1 downgraded_marker)
  moreover have "event_subject (db (hw h1)) ?old = Inr (sub_json ''sub_old'' [], ''ann'')"
    using s(1) by (simp add: d1 del: hook_demo_fields)
  moreover have "\<not> stale_for (db (hw hook_demo)) ''ann'' ?old" by (simp add: stale_for_def)
  ultimately show ?thesis
    using unlocked_check_lets_an_older_event_win [OF s(1) _ _ _ _ h1, of 150 200] h1 by auto
qed

end
