(* ===== verification/Webhook_Claims.thy ===== *)
theory Webhook_Claims
  imports Webhook_Replays
begin

text \<open>
  The webhook endpoint (\<^verbatim>\<open>stripe_webhook\<close> in \<^verbatim>\<open>core/usage_quota/views.py\<close>): verification,
  the idempotent insert of the event row, the short cut for processed events, the
  compare-and-set claim with its time to live, the dispatch and the terminal write.

  \<open>secret\<close> says whether a secret is configured, \<open>verified\<close> what \<^verbatim>\<open>stripe.Webhook.construct_event\<close>
  makes of the request (\<^verbatim>\<open>None\<close> for a bad payload or signature), \<open>show_exn\<close> is
  \<^verbatim>\<open>str\<close> of an exception.

  The second half takes the endpoint apart into the database steps that workers interleave.
\<close>

section \<open>Steps on the event table\<close>

type_synonym event_table = "string \<rightharpoonup> stripe_webhook_event"

definition insert_event :: "string \<Rightarrow> string \<Rightarrow> json \<Rightarrow> event_table \<Rightarrow> event_table" where
  "insert_event i typ payload rows = (case rows i of
      Some _ \<Rightarrow> rows
    | None \<Rightarrow> rows(i \<mapsto> \<lparr>ev_type = typ, ev_payload = payload, ev_processed_at = None, ev_claimed_at = None,
                         ev_status = None, ev_error_message = None\<rparr>))"

definition processed_ok :: "string \<Rightarrow> event_table \<Rightarrow> bool" where
  "processed_ok i rows \<longleftrightarrow> (case rows i of None \<Rightarrow> False | Some r \<Rightarrow> ev_status r = Some PS_OK)"

definition claimable :: "datetime \<Rightarrow> stripe_webhook_event \<Rightarrow> bool" where
  "claimable now r \<longleftrightarrow> ev_status r \<noteq> Some PS_OK \<and>
     \<not> (ev_status r = Some PS_PROCESSING \<and>
        (case ev_claimed_at r of None \<Rightarrow> True | Some t \<Rightarrow> t > now - PROCESSING_CLAIM_TTL))"

definition claim_event :: "datetime \<Rightarrow> string \<Rightarrow> event_table \<Rightarrow> bool \<times> event_table" where
  "claim_event now i rows = (case rows i of
      None \<Rightarrow> (False, rows)
    | Some r \<Rightarrow>
        if claimable now r
        then (True, rows(i \<mapsto> r\<lparr>ev_status := Some PS_PROCESSING, ev_claimed_at := Some now,
                               ev_error_message := None, ev_processed_at := None\<rparr>))
        else (False, rows))"

definition finish_event ::
  "datetime \<Rightarrow> string \<Rightarrow> processed_status \<Rightarrow> string option \<Rightarrow> event_table \<Rightarrow> event_table" where
  "finish_event now i status msg rows = (case rows i of
      None \<Rightarrow> rows
    | Some r \<Rightarrow> rows(i \<mapsto> r\<lparr>ev_status := Some status, ev_error_message := msg, ev_processed_at := Some now\<rparr>))"

section \<open>The endpoint\<close>

datatype response =
    NotConfigured | InvalidSignature | ReceivedDedup | ReceivedInFlight | ReceivedSkipped | HandlerFailed | Received

definition outcome :: "(exn \<Rightarrow> string) \<Rightarrow> exn + string \<Rightarrow> processed_status \<times> string option \<times> response" where
  "outcome show_exn r = (case r of
      Inl (IgnorableEvent m) \<Rightarrow> (PS_SKIPPED, Some (take 5000 (show_exn (IgnorableEvent m))), ReceivedSkipped)
    | Inl e \<Rightarrow> (PS_ERROR, Some (take 5000 (show_exn e)), HandlerFailed)
    | Inr s \<Rightarrow> (if s = ''ok'' then PS_OK else PS_SKIPPED, None, Received))"

definition set_events :: "event_table \<Rightarrow> hook_state \<Rightarrow> hook_state" where
  "set_events rows h = h\<lparr>hw := (hw h)\<lparr>db := (db (hw h))\<lparr>events := rows\<rparr>\<rparr>\<rparr>"

definition stripe_webhook ::
  "(string \<Rightarrow> string option) \<Rightarrow> (string \<Rightarrow> bool) \<Rightarrow> (exn \<Rightarrow> string) \<Rightarrow> bool \<Rightarrow> json option \<Rightarrow> hook_state \<Rightarrow>
   response \<times> hook_state" where
  "stripe_webhook stripe delete_ok show_exn secret verified h =
     (if \<not> secret then (NotConfigured, h)
      else case verified of
        None \<Rightarrow> (InvalidSignature, h)
      | Some event \<Rightarrow>
          let i = the_default [] (jstr (jget event ''id''));
              typ = the_default [] (event_type event);
              now = clock (hw h);
              rows1 = insert_event i typ event (events (db (hw h)));
              h1 = set_events rows1 h
          in if processed_ok i rows1 then (ReceivedDedup, h1)
             else (case claim_event now i rows1 of
                (False, _) \<Rightarrow> (ReceivedInFlight, h1)
              | (True, rows2) \<Rightarrow>
                  let (r, h3) = dispatch stripe delete_ok event (set_events rows2 h1);
                      (status, msg, resp) = outcome show_exn r
                  in (resp, set_events (finish_event (clock (hw h3)) i status msg (events (db (hw h3)))) h3)))"

section \<open>Workers\<close>

record claim_state =
  cs_rows :: event_table
  cs_clock :: datetime
  cs_working :: "nat \<rightharpoonup> string \<times> datetime"

text \<open>\<open>late\<close> allows a worker to write its result after its claim's time to live is over.  A worker
  may also die at any moment.\<close>

inductive claim_step :: "bool \<Rightarrow> claim_state \<Rightarrow> claim_state \<Rightarrow> bool" for late where
  insert: "claim_step late s (s\<lparr>cs_rows := insert_event i typ payload (cs_rows s)\<rparr>)"
| claim: "cs_working s k = None \<Longrightarrow> claim_event (cs_clock s) i (cs_rows s) = (True, rows) \<Longrightarrow>
    claim_step late s (s\<lparr>cs_rows := rows, cs_working := (cs_working s)(k \<mapsto> (i, cs_clock s))\<rparr>)"
| finish: "cs_working s k = Some (i, t) \<Longrightarrow> late \<or> cs_clock s < t + PROCESSING_CLAIM_TTL \<Longrightarrow>
    status \<noteq> PS_PROCESSING \<Longrightarrow>
    claim_step late s (s\<lparr>cs_rows := finish_event (cs_clock s) i status msg (cs_rows s),
                        cs_working := (cs_working s)(k := None)\<rparr>)"
| die: "claim_step late s (s\<lparr>cs_working := (cs_working s)(k := None)\<rparr>)"
| tick: "cs_clock s \<le> t \<Longrightarrow> claim_step late s (s\<lparr>cs_clock := t\<rparr>)"

inductive claim_run :: "bool \<Rightarrow> claim_state \<Rightarrow> claim_state \<Rightarrow> bool" for late where
  refl: "claim_run late s s"
| step: "claim_run late s s' \<Longrightarrow> claim_step late s' s'' \<Longrightarrow> claim_run late s s''"

inductive_cases claim_stepE: "claim_step late s s'"

definition fresh_claim :: "claim_state \<Rightarrow> nat \<Rightarrow> string \<Rightarrow> datetime \<Rightarrow> bool" where
  "fresh_claim s k i t \<longleftrightarrow> cs_working s k = Some (i, t) \<and> cs_clock s < t + PROCESSING_CLAIM_TTL"

text \<open>A worker with a fresh claim owns the row, and owns it alone.\<close>

definition claims_inv :: "claim_state \<Rightarrow> bool" where
  "claims_inv s \<longleftrightarrow>
     (\<forall>k i t. fresh_claim s k i t \<longrightarrow>
        (\<exists>r. cs_rows s i = Some r \<and> ev_status r = Some PS_PROCESSING \<and> ev_claimed_at r = Some t)) \<and>
     (\<forall>k k' i t t'. fresh_claim s k i t \<longrightarrow> fresh_claim s k' i t' \<longrightarrow> k = k')"

lemma claims_invD:
  assumes "claims_inv s" "fresh_claim s k i t"
  shows "\<exists>r. cs_rows s i = Some r \<and> ev_status r = Some PS_PROCESSING \<and> ev_claimed_at r = Some t"
    and "fresh_claim s k' i t' \<Longrightarrow> k = k'"
  using assms unfolding claims_inv_def by blast+

lemma claim_event_True:
  "claim_event now i rows = (True, rows') \<longleftrightarrow>
     (\<exists>r. rows i = Some r \<and> claimable now r \<and>
        rows' = rows(i \<mapsto> r\<lparr>ev_status := Some PS_PROCESSING, ev_claimed_at := Some now,
                          ev_error_message := None, ev_processed_at := None\<rparr>))"
  by (auto simp: claim_event_def split: option.splits if_splits)

lemma fresh_not_claimable:
  assumes "claims_inv s" "fresh_claim s k i t" "cs_rows s i = Some r"
  shows "\<not> claimable (cs_clock s) r"
proof -
  obtain r' where "cs_rows s i = Some r'" "ev_status r' = Some PS_PROCESSING" "ev_claimed_at r' = Some t"
    using claims_invD(1) [OF assms(1,2)] by blast
  with assms(2,3) show ?thesis by (simp add: claimable_def fresh_claim_def)
qed

lemma claim_step_inv:
  assumes "claim_step False s s'" and inv: "claims_inv s"
  shows "claims_inv s'"
  using assms(1)
proof cases
  case (insert i ty payload)
  then have f: "fresh_claim s' = fresh_claim s" by (simp add: fresh_claim_def fun_eq_iff)
  have "cs_rows s' j = Some r" if "cs_rows s j = Some r" for j r
    using that insert by (auto simp: insert_event_def split: option.split)
  then show ?thesis using inv unfolding claims_inv_def f by metis
next
  case (claim k i rows)
  obtain r where r: "cs_rows s i = Some r" "claimable (cs_clock s) r"
      "rows = (cs_rows s)(i \<mapsto> r\<lparr>ev_status := Some PS_PROCESSING, ev_claimed_at := Some (cs_clock s),
                          ev_error_message := None, ev_processed_at := None\<rparr>)"
    using claim(3) by (auto simp: claim_event_True)
  have none: "\<not> fresh_claim s k' i t" for k' t using fresh_not_claimable [OF inv _ r(1)] r(2) by blast
  have f: "fresh_claim s' k' j t \<longleftrightarrow>
      (if k' = k then j = i \<and> t = cs_clock s else fresh_claim s k' j t)" for k' j t
    using claim(1) by (auto simp: fresh_claim_def PROCESSING_CLAIM_TTL_def seconds_def)
  have rows': "cs_rows s' j = (if j = i then Some (r\<lparr>ev_status := Some PS_PROCESSING, ev_claimed_at := Some (cs_clock s),
                          ev_error_message := None, ev_processed_at := None\<rparr>) else cs_rows s j)" for j
    using claim(1) r(3) by simp
  show ?thesis
    unfolding claims_inv_def f rows'
  proof (intro conjI allI impI)
    fix k' j t
    assume a: "if k' = k then j = i \<and> t = cs_clock s else fresh_claim s k' j t"
    show "\<exists>r'. (if j = i then Some (r\<lparr>ev_status := Some PS_PROCESSING, ev_claimed_at := Some (cs_clock s),
              ev_error_message := None, ev_processed_at := None\<rparr>) else cs_rows s j) = Some r' \<and>
            ev_status r' = Some PS_PROCESSING \<and> ev_claimed_at r' = Some t"
      using a none claims_invD(1) [OF inv] by (cases "k' = k"; cases "j = i") auto
  next
    fix k1 k2 j t t'
    assume "if k1 = k then j = i \<and> t = cs_clock s else fresh_claim s k1 j t"
      "if k2 = k then j = i \<and> t' = cs_clock s else fresh_claim s k2 j t'"
    then show "k1 = k2" using none claims_invD(2) [OF inv] by (auto split: if_splits)
  qed
next
  case (finish k i t status msg)
  have own: "fresh_claim s k i t" using finish by (simp add: fresh_claim_def)
  have f: "fresh_claim s' k' j t' \<longleftrightarrow> k' \<noteq> k \<and> fresh_claim s k' j t'" for k' j t'
    using finish(1) by (auto simp: fresh_claim_def)
  have rows': "cs_rows s' j = cs_rows s j" if "j \<noteq> i" for j
    using finish(1) that by (simp add: finish_event_def split: option.split)
  show ?thesis
    unfolding claims_inv_def f
  proof (intro conjI allI impI)
    fix k' j t'
    assume a: "k' \<noteq> k \<and> fresh_claim s k' j t'"
    then have "j \<noteq> i" using claims_invD(2) [OF inv own] by blast
    then show "\<exists>r. cs_rows s' j = Some r \<and> ev_status r = Some PS_PROCESSING \<and> ev_claimed_at r = Some t'"
      using claims_invD(1) [OF inv] a rows' by auto
  next
    fix k1 k2 j t1 t2
    assume "k1 \<noteq> k \<and> fresh_claim s k1 j t1" "k2 \<noteq> k \<and> fresh_claim s k2 j t2"
    then show "k1 = k2" using claims_invD(2) [OF inv] by blast
  qed
next
  case (die k)
  then have "fresh_claim s' k' j t' \<Longrightarrow> fresh_claim s k' j t'" for k' j t'
    by (auto simp: fresh_claim_def split: if_splits)
  moreover have "cs_rows s' = cs_rows s" using die by simp
  ultimately show ?thesis using inv unfolding claims_inv_def by metis
next
  case (tick t)
  then have "fresh_claim s' k' j t' \<Longrightarrow> fresh_claim s k' j t'" for k' j t'
    by (auto simp: fresh_claim_def)
  moreover have "cs_rows s' = cs_rows s" using tick by simp
  ultimately show ?thesis using inv unfolding claims_inv_def by metis
qed

lemma claim_run_inv: "claim_run False s s' \<Longrightarrow> claims_inv s \<Longrightarrow> claims_inv s'"
  by (induction rule: claim_run.induct) (auto intro: claim_step_inv)

lemma idle_inv: "cs_working s = Map.empty \<Longrightarrow> claims_inv s"
  by (simp add: claims_inv_def fresh_claim_def)

text \<open>A processed event stays processed.\<close>

lemma claim_step_ok:
  assumes "claim_step False s s'" and inv: "claims_inv s" and ok: "processed_ok i (cs_rows s)"
  shows "processed_ok i (cs_rows s')"
  using assms(1)
proof cases
  case (insert j ty payload)
  then show ?thesis using ok by (auto simp: processed_ok_def insert_event_def split: option.splits)
next
  case (claim k j rows)
  then obtain r where r: "cs_rows s j = Some r" "claimable (cs_clock s) r"
      "\<And>x. x \<noteq> j \<Longrightarrow> rows x = cs_rows s x"
    by (auto simp: claim_event_True)
  then have "i \<noteq> j" using ok by (auto simp: processed_ok_def claimable_def)
  then show ?thesis using ok r(3) claim(1) by (simp add: processed_ok_def)
next
  case (finish k j t status msg)
  have "fresh_claim s k j t" using finish by (simp add: fresh_claim_def)
  then have "j \<noteq> i" using claims_invD(1) [OF inv] ok by (fastforce simp: processed_ok_def)
  then show ?thesis using ok finish(1) by (auto simp: processed_ok_def finish_event_def split: option.splits)
qed (use ok in simp_all)

lemma claim_run_ok:
  "claim_run False s s' \<Longrightarrow> claims_inv s \<Longrightarrow> processed_ok i (cs_rows s) \<Longrightarrow> processed_ok i (cs_rows s')"
  by (induction rule: claim_run.induct) (auto intro: claim_step_ok claim_run_inv)

section \<open>Properties\<close>

text \<open>C16: The claim protocol gives at most one live worker per event. From a state where nobody
  works, over any interleaving of deliveries, claims, crashes, terminal writes (within five
  minutes of the claim) and passing time: two workers never work on the same event while both
  claims are fresh, and an event that was processed successfully stays so and is never
  claimed again.\<close>

theorem one_live_worker_per_event:
  assumes "cs_working s = Map.empty" and "claim_run False s s1" and "claim_run False s1 s2"
  shows "(\<forall>k k' i t t'. cs_working s1 k = Some (i, t) \<longrightarrow> cs_working s1 k' = Some (i, t') \<longrightarrow> k \<noteq> k' \<longrightarrow>
       t + seconds 300 \<le> cs_clock s1 \<or> t' + seconds 300 \<le> cs_clock s1) \<and>
     (\<forall>i. processed_ok i (cs_rows s1) \<longrightarrow>
        processed_ok i (cs_rows s2) \<and> fst (claim_event (cs_clock s2) i (cs_rows s2)) = False)"
proof -
  have inv: "claims_inv s1" by (rule claim_run_inv [OF assms(2) idle_inv [OF assms(1)]])
  have "t + seconds 300 \<le> cs_clock s1 \<or> t' + seconds 300 \<le> cs_clock s1"
    if "cs_working s1 k = Some (i, t)" "cs_working s1 k' = Some (i, t')" "k \<noteq> k'" for k k' i t t'
    using claims_invD(2) [OF inv, of k i t k' t'] that
    by (fastforce simp: fresh_claim_def PROCESSING_CLAIM_TTL_def)
  moreover have "processed_ok i (cs_rows s2) \<and> fst (claim_event (cs_clock s2) i (cs_rows s2)) = False"
    if "processed_ok i (cs_rows s1)" for i
    using claim_run_ok [OF assms(3) inv that]
    by (auto simp: claim_event_def claimable_def processed_ok_def split: option.splits)
  ultimately show ?thesis by blast
qed

definition claim_demo :: claim_state where
  "claim_demo = \<lparr>cs_rows = insert_event ''evt'' ''t'' JNull Map.empty, cs_clock = 0, cs_working = Map.empty\<rparr>"

definition claimed_demo :: "nat \<Rightarrow> claim_state" where
  "claimed_demo k = claim_demo\<lparr>cs_rows := snd (claim_event 0 ''evt'' (cs_rows claim_demo)),
     cs_working := [k \<mapsto> (''evt'', 0)]\<rparr>"

lemma claim_demo_fields [simp]:
  "cs_clock claim_demo = 0" "cs_working claim_demo = Map.empty"
  "cs_rows claim_demo = [''evt'' \<mapsto> \<lparr>ev_type = ''t'', ev_payload = JNull, ev_processed_at = None, ev_claimed_at = None,
                         ev_status = None, ev_error_message = None\<rparr>]"
  by (simp_all add: claim_demo_def insert_event_def)

lemma claim_demo_step: "claim_step late claim_demo (claimed_demo k)"
  using claim_step.claim [of claim_demo k "''evt''" "snd (claim_event 0 ''evt'' (cs_rows claim_demo))" late]
  by (simp add: claimed_demo_def claim_event_def claimable_def)

lemma one_live_worker_per_event_witness:
  "\<exists>s2. claim_run False (claimed_demo 1) s2 \<and> processed_ok ''evt'' (cs_rows s2) \<and>
     fst (claim_event (cs_clock s2) ''evt'' (cs_rows s2)) = False"
proof -
  let ?s2 = "(claimed_demo 1)\<lparr>cs_rows := finish_event 0 ''evt'' PS_OK None (cs_rows (claimed_demo 1)),
     cs_working := Map.empty\<rparr>"
  have "claim_step False (claimed_demo 1) ?s2"
    using claim_step.finish [of "claimed_demo 1" 1 "''evt''" 0 False PS_OK None]
    by (simp add: claimed_demo_def PROCESSING_CLAIM_TTL_def seconds_def)
  then have run: "claim_run False (claimed_demo 1) ?s2" by (blast intro: claim_run.intros)
  have run1: "claim_run False claim_demo ?s2"
    using claim_run.step [OF claim_run.step [OF claim_run.refl claim_demo_step] \<open>claim_step False (claimed_demo 1) ?s2\<close>] .
  have "processed_ok ''evt'' (cs_rows ?s2)"
    by (simp add: processed_ok_def finish_event_def claimed_demo_def claim_event_def claimable_def)
  with one_live_worker_per_event [OF claim_demo_fields(2) run1 claim_run.refl] run show ?thesis by blast
qed

text \<open>A row in processing carries the time of its claim, which is past.\<close>

definition stamped :: "claim_state \<Rightarrow> bool" where
  "stamped s \<longleftrightarrow> (\<forall>i r. cs_rows s i = Some r \<longrightarrow> ev_status r = Some PS_PROCESSING \<longrightarrow>
     (\<exists>t. ev_claimed_at r = Some t \<and> t \<le> cs_clock s))"

lemma claim_step_stamped:
  assumes "claim_step late s s'" and st: "stamped s"
  shows "stamped s'"
  using assms(1)
proof cases
  case (insert i ty payload)
  then show ?thesis using st by (auto simp: stamped_def insert_event_def split: option.splits if_splits)
next
  case (claim k i rows)
  then show ?thesis using st by (auto simp: stamped_def claim_event_True split: if_splits)
next
  case (finish k i t status msg)
  then show ?thesis using st by (auto simp: stamped_def finish_event_def split: option.splits if_splits)
next
  case (die k)
  then show ?thesis using st by (simp add: stamped_def)
next
  case (tick t)
  then show ?thesis using st by (fastforce simp: stamped_def)
qed

lemma claim_run_stamped: "claim_run late s s' \<Longrightarrow> stamped s \<Longrightarrow> stamped s'"
  by (induction rule: claim_run.induct) (auto intro: claim_step_stamped)

text \<open>No event is lost to a crash. In any state reached from an empty table, with late writes
  allowed, an event that is known and not processed successfully is claimed by the next
  delivery at any time from five minutes after the current instant on, whatever happened to the
  workers that held it.\<close>

theorem unprocessed_event_is_claimable_again:
  assumes "cs_rows s0 = Map.empty" and "claim_run late s0 s"
    and "cs_rows s i = Some r" and "ev_status r \<noteq> Some PS_OK" and "cs_clock s + seconds 300 \<le> now"
  shows "\<exists>rows r'. claim_event now i (cs_rows s) = (True, rows) \<and>
     rows i = Some r' \<and> ev_status r' = Some PS_PROCESSING \<and> ev_claimed_at r' = Some now"
proof -
  have "stamped s" by (rule claim_run_stamped [OF assms(2)]) (simp add: stamped_def assms(1))
  then have "claimable now r" using assms(3-5)
    by (fastforce simp: claimable_def stamped_def PROCESSING_CLAIM_TTL_def split: option.split)
  then show ?thesis using assms(3) by (simp add: claim_event_def)
qed

lemma claim_demo_run: "claim_run late (claim_demo\<lparr>cs_rows := Map.empty\<rparr>) (claimed_demo 1)"
proof -
  have "claim_step late (claim_demo\<lparr>cs_rows := Map.empty\<rparr>) claim_demo"
    using claim_step.insert [of late "claim_demo\<lparr>cs_rows := Map.empty\<rparr>" "''evt''" "''t''" JNull]
    by (simp add: claim_demo_def)
  then show ?thesis using claim_demo_step by (meson claim_run.intros)
qed

lemma unprocessed_event_is_claimable_again_witness:
  "\<exists>rows. claim_event (seconds 300) ''evt'' (cs_rows (claimed_demo 1)) = (True, rows)"
proof -
  obtain r where "cs_rows (claimed_demo 1) ''evt'' = Some r" "ev_status r \<noteq> Some PS_OK"
    by (simp add: claimed_demo_def claim_event_def claimable_def)
  from unprocessed_event_is_claimable_again [OF _ claim_demo_run this, of "seconds 300"] show ?thesis
    by (auto simp: claimed_demo_def)
qed

text \<open>The terminal write does not check that its worker still holds the claim. A worker that
  outlives the five minutes can, after another worker claimed and processed the event
  successfully, overwrite the result with an error; the event is then claimable and will be
  processed again.\<close>

theorem late_worker_undoes_a_processed_event:
  assumes "cs_working s k = None" and "cs_working s k' = None" and "k \<noteq> k'"
    and "claim_event (cs_clock s) i (cs_rows s) = (True, rows)"
  shows "\<exists>s1 s2. claim_run True s s1 \<and> processed_ok i (cs_rows s1) \<and> claim_run True s1 s2 \<and>
     fst (claim_event (cs_clock s2) i (cs_rows s2)) = True"
proof -
  let ?T = "cs_clock s + PROCESSING_CLAIM_TTL"
  let ?a = "s\<lparr>cs_rows := rows, cs_working := (cs_working s)(k \<mapsto> (i, cs_clock s))\<rparr>"
  let ?b = "?a\<lparr>cs_clock := ?T\<rparr>"
  obtain r where r: "rows i = Some r" "ev_status r = Some PS_PROCESSING" "ev_claimed_at r = Some (cs_clock s)"
    using assms(4) by (auto simp: claim_event_True)
  then obtain rows2 where c2: "claim_event ?T i rows = (True, rows2)"
    by (simp add: claim_event_def claimable_def)
  then obtain r2 where r2: "rows2 i = Some r2" by (auto simp: claim_event_True)
  let ?c = "?b\<lparr>cs_rows := rows2, cs_working := (cs_working ?b)(k' \<mapsto> (i, ?T))\<rparr>"
  let ?d = "?c\<lparr>cs_rows := finish_event (cs_clock ?c) i PS_OK None (cs_rows ?c), cs_working := (cs_working ?c)(k' := None)\<rparr>"
  let ?e = "?d\<lparr>cs_rows := finish_event (cs_clock ?d) i PS_ERROR None (cs_rows ?d), cs_working := (cs_working ?d)(k := None)\<rparr>"
  have "claim_step True s ?a" by (rule claim_step.claim [OF assms(1,4)])
  moreover have "claim_step True ?a ?b" by (rule claim_step.tick) (simp add: PROCESSING_CLAIM_TTL_def seconds_def)
  moreover have "claim_step True ?b ?c"
    using claim_step.claim [of ?b k' i rows2 True] assms(2,3) c2 by simp
  moreover have "claim_step True ?c ?d" by (rule claim_step.finish [where t = ?T]) simp_all
  ultimately have run1: "claim_run True s ?d" by (meson claim_run.intros)
  have "claim_step True ?d ?e"
    by (rule claim_step.finish [where t = "cs_clock s"]) (use assms(3) in simp_all)
  then have run2: "claim_run True ?d ?e" by (blast intro: claim_run.intros)
  have "processed_ok i (cs_rows ?d)" using r2 by (simp add: processed_ok_def finish_event_def)
  moreover have "fst (claim_event (cs_clock ?e) i (cs_rows ?e)) = True"
    using r2 by (simp add: finish_event_def claim_event_def claimable_def)
  ultimately show ?thesis using run1 run2 by blast
qed

lemma late_worker_undoes_a_processed_event_witness:
  "\<exists>s1 s2. claim_run True claim_demo s1 \<and> processed_ok ''evt'' (cs_rows s1) \<and> claim_run True s1 s2 \<and>
     fst (claim_event (cs_clock s2) ''evt'' (cs_rows s2)) = True"
proof -
  obtain rows where "claim_event (cs_clock claim_demo) ''evt'' (cs_rows claim_demo) = (True, rows)"
    by (simp add: claim_event_def claimable_def)
  from late_worker_undoes_a_processed_event [OF _ _ _ this, of 1 2] show ?thesis by simp
qed

lemma dispatch_events:
  assumes "dispatch stripe ok event h = (res, h')"
  shows "events (db (hw h')) = events (db (hw h))"
  using dispatch_effect [OF assms]
proof (elim disjE exE conjE)
  fix s u
  assume "wrote_row u (event_created event) h h'"
  then show ?thesis by (auto simp: wrote_row_def put_sub_def)
next
  assume "hw h' = hw h"
  then show ?thesis by simp
next
  fix u
  assume "hw h' = snd (get_or_create_subscription u (hw h))"
  then obtain so where "get_or_create_subscription u (hw h) = (so, hw h')" by (metis prod.collapse)
  from get_or_create_db [OF this] show ?thesis by (auto simp: put_sub_def)
qed

lemma set_events_simps [simp]:
  "events (db (hw (set_events rows h))) = rows" "subs (db (hw (set_events rows h))) = subs (db (hw h))"
  "logs (db (hw (set_events rows h))) = logs (db (hw h))" "clock (hw (set_events rows h)) = clock (hw h)"
  "set_events rows (set_events rows' h) = set_events rows h" "outbox (set_events rows h) = outbox h"
  by (simp_all add: set_events_def)

lemma set_events_same [simp]: "events (db (hw h)) = rows \<Longrightarrow> set_events rows h = h"
  by (auto simp: set_events_def)

text \<open>One delivery to the endpoint leaves the event's row in the state its answer says: an
  answer 500 leaves an error that the next delivery may claim; a delivery that finds the event
  processed or in flight touches no subscription, no ledger row and sends nothing; and once
  the row is processed, every further delivery of the event is answered as a duplicate and
  changes nothing.\<close>

theorem endpoint_answers_what_it_recorded:
  assumes "stripe_webhook stripe ok show_exn True (Some event) h = (resp, h1)"
    and "jget event ''id'' = JStr i"
  shows "\<exists>r. events (db (hw h1)) i = Some r \<and>
     (resp = HandlerFailed \<longrightarrow> ev_status r = Some PS_ERROR \<and> (\<forall>now. claimable now r)) \<and>
     (resp = ReceivedSkipped \<longrightarrow> ev_status r = Some PS_SKIPPED) \<and>
     (resp = Received \<longrightarrow> ev_status r \<in> {Some PS_OK, Some PS_SKIPPED}) \<and>
     (resp \<in> {ReceivedDedup, ReceivedInFlight} \<longrightarrow>
        subs (db (hw h1)) = subs (db (hw h)) \<and> logs (db (hw h1)) = logs (db (hw h)) \<and> outbox h1 = outbox h) \<and>
     (ev_status r = Some PS_OK \<longrightarrow>
        stripe_webhook stripe ok show_exn True (Some event) h1 = (ReceivedDedup, h1)) \<and>
     resp \<notin> {NotConfigured, InvalidSignature}"
proof -
  let ?rows1 = "insert_event i (the_default [] (event_type event)) event (events (db (hw h)))"
  let ?h1 = "set_events ?rows1 h"
  obtain r1 where r1: "?rows1 i = Some r1"
    by (cases "events (db (hw h)) i") (auto simp: insert_event_def)
  have keep: "insert_event i ty p rows = rows" if "rows i = Some r" for ty p rows r
    using that by (simp add: insert_event_def)
  have again: "stripe_webhook stripe ok show_exn True (Some event) h' = (ReceivedDedup, h')"
    if "events (db (hw h')) i = Some r" "ev_status r = Some PS_OK" for h' r
    using that keep [of "events (db (hw h'))" r] by (simp add: stripe_webhook_def assms(2) Let_def processed_ok_def)
  consider (dup) "processed_ok i ?rows1" | (busy) "\<not> processed_ok i ?rows1" "\<not> claimable (clock (hw h)) r1"
    | (free) "\<not> processed_ok i ?rows1" "claimable (clock (hw h)) r1" by blast
  then show ?thesis
  proof cases
    case dup
    then have "resp = ReceivedDedup" "h1 = ?h1"
      using assms by (simp_all add: stripe_webhook_def Let_def)
    then show ?thesis using r1 again [of h1 r1] by simp
  next
    case busy
    then have "resp = ReceivedInFlight" "h1 = ?h1"
      using assms r1 by (simp_all add: stripe_webhook_def Let_def claim_event_def)
    then show ?thesis using r1 again [of h1 r1] by simp
  next
    case free
    let ?rows2 = "?rows1(i \<mapsto> r1\<lparr>ev_status := Some PS_PROCESSING, ev_claimed_at := Some (clock (hw h)),
                               ev_error_message := None, ev_processed_at := None\<rparr>)"
    obtain res h3 where d: "dispatch stripe ok event (set_events ?rows2 h) = (res, h3)" by force
    obtain status msg resp' where out: "outcome show_exn res = (status, msg, resp')" by (metis surj_pair)
    have ev: "events (db (hw h3)) = ?rows2" using dispatch_events [OF d] by simp
    have h1: "h1 = set_events (finish_event (clock (hw h3)) i status msg (events (db (hw h3)))) h3" "resp = resp'"
      using assms free r1 d out by (simp_all add: stripe_webhook_def Let_def claim_event_def)
    then obtain r where r: "events (db (hw h1)) i = Some r" "ev_status r = Some status"
      using ev by (auto simp: finish_event_def)
    have "(resp = HandlerFailed \<longrightarrow> status = PS_ERROR) \<and> (resp = ReceivedSkipped \<longrightarrow> status = PS_SKIPPED) \<and>
        (resp = Received \<longrightarrow> status \<in> {PS_OK, PS_SKIPPED}) \<and>
        resp \<in> {HandlerFailed, ReceivedSkipped, Received}"
      using out h1(2) by (auto simp: outcome_def split: sum.splits exn.splits if_splits)
    then show ?thesis using r again [OF r(1)] by (auto simp: claimable_def)
  qed
qed

lemma endpoint_answers_what_it_recorded_witness:
  "\<exists>resp h1. stripe_webhook (\<lambda>x. None) (\<lambda>x. True) (\<lambda>e. []) True
     (Some (JObj [(''id'', JStr ''evt''), (''type'', JStr ''charge.refunded'')])) hook_demo = (resp, h1) \<and>
     (\<exists>r. events (db (hw h1)) ''evt'' = Some r) \<and> resp \<notin> {NotConfigured, InvalidSignature}"
proof -
  obtain resp h1 where run: "stripe_webhook (\<lambda>x. None) (\<lambda>x. True) (\<lambda>e. []) True
     (Some (JObj [(''id'', JStr ''evt''), (''type'', JStr ''charge.refunded'')])) hook_demo = (resp, h1)" by force
  from endpoint_answers_what_it_recorded [OF run, of "''evt''"] run show ?thesis by auto
qed

end
