(* ===== verification/Rate_Limiter.thy ===== *)
theory Rate_Limiter
  imports Complex_Main "HOL-Library.Sublist" Usage_Models
begin

text \<open>
  The rate limiter of the LLM client (\<^verbatim>\<open>core/llm/rate_limiter.py\<close>): a token bucket per model
  in memory, and a request counter per project and model in Redis.

  Times are seconds; the code's floats are exact rationals here.  \<open>now\<close> is \<^verbatim>\<open>time.time()\<close>
  and is passed in.  A counter is kept under its project (\<^verbatim>\<open>global\<close> for none) and model
  with the time it expires.  A thread that takes a lock it already holds waits for ever
  (\<^verbatim>\<open>threading.Lock\<close> is not re-entrant): that is \<open>Blocked\<close>.
\<close>

section \<open>Token bucket\<close>

record bucket =
  rate :: rat
  capacity :: rat
  tokens :: rat
  last_update :: rat

definition new_bucket :: "rat \<Rightarrow> rat \<Rightarrow> rat \<Rightarrow> bucket" where
  "new_bucket r c now = \<lparr>rate = r, capacity = c, tokens = c, last_update = now\<rparr>"

definition refill :: "rat \<Rightarrow> bucket \<Rightarrow> bucket" where
  "refill now b = b\<lparr>tokens := min (capacity b) (tokens b + (now - last_update b) * rate b), last_update := now\<rparr>"

definition consume :: "rat \<Rightarrow> rat \<Rightarrow> bucket \<Rightarrow> bool \<times> bucket" where
  "consume n now b =
     (let b' = refill now b
      in if tokens b' \<ge> n then (True, b'\<lparr>tokens := tokens b' - n\<rparr>) else (False, b'))"

definition time_until_tokens :: "rat \<Rightarrow> bucket \<Rightarrow> rat" where
  "time_until_tokens n b = (if tokens b \<ge> n then 0 else (n - tokens b) / rate b)"

section \<open>Limits per model\<close>

definition DEFAULT_RATE_LIMIT :: rat where "DEFAULT_RATE_LIMIT = 100"

definition DEFAULT_BURST_SIZE :: rat where "DEFAULT_BURST_SIZE = 20"

definition model_limits :: "(string \<times> rat \<times> rat) list" where
  "model_limits =
     [(''gpt-3.5-turbo'', 100, 20), (''claude-instant'', 100, 20), (''gemini-flash'', 100, 20),
      (''gpt-4-turbo'', 50, 10), (''claude-3-haiku'', 50, 10), (''gemini-pro'', 50, 10),
      (''gpt-4'', 20, 5), (''claude-3-opus'', 20, 5), (''gemini-ultra'', 20, 5),
      (''default'', DEFAULT_RATE_LIMIT / 60, DEFAULT_BURST_SIZE)]"

text \<open>\<^verbatim>\<open>model_id.split("/")[-1]\<close>\<close>

definition base_model :: "string \<Rightarrow> string" where
  "base_model m = rev (takeWhile (\<lambda>c. c \<noteq> CHR ''/'') (rev m))"

definition matching_limits :: "string \<Rightarrow> (rat \<times> rat) option" where
  "matching_limits m = map_option snd (List.find (\<lambda>l. sublist (fst l) (lower (base_model m))) model_limits)"

definition bucket_limits :: "string \<Rightarrow> rat \<times> rat" where
  "bucket_limits m = (case matching_limits m of
      Some l \<Rightarrow> l | None \<Rightarrow> (DEFAULT_RATE_LIMIT / 60, DEFAULT_BURST_SIZE))"

definition distributed_limit :: "string \<Rightarrow> int" where
  "distributed_limit m = (case matching_limits m of Some (r, _) \<Rightarrow> \<lfloor>r * 60\<rfloor> | None \<Rightarrow> 100)"

section \<open>The limiter\<close>

record limiter =
  buckets :: "string \<rightharpoonup> bucket"
  counters :: "string \<times> string \<rightharpoonup> int \<times> rat"

definition get_bucket :: "string \<Rightarrow> rat \<Rightarrow> limiter \<Rightarrow> bucket \<times> limiter" where
  "get_bucket m now st = (case buckets st m of
      Some b \<Rightarrow> (b, st)
    | None \<Rightarrow> let (r, c) = bucket_limits m; b = new_bucket r c now
              in (b, st\<lparr>buckets := (buckets st)(m \<mapsto> b)\<rparr>))"

definition counter_key :: "string option \<Rightarrow> string \<Rightarrow> string \<times> string" where
  "counter_key project m = (opt_str_or project ''global'', m)"

definition read_counter :: "rat \<Rightarrow> string \<times> string \<Rightarrow> limiter \<Rightarrow> int" where
  "read_counter now k st = (case counters st k of
      None \<Rightarrow> 0 | Some (n, expiry) \<Rightarrow> if now < expiry then n else 0)"

text \<open>If Redis fails, the request is allowed.\<close>

definition check_distributed_limit ::
  "bool \<Rightarrow> string \<Rightarrow> string option \<Rightarrow> rat \<Rightarrow> limiter \<Rightarrow> bool \<times> limiter" where
  "check_distributed_limit redis_ok m project now st =
     (if \<not> redis_ok then (True, st)
      else let k = counter_key project m; n = read_counter now k st
           in if n \<ge> distributed_limit m then (False, st)
              else (True, st\<lparr>counters := (counters st)(k \<mapsto> (n + 1, now + 60))\<rparr>))"

definition check_rate_limit ::
  "bool \<Rightarrow> string \<Rightarrow> string option \<Rightarrow> rat \<Rightarrow> rat \<Rightarrow> limiter \<Rightarrow> (bool \<times> rat option) \<times> limiter" where
  "check_rate_limit redis_ok m project n now st =
     (case check_distributed_limit redis_ok m project now st of
        (False, st1) \<Rightarrow> ((False, Some 60), st1)
      | (True, st1) \<Rightarrow>
          let (b, st2) = get_bucket m now st1; (done, b') = consume n now b;
              st3 = st2\<lparr>buckets := (buckets st2)(m \<mapsto> b')\<rparr>
          in if done then ((True, None), st3) else ((False, Some (time_until_tokens n b')), st3))"

text \<open>Returns how long the caller slept; \<^verbatim>\<open>None\<close> is the \<^verbatim>\<open>RateLimitException\<close>.\<close>

definition wait_if_needed ::
  "bool \<Rightarrow> string \<Rightarrow> string option \<Rightarrow> rat \<Rightarrow> rat \<Rightarrow> limiter \<Rightarrow> rat option \<times> limiter" where
  "wait_if_needed redis_ok m project max_wait now st =
     (case check_rate_limit redis_ok m project 1 now st of
        ((True, _), st') \<Rightarrow> (Some 0, st')
      | ((False, retry_after), st') \<Rightarrow>
          (case retry_after of
             Some r \<Rightarrow> if r \<noteq> 0 \<and> r \<le> max_wait then (Some r, st') else (None, st')
           | None \<Rightarrow> (None, st')))"

definition reset_limits :: "string option \<Rightarrow> limiter \<Rightarrow> limiter" where
  "reset_limits model_id st =
     (if truthy_str model_id
      then st\<lparr>buckets := (buckets st)(the model_id := None),
              counters := (\<lambda>k. if snd k = the model_id then None else counters st k)\<rparr>
      else st\<lparr>buckets := Map.empty, counters := Map.empty\<rparr>)"

section \<open>Locks\<close>

datatype 'a blocking = Done 'a | Blocked

text \<open>\<^verbatim>\<open>with self.lock:\<close> by a thread that holds the lock already, or not; the body runs with the
  lock held.\<close>

definition with_lock :: "bool \<Rightarrow> (bool \<Rightarrow> 'a blocking) \<Rightarrow> 'a blocking" where
  "with_lock held body = (if held then Blocked else body True)"

definition locked_time_until_tokens :: "bool \<Rightarrow> rat \<Rightarrow> bucket \<Rightarrow> rat blocking" where
  "locked_time_until_tokens held n b = with_lock held (\<lambda>_. Done (time_until_tokens n b))"

record limits_info =
  li_rate_per_second :: rat
  li_burst_capacity :: rat
  li_current_tokens :: rat
  li_tokens_available :: bool
  li_time_until_available :: rat

definition get_limits_info :: "string \<Rightarrow> rat \<Rightarrow> limiter \<Rightarrow> limits_info blocking \<times> limiter" where
  "get_limits_info m now st = (case get_bucket m now st of
      (b, st') \<Rightarrow>
        (with_lock False (\<lambda>held.
           let current = min (capacity b) (tokens b + (now - last_update b) * rate b);
               info = (\<lambda>t. \<lparr>li_rate_per_second = rate b, li_burst_capacity = capacity b,
                            li_current_tokens = current, li_tokens_available = (current \<ge> 1),
                            li_time_until_available = t\<rparr>)
           in if current < 1
              then (case locked_time_until_tokens held 1 b of Done t \<Rightarrow> Done (info t) | Blocked \<Rightarrow> Blocked)
              else Done (info 0)), st'))"

section \<open>Lemmas\<close>

definition bucket_ok :: "bucket \<Rightarrow> bool" where
  "bucket_ok b \<longleftrightarrow> 0 < rate b \<and> 0 \<le> tokens b \<and> tokens b \<le> capacity b"

lemma refill_fields [simp]:
  "rate (refill now b) = rate b" "capacity (refill now b) = capacity b" "last_update (refill now b) = now"
  "tokens (refill now b) = min (capacity b) (tokens b + (now - last_update b) * rate b)"
  by (simp_all add: refill_def)

lemma refill_ok: "bucket_ok b \<Longrightarrow> last_update b \<le> now \<Longrightarrow> bucket_ok (refill now b)"
  by (auto simp: bucket_ok_def)

lemma consume_spec:
  assumes "bucket_ok b" "last_update b \<le> now" "0 \<le> n" "consume n now b = (got, b')"
  shows "bucket_ok b'" "rate b' = rate b" "capacity b' = capacity b" "last_update b' = now"
    "tokens b' + (if got then n else 0) \<le> tokens b + (now - last_update b) * rate b"
    "got \<longleftrightarrow> n \<le> tokens (refill now b)"
  using assms refill_ok [OF assms(1,2)]
  by (auto simp: consume_def Let_def bucket_ok_def split: if_splits)

text \<open>A sequence of calls \<open>(time, tokens)\<close>: the tokens handed out.\<close>

fun serve :: "(rat \<times> rat) list \<Rightarrow> bucket \<Rightarrow> rat \<times> bucket" where
  "serve [] b = (0, b)"
| "serve ((t, n) # calls) b =
     (let (got, b1) = consume n t b; (rest, b2) = serve calls b1
      in ((if got then n else 0) + rest, b2))"

fun calls_ok :: "rat \<Rightarrow> (rat \<times> rat) list \<Rightarrow> bool" where
  "calls_ok now [] = True"
| "calls_ok now ((t, n) # calls) \<longleftrightarrow> now \<le> t \<and> 0 \<le> n \<and> calls_ok t calls"

fun end_time :: "rat \<Rightarrow> (rat \<times> rat) list \<Rightarrow> rat" where
  "end_time now [] = now"
| "end_time now ((t, n) # calls) = end_time t calls"

lemma serve_bound:
  "bucket_ok b \<Longrightarrow> calls_ok (last_update b) calls \<Longrightarrow> serve calls b = (served, b') \<Longrightarrow>
     bucket_ok b' \<and> served + tokens b' \<le> tokens b + (end_time (last_update b) calls - last_update b) * rate b"
proof (induction calls arbitrary: b served b')
  case Nil
  then show ?case by simp
next
  case (Cons call calls)
  obtain t n where call: "call = (t, n)" by force
  obtain got b1 where c: "consume n t b = (got, b1)" by force
  obtain rest b2 where s: "serve calls b1 = (rest, b2)" by force
  have pre: "last_update b \<le> t" "0 \<le> n" "calls_ok t calls" using Cons.prems(2) call by simp_all
  note cs = consume_spec [OF Cons.prems(1) pre(1,2) c]
  have "bucket_ok b2 \<and> rest + tokens b2 \<le> tokens b1 + (end_time t calls - t) * rate b"
    using Cons.IH [OF cs(1) _ s] pre(3) cs(2,4) by simp
  moreover have "b' = b2" "served = (if got then n else 0) + rest"
    using Cons.prems(3) call c s by (simp_all add: Let_def)
  ultimately show ?case using cs(5) call by (simp add: algebra_simps)
qed

text \<open>Requests at the given times, counted by Redis: which were allowed.\<close>

fun requests :: "string \<Rightarrow> string option \<Rightarrow> rat list \<Rightarrow> limiter \<Rightarrow> bool list" where
  "requests m p [] st = []"
| "requests m p (t # ts) st =
     (case check_distributed_limit True m p t st of (allowed, st') \<Rightarrow> allowed # requests m p ts st')"

fun within_a_minute :: "rat \<Rightarrow> rat list \<Rightarrow> bool" where
  "within_a_minute now [] = True"
| "within_a_minute now (t # ts) \<longleftrightarrow> now \<le> t \<and> t < now + 60 \<and> within_a_minute t ts"

lemma requests_count:
  assumes "counters st (counter_key p m) = Some (n, now + 60)" "within_a_minute now ts"
    and "n + int (length ts) = distributed_limit m + 1" "n \<le> distributed_limit m"
  shows "requests m p ts st = replicate (length ts - 1) True @ [False]"
  using assms
proof (induction ts arbitrary: st n now)
  case Nil
  then show ?case by simp
next
  case (Cons t ts)
  have read: "read_counter t (counter_key p m) st = n" using Cons.prems(1,2) by (simp add: read_counter_def)
  show ?case
  proof (cases ts)
    case Nil
    then have "n = distributed_limit m" using Cons.prems(3) by simp
    then show ?thesis using read Nil by (simp add: check_distributed_limit_def Let_def)
  next
    case (Cons t' ts')
    then have lt: "n < distributed_limit m" using Cons.prems(3) by simp
    let ?st = "st\<lparr>counters := (counters st)(counter_key p m \<mapsto> (n + 1, t + 60))\<rparr>"
    have "requests m p ts ?st = replicate (length ts - 1) True @ [False]"
      using Cons.prems(2,3) lt by (intro Cons.IH [of ?st "n + 1" t]) simp_all
    moreover have "check_distributed_limit True m p t st = (True, ?st)"
      using read lt by (simp add: check_distributed_limit_def Let_def)
    ultimately show ?thesis using Cons by simp
  qed
qed

section \<open>Properties\<close>

text \<open>C38: The token bucket bounds the throughput. Whatever calls come at whatever times, the
  tokens handed out up to the last call never exceed the burst capacity plus the rate times
  the time that passed, and the bucket never leaves its range.\<close>

theorem bucket_bounds_the_throughput:
  assumes "0 < r" and "0 \<le> c" and "calls_ok t0 calls"
    and "serve calls (new_bucket r c t0) = (served, b')"
  shows "served \<le> c + r * (end_time t0 calls - t0) \<and> 0 \<le> tokens b' \<and> tokens b' \<le> c"
proof -
  have ok: "bucket_ok (new_bucket r c t0)" using assms(1,2) by (simp add: bucket_ok_def new_bucket_def)
  have "bucket_ok b' \<and> served + tokens b' \<le> c + (end_time t0 calls - t0) * r"
    using serve_bound [OF ok _ assms(4)] assms(3) by (simp add: new_bucket_def)
  moreover have "capacity b' = c" using assms(4)
  proof -
    have "serve calls b = (s, b2) \<Longrightarrow> capacity b2 = capacity b" for b s b2
    proof (induction calls arbitrary: b s)
      case Nil
      then show ?case by simp
    next
      case (Cons call calls)
      obtain t n where "call = (t, n)" by force
      then show ?case using Cons by (auto simp: consume_def Let_def split: prod.splits if_splits)
    qed
    from this [OF assms(4)] show ?thesis by (simp add: new_bucket_def)
  qed
  ultimately show ?thesis by (auto simp: bucket_ok_def mult.commute)
qed

lemma bucket_bounds_the_throughput_witness:
  "fst (serve [(0, 20), (1, 60), (1, 50)] (new_bucket 100 20 0)) \<le> 20 + 100 * 1"
proof -
  obtain s b where run: "serve [(0, 20), (1, 60), (1, 50)] (new_bucket 100 20 0) = (s, b)" by force
  from bucket_bounds_the_throughput [OF _ _ _ run] run show ?thesis by simp
qed

text \<open>The wait a refused caller is told is exact: with the bucket left alone, the same request
  is granted after that many seconds and at no earlier time, provided it does not ask for
  more than the bucket can hold; a request above the capacity is never granted.\<close>

theorem retry_after_is_exact:
  assumes "bucket_ok b" and "last_update b \<le> now" and "0 \<le> n" and "consume n now b = (False, b')"
    and "now \<le> later"
  shows "fst (consume n later b') = (n \<le> capacity b \<and> now + time_until_tokens n b' \<le> later)"
proof -
  have b': "b' = refill now b" "tokens b' < n"
    using assms(4) by (auto simp: consume_def Let_def split: if_splits)
  have rate: "0 < rate b'" using assms(1) b'(1) by (simp add: bucket_ok_def)
  have "fst (consume n later b') \<longleftrightarrow> n \<le> capacity b \<and> n \<le> tokens b' + (later - now) * rate b'"
    by (simp add: consume_def Let_def b'(1))
  also have "n \<le> tokens b' + (later - now) * rate b' \<longleftrightarrow> now + time_until_tokens n b' \<le> later"
    using b'(2) rate by (simp add: time_until_tokens_def field_simps)
  finally show ?thesis .
qed

lemma retry_after_is_exact_witness:
  "\<exists>b'. consume 10 0 ((new_bucket 2 10 0)\<lparr>tokens := 4\<rparr>) = (False, b') \<and>
     fst (consume 10 3 b') \<and> \<not> fst (consume 10 2 b')"
proof -
  let ?b = "(new_bucket 2 10 0)\<lparr>tokens := 4\<rparr>"
  obtain b' where run: "consume 10 0 ?b = (False, b')" by (simp add: consume_def Let_def new_bucket_def)
  have "time_until_tokens 10 b' = 3"
    using run by (auto simp: consume_def Let_def new_bucket_def time_until_tokens_def refill_def)
  with retry_after_is_exact [OF _ _ _ run, of 3] retry_after_is_exact [OF _ _ _ run, of 2] run
  show ?thesis by (simp add: bucket_ok_def new_bucket_def)
qed

text \<open>\<^verbatim>\<open>get_limits_info\<close> never returns when less than one token is left: it asks for the
  waiting time while it holds the bucket's lock, and that method takes the same lock. With at
  least one token it returns the bucket's state.\<close>

theorem limits_info_deadlocks_without_tokens:
  assumes "buckets st m = Some b"
  shows "(fst (get_limits_info m now st) = Blocked) = (tokens (refill now b) < 1) \<and>
     (1 \<le> tokens (refill now b) \<longrightarrow>
        (\<exists>info. fst (get_limits_info m now st) = Done info \<and> li_current_tokens info = tokens (refill now b) \<and>
           li_tokens_available info))"
  using assms
  by (simp add: get_limits_info_def get_bucket_def with_lock_def locked_time_until_tokens_def Let_def
      not_less min_def)

lemma limits_info_deadlocks_without_tokens_witness:
  "fst (get_limits_info ''m'' 0 \<lparr>buckets = [''m'' \<mapsto> (new_bucket 1 20 0)\<lparr>tokens := 1 / 2\<rparr>], counters = Map.empty\<rparr>) = Blocked"
  using limits_info_deadlocks_without_tokens [of "\<lparr>buckets = [''m'' \<mapsto> (new_bucket 1 20 0)\<lparr>tokens := 1 / 2\<rparr>], counters = Map.empty\<rparr>"
      "''m''" "(new_bucket 1 20 0)\<lparr>tokens := 1 / 2\<rparr>" 0]
  by (simp add: new_bucket_def)

text \<open>The Redis counter does not measure a window. Each allowed request renews the counter's
  minute, so a client whose requests always follow within a minute of each other, however
  slowly, is refused as soon as it has made as many requests in total as the model allows per
  minute.\<close>

theorem counter_is_not_a_window:
  assumes "counters st (counter_key p m) = None" and "0 < distributed_limit m"
    and "within_a_minute t ts" and "int (length ts) = distributed_limit m"
  shows "requests m p (t # ts) st = replicate (nat (distributed_limit m)) True @ [False]"
proof -
  let ?st = "st\<lparr>counters := (counters st)(counter_key p m \<mapsto> (1, t + 60))\<rparr>"
  have first: "check_distributed_limit True m p t st = (True, ?st)"
    using assms(1,2) by (simp add: check_distributed_limit_def read_counter_def Let_def)
  have "requests m p ts ?st = replicate (length ts - 1) True @ [False]"
    by (rule requests_count [where n = 1 and now = t]) (use assms(2-4) in simp_all)
  moreover have "nat (distributed_limit m) = Suc (length ts - 1)" using assms(2,4) by linarith
  ultimately show ?thesis using first by simp
qed

lemma long_not_sublist: "length ys < length xs \<Longrightarrow> \<not> sublist xs ys"
  by (auto dest: sublist_length_le)

lemma demo_limit: "distributed_limit ''x'' = 100"
  by (simp add: distributed_limit_def matching_limits_def model_limits_def base_model_def lower_def lower_char_def
      long_not_sublist DEFAULT_RATE_LIMIT_def)

lemma slow_requests: "within_a_minute x (map (\<lambda>i. x + 59 * (of_nat i + 1)) [0..<n])"
proof (induction n arbitrary: x)
  case (Suc n)
  have "map (\<lambda>i. x + 59 * (of_nat i + 1)) [0..<Suc n] =
      (x + 59) # map (\<lambda>i. (x + 59) + 59 * (of_nat i + 1)) [0..<n]"
    by (simp add: upt_conv_Cons map_Suc_upt [symmetric] comp_def algebra_simps del: upt_Suc)
  then show ?case using Suc.IH [of "x + 59"] by simp
qed simp

lemma counter_is_not_a_window_witness:
  "last (requests ''x'' None (0 # map (\<lambda>i. 0 + 59 * (of_nat i + 1)) [0..<100]) \<lparr>buckets = Map.empty, counters = Map.empty\<rparr>) = False"
  using counter_is_not_a_window [of "\<lparr>buckets = Map.empty, counters = Map.empty\<rparr>" None "''x''" 0
      "map (\<lambda>i. 0 + 59 * (of_nat i + 1)) [0..<100]"] slow_requests [of 0 100]
  by (simp add: demo_limit)

end
