(* ===== verification/Json_Text.thy ===== *)
theory Json_Text
  imports Prelude
begin

text \<open>
  JSON text as \<^verbatim>\<open>json.dumps\<close> writes it and \<^verbatim>\<open>json.loads\<close> reads it, for the code that
  puts JSON on a wire or reads it off one: the stream of the agent
  (\<^verbatim>\<open>llm/agent_core/sse.py\<close>) and the arguments of a tool call.

  This is Python's library, not code of the repository.  A string is a list of characters
  below 256, so an escape above \<^verbatim>\<open>\u00ff\<close> is refused; numbers are exact and written
  positionally (\<open>show_num\<close>; thirty decimals, enough for the prices and token counts on this wire);
  \<^verbatim>\<open>NaN\<close> and \<^verbatim>\<open>Infinity\<close> are not numbers here.  The separators are the default ones.
\<close>

section \<open>Writing\<close>

definition hex_char :: "nat \<Rightarrow> char" where
  "hex_char n = (if n < 10 then digit_char n else char_of (87 + n))"

text \<open>\<^verbatim>\<open>ensure_ascii\<close>: everything outside the printable ASCII range is escaped.\<close>

definition escape_char :: "char \<Rightarrow> string" where
  "escape_char c =
     (let n = (of_char c :: nat)
      in if n = 34 \<or> n = 92 then [CHR 0x5C, c]
         else if n = 10 then [CHR 0x5C, CHR ''n'']
         else if n = 13 then [CHR 0x5C, CHR ''r'']
         else if n = 9 then [CHR 0x5C, CHR ''t'']
         else if n = 12 then [CHR 0x5C, CHR ''f'']
         else if n = 8 then [CHR 0x5C, CHR ''b'']
         else if 32 \<le> n \<and> n \<le> 126 then [c]
         else [CHR 0x5C, CHR ''u'', CHR ''0'', CHR ''0'', hex_char (n div 16), hex_char (n mod 16)])"

definition show_string :: "string \<Rightarrow> string" where
  "show_string s = CHR 0x22 # concat (map escape_char s) @ [CHR 0x22]"

fun frac_digits :: "nat \<Rightarrow> rat \<Rightarrow> string" where
  "frac_digits 0 f = []"
| "frac_digits (Suc k) f =
     (if f = 0 then []
      else digit_char (nat \<lfloor>f * 10\<rfloor>) # frac_digits k (f * 10 - of_int \<lfloor>f * 10\<rfloor>))"

definition decimals :: nat where "decimals = 30"

definition show_num :: "rat \<Rightarrow> string" where
  "show_num q =
     (let a = \<bar>q\<bar>; n = \<lfloor>a\<rfloor>; f = a - of_int n
      in (if q < 0 then [CHR ''-''] else []) @ string_of_nat (nat n) @
         (if f = 0 then [] else CHR ''.'' # frac_digits decimals f))"

fun separated :: "string list \<Rightarrow> string" where
  "separated [] = []"
| "separated [s] = s"
| "separated (s # t # ss) = s @ '', '' @ separated (t # ss)"

fun dumps :: "json \<Rightarrow> string" where
  "dumps JNull = ''null''"
| "dumps (JBool b) = (if b then ''true'' else ''false'')"
| "dumps (JNum q) = show_num q"
| "dumps (JStr s) = show_string s"
| "dumps (JList xs) = CHR ''['' # separated (map dumps xs) @ '']''"
| "dumps (JObj kvs) =
     CHR ''{'' # separated (map (\<lambda>(k, v). show_string k @ '': '' @ v) (map (map_prod id dumps) kvs)) @ ''}''"

section \<open>Reading\<close>

definition is_space :: "char \<Rightarrow> bool" where
  "is_space c \<longleftrightarrow> (of_char c :: nat) \<in> {32, 9, 10, 13}"

definition skip_ws :: "string \<Rightarrow> string" where
  "skip_ws = dropWhile is_space"

definition is_digit :: "char \<Rightarrow> bool" where
  "is_digit c \<longleftrightarrow> 48 \<le> (of_char c :: nat) \<and> (of_char c :: nat) \<le> 57"

definition digit_val :: "char \<Rightarrow> nat" where
  "digit_val c = of_char c - 48"

definition nat_of_digits :: "string \<Rightarrow> nat" where
  "nat_of_digits = foldl (\<lambda>n c. 10 * n + digit_val c) 0"

definition hex_val :: "char \<Rightarrow> nat option" where
  "hex_val c =
     (let n = (of_char c :: nat)
      in if 48 \<le> n \<and> n \<le> 57 then Some (n - 48)
         else if 97 \<le> n \<and> n \<le> 102 then Some (n - 87)
         else if 65 \<le> n \<and> n \<le> 70 then Some (n - 55) else None)"

definition unescape :: "char \<Rightarrow> char option" where
  "unescape e =
     (if e = CHR 0x22 \<or> e = CHR 0x5C \<or> e = CHR ''/'' then Some e
      else if e = CHR ''n'' then Some (CHR 0x0A) else if e = CHR ''r'' then Some (CHR 0x0D)
      else if e = CHR ''t'' then Some (CHR 0x09) else if e = CHR ''f'' then Some (CHR 0x0C)
      else if e = CHR ''b'' then Some (CHR 0x08) else None)"

definition unicode_escape :: "char \<Rightarrow> char \<Rightarrow> char \<Rightarrow> char \<Rightarrow> char option" where
  "unicode_escape a b c d =
     (case (hex_val a, hex_val b, hex_val c, hex_val d) of
        (Some 0, Some 0, Some h, Some l) \<Rightarrow> Some (char_of (16 * h + l)) | _ \<Rightarrow> None)"

text \<open>The rest of a string after its opening quote.\<close>

fun read_string :: "string \<Rightarrow> (string \<times> string) option" where
  "read_string [] = None"
| "read_string (c # cs) =
     (if c = CHR 0x22 then Some ([], cs)
      else if c = CHR 0x5C then
        (case cs of
           [] \<Rightarrow> None
         | e # es \<Rightarrow>
             if e = CHR ''u'' then
               (case es of
                  h1 # h2 # h3 # h4 # rest \<Rightarrow>
                    (case unicode_escape h1 h2 h3 h4 of
                       None \<Rightarrow> None | Some x \<Rightarrow> map_option (apfst (Cons x)) (read_string rest))
                | _ \<Rightarrow> None)
             else (case unescape e of
                     None \<Rightarrow> None | Some x \<Rightarrow> map_option (apfst (Cons x)) (read_string es)))
      else if (of_char c :: nat) < 32 then None
      else map_option (apfst (Cons c)) (read_string cs))"

definition read_frac :: "string \<Rightarrow> rat \<times> string" where
  "read_frac s = (case s of
      [] \<Rightarrow> (0, s)
    | c # cs \<Rightarrow>
        let ds = takeWhile is_digit cs
        in if c = CHR ''.'' \<and> ds \<noteq> [] then (of_nat (nat_of_digits ds) / 10 ^ length ds, dropWhile is_digit cs)
           else (0, s))"

definition exponent_sign :: "string \<Rightarrow> bool \<times> string" where
  "exponent_sign s = (case s of
      [] \<Rightarrow> (False, s)
    | c # cs \<Rightarrow> if c = CHR ''-'' then (True, cs) else if c = CHR ''+'' then (False, cs) else (False, s))"

definition read_exp :: "string \<Rightarrow> rat \<times> string" where
  "read_exp s = (case s of
      [] \<Rightarrow> (1, s)
    | c # cs \<Rightarrow>
        let (neg, r) = exponent_sign cs; ds = takeWhile is_digit r; p = 10 ^ nat_of_digits ds
        in if (c = CHR ''e'' \<or> c = CHR ''E'') \<and> ds \<noteq> [] then (if neg then 1 / p else p, dropWhile is_digit r)
           else (1, s))"

definition read_num :: "string \<Rightarrow> (rat \<times> string) option" where
  "read_num s =
     (let (neg, s1) = (case s of c # cs \<Rightarrow> if c = CHR ''-'' then (True, cs) else (False, s) | [] \<Rightarrow> (False, s));
          ds = takeWhile is_digit s1
      in if ds = [] then None
         else let whole = (if hd ds = CHR ''0'' then [hd ds] else ds);
                  (f, s2) = read_frac (drop (length whole) s1);
                  (e, s3) = read_exp s2;
                  x = (of_nat (nat_of_digits whole) + f) * e
              in Some (if neg then - x else x, s3))"

definition strip_prefix :: "string \<Rightarrow> string \<Rightarrow> string option" where
  "strip_prefix p s = (if take (length p) s = p then Some (drop (length p) s) else None)"

definition read_literal :: "string \<Rightarrow> (json \<times> string) option" where
  "read_literal s =
     (case strip_prefix ''null'' s of Some r \<Rightarrow> Some (JNull, r)
      | None \<Rightarrow> (case strip_prefix ''true'' s of Some r \<Rightarrow> Some (JBool True, r)
      | None \<Rightarrow> (case strip_prefix ''false'' s of Some r \<Rightarrow> Some (JBool False, r)
      | None \<Rightarrow> map_option (apfst JNum) (read_num s))))"

text \<open>A repeated key keeps its place and takes the last value, as in a Python dictionary.\<close>

fun dict_put :: "'k \<Rightarrow> 'v \<Rightarrow> ('k \<times> 'v) list \<Rightarrow> ('k \<times> 'v) list" where
  "dict_put k v [] = [(k, v)]"
| "dict_put k v ((k', v') # kvs) = (if k' = k then (k, v) # kvs else (k', v') # dict_put k v kvs)"

definition dict_of :: "('k \<times> 'v) list \<Rightarrow> ('k \<times> 'v) list" where
  "dict_of kvs = fold (\<lambda>(k, v). dict_put k v) kvs []"

fun read_value :: "nat \<Rightarrow> string \<Rightarrow> (json \<times> string) option"
  and read_elements :: "nat \<Rightarrow> string \<Rightarrow> (json list \<times> string) option"
  and read_members :: "nat \<Rightarrow> string \<Rightarrow> ((string \<times> json) list \<times> string) option" where
  "read_value 0 s = None"
| "read_value (Suc n) s =
     (case skip_ws s of
        [] \<Rightarrow> None
      | c # cs \<Rightarrow>
          if c = CHR 0x22 then map_option (apfst JStr) (read_string cs)
          else if c = CHR ''['' then
            (case skip_ws cs of
               [] \<Rightarrow> None
             | d # ds \<Rightarrow> if d = CHR '']'' then Some (JList [], ds)
                         else map_option (apfst JList) (read_elements n cs))
          else if c = CHR ''{'' then
            (case skip_ws cs of
               [] \<Rightarrow> None
             | d # ds \<Rightarrow> if d = CHR ''}'' then Some (JObj [], ds)
                         else map_option (apfst (\<lambda>kvs. JObj (dict_of kvs))) (read_members n cs))
          else read_literal (c # cs))"
| "read_elements 0 s = None"
| "read_elements (Suc n) s =
     (case read_value n s of
        None \<Rightarrow> None
      | Some (v, r) \<Rightarrow>
          (case skip_ws r of
             [] \<Rightarrow> None
           | c # cs \<Rightarrow> if c = CHR '']'' then Some ([v], cs)
                       else if c = CHR '','' then map_option (apfst (Cons v)) (read_elements n cs)
                       else None))"
| "read_members 0 s = None"
| "read_members (Suc n) s =
     (case skip_ws s of
        [] \<Rightarrow> None
      | q # qs \<Rightarrow>
          if q \<noteq> CHR 0x22 then None
          else (case read_string qs of
             None \<Rightarrow> None
           | Some (k, r) \<Rightarrow>
               (case skip_ws r of
                  [] \<Rightarrow> None
                | c # cs \<Rightarrow>
                    if c \<noteq> CHR '':'' then None
                    else (case read_value n cs of
                       None \<Rightarrow> None
                     | Some (v, r') \<Rightarrow>
                         (case skip_ws r' of
                            [] \<Rightarrow> None
                          | d # ds \<Rightarrow> if d = CHR ''}'' then Some ([(k, v)], ds)
                                      else if d = CHR '','' then map_option (apfst (Cons (k, v))) (read_members n ds)
                                      else None)))))"

text \<open>Every value, element and member consumes a character, so twice the length is fuel enough.\<close>

definition loads :: "string \<Rightarrow> json option" where
  "loads s = (case read_value (2 * length s + 2) s of
      Some (v, r) \<Rightarrow> if skip_ws r = [] then Some v else None
    | None \<Rightarrow> None)"

section \<open>Characters and numerals\<close>


lemma char_eqI: "(of_char c :: nat) = of_char d \<Longrightarrow> c = d"
  by simp

lemma digit_char_nat: "d < 10 \<Longrightarrow> (of_char (digit_char d) :: nat) = 48 + d"
  by (simp add: digit_char_def)

lemma is_digit_digit_char [simp]: "d < 10 \<Longrightarrow> is_digit (digit_char d)"
  by (simp add: is_digit_def digit_char_nat)

lemma digit_val_digit_char [simp]: "d < 10 \<Longrightarrow> digit_val (digit_char d) = d"
  by (simp add: digit_val_def digit_char_nat)

lemma hex_val_hex_char [simp]: "k < 16 \<Longrightarrow> hex_val (hex_char k) = Some k"
  by (auto simp: hex_val_def hex_char_def digit_char_nat Let_def)

lemma of_char_less_256: "(of_char c :: nat) < 256"
  using of_char_mod_256 [of c, where 'a = nat] by (metis mod_less_divisor zero_less_numeral)

lemma read_escape:
  "read_string (escape_char c @ s) = map_option (apfst (Cons c)) (read_string s)"
proof -
  let ?n = "of_char c :: nat"
  have n: "?n < 256" by (rule of_char_less_256)
  have c: "char_of ?n = c" by simp
  have special: "c = d \<longleftrightarrow> ?n = of_char d" for d by simp
  have hex: "16 * (?n div 16) + ?n mod 16 = ?n" by simp
  have "?n div 16 < 16" using n by (intro less_mult_imp_div_less) simp
  then have "unicode_escape (CHR ''0'') (CHR ''0'') (hex_char (?n div 16)) (hex_char (?n mod 16)) = Some c"
    by (simp add: unicode_escape_def hex_val_def [of "CHR ''0''"] hex)
  then have plain: ?thesis if "?n \<notin> {8, 9, 10, 12, 13}"
    using that by (auto simp: escape_char_def Let_def special unescape_def split: option.splits)
  show ?thesis
  proof (cases "?n \<in> {8, 9, 10, 12, 13}")
    case True
    then have "c \<in> {CHR 0x08, CHR 0x09, CHR 0x0A, CHR 0x0C, CHR 0x0D}"
      by (auto intro: char_eqI)
    then show ?thesis by (auto simp: escape_char_def unescape_def)
  qed (rule plain)
qed

lemma read_show_string:
  "read_string (concat (map escape_char s) @ CHR 0x22 # rest) = Some (s, rest)"
proof (induction s)
  case (Cons c s)
  then show ?case by (simp add: read_escape)
qed simp

definition stops :: "string \<Rightarrow> bool" where
  "stops s \<longleftrightarrow> (s = [] \<or> hd s \<in> {CHR '','', CHR '']'', CHR ''}''})"

lemma stops_num:
  assumes "stops s"
  shows "takeWhile is_digit s = []" "dropWhile is_digit s = s" "read_frac s = (0, s)" "read_exp s = (1, s)"
  using assms by (cases s; auto simp: stops_def is_digit_def read_frac_def read_exp_def Let_def split: prod.splits)+

lemma digits_string_of_nat: "\<forall>c \<in> set (string_of_nat n). is_digit c"
proof (induction n rule: string_of_nat.induct)
  case (1 n)
  then show ?case by (subst string_of_nat.simps) (auto split: if_splits)
qed

lemma nat_of_digits_append: "nat_of_digits (s @ [c]) = 10 * nat_of_digits s + digit_val c"
  by (simp add: nat_of_digits_def)

lemma nat_of_digits_string_of_nat [simp]: "nat_of_digits (string_of_nat n) = n"
proof (induction n rule: string_of_nat.induct)
  case (1 n)
  then show ?case
    by (subst string_of_nat.simps) (auto simp: nat_of_digits_append nat_of_digits_def)
qed

lemma string_of_nat_nonempty [simp]: "string_of_nat n \<noteq> []"
  by (subst string_of_nat.simps) simp

lemma digit_char_0: "digit_char 0 = CHR ''0''"
  by (rule char_eqI) (simp add: digit_char_nat)

lemma hd_string_of_nat: "hd (string_of_nat n) = CHR ''0'' \<longleftrightarrow> n = 0"
proof (induction n rule: string_of_nat.induct)
  case (1 n)
  have "digit_char n = CHR ''0'' \<longleftrightarrow> n = 0" if "n < 10"
    using that digit_char_nat [of n] digit_char_nat [of 0] by (auto simp: digit_char_0)
  with 1 show ?case by (subst string_of_nat.simps) (auto simp: hd_append)
qed

lemma string_of_nat_0: "string_of_nat 0 = ''0''"
  by (simp add: string_of_nat.simps digit_char_0)

text \<open>The decimals a number needs.\<close>

definition short :: "nat \<Rightarrow> rat \<Rightarrow> bool" where
  "short k f \<longleftrightarrow> f * 10 ^ k \<in> \<int>"

lemma frac_digits_read:
  assumes "0 \<le> f" and "f < 1" and "short k f"
  shows "(\<forall>c \<in> set (frac_digits k f). is_digit c) \<and>
    of_nat (nat_of_digits (frac_digits k f)) = f * 10 ^ length (frac_digits k f) \<and>
    (frac_digits k f = [] \<longleftrightarrow> f = 0)"
  using assms
proof (induction k arbitrary: f)
  case 0
  then obtain i where "f = of_int i" by (auto simp: short_def Ints_def)
  with 0 have "f = 0" by (cases "i \<le> 0") (auto simp: of_int_less_1_iff)
  then show ?case by (simp add: nat_of_digits_def)
next
  case (Suc k)
  define d where "d = \<lfloor>f * 10\<rfloor>"
  define g where "g = f * 10 - of_int d"
  have d: "0 \<le> d" "d < 10" using Suc.prems by (auto simp: d_def floor_less_iff)
  have g: "0 \<le> g" "g < 1" unfolding g_def d_def by linarith+
  have "g * 10 ^ k = f * 10 ^ Suc k - of_int (d * 10 ^ k)" by (simp add: g_def algebra_simps)
  then have "short k g" using Suc.prems(3) unfolding short_def by (metis Ints_diff Ints_of_int)
  note IH = Suc.IH [OF g this]
  have fd: "nat_of_digits (c # s) = digit_val c * 10 ^ length s + nat_of_digits s" for c s
  proof (induction s rule: rev_induct)
    case (snoc x s)
    have "nat_of_digits ((c # s) @ [x]) = 10 * nat_of_digits (c # s) + digit_val x"
      by (rule nat_of_digits_append)
    with snoc show ?case by (simp add: nat_of_digits_append algebra_simps)
  qed (simp add: nat_of_digits_def)
  show ?case
  proof (cases "f = 0")
    case False
    have digits: "frac_digits (Suc k) f = digit_char (nat d) # frac_digits k g"
      using False by (simp add: d_def g_def)
    have "of_nat (nat_of_digits (frac_digits (Suc k) f)) = of_int d * 10 ^ length (frac_digits k g) + g * 10 ^ length (frac_digits k g)"
      using IH d by (simp add: digits fd del: frac_digits.simps)
    also have "\<dots> = f * 10 ^ length (frac_digits (Suc k) f)"
      by (simp only: digits g_def) (simp add: algebra_simps del: frac_digits.simps)
    finally show ?thesis using False IH d by (simp add: digits del: frac_digits.simps)
  qed (simp add: nat_of_digits_def)
qed

lemma takeWhile_digits:
  assumes "\<forall>c \<in> set ds. is_digit c" and "rest = [] \<or> \<not> is_digit (hd rest)"
  shows "takeWhile is_digit (ds @ rest) = ds" "dropWhile is_digit (ds @ rest) = rest"
  using assms by (cases rest; simp)+

lemma read_frac_digits:
  assumes "0 \<le> f" and "f < 1" and "short decimals f" and "f \<noteq> 0" and "stops rest"
  shows "read_frac (CHR ''.'' # frac_digits decimals f @ rest) = (f, rest)"
proof -
  note r = frac_digits_read [OF assms(1-3)]
  have "rest = [] \<or> \<not> is_digit (hd rest)" using assms(5) by (auto simp: stops_def is_digit_def)
  with takeWhile_digits r
  have "takeWhile is_digit (frac_digits decimals f @ rest) = frac_digits decimals f"
    "dropWhile is_digit (frac_digits decimals f @ rest) = rest" by blast+
  with r assms(4) show ?thesis by (simp add: read_frac_def)
qed

lemma read_show_num:
  assumes "short decimals q" and "stops rest"
  shows "read_num (show_num q @ rest) = Some (q, rest)"
proof -
  define n where "n = \<lfloor>\<bar>q\<bar>\<rfloor>"
  define f where "f = \<bar>q\<bar> - of_int n"
  define tail where "tail = (if f = 0 then [] else CHR ''.'' # frac_digits decimals f) @ rest"
  have n: "0 \<le> n" by (simp add: n_def)
  have f: "0 \<le> f" "f < 1" unfolding f_def n_def by linarith+
  have "f * 10 ^ decimals = \<bar>q\<bar> * 10 ^ decimals - of_int (n * 10 ^ decimals)" by (simp add: f_def algebra_simps)
  moreover have "\<bar>q\<bar> * 10 ^ decimals \<in> \<int>"
    using assms(1) by (cases "0 \<le> q") (simp_all add: short_def)
  ultimately have "short decimals f" unfolding short_def by (metis Ints_diff Ints_of_int)
  then have frac: "read_frac tail = (f, rest)"
    using read_frac_digits f assms(2) stops_num(3) by (simp add: tail_def)
  have tail: "tail = [] \<or> \<not> is_digit (hd tail)"
    using assms(2) by (auto simp: tail_def stops_def is_digit_def)
  let ?w = "string_of_nat (nat n)"
  have tw: "takeWhile is_digit (?w @ tail) = ?w"
    using takeWhile_digits(1) [OF digits_string_of_nat tail] .
  have whole: "(if hd ?w = CHR ''0'' then [hd ?w] else ?w) = ?w"
    using hd_string_of_nat [of "nat n"] string_of_nat_0 by auto
  have "is_digit (hd ?w)" using digits_string_of_nat hd_in_set string_of_nat_nonempty by blast
  then have minus: "hd ?w \<noteq> CHR ''-''" by (auto simp: is_digit_def)
  have shown: "show_num q @ rest = (if q < 0 then [CHR ''-''] else []) @ ?w @ tail"
    by (simp add: show_num_def Let_def tail_def f_def n_def)
  have cut: "drop (length (if hd ?w = CHR ''0'' then [hd ?w] else ?w)) (?w @ tail) = tail"
    by (simp only: whole) simp
  have "read_num (show_num q @ rest) =
      Some (if q < 0 then - (of_nat (nat n) + f) else of_nat (nat n) + f, rest)"
  proof (cases "q < 0")
    case True
    then show ?thesis
      unfolding shown read_num_def
      by (simp only: if_True append.simps list.case Let_def prod.case refl tw cut whole frac
            stops_num(4) [OF assms(2)]) (simp add: frac stops_num(4) [OF assms(2)])
  next
    case False
    have "(case ?w @ tail of c # cs \<Rightarrow> if c = CHR ''-'' then (True, cs) else (False, ?w @ tail) | [] \<Rightarrow> (False, ?w @ tail)) =
        (False, ?w @ tail)"
      using minus by (cases ?w) auto
    with False show ?thesis
      unfolding shown read_num_def
      by (simp only: if_False append.simps Let_def prod.case tw cut whole frac
            stops_num(4) [OF assms(2)]) (simp add: frac stops_num(4) [OF assms(2)])
  qed
  also have "(if q < 0 then - (of_nat (nat n) + f) else of_nat (nat n) + f) = q"
    using n by (simp add: f_def)
  finally show ?thesis .
qed

section \<open>Reading back what was written\<close>

text \<open>The values the text represents: numbers with few enough decimals, no repeated key.\<close>

fun json_ok :: "json \<Rightarrow> bool" where
  "json_ok (JNum q) = short decimals q"
| "json_ok (JList xs) = list_all json_ok xs"
| "json_ok (JObj kvs) = (distinct (map fst kvs) \<and> list_all (\<lambda>kv. json_ok (snd kv)) kvs)"
| "json_ok _ = True"

lemma map_of_dict_put [simp]: "map_of (dict_put k v kvs) = (map_of kvs)(k \<mapsto> v)"
  by (induction kvs) (auto simp: fun_eq_iff)

lemma keys_dict_put: "fst ` set (dict_put k v kvs) = insert k (fst ` set kvs)"
proof (induction kvs)
  case (Cons kv kvs)
  then show ?case by (cases kv) auto
qed simp

lemma distinct_dict_put: "distinct (map fst kvs) \<Longrightarrow> distinct (map fst (dict_put k v kvs))"
proof (induction kvs)
  case (Cons kv kvs)
  then show ?case by (cases kv) (auto simp: keys_dict_put image_iff)
qed simp

lemma dict_put_fresh: "k \<notin> fst ` set kvs \<Longrightarrow> dict_put k v kvs = kvs @ [(k, v)]"
  by (induction kvs) auto

lemma dict_of_distinct: "distinct (map fst kvs) \<Longrightarrow> dict_of kvs = kvs"
proof -
  have "distinct (map fst (acc @ kvs)) \<Longrightarrow> fold (\<lambda>(k, v). dict_put k v) kvs acc = acc @ kvs" for acc
  proof (induction kvs arbitrary: acc)
    case (Cons kv kvs)
    have "dict_put (fst kv) (snd kv) acc = acc @ [kv]"
      using Cons.prems by (cases kv) (auto intro!: dict_put_fresh)
    then show ?case using Cons.IH [of "acc @ [kv]"] Cons.prems by (simp add: case_prod_beta)
  qed simp
  from this [of "[]"] show "distinct (map fst kvs) \<Longrightarrow> dict_of kvs = kvs" by (simp add: dict_of_def)
qed

text \<open>Fuel that is enough to read a value.\<close>

fun need :: "json \<Rightarrow> nat" where
  "need (JList xs) = Suc (sum_list (map (\<lambda>x. Suc (need x)) xs))"
| "need (JObj kvs) = Suc (sum_list (map (\<lambda>kv. Suc (need (snd kv))) kvs))"
| "need _ = 1"

text \<open>How the text of a value begins.\<close>

definition starts_value :: "string \<Rightarrow> bool" where
  "starts_value s \<longleftrightarrow> s \<noteq> [] \<and> \<not> is_space (hd s) \<and> hd s \<notin> {CHR '']'', CHR ''}''}"

lemma skip_starts: "s \<noteq> [] \<Longrightarrow> \<not> is_space (hd s) \<Longrightarrow> skip_ws s = s"
  by (cases s) (simp_all add: skip_ws_def)

lemma show_num_head: "\<exists>c cs. show_num q = c # cs \<and> (is_digit c \<or> c = CHR ''-'')"
proof -
  obtain c cs where w: "string_of_nat (nat \<lfloor>\<bar>q\<bar>\<rfloor>) = c # cs" "is_digit c"
    using digits_string_of_nat [of "nat \<lfloor>\<bar>q\<bar>\<rfloor>"] by (cases "string_of_nat (nat \<lfloor>\<bar>q\<bar>\<rfloor>)") auto
  then show ?thesis by (auto simp: show_num_def Let_def)
qed

lemma dumps_head: "\<exists>c cs. dumps j = c # cs \<and> \<not> is_space c \<and> c \<noteq> CHR '']'' \<and> c \<noteq> CHR ''}''"
proof (cases j)
  case (JNum q)
  with show_num_head [of q] show ?thesis by (auto simp: is_digit_def is_space_def)
qed (auto simp: is_space_def show_string_def)

lemma read_value_space: "read_value n (CHR '' '' # s) = read_value n s"
  by (cases n) (simp_all add: skip_ws_def is_space_def)

lemma read_elements_space: "read_elements n (CHR '' '' # s) = read_elements n s"
  by (cases n) (simp_all add: read_value_space)

lemma read_members_space: "read_members n (CHR '' '' # s) = read_members n s"
  by (cases n) (simp_all add: skip_ws_def is_space_def)

lemma read_literal_num:
  assumes "short decimals q" and "stops rest"
  shows "read_literal (show_num q @ rest) = Some (JNum q, rest)"
proof -
  obtain c cs where "show_num q = c # cs" "is_digit c \<or> c = CHR ''-''" using show_num_head by blast
  then have "strip_prefix ''null'' (show_num q @ rest) = None" "strip_prefix ''true'' (show_num q @ rest) = None"
    "strip_prefix ''false'' (show_num q @ rest) = None"
    by (auto simp: strip_prefix_def is_digit_def)
  then show ?thesis by (simp add: read_literal_def read_show_num [OF assms])
qed

definition members_text :: "(string \<times> json) list \<Rightarrow> string" where
  "members_text kvs = separated (map (\<lambda>(k, v). show_string k @ '': '' @ v) (map (map_prod id dumps) kvs))"

lemma skip_value: "skip_ws (dumps j @ rest) = dumps j @ rest"
  using dumps_head [of j] by (auto simp: skip_ws_def)

lemma skip_comma: "skip_ws (c # s) = c # s" if "\<not> is_space c"
  using that by (simp add: skip_ws_def)

lemma read_dumps_step:
  assumes elements: "\<And>xs rest. list_all json_ok xs \<Longrightarrow> xs \<noteq> [] \<Longrightarrow> sum_list (map (\<lambda>x. Suc (need x)) xs) \<le> n \<Longrightarrow>
      read_elements n (separated (map dumps xs) @ '']'' @ rest) = Some (xs, rest)"
    and members: "\<And>kvs rest. list_all (\<lambda>kv. json_ok (snd kv)) kvs \<Longrightarrow> kvs \<noteq> [] \<Longrightarrow>
      sum_list (map (\<lambda>kv. Suc (need (snd kv))) kvs) \<le> n \<Longrightarrow>
      read_members n (members_text kvs @ ''}'' @ rest) = Some (kvs, rest)"
    and j: "json_ok j" "need j \<le> Suc n" "stops rest"
  shows "read_value (Suc n) (dumps j @ rest) = Some (j, rest)"
proof (cases j)
  case (JNum q)
  obtain c cs where c: "show_num q = c # cs" "is_digit c \<or> c = CHR ''-''" using show_num_head by blast
  then have "\<not> is_space c" "c \<noteq> CHR 0x22" "c \<noteq> CHR ''[''" "c \<noteq> CHR ''{''"
    by (auto simp: is_digit_def is_space_def)
  with c read_literal_num [of q rest] j JNum show ?thesis by (simp add: skip_comma)
next
  case (JStr s)
  then show ?thesis by (simp add: show_string_def skip_comma is_space_def read_show_string)
next
  case (JList xs)
  show ?thesis
  proof (cases xs)
    case (Cons x xs')
    then obtain d ds where "separated (map dumps xs) = d # ds" "\<not> is_space d" "d \<noteq> CHR '']''"
      using dumps_head [of x] by (cases xs') auto
    then show ?thesis using elements [of xs rest] j JList Cons by (simp add: skip_comma is_space_def)
  qed (simp add: JList skip_comma is_space_def)
next
  case (JObj kvs)
  show ?thesis
  proof (cases kvs)
    case (Cons kv kvs')
    then obtain ds where "members_text kvs = CHR 0x22 # ds"
      by (cases kvs'; cases kv) (auto simp: members_text_def show_string_def)
    then show ?thesis using members [of kvs rest] j JObj Cons
      by (simp add: skip_comma is_space_def members_text_def dict_of_distinct)
  qed (simp add: JObj skip_comma is_space_def)
qed (simp_all add: skip_comma is_space_def read_literal_def strip_prefix_def)

lemma read_elements_step:
  assumes "\<And>j rest. json_ok j \<Longrightarrow> need j \<le> n \<Longrightarrow> stops rest \<Longrightarrow> read_value n (dumps j @ rest) = Some (j, rest)"
    and "\<And>xs rest. list_all json_ok xs \<Longrightarrow> xs \<noteq> [] \<Longrightarrow> sum_list (map (\<lambda>x. Suc (need x)) xs) \<le> n \<Longrightarrow>
      read_elements n (separated (map dumps xs) @ '']'' @ rest) = Some (xs, rest)"
    and "list_all json_ok xs" and "xs \<noteq> []" and "sum_list (map (\<lambda>x. Suc (need x)) xs) \<le> Suc n"
  shows "read_elements (Suc n) (separated (map dumps xs) @ '']'' @ rest) = Some (xs, rest)"
proof -
  obtain x xs' where xs: "xs = x # xs'" using assms(4) by (cases xs) auto
  show ?thesis
  proof (cases xs')
    case Nil
    with xs assms(1) [of x "'']'' @ rest"] assms(3,5) show ?thesis
      by (simp add: stops_def skip_comma is_space_def)
  next
    case (Cons y ys)
    let ?more = "separated (map dumps xs') @ '']'' @ rest"
    have "read_value n (dumps x @ '', '' @ ?more) = Some (x, '', '' @ ?more)"
      by (rule assms(1)) (use xs assms(3,5) in \<open>simp_all add: stops_def\<close>)
    moreover have "read_elements n ?more = Some (xs', rest)"
      by (rule assms(2)) (use xs Cons assms(3,5) in simp_all)
    ultimately show ?thesis
      using xs Cons by (simp add: skip_comma is_space_def read_elements_space)
  qed
qed

lemma members_text_simps:
  "members_text [(k, v)] = show_string k @ '': '' @ dumps v"
  "members_text ((k, v) # kv # kvs) = show_string k @ '': '' @ dumps v @ '', '' @ members_text (kv # kvs)"
  by (simp_all add: members_text_def)

lemma read_members_step:
  assumes "\<And>j rest. json_ok j \<Longrightarrow> need j \<le> n \<Longrightarrow> stops rest \<Longrightarrow> read_value n (dumps j @ rest) = Some (j, rest)"
    and "\<And>kvs rest. list_all (\<lambda>kv. json_ok (snd kv)) kvs \<Longrightarrow> kvs \<noteq> [] \<Longrightarrow>
      sum_list (map (\<lambda>kv. Suc (need (snd kv))) kvs) \<le> n \<Longrightarrow>
      read_members n (members_text kvs @ ''}'' @ rest) = Some (kvs, rest)"
    and "list_all (\<lambda>kv. json_ok (snd kv)) kvs" and "kvs \<noteq> []" and "sum_list (map (\<lambda>kv. Suc (need (snd kv))) kvs) \<le> Suc n"
  shows "read_members (Suc n) (members_text kvs @ ''}'' @ rest) = Some (kvs, rest)"
proof -
  obtain k v kvs' where kvs: "kvs = (k, v) # kvs'" using assms(4) by (cases kvs) auto
  show ?thesis
  proof (cases kvs')
    case Nil
    with kvs assms(1) [of v "''}'' @ rest"] assms(3,5) show ?thesis
      by (simp add: members_text_simps show_string_def read_show_string read_value_space stops_def skip_comma is_space_def)
  next
    case (Cons kv ys)
    let ?more = "members_text kvs' @ ''}'' @ rest"
    have "read_value n (dumps v @ '', '' @ ?more) = Some (v, '', '' @ ?more)"
      by (rule assms(1)) (use kvs assms(3,5) in \<open>simp_all add: stops_def\<close>)
    moreover have "read_members n ?more = Some (kvs', rest)"
      by (rule assms(2)) (use kvs Cons assms(3,5) in simp_all)
    ultimately show ?thesis
      using kvs Cons
      by (simp add: members_text_simps show_string_def read_show_string read_value_space read_members_space
          skip_comma is_space_def)
  qed
qed

lemma read_dumps_all:
  "(\<forall>j rest. json_ok j \<longrightarrow> need j \<le> n \<longrightarrow> stops rest \<longrightarrow> read_value n (dumps j @ rest) = Some (j, rest)) \<and>
   (\<forall>xs rest. list_all json_ok xs \<longrightarrow> xs \<noteq> [] \<longrightarrow> sum_list (map (\<lambda>x. Suc (need x)) xs) \<le> n \<longrightarrow>
      read_elements n (separated (map dumps xs) @ '']'' @ rest) = Some (xs, rest)) \<and>
   (\<forall>kvs rest. list_all (\<lambda>kv. json_ok (snd kv)) kvs \<longrightarrow> kvs \<noteq> [] \<longrightarrow>
      sum_list (map (\<lambda>kv. Suc (need (snd kv))) kvs) \<le> n \<longrightarrow>
      read_members n (members_text kvs @ ''}'' @ rest) = Some (kvs, rest))"
proof (induction n)
  case 0
  have "\<not> need j \<le> 0" for j by (cases j) auto
  moreover have "\<not> sum_list (map (\<lambda>x. Suc (need x)) xs) \<le> 0" if "xs \<noteq> []" for xs
    using that by (cases xs) simp_all
  moreover have "\<not> sum_list (map (\<lambda>kv. Suc (need (snd kv))) kvs) \<le> 0"
    if "kvs \<noteq> []" for kvs :: "(string \<times> json) list"
    using that by (cases kvs) simp_all
  ultimately show ?case by blast
next
  case (Suc n)
  show ?case
    by (intro conjI allI impI read_dumps_step read_elements_step read_members_step) (use Suc in blast)+
qed

lemma length_separated: "length (concat ss) \<le> length (separated ss)"
  by (induction ss rule: separated.induct) auto

lemma need_le: "need j \<le> 2 * length (dumps j)"
proof (induction j)
  case (JList xs)
  have "sum_list (map (\<lambda>x. Suc (need x)) xs) \<le> 2 * length (separated (map dumps xs)) + 2"
    using JList
  proof (induction xs rule: induct_list012)
    case (3 x y ys)
    then show ?case by fastforce
  qed fastforce+
  then show ?case by simp
next
  case (JObj kvs)
  let ?f = "\<lambda>(k, v). show_string k @ '': '' @ v"
  have "sum_list (map (\<lambda>kv. Suc (need (snd kv))) kvs) \<le> 2 * length (members_text kvs) + 2"
    using JObj
  proof (induction kvs rule: induct_list012)
    case (2 kv)
    then show ?case by (cases kv) (fastforce simp: members_text_simps)
  next
    case (3 kv kv' kvs)
    then show ?case by (cases kv) (fastforce simp: members_text_simps)
  qed simp
  then show ?case by (simp add: members_text_def)
next
  case (JNum q)
  then show ?case using show_num_head [of q] by auto
qed (simp_all add: show_string_def)

theorem loads_dumps:
  assumes "json_ok j"
  shows "loads (dumps j) = Some j"
proof -
  have "read_value (2 * length (dumps j) + 2) (dumps j @ []) = Some (j, [])"
    using read_dumps_all [of "2 * length (dumps j) + 2"] need_le [of j] assms
    by (meson le_add1 order_trans stops_def)
  then show ?thesis by (simp add: loads_def skip_ws_def del: read_value.simps)
qed

section \<open>One line of printable text\<close>

definition printable :: "char \<Rightarrow> bool" where
  "printable c \<longleftrightarrow> 32 \<le> (of_char c :: nat) \<and> (of_char c :: nat) \<le> 126"

lemma printable_digit: "is_digit c \<Longrightarrow> printable c"
  by (simp add: is_digit_def printable_def)

lemma printable_hex: "k < 16 \<Longrightarrow> printable (hex_char k)"
  by (auto simp: hex_char_def printable_def digit_char_nat)

lemma printable_escape: "list_all printable (escape_char c)"
proof -
  have "(of_char c :: nat) div 16 < 16"
    using of_char_less_256 [of c] by (intro less_mult_imp_div_less) simp
  then have "printable (hex_char (of_char c div 16))" "printable (hex_char (of_char c mod 16))"
    by (intro printable_hex; simp)+
  then show ?thesis by (simp add: escape_char_def Let_def) (simp add: printable_def)
qed

lemma printable_show_string: "list_all printable (show_string s)"
proof -
  have "list_all printable (concat (map escape_char s))"
    by (induction s) (simp_all add: printable_escape)
  then show ?thesis by (simp add: show_string_def printable_def)
qed

lemma printable_digits: "\<forall>c \<in> set ds. is_digit c \<Longrightarrow> list_all printable ds"
  by (auto simp: list_all_iff printable_digit)

lemma frac_digits_digits: "0 \<le> f \<Longrightarrow> f < 1 \<Longrightarrow> \<forall>c \<in> set (frac_digits k f). is_digit c"
proof (induction k arbitrary: f)
  case (Suc k)
  have "nat \<lfloor>f * 10\<rfloor> < 10" using Suc.prems by linarith
  then have "is_digit (digit_char (nat \<lfloor>f * 10\<rfloor>))" by (rule is_digit_digit_char)
  moreover have "0 \<le> f * 10 - of_int \<lfloor>f * 10\<rfloor>" "f * 10 - of_int \<lfloor>f * 10\<rfloor> < 1" by linarith+
  ultimately show ?case using Suc.IH [of "f * 10 - of_int \<lfloor>f * 10\<rfloor>"] by simp
qed simp

lemma printable_show_num: "list_all printable (show_num q)"
proof -
  have "0 \<le> \<bar>q\<bar> - of_int \<lfloor>\<bar>q\<bar>\<rfloor>" "\<bar>q\<bar> - of_int \<lfloor>\<bar>q\<bar>\<rfloor> < 1" by linarith+
  then have "list_all printable (frac_digits decimals (\<bar>q\<bar> - of_int \<lfloor>\<bar>q\<bar>\<rfloor>))"
    by (intro printable_digits frac_digits_digits)
  moreover have "list_all printable (string_of_nat (nat \<lfloor>\<bar>q\<bar>\<rfloor>))"
    by (intro printable_digits digits_string_of_nat)
  moreover have "printable (CHR ''-'')" "printable (CHR ''.'')" by (simp_all add: printable_def)
  ultimately show ?thesis by (simp add: show_num_def Let_def del: abs_if)
qed

lemma printable_separated: "list_all (list_all printable) ss \<Longrightarrow> list_all printable (separated ss)"
  by (induction ss rule: separated.induct) (auto simp: printable_def)

lemma printable_dumps: "list_all printable (dumps j)"
proof (induction j)
  case (JList xs)
  then have "list_all (list_all printable) (map dumps xs)" by (simp add: list_all_iff)
  then have "list_all printable (separated (map dumps xs))" by (rule printable_separated)
  moreover have "printable (CHR ''['')" "printable (CHR '']'')" by (simp_all add: printable_def)
  ultimately show ?case by simp
next
  case (JObj kvs)
  let ?fields = "map (\<lambda>(k, v). show_string k @ '': '' @ v) (map (map_prod id dumps) kvs)"
  have colon: "printable (CHR '':'')" "printable (CHR '' '')" "printable (CHR ''{'')" "printable (CHR ''}'')"
    by (simp_all add: printable_def)
  have "list_all printable (show_string k @ '': '' @ dumps v)" if "(k, v) \<in> set kvs" for k v
    using JObj that printable_show_string colon by (auto 4 3)
  then have "list_all (list_all printable) ?fields" by (auto simp: list_all_iff)
  then have "list_all printable (separated ?fields)" by (rule printable_separated)
  then show ?case using colon by simp
next
  case (JNum q)
  then show ?case by (simp add: printable_show_num)
next
  case (JStr s)
  then show ?case by (simp add: printable_show_string)
qed (simp_all add: printable_def)

end
