(* ===== verification/Agent_Events.thy ===== *)
theory Agent_Events
  imports Json_Text
begin

text \<open>
  What the agent loop streams and what it reads from a model:
  \<^verbatim>\<open>llm/agent_core/events.py\<close> (the typed events), \<^verbatim>\<open>provider.py\<close> (messages and
  stream chunks), \<^verbatim>\<open>provider_errors.py\<close> and \<^verbatim>\<open>graph/errors.py\<close> (the failures and the
  event that reports one).

  Field names carry a prefix of their class.  A payload \<^verbatim>\<open>Dict[str, Any]\<close> is an association
  list of JSON values, floats are exact rationals.
\<close>

section \<open>Values shared by the events\<close>

text \<open>\<^verbatim>\<open>s or None\<close> of an optional string.\<close>

definition nonempty :: "string option \<Rightarrow> string option" where
  "nonempty s = (case s of Some x \<Rightarrow> if x = [] then None else Some x | None \<Rightarrow> None)"


datatype finish_reason = FR_STOP | FR_TOOL_CALLS | FR_CANCELLED | FR_INVALID_TOOLS

fun finish_reason_value :: "finish_reason \<Rightarrow> string" where
  "finish_reason_value FR_STOP = ''stop''"
| "finish_reason_value FR_TOOL_CALLS = ''tool_calls''"
| "finish_reason_value FR_CANCELLED = ''cancelled''"
| "finish_reason_value FR_INVALID_TOOLS = ''invalid_tools''"

datatype error_code = NO_TOOL_SUPPORT | CONTEXT_TOO_LARGE | QUOTA_EXCEEDED | FEATURE_NOT_AVAILABLE

fun error_code_value :: "error_code \<Rightarrow> string" where
  "error_code_value NO_TOOL_SUPPORT = ''NO_TOOL_SUPPORT''"
| "error_code_value CONTEXT_TOO_LARGE = ''CONTEXT_TOO_LARGE''"
| "error_code_value QUOTA_EXCEEDED = ''QUOTA_EXCEEDED''"
| "error_code_value FEATURE_NOT_AVAILABLE = ''FEATURE_NOT_AVAILABLE''"

type_synonym json_dict = "(string \<times> json) list"

record tool_call =
  tc_id :: string
  tc_name :: string
  tc_arguments :: string
  tc_type :: string
  tc_display_name :: "string option"
  tc_server_icon_url :: "string option"
  tc_server_icon_invert :: "bool option"

definition plain_call :: "string \<Rightarrow> string \<Rightarrow> string \<Rightarrow> tool_call" where
  "plain_call i name args = \<lparr>tc_id = i, tc_name = name, tc_arguments = args, tc_type = ''function'',
     tc_display_name = None, tc_server_icon_url = None, tc_server_icon_invert = None\<rparr>"

lemma plain_call_fields [simp]:
  "tc_id (plain_call i name args) = i" "tc_name (plain_call i name args) = name"
  "tc_arguments (plain_call i name args) = args"
  by (simp_all add: plain_call_def)

record usage =
  u_prompt_tokens :: int
  u_completion_tokens :: int
  u_total_tokens :: int

record approval =
  ap_id :: string
  ap_tool_id :: string
  ap_tool_name :: string
  ap_tool_description :: string
  ap_server_name :: string
  ap_arguments :: json_dict
  ap_status :: string

section \<open>Events\<close>

record done_event =
  dn_model :: string
  dn_finish_reason :: finish_reason
  dn_usage :: usage
  dn_cost :: rat
  dn_prompt_cost :: "rat option"
  dn_completion_cost :: "rat option"
  dn_tool_cost :: "rat option"
  dn_tool_calls :: "tool_call list option"
  dn_awaiting_approval :: "bool option"
  dn_approval_count :: "int option"
  dn_generation_id :: "string option"
  dn_generation_ids :: "string list option"

record error_event =
  er_error :: string
  er_detail :: "string option"
  er_code :: "error_code option"
  er_extra :: "json_dict option"

record usage_event =
  ue_usage :: usage
  ue_cost :: rat
  ue_prompt_cost :: rat
  ue_completion_cost :: rat
  ue_generation_id :: string
  ue_generation_ids :: "string list"

datatype stream_event =
    GenerationIdEvent string
  | ContentEvent string
  | ReasoningEvent string
  | ImageEvent string
  | HeartbeatEvent "string option" "int option"
  | UsageUpdateEvent usage_event
  | WebSourcesEvent "(string \<times> string) list"
  | PreviewStartedEvent "int option" "string option" "int option"
  | ContextTrimmedEvent int int
  | ContextCompactedEvent int int int "int option" "int option" "rat option" "int option"
  | ToolCallRequestEvent "approval list" "tool_call list"
  | FileToolExecutingEvent "tool_call list"
  | FileToolExecutedEvent "tool_call list" "json_dict list"
  | CodingAgentStepEvent int string "string option" "string option" "string option"
  | CodingAgentQuestionEvent "string option" "json_dict list option"
  | CodingAgentCompletedEvent bool "string option" "string list" "string list" int int "json_dict list"
  | DoneEvent done_event
  | ErrorEvent error_event

fun stream_event_type :: "stream_event \<Rightarrow> string" where
  "stream_event_type (GenerationIdEvent _) = ''generation_id''"
| "stream_event_type (ContentEvent _) = ''content''"
| "stream_event_type (ReasoningEvent _) = ''reasoning''"
| "stream_event_type (ImageEvent _) = ''image''"
| "stream_event_type (HeartbeatEvent _ _) = ''heartbeat''"
| "stream_event_type (UsageUpdateEvent _) = ''usage_update''"
| "stream_event_type (WebSourcesEvent _) = ''web_sources''"
| "stream_event_type (PreviewStartedEvent _ _ _) = ''preview_started''"
| "stream_event_type (ContextTrimmedEvent _ _) = ''context_trimmed''"
| "stream_event_type (ContextCompactedEvent _ _ _ _ _ _ _) = ''context_compacted''"
| "stream_event_type (ToolCallRequestEvent _ _) = ''tool_call_request''"
| "stream_event_type (FileToolExecutingEvent _) = ''file_tool_executing''"
| "stream_event_type (FileToolExecutedEvent _ _) = ''file_tool_executed''"
| "stream_event_type (CodingAgentStepEvent _ _ _ _ _) = ''coding_agent_step''"
| "stream_event_type (CodingAgentQuestionEvent _ _) = ''coding_agent_question''"
| "stream_event_type (CodingAgentCompletedEvent _ _ _ _ _ _ _) = ''coding_agent_completed''"
| "stream_event_type (DoneEvent _) = ''done''"
| "stream_event_type (ErrorEvent _) = ''error''"

section \<open>The provider's messages and chunks\<close>

record provider_message =
  pm_role :: string
  pm_content :: "string option"
  pm_tool_calls :: "tool_call list option"
  pm_tool_call_id :: "string option"
  pm_name :: "string option"

text \<open>A tool as it is offered to the model, and the request for one completion.\<close>

record tool_offer =
  of_name :: string
  of_description :: string
  of_parameters :: json_dict
  of_type :: string

record chat_request =
  rq_model :: string
  rq_messages :: "provider_message list"
  rq_tools :: "tool_offer list option"
  rq_tool_choice :: "json option"
  rq_temperature :: "rat option"
  rq_max_tokens :: "int option"
  rq_extra :: "json_dict option"

record tool_call_delta =
  dl_index :: int
  dl_id :: "string option"
  dl_name :: "string option"
  dl_arguments :: "string option"

datatype provider_chunk =
    GenerationIdChunk string
  | ContentDeltaChunk string
  | ReasoningDeltaChunk string
  | ImageChunk string
  | ToolCallDeltaChunk tool_call_delta
  | UsageChunk usage "rat option" "rat option"
  | DoneChunk "string option"

section \<open>Failures of a provider\<close>

datatype provider_error_kind =
    AuthError | QuotaExceededError | RateLimitError | OverloadedError | InvalidRequestError
  | ResponseError | TransportError

record provider_error =
  pe_kind :: provider_error_kind
  pe_message :: string
  pe_status_code :: "int option"
  pe_retry_after :: "rat option"

definition map_status_to_error :: "int \<Rightarrow> string \<Rightarrow> rat option \<Rightarrow> provider_error" where
  "map_status_to_error code message retry_after =
     (let e = \<lambda>k. \<lparr>pe_kind = k, pe_message = message, pe_status_code = Some code, pe_retry_after = None\<rparr>
      in if code = 429 then (e RateLimitError)\<lparr>pe_retry_after := retry_after\<rparr>
         else if code \<in> {401, 403} then e AuthError
         else if code = 402 then e QuotaExceededError
         else if code = 400 then e InvalidRequestError
         else if code \<in> {500, 502, 503, 524, 529} then e OverloadedError
         else e ResponseError)"

text \<open>\<^verbatim>\<open>TRANSIENT_PROVIDER_ERRORS\<close>, the default of what may be retried.\<close>

definition transient :: "provider_error_kind \<Rightarrow> bool" where
  "transient k \<longleftrightarrow> k \<in> {RateLimitError, OverloadedError, TransportError}"

fun error_message :: "provider_error_kind \<Rightarrow> string" where
  "error_message AuthError = ''The AI provider rejected the configured credentials.''"
| "error_message QuotaExceededError = ''The account has run out of credits for this request.''"
| "error_message RateLimitError = ''The AI provider is rate-limiting this account. Please try again shortly.''"
| "error_message InvalidRequestError = ''The AI provider rejected the request as invalid.''"
| "error_message _ = ''The AI service is temporarily unavailable. Please try again.''"

definition to_error_event :: "provider_error \<Rightarrow> error_event" where
  "to_error_event e =
     \<lparr>er_error = error_message (pe_kind e),
      er_detail = (if pe_message e = [] then None else Some (pe_message e)),
      er_code = (if pe_kind e = QuotaExceededError then Some QUOTA_EXCEEDED else None),
      er_extra = map_option (\<lambda>c. [(''status_code'', JNum (of_int c))]) (pe_status_code e)\<rparr>"

section \<open>Events by what they mean to a reader\<close>

text \<open>The events that end a stream, and the ones that show output of the model.\<close>

fun terminal :: "stream_event \<Rightarrow> bool" where
  "terminal (DoneEvent _) = True"
| "terminal (ErrorEvent _) = True"
| "terminal _ = False"

fun visible :: "stream_event \<Rightarrow> bool" where
  "visible (ContentEvent _) = True"
| "visible (ReasoningEvent _) = True"
| "visible (ImageEvent _) = True"
| "visible _ = False"

end
