(* ===== verification/Tool_Accumulator.thy ===== *)
theory Tool_Accumulator
  imports Agent_Events
begin

text \<open>
  \<^verbatim>\<open>agent_core/tool_call_accumulator.py\<close>: the fragments of streamed tool calls, reassembled.
  The dictionary by index and the list of first-seen indices are the record
  \<open>accumulator\<close>; \<^verbatim>\<open>uuid.uuid4().hex\<close> is the argument \<open>hex\<close>, by the number of ids minted.
\<close>

section \<open>The accumulator\<close>

record pending_call =
  pd_id :: "string option"
  pd_name :: "string option"
  pd_arguments :: string

definition new_pending :: pending_call where
  "new_pending = \<lparr>pd_id = None, pd_name = None, pd_arguments = []\<rparr>"

record accumulator =
  ac_by_index :: "int \<Rightarrow> pending_call option"
  ac_order :: "int list"

definition empty_accumulator :: accumulator where
  "empty_accumulator = \<lparr>ac_by_index = (\<lambda>_. None), ac_order = []\<rparr>"

definition placeholder :: string where "placeholder = ''{}''"

definition merge_arguments :: "string \<Rightarrow> string \<Rightarrow> string" where
  "merge_arguments current incoming =
     (if current \<in> {[], placeholder} then incoming
      else if incoming = placeholder then current
      else current @ incoming)"

definition merge_delta :: "tool_call_delta \<Rightarrow> pending_call \<Rightarrow> pending_call" where
  "merge_delta d p = \<lparr>
     pd_id = (case dl_id d of None \<Rightarrow> pd_id p | Some i \<Rightarrow> Some i),
     pd_name = (case dl_name d of None \<Rightarrow> pd_name p | Some n \<Rightarrow> Some n),
     pd_arguments = (case dl_arguments d of None \<Rightarrow> pd_arguments p
                     | Some a \<Rightarrow> merge_arguments (pd_arguments p) a)\<rparr>"

definition absorb_delta :: "tool_call_delta \<Rightarrow> accumulator \<Rightarrow> accumulator" where
  "absorb_delta d acc =
     (let i = dl_index d;
          acc = (case ac_by_index acc i of
                   None \<Rightarrow> acc\<lparr>ac_by_index := (ac_by_index acc)(i \<mapsto> new_pending), ac_order := ac_order acc @ [i]\<rparr>
                 | Some _ \<Rightarrow> acc);
          p = the_default new_pending (ac_by_index acc i)
      in acc\<lparr>ac_by_index := (ac_by_index acc)(i \<mapsto> merge_delta d p)\<rparr>)"

definition synthesized_id :: "(nat \<Rightarrow> string) \<Rightarrow> nat \<Rightarrow> string" where
  "synthesized_id hex n = ''call_'' @ take 16 (hex n)"

text \<open>\<^verbatim>\<open>if not pending.id\<close>: an absent id and an empty one.\<close>

definition no_id :: "pending_call \<Rightarrow> bool" where
  "no_id p \<longleftrightarrow> \<not> truthy_str (pd_id p)"

definition complete_call :: "pending_call \<Rightarrow> tool_call" where
  "complete_call p = plain_call (the_default [] (pd_id p)) (the_default [] (pd_name p)) (pd_arguments p)"

text \<open>\<^verbatim>\<open>tool_calls\<close> keeps the ids it mints, so the updated accumulator and the count come back.\<close>

fun collect_calls :: "(nat \<Rightarrow> string) \<Rightarrow> nat \<Rightarrow> int list \<Rightarrow> (int \<Rightarrow> pending_call option)
    \<Rightarrow> tool_call list \<times> (int \<Rightarrow> pending_call option) \<times> nat" where
  "collect_calls hex n [] m = ([], m, n)"
| "collect_calls hex n (i # is) m =
     (let p = the_default new_pending (m i);
          (p, n) = (if no_id p then (p\<lparr>pd_id := Some (synthesized_id hex n)\<rparr>, Suc n) else (p, n));
          (cs, m, n) = collect_calls hex n is (m(i \<mapsto> p))
      in (complete_call p # cs, m, n))"

definition tool_calls :: "(nat \<Rightarrow> string) \<Rightarrow> nat \<Rightarrow> accumulator \<Rightarrow> tool_call list \<times> accumulator \<times> nat" where
  "tool_calls hex n acc =
     (let (cs, m, n) = collect_calls hex n (ac_order acc) (ac_by_index acc)
      in (cs, acc\<lparr>ac_by_index := m\<rparr>, n))"

definition accumulate :: "tool_call_delta list \<Rightarrow> accumulator" where
  "accumulate ds = fold absorb_delta ds empty_accumulator"

section \<open>Each call is made of its own fragments\<close>

definition of_index :: "int \<Rightarrow> tool_call_delta list \<Rightarrow> tool_call_delta list" where
  "of_index i ds = filter (\<lambda>d. dl_index d = i) ds"

text \<open>The indices in the order in which they are first seen.\<close>

definition first_seen :: "tool_call_delta list \<Rightarrow> int list" where
  "first_seen ds = rev (remdups (rev (map dl_index ds)))"

definition own_call :: "tool_call_delta list \<Rightarrow> pending_call" where
  "own_call ds = fold merge_delta ds new_pending"

lemma own_call_snoc: "own_call (ds @ [d]) = merge_delta d (own_call ds)"
  by (simp add: own_call_def)

lemma first_seen_snoc:
  "first_seen (ds @ [d]) = first_seen ds @ (if dl_index d \<in> dl_index ` set ds then [] else [dl_index d])"
  by (simp add: first_seen_def)

lemma set_first_seen [simp]: "set (first_seen ds) = dl_index ` set ds"
  by (simp add: first_seen_def)

lemma of_index_snoc: "of_index i (ds @ [d]) = of_index i ds @ (if dl_index d = i then [d] else [])"
  by (simp add: of_index_def)

lemma of_index_Nil_iff: "of_index i ds = [] \<longleftrightarrow> i \<notin> dl_index ` set ds"
  by (auto simp: of_index_def filter_empty_conv)

lemma accumulate_order: "ac_order (accumulate ds) = first_seen ds"
  and accumulate_index:
    "ac_by_index (accumulate ds) i
     = (if of_index i ds = [] then None else Some (own_call (of_index i ds)))"
proof -
  have "ac_order (accumulate ds) = first_seen ds \<and>
    (\<forall>i. ac_by_index (accumulate ds) i = (if of_index i ds = [] then None else Some (own_call (of_index i ds))))"
  proof (induction ds rule: rev_induct)
    case Nil
    then show ?case by (simp add: accumulate_def empty_accumulator_def of_index_def first_seen_def)
  next
    case (snoc d ds)
    have step: "accumulate (ds @ [d]) = absorb_delta d (accumulate ds)" by (simp add: accumulate_def)
    have new: "ac_by_index (accumulate ds) (dl_index d) = None \<longleftrightarrow> dl_index d \<notin> dl_index ` set ds"
      using snoc of_index_Nil_iff by simp
    have empty: "own_call [] = new_pending" by (simp add: own_call_def)
    show ?case
    proof (cases "ac_by_index (accumulate ds) (dl_index d)")
      case None
      with snoc have "of_index (dl_index d) ds = []" by (simp split: if_splits)
      with None new snoc show ?thesis
        by (simp add: step absorb_delta_def Let_def first_seen_snoc of_index_snoc empty own_call_snoc own_call_def)
    next
      case (Some p)
      with snoc have "of_index (dl_index d) ds \<noteq> []" "p = own_call (of_index (dl_index d) ds)"
        by (auto split: if_splits)
      with Some new snoc show ?thesis
        by (simp add: step absorb_delta_def Let_def first_seen_snoc of_index_snoc own_call_snoc)
    qed
  qed
  then show "ac_order (accumulate ds) = first_seen ds"
    and "ac_by_index (accumulate ds) i = (if of_index i ds = [] then None else Some (own_call (of_index i ds)))"
    by auto
qed

text \<open>The arguments of a call: its fragments, concatenated, when none of them is the placeholder.\<close>

lemma arguments_concat:
  assumes "\<forall>d \<in> set ds. dl_arguments d \<noteq> Some placeholder"
    and "\<forall>n. concat (List.map_filter dl_arguments (take n ds)) \<noteq> placeholder"
  shows "pd_arguments (own_call ds) = concat (List.map_filter dl_arguments ds)"
  using assms
proof (induction ds rule: rev_induct)
  case Nil
  then show ?case by (simp add: own_call_def new_pending_def map_filter_simps)
next
  case (snoc d ds)
  have pre: "\<forall>n. concat (List.map_filter dl_arguments (take n ds)) \<noteq> placeholder"
  proof
    fix n
    show "concat (List.map_filter dl_arguments (take n ds)) \<noteq> placeholder"
      using snoc.prems(2) [rule_format, of "min n (length ds)"] by (simp add: min_def split: if_splits)
  qed
  have mf: "List.map_filter dl_arguments (xs @ ys) = List.map_filter dl_arguments xs @ List.map_filter dl_arguments ys"
    for xs ys by (simp add: List.map_filter_def)
  have IH: "pd_arguments (own_call ds) = concat (List.map_filter dl_arguments ds)"
    using snoc.IH snoc.prems(1) pre by simp
  have "concat (List.map_filter dl_arguments ds) \<noteq> placeholder" using pre [rule_format, of "length ds"] by simp
  with IH snoc.prems(1) show ?case
    by (auto simp: own_call_snoc merge_delta_def merge_arguments_def mf map_filter_simps split: option.split)
qed

section \<open>The calls that come out\<close>

lemma distinct_first_seen: "distinct (first_seen ds)"
  by (simp add: first_seen_def)

definition named :: "(nat \<Rightarrow> string) \<Rightarrow> nat \<Rightarrow> pending_call \<Rightarrow> pending_call" where
  "named hex n p = (if no_id p then p\<lparr>pd_id := Some (synthesized_id hex n)\<rparr> else p)"

lemma not_no_id_named [simp]: "\<not> no_id (named hex n p)"
  by (simp add: named_def no_id_def synthesized_id_def)

lemma named_same [simp]: "\<not> no_id p \<Longrightarrow> named hex n p = p"
  by (simp add: named_def)

lemma named_fields [simp]: "pd_name (named hex n p) = pd_name p" "pd_arguments (named hex n p) = pd_arguments p"
  by (simp_all add: named_def)

lemma collect_calls_Cons:
  "collect_calls hex n (i # is) m =
     (let p = the_default new_pending (m i); q = named hex n p;
          r = collect_calls hex (if no_id p then Suc n else n) is (m(i \<mapsto> q))
      in (complete_call q # fst r, snd r))"
  by (simp add: named_def Let_def split: prod.split)

declare collect_calls.simps(2) [simp del]

lemma collect_calls_other: "i \<notin> set is \<Longrightarrow> fst (snd (collect_calls hex n is m)) i = m i"
proof (induction "is" arbitrary: n m)
  case (Cons j "is")
  then show ?case by (simp add: collect_calls_Cons Let_def del: fun_upd_apply) simp
qed simp

text \<open>Each call comes from the entry of its own index; the entry it leaves has an id.\<close>

lemma collect_calls_own:
  assumes "distinct is"
  shows "map (\<lambda>c. (tc_name c, tc_arguments c)) (fst (collect_calls hex n is m))
           = map (\<lambda>i. (the_default [] (pd_name (the_default new_pending (m i))),
                       pd_arguments (the_default new_pending (m i)))) is
         \<and> list_all (\<lambda>c. tc_id c \<noteq> []) (fst (collect_calls hex n is m))
         \<and> list_all (\<lambda>i. \<exists>p. fst (snd (collect_calls hex n is m)) i = Some p \<and> \<not> no_id p) is
         \<and> fst (collect_calls hex n is m) = map (\<lambda>i. complete_call (the (fst (snd (collect_calls hex n is m)) i))) is"
  using assms
proof (induction "is" arbitrary: n m)
  case (Cons i "is")
  let ?p = "the_default new_pending (m i)" and ?m = "m(i \<mapsto> named hex n (the_default new_pending (m i)))"
  let ?n = "if no_id ?p then Suc n else n"
  let ?r = "collect_calls hex ?n is ?m"
  have r: "collect_calls hex n (i # is) m = (complete_call (named hex n ?p) # fst ?r, snd ?r)"
    by (simp add: collect_calls_Cons Let_def)
  have i: "fst (snd ?r) i = Some (named hex n ?p)"
    using Cons.prems collect_calls_other [of i "is"] by simp
  have same: "map (\<lambda>j. (the_default [] (pd_name (the_default new_pending (?m j))),
                       pd_arguments (the_default new_pending (?m j)))) is
              = map (\<lambda>j. (the_default [] (pd_name (the_default new_pending (m j))),
                       pd_arguments (the_default new_pending (m j)))) is"
    using Cons.prems by auto
  have id: "tc_id (complete_call (named hex n ?p)) \<noteq> []"
    using not_no_id_named [of hex n ?p] by (auto simp: complete_call_def no_id_def truthy_str_def split: option.splits)
  have fields: "tc_name (complete_call (named hex n ?p)) = the_default [] (pd_name ?p)"
    "tc_arguments (complete_call (named hex n ?p)) = pd_arguments ?p"
    by (simp_all add: complete_call_def)
  from Cons.prems have "distinct is" by simp
  note IH = Cons.IH [OF this, of ?n ?m, unfolded same]
  note c1 = IH [THEN conjunct1] and c2 = IH [THEN conjunct2, THEN conjunct1]
    and c3 = IH [THEN conjunct2, THEN conjunct2, THEN conjunct1]
    and c4 = IH [THEN conjunct2, THEN conjunct2, THEN conjunct2]
  have has_id: "\<exists>p. fst (snd ?r) i = Some p \<and> \<not> no_id p" by (simp add: i)
  have head: "complete_call (named hex n ?p) = complete_call (the (fst (snd ?r) i))" by (simp add: i)
  show ?case
    unfolding r fst_conv snd_conv list.map list.pred_inject
    by (intro conjI arg_cong2 [where f = Cons] has_id head c2 c3 id c4 c1) (simp add: fields)
qed simp

lemma collect_calls_again:
  assumes "list_all (\<lambda>i. \<exists>p. m i = Some p \<and> \<not> no_id p) is"
  shows "collect_calls hex n is m = (map (\<lambda>i. complete_call (the (m i))) is, m, n)"
  using assms
proof (induction "is")
  case (Cons i "is")
  then obtain p where "m i = Some p" "\<not> no_id p" by auto
  moreover from this have "m(i \<mapsto> p) = m" by (simp add: fun_upd_idem)
  ultimately show ?case using Cons by (simp add: collect_calls_Cons)
qed simp


text \<open>A fragment that is exactly the placeholder is dropped even where it belongs to the arguments.\<close>

definition split_arguments :: "string list" where
  "split_arguments =
     [[CHR ''{'', CHR 0x22, CHR ''a'', CHR 0x22, CHR '':''], placeholder, [CHR ''}'']]"

lemma placeholder_fragment_lost:
  "pd_arguments (own_call (map (\<lambda>a. \<lparr>dl_index = 0, dl_id = None, dl_name = None, dl_arguments = Some a\<rparr>) split_arguments))
     = [CHR ''{'', CHR 0x22, CHR ''a'', CHR 0x22, CHR '':'', CHR ''}'']
   \<and> loads (concat split_arguments) = Some (JObj [(''a'', JObj [])])"
  by (simp add: own_call_def split_arguments_def placeholder_def new_pending_def merge_delta_def merge_arguments_def)
     code_simp

end
