(* ===== verification/Agent_Graph.thy ===== *)
theory Agent_Graph
  imports Tool_Accumulator "HOL-Library.Multiset"
begin

text \<open>
  The agent loop, \<^verbatim>\<open>llm/agent_core/graph/\<close> with the tool catalogue of
  \<^verbatim>\<open>agent_core/registry.py\<close>: the state of a turn, its five nodes, the routing between them,
  and the runner that starts a turn, pauses it for approval and resumes it.

  The ports a caller supplies are the fields of \<open>deps\<close>; a port that may answer differently each
  time is a function of the number of earlier calls.  \<open>turn_world\<close> collects what a run does outside its
  state: the requests sent to the model, the handlers run, the approvals opened and the events
  emitted, in order.  LangGraph is not code of the repository: what is used of it is that a node's
  returned keys replace those of the state, that the routing functions choose the next node, that a
  node calling \<^verbatim>\<open>interrupt\<close> stops the run with its state stored under the thread, and that a
  resumed run re-executes that node with the answers.  Calls of one round run concurrently in the
  code and in the order of the round here; keep-alives and progress reports are the events
  \<open>dp_progress\<close> gives for a call, waiting before a retry takes no time.
\<close>

section \<open>The catalogue of tools\<close>

datatype tool_approval = AUTO | REQUIRED

record tool_definition =
  td_id :: string
  td_name :: string
  td_server_name :: "string option"
  td_description :: string
  td_schema :: json_dict
  td_approval :: tool_approval

datatype registry_error = DuplicateTool string

fun make_registry :: "tool_definition list \<Rightarrow> tool_definition list \<Rightarrow> registry_error + tool_definition list" where
  "make_registry by_id [] = Inr by_id"
| "make_registry by_id (d # ds) =
     (if td_id d \<in> td_id ` set by_id then Inl (DuplicateTool (td_id d)) else make_registry (by_id @ [d]) ds)"

definition registry_get :: "tool_definition list \<Rightarrow> string \<Rightarrow> tool_definition option" where
  "registry_get reg i = find (\<lambda>d. td_id d = i) reg"

definition offer_of :: "tool_definition \<Rightarrow> tool_offer" where
  "offer_of d = \<lparr>of_name = td_id d, of_description = td_description d, of_parameters = td_schema d,
     of_type = ''function''\<rparr>"

section \<open>Configuration and ports\<close>

record retry_policy =
  rp_max_attempts :: nat
  rp_retryable :: "provider_error_kind \<Rightarrow> bool"

definition permits_another_attempt :: "retry_policy \<Rightarrow> nat \<Rightarrow> provider_error \<Rightarrow> bool" where
  "permits_another_attempt r attempt e \<longleftrightarrow> attempt < rp_max_attempts r \<and> rp_retryable r (pe_kind e)"

definition default_retry :: retry_policy where
  "default_retry = \<lparr>rp_max_attempts = 1, rp_retryable = transient\<rparr>"

record turn_config =
  cf_model :: string
  cf_max_iterations :: nat
  cf_temperature :: "rat option"
  cf_max_tokens :: "int option"
  cf_tool_choice :: "json option"
  cf_extra :: "json_dict option"
  cf_retry :: retry_policy

datatype approval_decision = APPROVED | DENIED

record tool_decision =
  dc_call :: string
  dc_decision :: approval_decision
  dc_reason :: "json option"

definition approved :: "tool_decision \<Rightarrow> bool" where
  "approved d \<longleftrightarrow> dc_decision d = APPROVED"

record breakdown =
  bd_total :: rat
  bd_prompt :: rat
  bd_completion :: rat

record deps =
  dp_config :: turn_config
  dp_registry :: "tool_definition list"
  dp_provider :: "nat \<Rightarrow> chat_request \<Rightarrow> provider_chunk list \<times> provider_error option"
  dp_handler :: "nat \<Rightarrow> string \<Rightarrow> json_dict \<Rightarrow> string + json_dict"
  dp_policy :: "(tool_definition \<Rightarrow> tool_call \<Rightarrow> tool_approval) option"
  dp_open :: "nat \<Rightarrow> (tool_call \<times> tool_definition) list \<Rightarrow> approval list"
  dp_relieve :: "nat \<Rightarrow> provider_message list \<Rightarrow> provider_message list \<times> stream_event list"
  dp_account :: "usage \<Rightarrow> rat option \<Rightarrow> breakdown"
  dp_derive :: "tool_call \<Rightarrow> json_dict \<Rightarrow> stream_event list"
  dp_progress :: "nat \<Rightarrow> tool_call \<Rightarrow> stream_event list"
  dp_json_error :: "string \<Rightarrow> string"
  dp_str :: "json \<Rightarrow> string"
  dp_hex :: "nat \<Rightarrow> string"

record turn_world =
  w_sent :: "chat_request list"
  w_ran :: "(tool_call \<times> json_dict) list"
  w_opened :: nat
  w_minted :: nat
  w_events :: "stream_event list"

definition emit :: "stream_event list \<Rightarrow> turn_world \<Rightarrow> turn_world" where
  "emit es w = w\<lparr>w_events := w_events w @ es\<rparr>"

text \<open>\<^verbatim>\<open>ProviderReportedCost\<close> and \<^verbatim>\<open>LocalApprovals\<close>, the ports a caller gets by default.\<close>

definition provider_reported_cost :: "usage \<Rightarrow> rat option \<Rightarrow> breakdown" where
  "provider_reported_cost u reported =
     \<lparr>bd_total = the_default 0 reported, bd_prompt = 0, bd_completion = 0\<rparr>"

definition decoded_arguments :: "tool_call \<Rightarrow> json_dict" where
  "decoded_arguments c =
     (case loads (str_or (tc_arguments c) ''{}'') of Some (JObj kvs) \<Rightarrow> kvs | _ \<Rightarrow> [])"

fun local_approvals :: "nat \<Rightarrow> (tool_call \<times> tool_definition) list \<Rightarrow> approval list" where
  "local_approvals n [] = []"
| "local_approvals n ((c, d) # rs) =
     \<lparr>ap_id = ''approval-'' @ string_of_nat (Suc n), ap_tool_id = td_id d, ap_tool_name = td_name d,
      ap_tool_description = td_description d, ap_server_name = the_default [] (td_server_name d),
      ap_arguments = decoded_arguments c, ap_status = ''pending''\<rparr> # local_approvals (Suc n) rs"

section \<open>The state of a turn\<close>

record accounting =
  ga_usage :: usage
  ga_cost :: rat
  ga_prompt_cost :: rat
  ga_completion_cost :: rat

definition empty_usage :: usage where
  "empty_usage = \<lparr>u_prompt_tokens = 0, u_completion_tokens = 0, u_total_tokens = 0\<rparr>"

definition no_accounting :: accounting where
  "no_accounting = \<lparr>ga_usage = empty_usage, ga_cost = 0, ga_prompt_cost = 0, ga_completion_cost = 0\<rparr>"

record approval_request =
  aq_approvals :: "approval list"
  aq_tool_calls :: "tool_call list"
  aq_round :: "tool_call list"

record turn_state =
  ts_messages :: "provider_message list"
  ts_iteration :: nat
  ts_pending :: "tool_call list"
  ts_round :: "tool_call list"
  ts_request :: "approval_request option"
  ts_decisions :: "tool_decision list"
  ts_generation_ids :: "string list"
  ts_accounting :: accounting
  ts_finish :: "string option"
  ts_error :: "error_event option"

definition initial_state :: "provider_message list \<Rightarrow> turn_state" where
  "initial_state ms = \<lparr>ts_messages = ms, ts_iteration = 0, ts_pending = [], ts_round = [],
     ts_request = None, ts_decisions = [], ts_generation_ids = [], ts_accounting = no_accounting,
     ts_finish = None, ts_error = None\<rparr>"

section \<open>The model node\<close>

record generation =
  gn_content :: "string list"
  gn_id :: "string option"
  gn_prior :: "string list"
  gn_accounting :: "accounting option"
  gn_calls :: accumulator
  gn_visible :: bool
  gn_finish :: "string option"

definition new_generation :: "string list \<Rightarrow> generation" where
  "new_generation prior = \<lparr>gn_content = [], gn_id = None, gn_prior = prior, gn_accounting = None,
     gn_calls = empty_accumulator, gn_visible = False, gn_finish = None\<rparr>"

definition known_generation_ids :: "generation \<Rightarrow> string list" where
  "known_generation_ids g =
     (case gn_id g of None \<Rightarrow> gn_prior g
      | Some i \<Rightarrow> if i \<in> set (gn_prior g) then gn_prior g else gn_prior g @ [i])"

definition account_chunk :: "deps \<Rightarrow> usage \<Rightarrow> rat option \<Rightarrow> accounting" where
  "account_chunk D u cost =
     (let b = dp_account D u cost
      in \<lparr>ga_usage = u, ga_cost = bd_total b, ga_prompt_cost = bd_prompt b, ga_completion_cost = bd_completion b\<rparr>)"

definition usage_event_of :: "generation \<Rightarrow> stream_event" where
  "usage_event_of g =
     (let a = the_default no_accounting (gn_accounting g)
      in UsageUpdateEvent \<lparr>ue_usage = ga_usage a, ue_cost = ga_cost a, ue_prompt_cost = ga_prompt_cost a,
           ue_completion_cost = ga_completion_cost a, ue_generation_id = the_default [] (gn_id g),
           ue_generation_ids = known_generation_ids g\<rparr>)"

fun absorb_chunk :: "deps \<Rightarrow> provider_chunk \<Rightarrow> generation \<Rightarrow> generation \<times> stream_event list" where
  "absorb_chunk D (GenerationIdChunk i) g = (g\<lparr>gn_id := Some i\<rparr>, [GenerationIdEvent i])"
| "absorb_chunk D (ContentDeltaChunk c) g =
     (g\<lparr>gn_content := gn_content g @ [c], gn_visible := True\<rparr>, [ContentEvent c])"
| "absorb_chunk D (ReasoningDeltaChunk c) g = (g\<lparr>gn_visible := True\<rparr>, [ReasoningEvent c])"
| "absorb_chunk D (ImageChunk i) g = (g\<lparr>gn_visible := True\<rparr>, [ImageEvent i])"
| "absorb_chunk D (ToolCallDeltaChunk d) g = (g\<lparr>gn_calls := absorb_delta d (gn_calls g)\<rparr>, [])"
| "absorb_chunk D (UsageChunk u cost up) g =
     (let g' = g\<lparr>gn_accounting := Some (account_chunk D u cost)\<rparr> in (g', [usage_event_of g']))"
| "absorb_chunk D (DoneChunk r) g = (g\<lparr>gn_finish := r\<rparr>, [])"

fun absorb_chunks :: "deps \<Rightarrow> provider_chunk list \<Rightarrow> generation \<Rightarrow> generation \<times> stream_event list" where
  "absorb_chunks D [] g = (g, [])"
| "absorb_chunks D (c # cs) g =
     (let (g1, es1) = absorb_chunk D c g; (g2, es2) = absorb_chunks D cs g1 in (g2, es1 @ es2))"

definition sending :: "chat_request \<Rightarrow> turn_world \<Rightarrow> turn_world" where
  "sending r w = w\<lparr>w_sent := w_sent w @ [r]\<rparr>"

text \<open>One attempt: the request is sent, and its chunks are streamed up to a failure.\<close>

definition attempt_once :: "deps \<Rightarrow> chat_request \<Rightarrow> string list \<Rightarrow> turn_world
    \<Rightarrow> generation \<times> provider_error option \<times> turn_world" where
  "attempt_once D r prior w =
     (let (cs, failure) = dp_provider D (length (w_sent w)) r;
          (g, es) = absorb_chunks D cs (new_generation prior)
      in (g, failure, emit es (sending r w)))"

function stream_generation :: "deps \<Rightarrow> chat_request \<Rightarrow> string list \<Rightarrow> nat \<Rightarrow> turn_world
    \<Rightarrow> generation \<times> error_event option \<times> turn_world" where
  "stream_generation D r prior attempt w =
     (let attempt = Suc attempt;
          (g, failure, w) = attempt_once D r prior w
      in case failure of
           None \<Rightarrow> (g, None, w)
         | Some e \<Rightarrow>
             if gn_visible g \<or> \<not> permits_another_attempt (cf_retry (dp_config D)) attempt e
             then let ev = to_error_event e in (g, Some ev, emit [ErrorEvent ev] w)
             else stream_generation D r prior attempt w)"
  by pat_completeness auto
termination
  by (relation "measure (\<lambda>(D, r, prior, attempt, w). rp_max_attempts (cf_retry (dp_config D)) - attempt)")
     (auto simp: permits_another_attempt_def)

declare stream_generation.simps [simp del]

definition build_request :: "deps \<Rightarrow> provider_message list \<Rightarrow> chat_request" where
  "build_request D ms =
     (let cf = dp_config D; offers = map offer_of (dp_registry D)
      in \<lparr>rq_model = cf_model cf, rq_messages = ms,
          rq_tools = (if offers = [] then None else Some offers), rq_tool_choice = cf_tool_choice cf,
          rq_temperature = cf_temperature cf, rq_max_tokens = cf_max_tokens cf, rq_extra = cf_extra cf\<rparr>)"

definition assistant_message :: "string list \<Rightarrow> tool_call list \<Rightarrow> provider_message" where
  "assistant_message content calls =
     \<lparr>pm_role = ''assistant'', pm_content = nonempty (Some (concat content)),
      pm_tool_calls = (if calls = [] then None else Some calls), pm_tool_call_id = None, pm_name = None\<rparr>"

definition model_node :: "deps \<Rightarrow> turn_state \<Rightarrow> turn_world \<Rightarrow> turn_state \<times> turn_world" where
  "model_node D st w =
     (let (messages, relief) = dp_relieve D (length (w_sent w)) (ts_messages st);
          w = emit relief w;
          (g, error, w) = stream_generation D (build_request D messages) (ts_generation_ids st) 0 w
      in case error of
           Some e \<Rightarrow> (st\<lparr>ts_messages := messages, ts_generation_ids := known_generation_ids g,
                          ts_error := Some e\<rparr>, w)
         | None \<Rightarrow>
             let (calls, _, minted) = tool_calls (dp_hex D) (w_minted w) (gn_calls g)
             in (st\<lparr>ts_messages := messages @ [assistant_message (gn_content g) calls],
                    ts_iteration := ts_iteration st + 1,
                    ts_pending := calls, ts_round := calls,
                    ts_generation_ids := known_generation_ids g,
                    ts_accounting := the_default (ts_accounting st) (gn_accounting g),
                    ts_finish := gn_finish g\<rparr>, w\<lparr>w_minted := minted\<rparr>))"

section \<open>The approval nodes\<close>

definition approval_for :: "deps \<Rightarrow> tool_call \<Rightarrow> tool_definition \<Rightarrow> tool_approval" where
  "approval_for D c d = (case dp_policy D of Some policy \<Rightarrow> policy d c | None \<Rightarrow> td_approval d)"

definition gate_of :: "deps \<Rightarrow> tool_call \<Rightarrow> (tool_call \<times> tool_definition) option" where
  "gate_of D c =
     (case registry_get (dp_registry D) (tc_name c) of
        None \<Rightarrow> None
      | Some d \<Rightarrow> if approval_for D c d = REQUIRED then Some (c, d) else None)"

definition gated_calls :: "deps \<Rightarrow> tool_call list \<Rightarrow> (tool_call \<times> tool_definition) list" where
  "gated_calls D calls = List.map_filter (gate_of D) calls"

definition partition_by_gate :: "deps \<Rightarrow> tool_call list \<Rightarrow> tool_decision list \<Rightarrow> tool_call list \<times> tool_call list" where
  "partition_by_gate D calls decisions =
     (let answered = dc_call ` set decisions;
          still_gated = (\<lambda>(c, _). tc_id c) ` set (gated_calls D calls) - answered
      in (filter (\<lambda>c. tc_id c \<notin> still_gated) calls, filter (\<lambda>c. tc_id c \<in> still_gated) calls))"

definition approval_request_node :: "deps \<Rightarrow> turn_state \<Rightarrow> turn_world \<Rightarrow> turn_state \<times> turn_world" where
  "approval_request_node D st w =
     (let requests = gated_calls D (ts_pending st);
          approvals = dp_open D (w_opened w) requests
      in (st\<lparr>ts_request := Some \<lparr>aq_approvals = approvals, aq_tool_calls = map fst requests,
                                  aq_round = ts_round st\<rparr>\<rparr>,
          w\<lparr>w_opened := w_opened w + length requests\<rparr>))"

text \<open>An answer is a decision, or the mapping it arrives as on a JSON transport.\<close>

datatype answer = Decision tool_decision | Mapping json_dict | OtherAnswer

datatype answers = AllAnswered bool | NoAnswers | SingleAnswer answer | ManyAnswers "answer list"

datatype loop_error = TurnNotPaused string | BadDecision string | BadAnswer

definition dict_get :: "json_dict \<Rightarrow> string \<Rightarrow> json \<Rightarrow> json" where
  "dict_get kvs k d = the_default d (map_of kvs k)"

definition py_str :: "deps \<Rightarrow> json \<Rightarrow> string" where
  "py_str D j = (case j of JStr s \<Rightarrow> s | _ \<Rightarrow> dp_str D j)"

definition as_decision :: "deps \<Rightarrow> answer \<Rightarrow> loop_error + tool_decision" where
  "as_decision D a = (case a of
      Decision d \<Rightarrow> Inr d
    | Mapping kvs \<Rightarrow>
        (let i = py_str D (dict_get kvs ''tool_call_id'' (JStr []));
             answer = dict_get kvs ''decision'' (JStr ''denied'');
             made = (\<lambda>v. Inr \<lparr>dc_call = i, dc_decision = v, dc_reason = map_of kvs ''reason''\<rparr>)
         in if answer = JStr ''approved'' then made APPROVED
            else if answer = JStr ''denied'' then made DENIED
            else Inl (BadDecision (py_str D answer)))
    | OtherAnswer \<Rightarrow> Inl BadAnswer)"

fun as_sequence :: "answers \<Rightarrow> answer list" where
  "as_sequence NoAnswers = []"
| "as_sequence (ManyAnswers xs) = xs"
| "as_sequence (SingleAnswer x) = [x]"
| "as_sequence (AllAnswered b) = []"

fun read_answers :: "deps \<Rightarrow> answer list \<Rightarrow> loop_error + tool_decision list" where
  "read_answers D [] = Inr []"
| "read_answers D (a # as) =
     (case as_decision D a of
        Inl e \<Rightarrow> Inl e
      | Inr d \<Rightarrow> (case read_answers D as of Inl e \<Rightarrow> Inl e | Inr ds \<Rightarrow> Inr (d # ds)))"

definition decide :: "approval_decision \<Rightarrow> tool_call \<Rightarrow> tool_decision" where
  "decide v c = \<lparr>dc_call = tc_id c, dc_decision = v, dc_reason = None\<rparr>"

text \<open>The last answer for a call counts, as in a dictionary built from the answers.\<close>

definition answer_for :: "tool_decision list \<Rightarrow> tool_call \<Rightarrow> tool_decision" where
  "answer_for ds c = the_default (decide DENIED c) (find (\<lambda>d. dc_call d = tc_id c) (rev ds))"

definition normalized :: "deps \<Rightarrow> answers \<Rightarrow> approval_request \<Rightarrow> loop_error + tool_decision list" where
  "normalized D answers request = (case answers of
      AllAnswered b \<Rightarrow> Inr (map (decide (if b then APPROVED else DENIED)) (aq_tool_calls request))
    | _ \<Rightarrow> (case read_answers D (as_sequence answers) of
              Inl e \<Rightarrow> Inl e
            | Inr ds \<Rightarrow> Inr (map (answer_for ds) (aq_tool_calls request))))"

section \<open>The tool node\<close>

record tool_outcome =
  oc_call :: tool_call
  oc_result :: json_dict
  oc_success :: bool

definition failure :: "tool_call \<Rightarrow> string \<Rightarrow> tool_outcome" where
  "failure c error = \<lparr>oc_call = c,
     oc_result = [(''success'', JBool False), (''error'', JStr error)], oc_success = False\<rparr>"

definition outcome_message :: "tool_outcome \<Rightarrow> provider_message" where
  "outcome_message x = \<lparr>pm_role = ''tool'', pm_content = Some (dumps (JObj (oc_result x))),
     pm_tool_calls = None, pm_tool_call_id = Some (tc_id (oc_call x)), pm_name = Some (tc_name (oc_call x))\<rparr>"

text \<open>\<^verbatim>\<open>dataclasses.asdict\<close> keeps the fields that are \<^verbatim>\<open>None\<close>.\<close>

definition call_dict :: "tool_call \<Rightarrow> json" where
  "call_dict c = JObj
     [(''id'', JStr (tc_id c)),
      (''function'', JObj [(''name'', JStr (tc_name c)), (''arguments'', JStr (tc_arguments c))]),
      (''type'', JStr (tc_type c)),
      (''display_name'', the_default JNull (map_option JStr (tc_display_name c))),
      (''server_icon_url'', the_default JNull (map_option JStr (tc_server_icon_url c))),
      (''server_icon_invert'', the_default JNull (map_option JBool (tc_server_icon_invert c)))]"

definition result_entry :: "tool_outcome \<Rightarrow> json_dict" where
  "result_entry x = [(''tool_call'', call_dict (oc_call x)), (''result'', JObj (oc_result x)),
     (''success'', JBool (oc_success x))]"

definition decode_arguments :: "deps \<Rightarrow> tool_call \<Rightarrow> string + json_dict" where
  "decode_arguments D c =
     (let raw = str_or (tc_arguments c) ''{}''
      in case loads raw of
           None \<Rightarrow> Inl (''The tool arguments were not valid JSON: '' @ dp_json_error D raw)
         | Some (JObj kvs) \<Rightarrow> Inr kvs
         | Some _ \<Rightarrow> Inl ''The tool arguments must be a JSON object.'')"

definition invoke :: "deps \<Rightarrow> nat \<Rightarrow> tool_call \<Rightarrow> tool_definition \<Rightarrow> json_dict \<Rightarrow> tool_outcome" where
  "invoke D n c d args = (case dp_handler D n (td_id d) args of
      Inl reason \<Rightarrow> failure c (''The tool failed: '' @ reason)
    | Inr result \<Rightarrow> \<lparr>oc_call = c, oc_result = result,
        oc_success = truthy (dict_get result ''success'' (JBool True))\<rparr>)"

definition run_one :: "deps \<Rightarrow> string set \<Rightarrow> tool_call \<Rightarrow> turn_world \<Rightarrow> tool_outcome \<times> turn_world" where
  "run_one D denied c w =
     (case registry_get (dp_registry D) (tc_name c) of
        None \<Rightarrow> (failure c (''No tool named '' @ tc_name c @ '' is available.''), w)
      | Some d \<Rightarrow>
          if tc_id c \<in> denied then (failure c ''The user declined to run this tool.'', w)
          else (case decode_arguments D c of
             Inl error \<Rightarrow> (failure c error, w)
           | Inr args \<Rightarrow>
               (let n = length (w_ran w)
                in (invoke D n c d args,
                    emit (dp_progress D n c) (w\<lparr>w_ran := w_ran w @ [(c, args)]\<rparr>)))))"

fun run_calls :: "deps \<Rightarrow> string set \<Rightarrow> tool_call list \<Rightarrow> turn_world \<Rightarrow> tool_outcome list \<times> turn_world" where
  "run_calls D denied [] w = ([], w)"
| "run_calls D denied (c # cs) w =
     (let (x, w1) = run_one D denied c w; (xs, w2) = run_calls D denied cs w1 in (x # xs, w2))"

definition denied_ids :: "tool_decision list \<Rightarrow> string set" where
  "denied_ids ds = dc_call ` set (filter (\<lambda>d. \<not> approved d) ds)"

definition tool_node :: "deps \<Rightarrow> turn_state \<Rightarrow> turn_world \<Rightarrow> turn_state \<times> turn_world" where
  "tool_node D st w =
     (let (calls, deferred) = partition_by_gate D (ts_pending st) (ts_decisions st)
      in if calls = [] then (st\<lparr>ts_pending := deferred, ts_decisions := []\<rparr>, w)
         else let w = emit [FileToolExecutingEvent calls] w;
                  (outcomes, w) = run_calls D (denied_ids (ts_decisions st)) calls w;
                  w = emit [FileToolExecutedEvent calls (map result_entry outcomes)] w;
                  w = emit (concat (map (\<lambda>x. dp_derive D (oc_call x) (oc_result x)) outcomes)) w
              in (st\<lparr>ts_messages := ts_messages st @ map outcome_message outcomes,
                     ts_pending := deferred, ts_decisions := []\<rparr>, w))"

section \<open>Closing a turn\<close>

definition provider_finish_reason :: "string \<Rightarrow> finish_reason" where
  "provider_finish_reason raw =
     (if raw \<in> {''tool_calls'', ''function_call''} then FR_TOOL_CALLS else FR_STOP)"

definition finish_reason_for :: "turn_state \<Rightarrow> finish_reason" where
  "finish_reason_for st =
     (if ts_pending st \<noteq> [] then FR_TOOL_CALLS
      else case ts_finish st of None \<Rightarrow> FR_STOP | Some raw \<Rightarrow> provider_finish_reason raw)"

definition last_opt :: "'a list \<Rightarrow> 'a option" where
  "last_opt xs = (if xs = [] then None else Some (last xs))"

definition list_or_none :: "'a list \<Rightarrow> 'a list option" where
  "list_or_none xs = (if xs = [] then None else Some xs)"

definition done_of :: "deps \<Rightarrow> turn_state \<Rightarrow> done_event" where
  "done_of D st =
     (let a = ts_accounting st
      in \<lparr>dn_model = cf_model (dp_config D), dn_finish_reason = finish_reason_for st,
          dn_usage = ga_usage a, dn_cost = ga_cost a, dn_prompt_cost = Some (ga_prompt_cost a),
          dn_completion_cost = Some (ga_completion_cost a), dn_tool_cost = None,
          dn_tool_calls = list_or_none (ts_pending st), dn_awaiting_approval = None,
          dn_approval_count = None, dn_generation_id = last_opt (ts_generation_ids st),
          dn_generation_ids = list_or_none (ts_generation_ids st)\<rparr>)"

definition finalize_node :: "deps \<Rightarrow> turn_state \<Rightarrow> turn_world \<Rightarrow> turn_state \<times> turn_world" where
  "finalize_node D st w = (st, emit [DoneEvent (done_of D st)] w)"

section \<open>Routing\<close>

datatype node = MODEL | APPROVAL_REQUEST | APPROVAL_GATE | TOOLS | FINALIZE | END

definition route_after_model :: "deps \<Rightarrow> turn_state \<Rightarrow> node" where
  "route_after_model D st =
     (if ts_error st \<noteq> None then END
      else if ts_pending st = [] then FINALIZE
      else if cf_max_iterations (dp_config D) \<le> ts_iteration st then FINALIZE
      else if fst (partition_by_gate D (ts_pending st) (ts_decisions st)) \<noteq> [] then TOOLS
      else APPROVAL_REQUEST)"

definition route_after_tools :: "turn_state \<Rightarrow> node" where
  "route_after_tools st = (if ts_pending st \<noteq> [] then APPROVAL_REQUEST else MODEL)"

text \<open>One superstep.  The gate with a request stored interrupts, so it is not run here.\<close>

fun step :: "deps \<Rightarrow> node \<Rightarrow> turn_state \<Rightarrow> turn_world \<Rightarrow> node \<times> turn_state \<times> turn_world" where
  "step D MODEL st w = (let (st, w) = model_node D st w in (route_after_model D st, st, w))"
| "step D APPROVAL_REQUEST st w = (let (st, w) = approval_request_node D st w in (APPROVAL_GATE, st, w))"
| "step D APPROVAL_GATE st w = (TOOLS, st\<lparr>ts_decisions := []\<rparr>, w)"
| "step D TOOLS st w = (let (st, w) = tool_node D st w in (route_after_tools st, st, w))"
| "step D FINALIZE st w = (let (st, w) = finalize_node D st w in (END, st, w))"
| "step D END st w = (END, st, w)"

definition halted :: "node \<Rightarrow> turn_state \<Rightarrow> bool" where
  "halted n st \<longleftrightarrow> n = END \<or> n = APPROVAL_GATE \<and> ts_request st \<noteq> None"

text \<open>The graph, run to the point where it stops; \<open>None\<close> only when the fuel is short.\<close>

fun drive :: "nat \<Rightarrow> deps \<Rightarrow> node \<Rightarrow> turn_state \<Rightarrow> turn_world \<Rightarrow> (node \<times> turn_state \<times> turn_world) option" where
  "drive fuel D n st w =
     (if halted n st then Some (n, st, w)
      else case fuel of 0 \<Rightarrow> None
           | Suc k \<Rightarrow> (case step D n st w of (n', st', w') \<Rightarrow> drive k D n' st' w'))"

declare drive.simps [simp del]

section \<open>The runner\<close>

definition pause_events :: "deps \<Rightarrow> turn_state \<Rightarrow> approval_request \<Rightarrow> stream_event list" where
  "pause_events D st q =
     (let a = ts_accounting st
      in [ToolCallRequestEvent (aq_approvals q) (aq_tool_calls q),
          DoneEvent \<lparr>dn_model = cf_model (dp_config D), dn_finish_reason = FR_TOOL_CALLS,
            dn_usage = ga_usage a, dn_cost = ga_cost a, dn_prompt_cost = Some (ga_prompt_cost a),
            dn_completion_cost = Some (ga_completion_cost a), dn_tool_cost = None,
            dn_tool_calls = Some (if aq_round q = [] then aq_tool_calls q else aq_round q),
            dn_awaiting_approval = Some True, dn_approval_count = Some (int (length (aq_approvals q))),
            dn_generation_id = last_opt (ts_generation_ids st),
            dn_generation_ids = list_or_none (ts_generation_ids st)\<rparr>])"

text \<open>A thread holds the state its last run stopped in.\<close>

record agent_loop =
  lp_threads :: "string \<Rightarrow> (node \<times> turn_state) option"
  lp_world :: turn_world

definition paused_state :: "agent_loop \<Rightarrow> string \<Rightarrow> (turn_state \<times> approval_request) option" where
  "paused_state L thread = (case lp_threads L thread of
      Some (APPROVAL_GATE, st) \<Rightarrow> map_option (Pair st) (ts_request st)
    | _ \<Rightarrow> None)"

text \<open>The runner's part of one run: the graph's events, then the pair announcing a pause.\<close>

definition run_from :: "nat \<Rightarrow> deps \<Rightarrow> string \<Rightarrow> node \<Rightarrow> turn_state \<Rightarrow> agent_loop
    \<Rightarrow> (agent_loop \<times> stream_event list) option" where
  "run_from fuel D thread n st L =
     (case drive fuel D n st ((lp_world L)\<lparr>w_events := []\<rparr>) of
        None \<Rightarrow> None
      | Some (n', st', w') \<Rightarrow>
          let pause = (if n' = APPROVAL_GATE
                       then case ts_request st' of Some q \<Rightarrow> pause_events D st' q | None \<Rightarrow> [] else [])
          in Some (L\<lparr>lp_threads := (lp_threads L)(thread \<mapsto> (n', st')), lp_world := w'\<rparr>,
                   w_events w' @ pause))"

definition start :: "nat \<Rightarrow> deps \<Rightarrow> provider_message list \<Rightarrow> string \<Rightarrow> agent_loop
    \<Rightarrow> (agent_loop \<times> stream_event list) option" where
  "start fuel D ms thread L = run_from fuel D thread MODEL (initial_state ms) L"

definition resume :: "nat \<Rightarrow> deps \<Rightarrow> answer list \<Rightarrow> string \<Rightarrow> agent_loop
    \<Rightarrow> loop_error + (agent_loop \<times> stream_event list) option" where
  "resume fuel D answers thread L =
     (case paused_state L thread of
        None \<Rightarrow> Inl (TurnNotPaused thread)
      | Some (st, q) \<Rightarrow>
          (case normalized D (ManyAnswers answers) q of
             Inl e \<Rightarrow> Inl e
           | Inr ds \<Rightarrow> Inr (run_from fuel D thread TOOLS
                              (st\<lparr>ts_request := None, ts_decisions := ds\<rparr>) L)))"

end
