(* ===== verification/Agent_Ledger.thy ===== *)
theory Agent_Ledger
  imports Billing_Service Agent_Graph
begin

text \<open>
  What a chat turn is billed: \<^verbatim>\<open>llm/agent/cost_ledger.py\<close>, \<^verbatim>\<open>agent_service/accounting.py\<close>,
  \<^verbatim>\<open>settlement.py\<close>, \<^verbatim>\<open>cost_accounting.py\<close>, \<^verbatim>\<open>quota_precheck.py\<close> and \<^verbatim>\<open>policy.py\<close>.
  The usage row itself is written by \<^verbatim>\<open>record_usage\<close> of \<open>Billing_Service\<close>, on its state.

  Costs are exact rationals where the code has floats.  \<^verbatim>\<open>resolve_with_origin\<close> (the key
  resolver) is the argument \<open>origin_of\<close>, \<open>None\<close> where it raises.
\<close>

section \<open>Which tool costs a turn may bill\<close>

definition IMAGE_GEN_TOOL_NAMES :: "string list" where
  "IMAGE_GEN_TOOL_NAMES = [''generate_image'', ''edit_image'']"

definition CODING_AGENT_TOOL_NAMES :: "string list" where
  "CODING_AGENT_TOOL_NAMES = [''coding_agent'', ''plan_implementation'', ''implement_plan'', ''edit_plan'']"

text \<open>A cost that is a number; a Python bool is one.\<close>

fun numeric :: "json \<Rightarrow> rat option" where
  "numeric (JNum q) = Some q"
| "numeric (JBool b) = Some (if b then 1 else 0)"
| "numeric _ = None"

definition result_tool_name :: "json_dict \<Rightarrow> string" where
  "result_tool_name tr =
     the_default [] (jstr (jget (jget (dict_get tr ''tool_call'' (JObj [])) ''function'') ''name''))"

text \<open>What one entry adds to the tool cost; nothing for the entries the loop skips.\<close>

definition billable_cost :: "json_dict \<Rightarrow> usd" where
  "billable_cost tr = (case dict_get tr ''result'' (JObj []) of
      JObj result \<Rightarrow>
        if \<not> ''cost_usd'' \<in> fst ` set result then 0
        else if result_tool_name tr \<in> set CODING_AGENT_TOOL_NAMES then 0
        else if truthy (dict_get result ''provider'' JNull)
                \<and> dict_get result ''provider'' JNull \<noteq> JStr ''openrouter'' then 0
        else (case numeric (dict_get result ''cost_usd'' (JNum 0)) of
                Some c \<Rightarrow> if 0 < c then c else 0 | None \<Rightarrow> 0)
    | _ \<Rightarrow> 0)"

fun extract_billable_tool_costs :: "json_dict list \<Rightarrow> usd \<times> usd" where
  "extract_billable_tool_costs [] = (0, 0)"
| "extract_billable_tool_costs (tr # trs) =
     (let (tool_cost, image_cost) = extract_billable_tool_costs trs
      in (billable_cost tr + tool_cost,
          if result_tool_name tr \<in> set IMAGE_GEN_TOOL_NAMES then billable_cost tr + image_cost else image_cost))"

section \<open>The figures of a turn\<close>

record turn_accounting =
  tu_prompt_tokens :: int
  tu_completion_tokens :: int
  tu_total_tokens :: int
  tu_cost :: usd
  tu_prompt_cost :: usd
  tu_completion_cost :: usd
  tu_tool_cost :: usd
  tu_image_cost :: usd
  tu_generation_ids :: "string list"
  tu_settled :: bool

definition new_accounting :: turn_accounting where
  "new_accounting = \<lparr>tu_prompt_tokens = 0, tu_completion_tokens = 0, tu_total_tokens = 0, tu_cost = 0,
     tu_prompt_cost = 0, tu_completion_cost = 0, tu_tool_cost = 0, tu_image_cost = 0,
     tu_generation_ids = [], tu_settled = False\<rparr>"

definition record_generation_id :: "string \<Rightarrow> turn_accounting \<Rightarrow> turn_accounting" where
  "record_generation_id i a =
     (if i \<in> set (tu_generation_ids a) then a else a\<lparr>tu_generation_ids := tu_generation_ids a @ [i]\<rparr>)"

definition record_generation_cost :: "usage \<Rightarrow> usd \<Rightarrow> usd \<Rightarrow> usd \<Rightarrow> turn_accounting \<Rightarrow> turn_accounting" where
  "record_generation_cost u cost prompt_cost completion_cost a = a\<lparr>
     tu_prompt_tokens := tu_prompt_tokens a + u_prompt_tokens u,
     tu_completion_tokens := tu_completion_tokens a + u_completion_tokens u,
     tu_total_tokens := tu_total_tokens a + u_total_tokens u,
     tu_cost := tu_cost a + cost,
     tu_prompt_cost := tu_prompt_cost a + prompt_cost,
     tu_completion_cost := tu_completion_cost a + completion_cost\<rparr>"

definition record_tool_results :: "json_dict list \<Rightarrow> turn_accounting \<Rightarrow> turn_accounting" where
  "record_tool_results results a =
     (case extract_billable_tool_costs results of (of_tools, of_images) \<Rightarrow>
        a\<lparr>tu_tool_cost := tu_tool_cost a + of_tools, tu_image_cost := tu_image_cost a + of_images\<rparr>)"

definition reported_cost :: "turn_accounting \<Rightarrow> usd" where
  "reported_cost a = tu_cost a + tu_tool_cost a"

section \<open>Prices\<close>

definition per_token :: "usd option \<Rightarrow> usd" where
  "per_token price = the_default 0 price / PRICE_STORAGE_UNIT"

text \<open>\<^verbatim>\<open>CatalogPriceCostAccountant\<close>: the prices are read once, before the turn.\<close>

record price_accountant =
  pa_prompt :: usd
  pa_completion :: usd

definition accountant_for_model :: "catalog \<Rightarrow> string \<Rightarrow> Quota_Service.world \<Rightarrow> price_accountant \<times> Quota_Service.world" where
  "accountant_for_model catalog model_id w = (case get_model_pricing catalog model_id w of
      (Inl _, w') \<Rightarrow> (\<lparr>pa_prompt = per_token None, pa_completion = per_token None\<rparr>, w')
    | (Inr (p, c), w') \<Rightarrow> (\<lparr>pa_prompt = per_token p, pa_completion = per_token c\<rparr>, w'))"

definition account_usage :: "price_accountant \<Rightarrow> usage \<Rightarrow> rat option \<Rightarrow> breakdown" where
  "account_usage pa u reported =
     (let prompt = pa_prompt pa * of_int (u_prompt_tokens u);
          completion = pa_completion pa * of_int (u_completion_tokens u)
      in \<lparr>bd_total = prompt + completion, bd_prompt = prompt, bd_completion = completion\<rparr>)"

section \<open>The ledger\<close>

definition calculate_costs ::
  "catalog \<Rightarrow> string \<Rightarrow> int \<Rightarrow> int \<Rightarrow> usd \<Rightarrow> Quota_Service.world \<Rightarrow> (usd \<times> usd \<times> usd) \<times> Quota_Service.world" where
  "calculate_costs catalog model_id prompt_tokens completion_tokens tool_cost w =
     (case get_model_pricing catalog model_id w of
        (Inl _, w') \<Rightarrow> ((0, 0, tool_cost), w')
      | (Inr (p, c), w') \<Rightarrow>
          let prompt_cost = of_int prompt_tokens * per_token p;
              completion_cost = of_int completion_tokens * per_token c
          in ((prompt_cost, completion_cost, prompt_cost + completion_cost + tool_cost), w'))"

definition resolve_billing_origin :: "(uid \<Rightarrow> string \<Rightarrow> string option) \<Rightarrow> uid \<Rightarrow> string \<Rightarrow> Quota_Service.world \<Rightarrow> string" where
  "resolve_billing_origin origin_of u model_id w =
     (if u = [] then BILLING_ORIGIN_PLATFORM
      else if \<not> list_ex (\<lambda>a. user_id a = u) (users (db w)) then BILLING_ORIGIN_PLATFORM
      else the_default BILLING_ORIGIN_PLATFORM (origin_of u model_id))"

definition chat_operation :: "string \<Rightarrow> usd \<Rightarrow> int \<Rightarrow> int \<Rightarrow> Quota_Service.world \<Rightarrow> billable_operation" where
  "chat_operation model_id cost prompt_tokens completion_tokens w =
     \<lparr>op_service = OPENROUTER, op_feature = CHAT, op_model_id = model_id, op_prompt_tokens = prompt_tokens,
      op_completion_tokens = completion_tokens, op_character_count = 0, op_audio_seconds = 0,
      op_request_count = 0, op_cost_usd = cost, op_request_id = [], op_session_id = [], op_extra_data = [],
      op_timestamp = clock w, op_billing_origin = ''platform''\<rparr>"

text \<open>
  \<^verbatim>\<open>record_chat_aggregate_usage\<close>: the amount billed, \<^verbatim>\<open>final_usage_recorded\<close>, and the state.
  A user that does not exist, and anything \<^verbatim>\<open>record_usage\<close> raises, is logged and bills nothing.
\<close>

definition record_chat_aggregate_usage ::
  "(usd \<Rightarrow> usd option) \<Rightarrow> catalog \<Rightarrow> (uid \<Rightarrow> string \<Rightarrow> string option) \<Rightarrow> uid \<Rightarrow> string
   \<Rightarrow> int \<Rightarrow> int \<Rightarrow> usd \<Rightarrow> usd \<Rightarrow> retry_state \<Rightarrow> usd \<times> bool \<times> retry_state" where
  "record_chat_aggregate_usage q catalog origin_of u model_id prompt_tokens completion_tokens tool_cost image_cost st =
     (let billable_tool_cost = max (tool_cost - image_cost) 0
      in case calculate_costs catalog model_id prompt_tokens completion_tokens billable_tool_cost (base st) of
           ((_, _, total_cost), w) \<Rightarrow>
             let st = st\<lparr>base := w\<rparr>
             in if u = [] \<or> total_cost \<le> 0 then (0, False, st)
                else if \<not> list_ex (\<lambda>a. user_id a = u) (users (db w)) then (0, False, st)
                else (case record_usage q catalog u (chat_operation model_id total_cost prompt_tokens completion_tokens w)
                             (Some (resolve_billing_origin origin_of u model_id w)) st of
                        (Inl _, _, st') \<Rightarrow> (0, False, st')
                      | (Inr _, _, st') \<Rightarrow> (total_cost, True, st')))"

definition settle_turn ::
  "(usd \<Rightarrow> usd option) \<Rightarrow> catalog \<Rightarrow> (uid \<Rightarrow> string \<Rightarrow> string option) \<Rightarrow> uid \<Rightarrow> string
   \<Rightarrow> turn_accounting \<Rightarrow> retry_state \<Rightarrow> turn_accounting \<times> retry_state" where
  "settle_turn q catalog origin_of u model_id a st =
     (case record_chat_aggregate_usage q catalog origin_of u model_id (tu_prompt_tokens a)
             (tu_completion_tokens a) (tu_tool_cost a) (tu_image_cost a) st of
        (_, written, st') \<Rightarrow> (a\<lparr>tu_settled := written\<rparr>, st'))"

section \<open>The quota gate\<close>

definition DEFAULT_ESTIMATED_COST_USD :: usd where "DEFAULT_ESTIMATED_COST_USD = 1 / 100"

definition chat_estimate :: "catalog \<Rightarrow> string \<Rightarrow> string list \<Rightarrow> Quota_Service.world \<Rightarrow> usd \<times> Quota_Service.world" where
  "chat_estimate catalog model_id contents w =
     (let total_chars = int (sum_list (map length contents));
          estimated_tokens = max 1000 (total_chars div 4)
      in case estimate_cost_detailed catalog model_id estimated_tokens (estimated_tokens div 2) w of
           (Inl _, w') \<Rightarrow> (DEFAULT_ESTIMATED_COST_USD, w')
         | (Inr (_, _, total_cost), w') \<Rightarrow> (total_cost, w'))"

text \<open>The denial, if any; whatever else goes wrong lets the turn start.\<close>

definition precheck_chat_quota ::
  "catalog \<Rightarrow> uid \<Rightarrow> string \<Rightarrow> string list \<Rightarrow> Quota_Service.world \<Rightarrow> exn option \<times> Quota_Service.world" where
  "precheck_chat_quota catalog u model_id contents w =
     (if \<not> list_ex (\<lambda>a. user_id a = u) (users (db w)) then (None, w)
      else case chat_estimate catalog model_id contents w of
        (estimated, w1) \<Rightarrow>
          (case billing_check_quota u OPENROUTER estimated None (Some ''chat'') 1 w1 of
             (Inl (QuotaExceeded i), w2) \<Rightarrow> (Some (QuotaExceeded i), w2)
           | (Inl (FeatureNotAvailable f p s), w2) \<Rightarrow> (Some (FeatureNotAvailable f p s), w2)
           | (_, w2) \<Rightarrow> (None, w2)))"

section \<open>Which calls stop for sign-off\<close>

definition run_every_call_except_mcp :: "tool_definition \<Rightarrow> tool_call \<Rightarrow> tool_approval" where
  "run_every_call_except_mcp d c = (if truthy_str (td_server_name d) then REQUIRED else AUTO)"

section \<open>What is billed is what no other row bills\<close>

lemma billable_cost_nonneg: "0 \<le> billable_cost tr"
  by (simp add: billable_cost_def split: json.split option.split)

definition image_entry :: "json_dict \<Rightarrow> bool" where
  "image_entry tr \<longleftrightarrow> result_tool_name tr \<in> set IMAGE_GEN_TOOL_NAMES"

lemma extract_billable_tool_costs_sums:
  "extract_billable_tool_costs trs
   = (sum_rows billable_cost (\<lambda>_. True) trs, sum_rows billable_cost image_entry trs)"
  by (induction trs) (auto simp: image_entry_def)

lemma sum_rows_split: "sum_rows f (\<lambda>_. True) xs = sum_rows f P xs + sum_rows f (\<lambda>x. \<not> P x) (xs :: 'a list)"
  for f :: "'a \<Rightarrow> rat"
  by (induction xs) auto

definition record_rounds :: "json_dict list list \<Rightarrow> turn_accounting \<Rightarrow> turn_accounting" where
  "record_rounds = fold record_tool_results"

lemma record_rounds_costs:
  "tu_tool_cost (record_rounds rounds a) = tu_tool_cost a + sum_rows billable_cost (\<lambda>_. True) (concat rounds)
   \<and> tu_image_cost (record_rounds rounds a) = tu_image_cost a + sum_rows billable_cost image_entry (concat rounds)"
  by (induction rounds arbitrary: a)
     (auto simp: record_rounds_def record_tool_results_def extract_billable_tool_costs_sums)

text \<open>The tokens of a turn at the catalogue's prices; nothing when it cannot be read.\<close>

definition tokens_price :: "catalog \<Rightarrow> string \<Rightarrow> int \<Rightarrow> int \<Rightarrow> Quota_Service.world \<Rightarrow> usd" where
  "tokens_price catalog m pt ct w = (case fst (get_model_pricing catalog m w) of
      Inl _ \<Rightarrow> 0 | Inr (p, c) \<Rightarrow> of_int pt * per_token p + of_int ct * per_token c)"

lemma calculate_costs_total:
  "snd (snd (fst (calculate_costs catalog m pt ct t w))) = tokens_price catalog m pt ct w + t"
  by (simp add: calculate_costs_def tokens_price_def Let_def split: prod.split sum.split)


text \<open>A priced model's free variant is billed at the price of the model.\<close>

lemma free_variant_priced_as_base:
  assumes "cache_get (clock w) (Catalog_Key (m @ '':free'')) (cache w) = None"
    and "CHR '':'' \<notin> set m" and "catalog m = Inr (Some (p, c))"
  shows "fst (get_model_pricing catalog (m @ '':free'') w) = Inr (p, c)"
proof -
  have "base_model_id (m @ '':free'') = m"
    using assms(2) by (induction m) (auto simp: base_model_id_def)
  with assms(1,3) show ?thesis by (simp add: get_model_pricing_def)
qed

end
