(* ===== verification/Sse_Wire.thy ===== *)
theory Sse_Wire
  imports Agent_Events
begin

text \<open>
  The two ends of the server-sent event stream: \<^verbatim>\<open>agent_core/sse.py\<close>, which renders an event
  as a frame, and \<^verbatim>\<open>agent_core/sse_parsing.py\<close> with the error handling of
  \<^verbatim>\<open>openrouter_provider.py\<close>, which read the frames of a model provider.

  Fields of a provider's chunk are read at the types the wire declares; a field that holds
  something else reads as absent.
\<close>

section \<open>Rendering an event\<close>

text \<open>\<^verbatim>\<open>_present\<close>: the fields that carry a value, in order.\<close>

definition present :: "(string \<times> json option) list \<Rightarrow> json_dict" where
  "present kvs = List.map_filter (\<lambda>(k, v). map_option (Pair k) v) kvs"

definition jint_opt :: "int option \<Rightarrow> json option" where
  "jint_opt = map_option (\<lambda>i. JNum (of_int i))"

definition usage_payload :: "usage \<Rightarrow> json" where
  "usage_payload u = JObj [(''prompt_tokens'', JNum (of_int (u_prompt_tokens u))),
     (''completion_tokens'', JNum (of_int (u_completion_tokens u))),
     (''total_tokens'', JNum (of_int (u_total_tokens u)))]"

definition tool_call_payload :: "tool_call \<Rightarrow> json_dict" where
  "tool_call_payload c = present
     [(''id'', Some (JStr (tc_id c))),
      (''type'', Some (JStr (tc_type c))),
      (''function'', Some (JObj [(''name'', JStr (tc_name c)), (''arguments'', JStr (tc_arguments c))])),
      (''display_name'', map_option JStr (tc_display_name c)),
      (''server_icon_url'', map_option JStr (tc_server_icon_url c)),
      (''server_icon_invert'', map_option JBool (tc_server_icon_invert c))]"

definition calls_json :: "tool_call list \<Rightarrow> json" where
  "calls_json cs = JList (map (\<lambda>c. JObj (tool_call_payload c)) cs)"

definition strings_json :: "string list \<Rightarrow> json" where
  "strings_json ss = JList (map JStr ss)"

definition dicts_json :: "json_dict list \<Rightarrow> json" where
  "dicts_json ds = JList (map JObj ds)"

definition approval_payload :: "approval \<Rightarrow> json" where
  "approval_payload a = JObj
     [(''id'', JStr (ap_id a)), (''tool_id'', JStr (ap_tool_id a)), (''tool_name'', JStr (ap_tool_name a)),
      (''tool_description'', JStr (ap_tool_description a)), (''server_name'', JStr (ap_server_name a)),
      (''arguments'', JObj (ap_arguments a)), (''status'', JStr (ap_status a))]"

definition done_payload :: "done_event \<Rightarrow> json_dict" where
  "done_payload e = present
     [(''model'', Some (JStr (dn_model e))),
      (''finish_reason'', Some (JStr (finish_reason_value (dn_finish_reason e)))),
      (''usage'', Some (usage_payload (dn_usage e))),
      (''cost'', Some (JNum (dn_cost e))),
      (''prompt_cost'', map_option JNum (dn_prompt_cost e)),
      (''completion_cost'', map_option JNum (dn_completion_cost e)),
      (''tool_calls'', map_option calls_json (dn_tool_calls e)),
      (''tool_cost'', map_option JNum (dn_tool_cost e)),
      (''awaiting_approval'', map_option JBool (dn_awaiting_approval e)),
      (''approval_count'', jint_opt (dn_approval_count e)),
      (''generation_id'', map_option JStr (dn_generation_id e)),
      (''generation_ids'', map_option strings_json (dn_generation_ids e))]"

text \<open>\<^verbatim>\<open>payload.update(extra)\<close>\<close>

definition dict_update :: "json_dict \<Rightarrow> json_dict \<Rightarrow> json_dict" where
  "dict_update d extra = fold (\<lambda>(k, v). dict_put k v) extra d"

definition error_payload :: "error_event \<Rightarrow> json_dict" where
  "error_payload e = dict_update
     (present [(''error'', Some (JStr (er_error e))), (''detail'', map_option JStr (er_detail e)),
               (''code'', map_option (\<lambda>c. JStr (error_code_value c)) (er_code e))])
     (the_default [] (er_extra e))"

fun event_payload :: "stream_event \<Rightarrow> json_dict" where
  "event_payload (GenerationIdEvent i) = [(''generation_id'', JStr i)]"
| "event_payload (ContentEvent c) = [(''content'', JStr c)]"
| "event_payload (ReasoningEvent c) = [(''content'', JStr c)]"
| "event_payload (ImageEvent i) = [(''image'', JStr i)]"
| "event_payload (HeartbeatEvent tool elapsed) =
     present [(''tool'', map_option JStr tool), (''elapsed_seconds'', jint_opt elapsed)]"
| "event_payload (UsageUpdateEvent e) =
     [(''usage'', usage_payload (ue_usage e)), (''cost'', JNum (ue_cost e)),
      (''prompt_cost'', JNum (ue_prompt_cost e)), (''completion_cost'', JNum (ue_completion_cost e)),
      (''generation_id'', JStr (ue_generation_id e)), (''generation_ids'', strings_json (ue_generation_ids e))]"
| "event_payload (WebSourcesEvent sources) =
     [(''sources'', JList (map (\<lambda>(url, title). JObj [(''url'', JStr url), (''title'', JStr title)]) sources))]"
| "event_payload (PreviewStartedEvent port command pid) =
     present [(''port'', jint_opt port), (''command'', map_option JStr command), (''pid'', jint_opt pid)]"
| "event_payload (ContextTrimmedEvent trimmed remaining) =
     [(''trimmed_count'', JNum (of_int trimmed)), (''remaining_messages'', JNum (of_int remaining))]"
| "event_payload (ContextCompactedEvent original compacted saved original_tokens compacted_tokens ratio duration) =
     present
       [(''original_messages'', jint_opt (Some original)), (''compacted_messages'', jint_opt (Some compacted)),
        (''tokens_saved'', jint_opt (Some saved)), (''original_tokens'', jint_opt original_tokens),
        (''compacted_tokens'', jint_opt compacted_tokens), (''compression_ratio'', map_option JNum ratio),
        (''duration_ms'', jint_opt duration)]"
| "event_payload (ToolCallRequestEvent approvals calls) =
     [(''approvals'', JList (map approval_payload approvals)), (''tool_calls'', calls_json calls)]"
| "event_payload (FileToolExecutingEvent calls) = [(''tool_calls'', calls_json calls)]"
| "event_payload (FileToolExecutedEvent calls results) =
     [(''tool_calls'', calls_json calls), (''results'', dicts_json results)]"
| "event_payload (CodingAgentStepEvent i t tool content timestamp) =
     present
       [(''step_index'', jint_opt (Some i)), (''type'', Some (JStr t)), (''tool'', map_option JStr tool),
        (''content'', map_option JStr content), (''timestamp'', map_option JStr timestamp)]"
| "event_payload (CodingAgentQuestionEvent question options) =
     present [(''question'', map_option JStr question), (''options'', map_option dicts_json options)]"
| "event_payload (CodingAgentCompletedEvent success summary modified created duration tokens steps) =
     [(''success'', JBool success), (''summary'', case summary of None \<Rightarrow> JNull | Some s \<Rightarrow> JStr s),
      (''files_modified'', strings_json modified), (''files_created'', strings_json created),
      (''duration_ms'', JNum (of_int duration)), (''total_tokens'', JNum (of_int tokens)),
      (''steps'', dicts_json steps)]"
| "event_payload (DoneEvent e) = done_payload e"
| "event_payload (ErrorEvent e) = error_payload e"

definition render_frame :: "string \<Rightarrow> json_dict \<Rightarrow> string" where
  "render_frame name payload =
     ''event: '' @ name @ [CHR 0x0A] @ ''data: '' @ dumps (JObj payload) @ [CHR 0x0A, CHR 0x0A]"

definition render_event :: "stream_event \<Rightarrow> string" where
  "render_event e = render_frame (stream_event_type e) (event_payload e)"

section \<open>Reading lines\<close>

text \<open>\<^verbatim>\<open>str.lstrip()\<close>, over the characters of the model.\<close>

definition py_space :: "char \<Rightarrow> bool" where
  "py_space c \<longleftrightarrow> (let n = (of_char c :: nat) in 9 \<le> n \<and> n \<le> 13 \<or> 28 \<le> n \<and> n \<le> 32 \<or> n = 133 \<or> n = 160)"

definition lstrip :: "string \<Rightarrow> string" where "lstrip = dropWhile py_space"

definition strip :: "string \<Rightarrow> string" where
  "strip s = rev (dropWhile py_space (rev (lstrip s)))"

definition sse_payload :: "string \<Rightarrow> string option" where
  "sse_payload line =
     (if line = [] \<or> take 1 line = '':'' then None
      else case strip_prefix ''data: '' line of
        Some p \<Rightarrow> Some p
      | None \<Rightarrow> (case strip_prefix ''data:'' line of Some p \<Rightarrow> Some (lstrip p) | None \<Rightarrow> None))"

definition iter_sse_payloads :: "string list \<Rightarrow> string list" where
  "iter_sse_payloads ls = List.map_filter sse_payload ls"

section \<open>Reading a provider's chunk\<close>

fun jelements :: "json \<Rightarrow> json list" where
  "jelements (JList xs) = xs"
| "jelements _ = []"

fun jnum :: "json \<Rightarrow> rat option" where
  "jnum (JNum q) = Some q"
| "jnum _ = None"

definition count_field :: "json \<Rightarrow> string \<Rightarrow> int" where
  "count_field u k = the_default 0 (jint (jget u k))"

definition parse_usage :: "json \<Rightarrow> provider_chunk" where
  "parse_usage u = UsageChunk
     \<lparr>u_prompt_tokens = count_field u ''prompt_tokens'',
      u_completion_tokens = count_field u ''completion_tokens'',
      u_total_tokens = count_field u ''total_tokens''\<rparr>
     (jnum (jget u ''cost'')) (jnum (jget (jget u ''cost_details'') ''upstream_inference_cost''))"

definition parse_tool_call_delta :: "json \<Rightarrow> provider_chunk" where
  "parse_tool_call_delta d = ToolCallDeltaChunk
     \<lparr>dl_index = count_field d ''index'', dl_id = jstr (jget d ''id''),
      dl_name = jstr (jget (jget d ''function'') ''name''),
      dl_arguments = jstr (jget (jget d ''function'') ''arguments'')\<rparr>"

definition reasoning_text :: "json \<Rightarrow> string option" where
  "reasoning_text d =
     (if jget d ''type'' = JStr ''reasoning.text'' then nonempty (jstr (jget d ''text''))
      else if jget d ''type'' = JStr ''reasoning.summary'' then nonempty (jstr (jget d ''summary''))
      else None)"

definition parse_reasoning :: "json \<Rightarrow> provider_chunk list" where
  "parse_reasoning delta =
     (if jelements (jget delta ''reasoning_details'') \<noteq> []
      then map ReasoningDeltaChunk (List.map_filter reasoning_text (jelements (jget delta ''reasoning_details'')))
      else case nonempty (jstr (jget delta ''reasoning'')) of Some r \<Rightarrow> [ReasoningDeltaChunk r] | None \<Rightarrow> [])"

definition image_url :: "json \<Rightarrow> string option" where
  "image_url i =
     (if is_dict i
      then (case nonempty (jstr (jget (jget i ''image_url'') ''url'')) of
              Some u \<Rightarrow> Some u | None \<Rightarrow> nonempty (jstr (jget i ''url'')))
      else nonempty (jstr i))"

definition parse_images :: "json \<Rightarrow> provider_chunk list" where
  "parse_images images = map ImageChunk (List.map_filter image_url (jelements images))"

definition parse_delta :: "json \<Rightarrow> provider_chunk list" where
  "parse_delta delta =
     (case nonempty (jstr (jget delta ''content'')) of Some c \<Rightarrow> [ContentDeltaChunk c] | None \<Rightarrow> []) @
     map parse_tool_call_delta (jelements (jget delta ''tool_calls'')) @
     parse_reasoning delta @ parse_images (jget delta ''images'')"

definition parse_choice :: "json \<Rightarrow> provider_chunk list" where
  "parse_choice choice = parse_delta (jget choice ''delta'') @
     (if jget choice ''finish_reason'' = JNull then [] else [DoneChunk (jstr (jget choice ''finish_reason''))])"

definition parse_stream_chunk :: "json \<Rightarrow> provider_chunk list" where
  "parse_stream_chunk raw =
     (case nonempty (jstr (jget raw ''id'')) of Some i \<Rightarrow> [GenerationIdChunk i] | None \<Rightarrow> []) @
     (if jget raw ''usage'' = JNull then [] else [parse_usage (jget raw ''usage'')]) @
     concat (map parse_choice (jelements (jget raw ''choices'')))"

definition extract_stream_error :: "json \<Rightarrow> json option" where
  "extract_stream_error raw = (if is_dict (jget raw ''error'') then Some (jget raw ''error'') else None)"

section \<open>The stream of one request\<close>

text \<open>\<^verbatim>\<open>int(code)\<close> of a string is read as an optional sign and digits.\<close>

definition int_of_string :: "string \<Rightarrow> int option" where
  "int_of_string s =
     (let t = strip s;
          (neg, ds) = (case t of c # cs \<Rightarrow> if c = CHR ''-'' then (True, cs) else if c = CHR ''+'' then (False, cs) else (False, t)
                       | [] \<Rightarrow> (False, t))
      in if ds = [] \<or> \<not> list_all is_digit ds then None
         else Some (if neg then - int (nat_of_digits ds) else int (nat_of_digits ds)))"

fun coerce_status_code :: "json \<Rightarrow> int option" where
  "coerce_status_code (JNum q) = (if q \<in> \<int> then Some \<lfloor>q\<rfloor> else None)"
| "coerce_status_code (JStr s) = int_of_string s"
| "coerce_status_code _ = None"

definition error_from_stream_payload :: "json \<Rightarrow> provider_error" where
  "error_from_stream_payload e =
     (let message = the_default ''The provider reported a mid-stream error.'' (nonempty (jstr (jget e ''message'')))
      in case coerce_status_code (jget e ''code'') of
           Some c \<Rightarrow> map_status_to_error c message None
         | None \<Rightarrow> \<lparr>pe_kind = ResponseError, pe_message = message, pe_status_code = None, pe_retry_after = None\<rparr>)"

definition is_generation_id :: "provider_chunk \<Rightarrow> bool" where
  "is_generation_id c = (case c of GenerationIdChunk _ \<Rightarrow> True | _ \<Rightarrow> False)"

text \<open>Chunks up to the first generation id keep it; later ones are dropped.\<close>

fun first_generation_id :: "bool \<Rightarrow> provider_chunk list \<Rightarrow> provider_chunk list" where
  "first_generation_id seen [] = []"
| "first_generation_id seen (c # cs) =
     (if is_generation_id c then (if seen then first_generation_id seen cs else c # first_generation_id True cs)
      else c # first_generation_id seen cs)"

text \<open>
  The body of \<^verbatim>\<open>stream_chat\<close> over the lines of a successful response: the chunks it yields
  and the failure it raises.  \<open>dropped\<close> is what the connection does after the last line.
\<close>

fun stream_lines :: "bool \<Rightarrow> provider_error option \<Rightarrow> string list \<Rightarrow> provider_chunk list \<times> provider_error option" where
  "stream_lines seen dropped [] = ([], dropped)"
| "stream_lines seen dropped (line # lines) =
     (case sse_payload line of
        None \<Rightarrow> stream_lines seen dropped lines
      | Some p \<Rightarrow>
          if strip p = ''[DONE]'' then ([], None)
          else (case loads p of
             None \<Rightarrow> stream_lines seen dropped lines
           | Some raw \<Rightarrow>
               (case extract_stream_error raw of
                  Some e \<Rightarrow> ([], Some (error_from_stream_payload e))
                | None \<Rightarrow>
                    let cs = parse_stream_chunk raw
                    in apfst ((@) (first_generation_id seen cs))
                         (stream_lines (seen \<or> list_ex is_generation_id cs) dropped lines))))"

section \<open>The request\<close>

definition serialize_call :: "tool_call \<Rightarrow> json" where
  "serialize_call c = JObj
     [(''id'', JStr (tc_id c)), (''type'', JStr (tc_type c)),
      (''function'', JObj [(''name'', JStr (tc_name c)), (''arguments'', JStr (tc_arguments c))])]"

definition serialize_message :: "provider_message \<Rightarrow> json" where
  "serialize_message m = JObj (present
     [(''role'', Some (JStr (pm_role m))),
      (''content'', map_option JStr (pm_content m)),
      (''tool_calls'', if the_default [] (pm_tool_calls m) = [] then None
                       else Some (JList (map serialize_call (the_default [] (pm_tool_calls m))))),
      (''tool_call_id'', map_option JStr (pm_tool_call_id m)),
      (''name'', map_option JStr (pm_name m))])"

definition serialize_tool :: "tool_offer \<Rightarrow> json" where
  "serialize_tool t = JObj
     [(''type'', JStr (of_type t)),
      (''function'', JObj [(''name'', JStr (of_name t)), (''description'', JStr (of_description t)),
                           (''parameters'', JObj (of_parameters t))])]"

definition build_payload :: "chat_request \<Rightarrow> json_dict" where
  "build_payload r = dict_update
     (present
       [(''model'', Some (JStr (rq_model r))),
        (''messages'', Some (JList (map serialize_message (rq_messages r)))),
        (''stream'', Some (JBool True)),
        (''tools'', if the_default [] (rq_tools r) = [] then None
                    else Some (JList (map serialize_tool (the_default [] (rq_tools r))))),
        (''tool_choice'', rq_tool_choice r),
        (''temperature'', map_option JNum (rq_temperature r)),
        (''max_tokens'', jint_opt (rq_max_tokens r))])
     (the_default [] (rq_extra r))"

section \<open>A refused request\<close>

text \<open>\<^verbatim>\<open>float(s)\<close> of a decimal numeral; the special values of a float are not read.\<close>

definition py_float :: "string \<Rightarrow> rat option" where
  "py_float s = (case read_num (strip s) of Some (q, r) \<Rightarrow> if r = [] then Some q else None | None \<Rightarrow> None)"

definition parse_retry_after :: "string option \<Rightarrow> rat option" where
  "parse_retry_after v = (case v of None \<Rightarrow> None | Some s \<Rightarrow> py_float s)"

definition extract_error_message :: "string \<Rightarrow> string option" where
  "extract_error_message body =
     (case loads body of
        None \<Rightarrow> None
      | Some parsed \<Rightarrow> if is_dict (jget parsed ''error'') then jstr (jget (jget parsed ''error'') ''message'') else None)"

definition error_from_response :: "int \<Rightarrow> string option \<Rightarrow> string \<Rightarrow> string \<Rightarrow> provider_error" where
  "error_from_response code retry_header reason body =
     map_status_to_error code
       (case nonempty (extract_error_message body) of
          Some m \<Rightarrow> m
        | None \<Rightarrow> if reason \<noteq> [] then reason else ''HTTP '' @ string_of_int code)
       (parse_retry_after retry_header)"

text \<open>
  \<^verbatim>\<open>stream_chat\<close>: a refused request raises before a chunk is read; \<open>body\<close> is the text of a
  refusal, \<open>lines\<close> what a stream delivers and \<open>dropped\<close> the transport failure after it, if any.
\<close>

record http_response =
  rs_status :: int
  rs_reason :: string
  rs_retry_after :: "string option"
  rs_body :: string
  rs_lines :: "string list"
  rs_dropped :: "string option"

definition transport_error :: "string \<Rightarrow> provider_error" where
  "transport_error message =
     \<lparr>pe_kind = TransportError, pe_message = message, pe_status_code = None, pe_retry_after = None\<rparr>"

definition stream_chat :: "http_response \<Rightarrow> provider_chunk list \<times> provider_error option" where
  "stream_chat r =
     (if 400 \<le> rs_status r
      then ([], Some (error_from_response (rs_status r) (rs_retry_after r) (rs_reason r) (rs_body r)))
      else stream_lines False (map_option transport_error (rs_dropped r)) (rs_lines r))"

section \<open>What the two ends agree on\<close>

text \<open>The lines of a body: the pieces between line feeds, a last piece only if it is not empty.\<close>

function split_lines :: "string \<Rightarrow> string list" where
  "split_lines s =
     (case dropWhile (\<lambda>c. c \<noteq> CHR 0x0A) s of
        [] \<Rightarrow> (if s = [] then [] else [s])
      | c # rest \<Rightarrow> takeWhile (\<lambda>c. c \<noteq> CHR 0x0A) s # split_lines rest)"
  by pat_completeness auto
termination
proof (relation "measure length")
  fix s :: string and c rest
  assume d: "dropWhile (\<lambda>c. c \<noteq> CHR 0x0A) s = c # rest"
  show "(rest, s) \<in> measure length"
    using length_dropWhile_le [of "\<lambda>c. c \<noteq> CHR 0x0A" s] d by simp
qed simp

declare split_lines.simps [simp del]

lemma split_lines_Nil [simp]: "split_lines [] = []"
  by (simp add: split_lines.simps)

lemma split_lines_line:
  assumes "CHR 0x0A \<notin> set l"
  shows "split_lines (l @ CHR 0x0A # rest) = l # split_lines rest"
proof -
  have "dropWhile (\<lambda>c. c \<noteq> CHR 0x0A) (l @ CHR 0x0A # rest) = CHR 0x0A # rest"
    and "takeWhile (\<lambda>c. c \<noteq> CHR 0x0A) (l @ CHR 0x0A # rest) = l"
    using assms by (induction l) auto
  then show ?thesis by (simp add: split_lines.simps [of "l @ CHR 0x0A # rest"])
qed

lemma dumps_one_line: "CHR 0x0A \<notin> set (dumps j)"
  using printable_dumps [of j] by (auto simp: list_all_iff printable_def)

lemma stream_event_type_one_line: "CHR 0x0A \<notin> set (stream_event_type e)"
  by (cases e) simp_all

lemma strip_prefix_append [simp]: "strip_prefix p (p @ s) = Some s"
  by (simp add: strip_prefix_def)

lemma sse_payload_event: "sse_payload (''event: '' @ s) = None"
  by (simp add: sse_payload_def strip_prefix_def)

lemma sse_payload_data: "sse_payload (''data: '' @ s) = Some s"
  using strip_prefix_append [of "''data: ''" s] by (simp add: sse_payload_def)

lemma iter_sse_payloads_simps:
  "iter_sse_payloads [] = []"
  "iter_sse_payloads (l # ls) = (case sse_payload l of None \<Rightarrow> iter_sse_payloads ls | Some p \<Rightarrow> p # iter_sse_payloads ls)"
  by (simp_all add: iter_sse_payloads_def map_filter_simps split: option.split)

lemma split_render_event:
  "split_lines (render_event e @ rest)
   = (''event: '' @ stream_event_type e) # (''data: '' @ dumps (JObj (event_payload e))) # [] # split_lines rest"
proof -
  let ?l1 = "''event: '' @ stream_event_type e" and ?l2 = "''data: '' @ dumps (JObj (event_payload e))"
  have l1: "CHR 0x0A \<notin> set ?l1" using stream_event_type_one_line by simp
  have l2: "CHR 0x0A \<notin> set ?l2" using dumps_one_line by (simp del: dumps.simps)
  have "render_event e @ rest = ?l1 @ CHR 0x0A # ?l2 @ CHR 0x0A # [] @ CHR 0x0A # rest"
    by (simp add: render_event_def render_frame_def del: dumps.simps)
  then show ?thesis
    using split_lines_line [OF l1] split_lines_line [OF l2] split_lines_line [of "[]" rest] by (simp del: dumps.simps)
qed

lemma sse_payload_Nil: "sse_payload [] = None"
  by (simp add: sse_payload_def)

lemma iter_render_event:
  "iter_sse_payloads (split_lines (render_event e @ rest))
   = dumps (JObj (event_payload e)) # iter_sse_payloads (split_lines rest)"
  by (simp only: split_render_event iter_sse_payloads_simps sse_payload_event sse_payload_data
        sse_payload_Nil option.case)



section \<open>What a caller sees of a provider's stream\<close>

text \<open>A stream ends at its marker: neither later lines nor a dropped connection change it.\<close>

lemma stream_lines_done:
  "stream_lines seen dropped (ls @ ''data: [DONE]'' # rest) = stream_lines seen None ls"
proof (induction ls arbitrary: seen)
  case Nil
  have "sse_payload ''data: [DONE]'' = Some ''[DONE]''" by (simp add: sse_payload_def strip_prefix_def)
  moreover have "strip ''[DONE]'' = ''[DONE]''" by (simp add: strip_def lstrip_def py_space_def)
  ultimately show ?case by simp
next
  case (Cons l ls)
  then show ?case by (auto simp: Let_def split: option.split)
qed

text \<open>At most one generation id is passed on, whatever the chunks repeat.\<close>

lemma first_generation_id_seen: "filter is_generation_id (first_generation_id True cs) = []"
  by (induction cs) auto

lemma first_generation_id_once: "length (filter is_generation_id (first_generation_id seen cs)) \<le> 1"
  by (induction cs) (auto simp: first_generation_id_seen)

lemma first_generation_id_none: "\<not> list_ex is_generation_id cs \<Longrightarrow> filter is_generation_id (first_generation_id seen cs) = []"
  by (induction cs) auto

lemma stream_lines_seen: "filter is_generation_id (fst (stream_lines True dropped ls)) = []"
  by (induction ls) (auto simp: Let_def first_generation_id_seen split: option.split)

lemma stream_lines_one_id: "length (filter is_generation_id (fst (stream_lines seen dropped ls))) \<le> 1"
proof (induction ls arbitrary: seen)
  case (Cons l ls)
  have one: "length (filter is_generation_id (first_generation_id seen cs @ fst (stream_lines (seen \<or> list_ex is_generation_id cs) dropped ls))) \<le> 1" for cs
    using Cons.IH [of seen] first_generation_id_once [of seen cs]
    by (cases "seen \<or> list_ex is_generation_id cs")
       (auto simp: stream_lines_seen first_generation_id_none first_generation_id_seen)
  show ?case
    using Cons.IH [of seen] one by (simp add: Let_def split: option.split)
qed simp

text \<open>A model's stream is read up to its end marker: what follows it, and a connection lost
  after it, change nothing; and of the generation ids repeated on its chunks one is passed on.\<close>

theorem stream_chat_marker:
  "stream_chat (r\<lparr>rs_lines := ls @ ''data: [DONE]'' # rest\<rparr>) = stream_chat (r\<lparr>rs_lines := ls, rs_dropped := None\<rparr>)
   \<and> length (filter is_generation_id (fst (stream_chat r))) \<le> 1"
  using stream_lines_one_id [of False "map_option transport_error (rs_dropped r)" "rs_lines r"]
  by (simp add: stream_chat_def stream_lines_done)

end
