(* ===== verification/Agent_Wire.thy ===== *)
theory Agent_Wire
  imports Agent_Ledger Sse_Wire
begin

text \<open>
  The two wires a turn's events are rendered onto: \<^verbatim>\<open>agent_service/v2_wire.py\<close> and
  \<^verbatim>\<open>v1_wire.py\<close>.  A frame is its event name and its payload; its text is
  \<open>render_frame\<close> of the two (\<open>Sse_Wire\<close>).
\<close>

type_synonym frame = "string \<times> json_dict"

definition event_frame :: "stream_event \<Rightarrow> frame" where
  "event_frame e = (stream_event_type e, event_payload e)"

section \<open>Shared shapes\<close>

definition strip_nulls :: "json_dict \<Rightarrow> json_dict" where
  "strip_nulls kvs = filter (\<lambda>(k, v). v \<noteq> JNull) kvs"

definition WIRE_TOOL_CALL_ORDER :: "string list" where
  "WIRE_TOOL_CALL_ORDER = [''id'', ''type'', ''function'']"

text \<open>\<^verbatim>\<open>{name: payload[name] for name in order if name in payload}\<close>\<close>

definition select :: "string list \<Rightarrow> json_dict \<Rightarrow> json_dict" where
  "select order kvs = List.map_filter (\<lambda>k. map_option (Pair k) (map_of kvs k)) order"

definition reordered :: "string list \<Rightarrow> json_dict \<Rightarrow> json_dict" where
  "reordered order kvs =
     dict_update (select order kvs) (filter (\<lambda>(k, v). k \<notin> fst ` set (select order kvs)) kvs)"

definition wire_shaped_result :: "json_dict \<Rightarrow> json_dict" where
  "wire_shaped_result entry = (case map_of entry ''tool_call'' of
      Some (JObj call) \<Rightarrow> dict_put ''tool_call'' (JObj (reordered WIRE_TOOL_CALL_ORDER (strip_nulls call))) entry
    | _ \<Rightarrow> entry)"

section \<open>The V2 wire\<close>

record v2_config =
  vc_display_names :: "(string \<times> string) list"
  vc_server_icons :: "(string \<times> json_dict) list"
  vc_file_tools :: bool

record v2_wire =
  vw_accounting :: turn_accounting
  vw_announced :: bool
  vw_held :: "frame option"

definition new_v2_wire :: v2_wire where
  "new_v2_wire = \<lparr>vw_accounting = new_accounting, vw_announced = False, vw_held = None\<rparr>"

definition PLACEHOLDER_TOOL_CALL :: json where
  "PLACEHOLDER_TOOL_CALL = JObj
     [(''function'', JObj [(''name'', JStr ''...''), (''arguments'', JStr ''{}'')]),
      (''id'', JStr ''loading''), (''type'', JStr ''function'')]"

definition totals :: "turn_accounting \<Rightarrow> json_dict" where
  "totals a =
     [(''usage'', JObj [(''prompt_tokens'', JNum (of_int (tu_prompt_tokens a))),
        (''completion_tokens'', JNum (of_int (tu_completion_tokens a))),
        (''total_tokens'', JNum (of_int (tu_total_tokens a)))]),
      (''cost'', JNum (reported_cost a)),
      (''prompt_cost'', JNum (tu_prompt_cost a)),
      (''completion_cost'', JNum (tu_completion_cost a))]"

definition named_call :: "v2_config \<Rightarrow> tool_call \<Rightarrow> json_dict" where
  "named_call cfg c =
     (let name = tc_name c;
          named_payload = dict_put ''display_name'' (JStr (get_default (vc_display_names cfg) name name)) (tool_call_payload c)
      in case map_of (vc_server_icons cfg) name of
           Some icon \<Rightarrow>
             if icon = [] then named_payload
             else dict_put ''server_icon_invert'' (JBool (truthy (dict_get icon ''invert'' (JBool False))))
                    (dict_put ''server_icon_url'' (dict_get icon ''url'' JNull) named_payload)
         | None \<Rightarrow> named_payload)"

definition named_calls :: "v2_config \<Rightarrow> tool_call list \<Rightarrow> json" where
  "named_calls cfg cs = JList (map (\<lambda>c. JObj (named_call cfg c)) cs)"

definition with_tool_cost :: "json_dict \<Rightarrow> usd \<Rightarrow> json_dict" where
  "with_tool_cost kvs tool_cost =
     (let rebuilt = fold (\<lambda>(k, v) d. let d = dict_put k v d
                            in if k = ''completion_cost'' then dict_put ''tool_cost'' (JNum tool_cost) d else d) kvs []
      in if ''tool_cost'' \<in> fst ` set rebuilt then rebuilt else dict_put ''tool_cost'' (JNum tool_cost) rebuilt)"

definition usage_update_frame :: "usage_event \<Rightarrow> turn_accounting \<Rightarrow> frame \<times> turn_accounting" where
  "usage_update_frame e a =
     (let a = record_generation_cost (ue_usage e) (ue_cost e) (ue_prompt_cost e) (ue_completion_cost e) a
      in ((''usage_update'', dict_update (event_payload (UsageUpdateEvent e)) (totals a)), a))"

definition done_frame :: "done_event \<Rightarrow> turn_accounting \<Rightarrow> frame" where
  "done_frame e a =
     (''done'', with_tool_cost (dict_update (event_payload (DoneEvent e)) (totals a)) (tu_tool_cost a))"

definition v2_error_frame :: "error_event \<Rightarrow> frame" where
  "v2_error_frame e = (''error'', dict_put ''error'' (JStr ''Stream error'') (event_payload (ErrorEvent e)))"

definition first_keepalives :: "tool_call list \<Rightarrow> frame list" where
  "first_keepalives cs =
     map (\<lambda>c. (''heartbeat'', [(''tool'', JStr (tc_name c)), (''elapsed_seconds'', JNum 0)])) cs"

definition flush :: "frame option \<Rightarrow> frame list" where
  "flush held = (case held of None \<Rightarrow> [] | Some f \<Rightarrow> [f])"

fun v2_preamble :: "v2_config \<Rightarrow> stream_event \<Rightarrow> v2_wire \<Rightarrow> frame list \<times> v2_wire" where
  "v2_preamble cfg (FileToolExecutingEvent cs) ws =
     (if vw_held ws = None \<or> vw_announced ws \<or> \<not> vc_file_tools cfg then ([], ws)
      else ([(''file_tool_executing'', [(''tool_calls'', JList [PLACEHOLDER_TOOL_CALL])])],
            ws\<lparr>vw_announced := True\<rparr>))"
| "v2_preamble cfg _ ws = ([], ws)"

fun v2_render :: "v2_config \<Rightarrow> stream_event \<Rightarrow> turn_accounting \<Rightarrow> frame list \<times> turn_accounting" where
  "v2_render cfg (GenerationIdEvent i) a = ([event_frame (GenerationIdEvent i)], record_generation_id i a)"
| "v2_render cfg (FileToolExecutingEvent cs) a =
     ((''file_tool_executing'', [(''tool_calls'', named_calls cfg cs)]) # first_keepalives cs, a)"
| "v2_render cfg (FileToolExecutedEvent cs results) a =
     ([(''file_tool_executed'', [(''tool_calls'', named_calls cfg cs),
         (''results'', JList (map (\<lambda>r. JObj (wire_shaped_result r)) results))])],
      record_tool_results results a)"
| "v2_render cfg (DoneEvent e) a = ([done_frame e a], a)"
| "v2_render cfg (ErrorEvent e) a = ([v2_error_frame e], a)"
| "v2_render cfg e a = ([event_frame e], a)"

text \<open>One turn of the loop in \<^verbatim>\<open>V2Wire.frames\<close>; what it holds at the end is flushed.\<close>

fun v2_event :: "v2_config \<Rightarrow> stream_event \<Rightarrow> v2_wire \<Rightarrow> frame list \<times> v2_wire" where
  "v2_event cfg (UsageUpdateEvent e) ws =
     (let (f, a) = usage_update_frame e (vw_accounting ws)
      in (flush (vw_held ws), ws\<lparr>vw_accounting := a, vw_held := Some f\<rparr>))"
| "v2_event cfg e ws =
     (let (pre, ws1) = v2_preamble cfg e ws;
          (fs, a) = v2_render cfg e (vw_accounting ws1)
      in (pre @ flush (vw_held ws1) @ fs, ws1\<lparr>vw_accounting := a, vw_held := None\<rparr>))"

section \<open>The V1 wire\<close>

text \<open>\<^verbatim>\<open>json.dumps(.., ensure_ascii=False)\<close>: only quotes, backslashes and control
  characters are escaped.\<close>

definition show_string_raw :: "string \<Rightarrow> string" where
  "show_string_raw s =
     CHR 0x22 # concat (map (\<lambda>c. if 127 \<le> (of_char c :: nat) then [c] else escape_char c) s) @ [CHR 0x22]"

fun dumps_raw :: "json \<Rightarrow> string" where
  "dumps_raw (JStr s) = show_string_raw s"
| "dumps_raw (JList xs) = CHR ''['' # separated (map dumps_raw xs) @ '']''"
| "dumps_raw (JObj kvs) =
     CHR ''{'' # separated (map (\<lambda>(k, v). show_string_raw k @ '': '' @ v) (map (map_prod id dumps_raw) kvs)) @ ''}''"
| "dumps_raw j = dumps j"

record v1_wire =
  v1_accounting :: turn_accounting
  v1_reasoning :: "string list"
  v1_images :: "string list"

definition new_v1_wire :: v1_wire where
  "new_v1_wire = \<lparr>v1_accounting = new_accounting, v1_reasoning = [], v1_images = []\<rparr>"

definition tool_role_message :: "json_dict \<Rightarrow> json" where
  "tool_role_message entry =
     (let call = dict_get entry ''tool_call'' JNull
      in JObj [(''role'', JStr ''tool''), (''tool_call_id'', jget call ''id''),
           (''name'', jget (jget call ''function'') ''name''),
           (''content'', JStr (dumps_raw (dict_get entry ''result'' JNull)))])"

definition wire_shaped_calls :: "tool_call list \<Rightarrow> json" where
  "wire_shaped_calls cs = JList (map (\<lambda>c. JObj (select WIRE_TOOL_CALL_ORDER (tool_call_payload c))) cs)"

definition v1_executed_frame :: "tool_call list \<Rightarrow> json_dict list \<Rightarrow> frame" where
  "v1_executed_frame cs results =
     (''file_tool_executed'', [(''tool_calls'', wire_shaped_calls cs),
        (''results'', JList (map tool_role_message results))])"

definition v1_done_payload :: "done_event \<Rightarrow> v1_wire \<Rightarrow> json_dict" where
  "v1_done_payload e ws =
     (let a = v1_accounting ws
      in present
        [(''model'', Some (JStr (dn_model e))),
         (''finish_reason'', Some (JStr (finish_reason_value (dn_finish_reason e)))),
         (''usage'', Some (usage_payload \<lparr>u_prompt_tokens = tu_prompt_tokens a,
            u_completion_tokens = tu_completion_tokens a, u_total_tokens = tu_total_tokens a\<rparr>)),
         (''cost'', Some (JNum (tu_cost a))),
         (''prompt_cost'', Some (JNum (tu_prompt_cost a))),
         (''completion_cost'', Some (JNum (tu_completion_cost a))),
         (''tool_calls'', map_option wire_shaped_calls (dn_tool_calls e)),
         (''awaiting_approval'', map_option JBool (dn_awaiting_approval e)),
         (''approval_count'', jint_opt (dn_approval_count e)),
         (''reasoning_content'', if v1_reasoning ws = [] then None else Some (JStr (concat (v1_reasoning ws)))),
         (''images'', if v1_images ws = [] then None else Some (strings_json (v1_images ws)))])"

definition v1_error_frame :: "error_event \<Rightarrow> frame" where
  "v1_error_frame e = (''error'', [(''error'', JStr (er_error e))])"

fun v1_event :: "stream_event \<Rightarrow> v1_wire \<Rightarrow> frame list \<times> v1_wire" where
  "v1_event (GenerationIdEvent i) ws =
     ([event_frame (GenerationIdEvent i)], ws\<lparr>v1_accounting := record_generation_id i (v1_accounting ws)\<rparr>)"
| "v1_event (ContentEvent c) ws = ([event_frame (ContentEvent c)], ws)"
| "v1_event (ReasoningEvent c) ws = ([], ws\<lparr>v1_reasoning := v1_reasoning ws @ [c]\<rparr>)"
| "v1_event (ImageEvent i) ws = ([], ws\<lparr>v1_images := v1_images ws @ [i]\<rparr>)"
| "v1_event (UsageUpdateEvent e) ws =
     ([], ws\<lparr>v1_accounting := record_generation_cost (ue_usage e) (quantize8 (ue_cost e))
            (quantize8 (ue_prompt_cost e)) (quantize8 (ue_completion_cost e)) (v1_accounting ws)\<rparr>)"
| "v1_event (FileToolExecutedEvent cs results) ws =
     ([v1_executed_frame cs results], ws\<lparr>v1_accounting := record_tool_results results (v1_accounting ws)\<rparr>)"
| "v1_event (ToolCallRequestEvent approvals cs) ws = ([event_frame (ToolCallRequestEvent approvals cs)], ws)"
| "v1_event (DoneEvent e) ws = ([(''done'', v1_done_payload e ws)], ws)"
| "v1_event (ErrorEvent e) ws = ([v1_error_frame e], ws)"
| "v1_event _ ws = ([], ws)"

section \<open>Both wires account for the same events\<close>

text \<open>The figures of a turn, read off its events alone; \<open>f\<close> is what a cost is rounded by.\<close>

fun account_event :: "(usd \<Rightarrow> usd) \<Rightarrow> stream_event \<Rightarrow> turn_accounting \<Rightarrow> turn_accounting" where
  "account_event f (GenerationIdEvent i) a = record_generation_id i a"
| "account_event f (UsageUpdateEvent e) a =
     record_generation_cost (ue_usage e) (f (ue_cost e)) (f (ue_prompt_cost e)) (f (ue_completion_cost e)) a"
| "account_event f (FileToolExecutedEvent cs results) a = record_tool_results results a"
| "account_event f _ a = a"

lemma v2_event_accounting:
  "vw_accounting (snd (v2_event cfg e ws)) = account_event (\<lambda>x. x) e (vw_accounting ws)"
  by (cases e) (auto simp: Let_def usage_update_frame_def split: prod.splits)

lemma v1_event_accounting:
  "v1_accounting (snd (v1_event e ws)) = account_event quantize8 e (v1_accounting ws)"
  by (cases e) auto

text \<open>The frames that end a stream.\<close>

definition terminal_frame :: "frame \<Rightarrow> bool" where
  "terminal_frame f \<longleftrightarrow> fst f \<in> {''done'', ''error''}"

lemma terminal_event_frame: "terminal_frame (event_frame e) \<longleftrightarrow> terminal e"
  by (cases e) (simp_all add: terminal_frame_def event_frame_def)

lemma flush_simps [simp]: "flush None = []" "flush (Some f) = [f]"
  by (simp_all add: flush_def)

abbreviation quiet :: "frame list \<Rightarrow> bool" where
  "quiet fs \<equiv> list_all (\<lambda>f. \<not> terminal_frame f) fs"

definition held_ok :: "v2_wire \<Rightarrow> bool" where
  "held_ok ws \<longleftrightarrow> quiet (flush (vw_held ws))"

lemma v2_event_silent:
  assumes "\<not> terminal e" and "held_ok ws"
  shows "held_ok (snd (v2_event cfg e ws)) \<and> quiet (fst (v2_event cfg e ws))"
  using assms
  by (cases e)
     (auto simp: held_ok_def usage_update_frame_def Let_def terminal_frame_def event_frame_def
       first_keepalives_def list_all_iff)

text \<open>The V1 stream's \<open>done\<close> reports, as its cost, the catalogue prices of the generations
  alone, each rounded to 8 decimals: what the tools charged is in the turn's figures but not in it.\<close>

definition v1_run :: "stream_event list \<Rightarrow> v1_wire \<Rightarrow> v1_wire" where
  "v1_run es ws = fold (\<lambda>e ws. snd (v1_event e ws)) es ws"

definition usage_of :: "stream_event \<Rightarrow> usage_event option" where
  "usage_of e = (case e of UsageUpdateEvent u \<Rightarrow> Some u | _ \<Rightarrow> None)"

lemma v1_run_cost:
  "tu_cost (v1_accounting (v1_run es ws))
   = tu_cost (v1_accounting ws) + sum_list (map (\<lambda>u. quantize8 (ue_cost u)) (List.map_filter usage_of es))"
proof (induction es arbitrary: ws)
  case (Cons e es)
  have "tu_cost (v1_accounting (snd (v1_event e ws)))
    = tu_cost (v1_accounting ws) + (case usage_of e of None \<Rightarrow> 0 | Some u \<Rightarrow> quantize8 (ue_cost u))"
    by (cases e) (simp_all add: usage_of_def record_generation_cost_def record_generation_id_def
        record_tool_results_def split: prod.split)
  with Cons show ?case by (simp add: v1_run_def map_filter_simps split: option.split)
qed (simp add: v1_run_def map_filter_simps)

lemma v1_done_cost_excludes_tools:
  "map_of (v1_done_payload e (v1_run es new_v1_wire)) ''cost''
   = Some (JNum (sum_list (map (\<lambda>u. quantize8 (ue_cost u)) (List.map_filter usage_of es))))"
  by (simp add: v1_done_payload_def v1_run_cost present_def map_filter_simps Let_def new_v1_wire_def new_accounting_def)

end
