(* ===== verification/Agent_Graph_Runs.thy ===== *)
theory Agent_Graph_Runs
  imports Agent_Graph
begin

text \<open>
  Lemmas about runs of the agent loop: what one attempt, one generation and one node do to the
  turn_world and the state, the rule that carries an invariant along a run, and the fuel a run needs.
\<close>

section \<open>One generation\<close>

lemma emit_sel [simp]:
  "w_events (emit es w) = w_events w @ es" "w_sent (emit es w) = w_sent w"
  "w_ran (emit es w) = w_ran w" "w_opened (emit es w) = w_opened w" "w_minted (emit es w) = w_minted w"
  by (simp_all add: emit_def)

lemma send_sel [simp]:
  "w_events (sending r w) = w_events w" "w_sent (sending r w) = w_sent w @ [r]"
  "w_ran (sending r w) = w_ran w" "w_opened (sending r w) = w_opened w" "w_minted (sending r w) = w_minted w"
  by (simp_all add: sending_def)

text \<open>What the caller has seen of an attempt is what the generation remembers as visible.\<close>

lemma absorb_chunk_visible:
  "absorb_chunk D c g = (g', es) \<Longrightarrow> gn_visible g' \<longleftrightarrow> gn_visible g \<or> list_ex visible es"
  by (cases c) (auto simp: Let_def usage_event_of_def)

lemma absorb_chunks_visible:
  "absorb_chunks D cs g = (g', es) \<Longrightarrow> gn_visible g' \<longleftrightarrow> gn_visible g \<or> list_ex visible es"
proof (induction cs arbitrary: g g' es)
  case (Cons c cs)
  then show ?case
    by (fastforce simp: Let_def dest: absorb_chunk_visible split: prod.splits)
qed simp

lemma absorb_chunk_silent: "absorb_chunk D c g = (g', es) \<Longrightarrow> list_all (\<lambda>e. \<not> terminal e) es"
  by (cases c) (auto simp: Let_def usage_event_of_def)

lemma absorb_chunks_silent: "absorb_chunks D cs g = (g', es) \<Longrightarrow> list_all (\<lambda>e. \<not> terminal e) es"
proof (induction cs arbitrary: g g' es)
  case (Cons c cs)
  then show ?case
    by (fastforce simp: Let_def dest: absorb_chunk_silent split: prod.splits)
qed simp

text \<open>The events an attempt streams, by the number of the request.\<close>

definition attempt_events :: "deps \<Rightarrow> chat_request \<Rightarrow> string list \<Rightarrow> nat \<Rightarrow> stream_event list" where
  "attempt_events D r prior n = snd (absorb_chunks D (fst (dp_provider D n r)) (new_generation prior))"

lemma attempt_once_eq:
  "attempt_once D r prior w =
     (fst (absorb_chunks D (fst (dp_provider D (length (w_sent w)) r)) (new_generation prior)),
      snd (dp_provider D (length (w_sent w)) r),
      emit (attempt_events D r prior (length (w_sent w))) (sending r w))"
  by (simp add: attempt_once_def attempt_events_def split: prod.split)

lemma attempt_once_visible:
  "gn_visible (fst (attempt_once D r prior w)) \<longleftrightarrow> list_ex visible (attempt_events D r prior (length (w_sent w)))"
proof -
  obtain g es where a: "absorb_chunks D (fst (dp_provider D (length (w_sent w)) r)) (new_generation prior) = (g, es)"
    by fastforce
  from absorb_chunks_visible [OF a] a show ?thesis
    by (simp add: attempt_once_eq attempt_events_def new_generation_def)
qed

text \<open>
  A generation sends its request some number of times; every attempt but the last showed the
  caller nothing, and a failure is reported by one error event after the last.
\<close>

lemma stream_generation_attempts:
  assumes "stream_generation D r prior attempt w = (g, error, w')"
  shows "\<exists>k. attempt + k < max (Suc attempt) (rp_max_attempts (cf_retry (dp_config D)))
    \<and> w_sent w' = w_sent w @ replicate (Suc k) r
    \<and> w_ran w' = w_ran w \<and> w_opened w' = w_opened w \<and> w_minted w' = w_minted w
    \<and> (\<forall>j < k. \<not> list_ex visible (attempt_events D r prior (length (w_sent w) + j)))
    \<and> w_events w' = w_events w
        @ concat (map (\<lambda>j. attempt_events D r prior (length (w_sent w) + j)) [0..<Suc k])
        @ (case error of None \<Rightarrow> [] | Some e \<Rightarrow> [ErrorEvent e])"
  using assms
proof (induction D r prior attempt w rule: stream_generation.induct)
  case (1 D r prior attempt w)
  let ?A = "attempt_once D r prior w" and ?n = "length (w_sent w)"
  let ?g = "fst ?A" and ?f = "fst (snd ?A)" and ?w = "snd (snd ?A)"
  note w = attempt_once_eq [of D r prior w]
  have unfold: "stream_generation D r prior attempt w =
     (case ?f of None \<Rightarrow> (?g, None, ?w)
      | Some e \<Rightarrow> if gn_visible ?g \<or> \<not> permits_another_attempt (cf_retry (dp_config D)) (Suc attempt) e
                 then (?g, Some (to_error_event e), emit [ErrorEvent (to_error_event e)] ?w)
                 else stream_generation D r prior (Suc attempt) ?w)"
    by (cases "attempt_once D r prior w")
       (simp add: stream_generation.simps [of D r prior attempt w] Let_def split: option.split)
  show ?case
  proof (cases "\<exists>e. ?f = Some e \<and> \<not> gn_visible ?g \<and> permits_another_attempt (cf_retry (dp_config D)) (Suc attempt) e")
    case True
    then obtain e where e: "?f = Some e" "\<not> gn_visible ?g"
      "permits_another_attempt (cf_retry (dp_config D)) (Suc attempt) e" by blast
    then have rest: "stream_generation D r prior (Suc attempt) ?w = (g, error, w')"
      using unfold "1.prems" by simp
    have again: "\<not> (gn_visible ?g \<or> \<not> permits_another_attempt (cf_retry (dp_config D)) (Suc attempt) e)"
      using e by simp
    obtain k where k:
      "Suc attempt + k < max (Suc (Suc attempt)) (rp_max_attempts (cf_retry (dp_config D)))"
      "w_sent w' = w_sent ?w @ replicate (Suc k) r"
      "w_ran w' = w_ran ?w" "w_opened w' = w_opened ?w" "w_minted w' = w_minted ?w"
      "\<forall>j < k. \<not> list_ex visible (attempt_events D r prior (length (w_sent ?w) + j))"
      "w_events w' = w_events ?w
        @ concat (map (\<lambda>j. attempt_events D r prior (length (w_sent ?w) + j)) [0..<Suc k])
        @ (case error of None \<Rightarrow> [] | Some e \<Rightarrow> [ErrorEvent e])"
      using "1.IH" [of "Suc attempt" ?A ?g "snd ?A" ?f ?w e,
          OF refl refl prod.collapse prod.collapse e(1) again rest] by blast
    have n: "length (w_sent ?w) = Suc ?n" by (simp add: w)
    have quiet: "\<not> list_ex visible (attempt_events D r prior ?n)"
      using e(2) attempt_once_visible [of D r prior w] by simp
    have up: "[0..<Suc (Suc k)] = 0 # map Suc [0..<Suc k]"
      by (simp only: map_Suc_upt upt_conv_Cons [of 0 "Suc (Suc k)"] zero_less_Suc)
    show ?thesis
    proof (intro exI [of _ "Suc k"] conjI)
      show "attempt + Suc k < max (Suc attempt) (rp_max_attempts (cf_retry (dp_config D)))"
        using k(1) e(3) by (simp add: permits_another_attempt_def)
      show "w_sent w' = w_sent w @ replicate (Suc (Suc k)) r" using k(2) by (simp add: w)
      show "w_ran w' = w_ran w" "w_opened w' = w_opened w" "w_minted w' = w_minted w"
        using k(3,4,5) by (simp_all add: w)
      show "\<forall>j < Suc k. \<not> list_ex visible (attempt_events D r prior (?n + j))"
      proof (intro allI impI)
        fix j assume "j < Suc k"
        then show "\<not> list_ex visible (attempt_events D r prior (?n + j))"
          using quiet k(6) by (cases j) (auto simp: n)
      qed
      show "w_events w' = w_events w
        @ concat (map (\<lambda>j. attempt_events D r prior (?n + j)) [0..<Suc (Suc k)])
        @ (case error of None \<Rightarrow> [] | Some e \<Rightarrow> [ErrorEvent e])"
        unfolding up k(7) n by (simp add: w comp_def del: upt_Suc)
    qed
  next
    case False
    then have "g = ?g" "w' = (case error of None \<Rightarrow> ?w | Some e \<Rightarrow> emit [ErrorEvent e] ?w)"
      using unfold "1.prems" by (auto split: option.splits if_splits)
    then show ?thesis
      by (intro exI [of _ 0]) (auto simp: w split: option.split)
  qed
qed

section \<open>What the nodes do\<close>

abbreviation attempts_allowed :: "deps \<Rightarrow> nat" where
  "attempts_allowed D \<equiv> max 1 (rp_max_attempts (cf_retry (dp_config D)))"

abbreviation silent :: "stream_event list \<Rightarrow> bool" where
  "silent es \<equiv> list_all (\<lambda>e. \<not> terminal e) es"

lemma attempt_events_silent: "silent (attempt_events D r prior n)"
  using absorb_chunks_silent by (metis attempt_events_def prod.collapse)

lemma model_nodeE:
  assumes "model_node D st w = (st', w')"
  obtains (failed) ms relief k es gs e where
      "dp_relieve D (length (w_sent w)) (ts_messages st) = (ms, relief)"
      "k < attempts_allowed D" "w_sent w' = w_sent w @ replicate (Suc k) (build_request D ms)"
      "w_ran w' = w_ran w" "w_opened w' = w_opened w" "silent es"
      "w_events w' = w_events w @ relief @ es @ [ErrorEvent e]"
      "st' = st\<lparr>ts_messages := ms, ts_generation_ids := gs, ts_error := Some e\<rparr>"
    | (answered) ms relief k es gs calls content acc fin where
      "dp_relieve D (length (w_sent w)) (ts_messages st) = (ms, relief)"
      "k < attempts_allowed D" "w_sent w' = w_sent w @ replicate (Suc k) (build_request D ms)"
      "w_ran w' = w_ran w" "w_opened w' = w_opened w" "silent es"
      "w_events w' = w_events w @ relief @ es"
      "st' = st\<lparr>ts_messages := ms @ [assistant_message content calls], ts_iteration := ts_iteration st + 1,
         ts_pending := calls, ts_round := calls, ts_generation_ids := gs, ts_accounting := acc, ts_finish := fin\<rparr>"
proof -
  obtain ms relief where relief: "dp_relieve D (length (w_sent w)) (ts_messages st) = (ms, relief)" by fastforce
  let ?r = "build_request D ms" and ?w = "emit relief w"
  obtain g error w1 where gen: "stream_generation D ?r (ts_generation_ids st) 0 ?w = (g, error, w1)"
    by (cases "stream_generation D ?r (ts_generation_ids st) 0 ?w")
  from stream_generation_attempts [OF gen] obtain k where k:
    "k < attempts_allowed D" "w_sent w1 = w_sent w @ replicate (Suc k) ?r"
    "w_ran w1 = w_ran w" "w_opened w1 = w_opened w"
    "w_events w1 = w_events w @ relief
       @ concat (map (\<lambda>j. attempt_events D ?r (ts_generation_ids st) (length (w_sent w) + j)) [0..<Suc k])
       @ (case error of None \<Rightarrow> [] | Some e \<Rightarrow> [ErrorEvent e])" (is "_ = _ @ relief @ ?es @ _")
    by auto
  have quiet: "silent ?es"
    using attempt_events_silent by (auto simp: list_all_iff)
  show thesis
  proof (cases error)
    case (Some e)
    then have "st' = st\<lparr>ts_messages := ms, ts_generation_ids := known_generation_ids g, ts_error := Some e\<rparr>"
      "w' = w1"
      using assms relief gen by (auto simp: model_node_def)
    with Some k quiet show thesis by (intro failed [OF relief, of k ?es e]) auto
  next
    case None
    obtain calls acc minted where calls: "tool_calls (dp_hex D) (w_minted w1) (gn_calls g) = (calls, acc, minted)"
      by (cases "tool_calls (dp_hex D) (w_minted w1) (gn_calls g)")
    from None have "st' = st\<lparr>ts_messages := ms @ [assistant_message (gn_content g) calls],
         ts_iteration := ts_iteration st + 1, ts_pending := calls, ts_round := calls,
         ts_generation_ids := known_generation_ids g,
         ts_accounting := the_default (ts_accounting st) (gn_accounting g), ts_finish := gn_finish g\<rparr>"
      "w' = w1\<lparr>w_minted := minted\<rparr>"
      using assms relief gen calls by (auto simp: model_node_def)
    with None k quiet show thesis by (intro answered [OF relief, of k ?es]) auto
  qed
qed

text \<open>A handler runs for a call only if its tool exists and the call was not denied.\<close>

lemma run_one_world:
  assumes "run_one D denied c w = (x, w')"
  shows "oc_call x = c" "w_sent w' = w_sent w" "w_opened w' = w_opened w"
    "\<exists>es. w_events w' = w_events w @ es \<and> (es = [] \<or> es = dp_progress D (length (w_ran w)) c)"
    "w_ran w' = w_ran w \<or> (\<exists>args. w_ran w' = w_ran w @ [(c, args)] \<and> tc_id c \<notin> denied)"
  using assms
  by (auto simp: run_one_def failure_def invoke_def Let_def split: option.splits if_splits sum.splits)

definition progress_silent :: "deps \<Rightarrow> bool" where
  "progress_silent D \<longleftrightarrow> (\<forall>n c. silent (dp_progress D n c))"

lemma run_calls_world:
  assumes "run_calls D denied cs w = (xs, w')"
  shows "map oc_call xs = cs \<and> w_sent w' = w_sent w \<and> w_opened w' = w_opened w
    \<and> (\<exists>es. w_events w' = w_events w @ es \<and> (progress_silent D \<longrightarrow> silent es))
    \<and> (\<exists>new. w_ran w' = w_ran w @ new \<and> (\<forall>(c, args) \<in> set new. c \<in> set cs \<and> tc_id c \<notin> denied))"
  using assms
proof (induction cs arbitrary: w xs)
  case (Cons c cs)
  obtain x w1 where one: "run_one D denied c w = (x, w1)" by fastforce
  obtain ys where rest: "run_calls D denied cs w1 = (ys, w')" "xs = x # ys"
    using Cons.prems one by (auto split: prod.splits)
  note a = run_one_world [OF one] and b = Cons.IH [OF rest(1)]
  from a(4) obtain es1 where "w_events w1 = w_events w @ es1" "progress_silent D \<longrightarrow> silent es1"
    by (auto simp: progress_silent_def)
  moreover from b obtain es2 where "w_events w' = w_events w1 @ es2" "progress_silent D \<longrightarrow> silent es2"
    by blast
  ultimately have "\<exists>es. w_events w' = w_events w @ es \<and> (progress_silent D \<longrightarrow> silent es)"
    by (intro exI [of _ "es1 @ es2"]) simp
  with a(5) b show ?case
    using a rest by fastforce
qed simp

text \<open>The events of the ports neither end a turn nor fail it.\<close>

definition ports_silent :: "deps \<Rightarrow> bool" where
  "ports_silent D \<longleftrightarrow> (\<forall>n ms. silent (snd (dp_relieve D n ms))) \<and> (\<forall>c r. silent (dp_derive D c r))
     \<and> progress_silent D"

lemma tool_nodeE:
  assumes "tool_node D st w = (st', w')"
  obtains calls deferred xs es new where
    "partition_by_gate D (ts_pending st) (ts_decisions st) = (calls, deferred)"
    "map oc_call xs = calls"
    "st' = st\<lparr>ts_messages := ts_messages st @ map outcome_message xs, ts_pending := deferred, ts_decisions := []\<rparr>"
    "w_sent w' = w_sent w" "w_opened w' = w_opened w"
    "w_events w' = w_events w @ es" "ports_silent D \<longrightarrow> silent es"
    "w_ran w' = w_ran w @ new"
    "\<forall>(c, args) \<in> set new. c \<in> set calls \<and> tc_id c \<notin> denied_ids (ts_decisions st)"
proof -
  obtain calls deferred where part: "partition_by_gate D (ts_pending st) (ts_decisions st) = (calls, deferred)"
    by fastforce
  show thesis
  proof (cases "calls = []")
    case True
    with assms part have st: "st' = st\<lparr>ts_messages := ts_messages st @ map outcome_message [],
        ts_pending := deferred, ts_decisions := []\<rparr>" "w' = w"
      by (auto simp: tool_node_def)
    show thesis
      by (rule that [OF part, of "[]" "[]" "[]"]) (use True st in auto)
  next
    case False
    let ?w = "emit [FileToolExecutingEvent calls] w"
    obtain xs w1 where run: "run_calls D (denied_ids (ts_decisions st)) calls ?w = (xs, w1)" by fastforce
    from run_calls_world [OF run] obtain es new where r:
      "map oc_call xs = calls" "w_sent w1 = w_sent w" "w_opened w1 = w_opened w"
      "w_events w1 = w_events w @ FileToolExecutingEvent calls # es" "ports_silent D \<longrightarrow> silent es"
      "w_ran w1 = w_ran w @ new" "\<forall>(c, args) \<in> set new. c \<in> set calls \<and> tc_id c \<notin> denied_ids (ts_decisions st)"
      unfolding ports_silent_def emit_sel by (fastforce simp only: append_Cons append_Nil append_assoc)
    let ?derived = "concat (map (\<lambda>x. dp_derive D (oc_call x) (oc_result x)) xs)"
    have st: "st' = st\<lparr>ts_messages := ts_messages st @ map outcome_message xs, ts_pending := deferred, ts_decisions := []\<rparr>"
      "w' = emit ?derived (emit [FileToolExecutedEvent calls (map result_entry xs)] w1)"
      using assms part run False by (auto simp: tool_node_def)
    have derived: "ports_silent D \<longrightarrow> silent ?derived"
      by (auto simp: ports_silent_def list_all_iff)
    show thesis
      by (rule that [OF part r(1) st(1), of "FileToolExecutingEvent calls # es @ FileToolExecutedEvent calls (map result_entry xs) # ?derived" new])
         (use st r derived in auto)
  qed
qed

section \<open>Runs\<close>

lemma drive_invariant:
  assumes "drive fuel D n st w = Some (n', st', w')" and "I n st w"
    and step: "\<And>n st w n' st' w'. I n st w \<Longrightarrow> \<not> halted n st \<Longrightarrow> step D n st w = (n', st', w') \<Longrightarrow> I n' st' w'"
  shows "I n' st' w' \<and> halted n' st'"
  using assms(1,2)
proof (induction fuel arbitrary: n st w)
  case 0
  then show ?case by (simp add: drive.simps split: if_splits)
next
  case (Suc k)
  show ?case
  proof (cases "halted n st")
    case True
    with Suc.prems show ?thesis by (simp add: drive.simps)
  next
    case False
    obtain n1 st1 w1 where s: "step D n st w = (n1, st1, w1)" by (cases "step D n st w")
    with False Suc.prems have "drive k D n1 st1 w1 = Some (n', st', w')" by (simp add: drive.simps)
    then show ?thesis using Suc.IH step [OF Suc.prems(2) False s] by blast
  qed
qed

text \<open>Every step is one of five; the gate is entered with a request stored, so it halts.\<close>

lemma step_cases:
  assumes "step D n st w = (n', st', w')" and "\<not> halted n st"
  obtains (model) "n = MODEL" "model_node D st w = (st', w')" "n' = route_after_model D st'"
    | (request) "n = APPROVAL_REQUEST" "approval_request_node D st w = (st', w')" "n' = APPROVAL_GATE"
    | (gate) "n = APPROVAL_GATE" "ts_request st = None" "st' = st\<lparr>ts_decisions := []\<rparr>" "w' = w" "n' = TOOLS"
    | (tools) "n = TOOLS" "tool_node D st w = (st', w')" "n' = route_after_tools st'"
    | (finalize) "n = FINALIZE" "st' = st" "w' = emit [DoneEvent (done_of D st)] w" "n' = END"
  using assms by (cases n) (auto simp: halted_def finalize_node_def split: prod.splits)

fun steps_left :: "nat \<Rightarrow> node \<Rightarrow> nat \<Rightarrow> nat" where
  "steps_left M MODEL i = 2 * (M - i) + 2"
| "steps_left M TOOLS i = 2 * (M - i) + 3"
| "steps_left M APPROVAL_GATE i = 2 * (M - i) + 4"
| "steps_left M APPROVAL_REQUEST i = 1"
| "steps_left M FINALIZE i = 1"
| "steps_left M END i = 0"

definition steps_to_go :: "deps \<Rightarrow> node \<Rightarrow> turn_state \<Rightarrow> nat" where
  "steps_to_go D n st = (if halted n st then 0 else steps_left (cf_max_iterations (dp_config D)) n (ts_iteration st))"

lemma approval_request_node_eq:
  "approval_request_node D st w =
     (st\<lparr>ts_request := Some \<lparr>aq_approvals = dp_open D (w_opened w) (gated_calls D (ts_pending st)),
        aq_tool_calls = map fst (gated_calls D (ts_pending st)), aq_round = ts_round st\<rparr>\<rparr>,
      w\<lparr>w_opened := w_opened w + length (gated_calls D (ts_pending st))\<rparr>)"
  by (simp add: approval_request_node_def Let_def)

lemma step_decreases:
  assumes "step D n st w = (n', st', w')" and "\<not> halted n st"
  shows "steps_to_go D n' st' < steps_to_go D n st"
  using assms
proof (cases rule: step_cases)
  case model
  from model(2) show ?thesis
    by (cases rule: model_nodeE)
       (auto simp: model steps_to_go_def route_after_model_def halted_def)
next
  case request
  then show ?thesis by (auto simp: steps_to_go_def halted_def approval_request_node_eq)
next
  case gate
  then show ?thesis by (auto simp: steps_to_go_def halted_def)
next
  case tools
  from tools(2) show ?thesis
    by (cases rule: tool_nodeE)
       (auto simp: tools steps_to_go_def halted_def route_after_tools_def)
next
  case finalize
  then show ?thesis by (auto simp: steps_to_go_def halted_def)
qed

lemma drive_enough: "steps_to_go D n st \<le> fuel \<Longrightarrow> \<exists>n' st' w'. drive fuel D n st w = Some (n', st', w')"
proof (induction fuel arbitrary: n st w)
  case 0
  then have "halted n st" by (cases n) (auto simp: steps_to_go_def halted_def split: if_splits)
  then show ?case by (simp add: drive.simps)
next
  case (Suc k)
  show ?case
  proof (cases "halted n st")
    case True
    then show ?thesis by (simp add: drive.simps)
  next
    case False
    obtain n1 st1 w1 where s: "step D n st w = (n1, st1, w1)" by (cases "step D n st w")
    from step_decreases [OF s False] Suc.prems have "steps_to_go D n1 st1 \<le> k" by simp
    from Suc.IH [OF this] False s show ?thesis by (simp add: drive.simps)
  qed
qed

end
