(* ===== verification/Agent_Graph_Properties.thy ===== *)
theory Agent_Graph_Properties
  imports Agent_Graph_Runs
begin

text \<open>
  What a turn of the agent loop guarantees: it ends, with one terminal event, within the model
  calls it is allowed; a tool that needs sign-off runs only on an approving answer; a retry never
  repeats output; and a model is never asked to go on while a call it made is unanswered.
\<close>

section \<open>Sessions\<close>

text \<open>What a caller can have done with a loop: started turns on histories that satisfy \<open>P\<close>, and
  resumed them, in any order and on any thread.\<close>

definition fresh_loop :: agent_loop where
  "fresh_loop = \<lparr>lp_threads = (\<lambda>_. None),
     lp_world = \<lparr>w_sent = [], w_ran = [], w_opened = 0, w_minted = 0, w_events = []\<rparr>\<rparr>"

inductive session :: "(provider_message list \<Rightarrow> bool) \<Rightarrow> deps \<Rightarrow> agent_loop \<Rightarrow> bool"
  for P :: "provider_message list \<Rightarrow> bool" and D :: deps where
  fresh: "session P D fresh_loop"
| started: "session P D L \<Longrightarrow> P ms \<Longrightarrow> start fuel D ms thread L = Some (L', es) \<Longrightarrow> session P D L'"
| resumed: "session P D L \<Longrightarrow> resume fuel D answers thread L = Inr (Some (L', es)) \<Longrightarrow> session P D L'"

definition new_runs :: "agent_loop \<Rightarrow> agent_loop \<Rightarrow> (tool_call \<times> json_dict) list" where
  "new_runs L L' = drop (length (w_ran (lp_world L))) (w_ran (lp_world L'))"

definition new_requests :: "agent_loop \<Rightarrow> agent_loop \<Rightarrow> chat_request list" where
  "new_requests L L' = drop (length (w_sent (lp_world L))) (w_sent (lp_world L'))"

lemma run_fromE:
  assumes "run_from fuel D thread n st L = Some (L', es)"
  obtains n' st' w' where "drive fuel D n st ((lp_world L)\<lparr>w_events := []\<rparr>) = Some (n', st', w')"
    "L' = L\<lparr>lp_threads := (lp_threads L)(thread \<mapsto> (n', st')), lp_world := w'\<rparr>"
    "es = w_events w' @ (if n' = APPROVAL_GATE
       then case ts_request st' of Some q \<Rightarrow> pause_events D st' q | None \<Rightarrow> [] else [])"
  using assms by (auto simp: run_from_def Let_def split: option.splits)

lemma resumeE:
  assumes "resume fuel D answers thread L = Inr r"
  obtains st q ds where "paused_state L thread = Some (st, q)" "read_answers D answers = Inr ds"
    "r = run_from fuel D thread TOOLS
           (st\<lparr>ts_request := None, ts_decisions := map (answer_for ds) (aq_tool_calls q)\<rparr>) L"
  using assms by (auto simp: resume_def normalized_def split: option.splits prod.splits sum.splits)

lemma paused_stateE:
  assumes "paused_state L thread = Some (st, q)"
  obtains "lp_threads L thread = Some (APPROVAL_GATE, st)" "ts_request st = Some q"
  using assms by (auto simp: paused_state_def split: option.splits node.splits)

section \<open>Answered calls\<close>

text \<open>Reading a history: the ids of the calls still unanswered, \<open>None\<close> when a message answers a
  call that is not open, or when the conversation goes on over an open one.\<close>

fun due :: "string multiset \<Rightarrow> provider_message list \<Rightarrow> string multiset option" where
  "due open_ids [] = Some open_ids"
| "due open_ids (m # ms) =
     (if pm_role m = ''tool''
      then (case pm_tool_call_id m of
              None \<Rightarrow> None
            | Some i \<Rightarrow> if i \<in># open_ids then due (open_ids - {#i#}) ms else None)
      else if open_ids = {#} then due (mset (map tc_id (the_default [] (pm_tool_calls m)))) ms
      else None)"

definition every_call_answered :: "provider_message list \<Rightarrow> bool" where
  "every_call_answered ms \<longleftrightarrow> due {#} ms = Some {#}"

definition relief_keeps_answers :: "deps \<Rightarrow> bool" where
  "relief_keeps_answers D \<longleftrightarrow> (\<forall>n ms. every_call_answered ms \<longrightarrow> every_call_answered (fst (dp_relieve D n ms)))"

section \<open>A concrete turn\<close>

text \<open>Two tools, one of which needs sign-off; the model calls both at once, then answers.\<close>

definition demo_tool :: "string \<Rightarrow> tool_approval \<Rightarrow> tool_definition" where
  "demo_tool name a = \<lparr>td_id = name, td_name = name, td_server_name = None, td_description = [],
     td_schema = [], td_approval = a\<rparr>"

definition demo_delta :: "int \<Rightarrow> string \<Rightarrow> string \<Rightarrow> provider_chunk" where
  "demo_delta i c name = ToolCallDeltaChunk
     \<lparr>dl_index = i, dl_id = Some c, dl_name = Some name, dl_arguments = Some ''{}''\<rparr>"

definition demo_deps :: deps where
  "demo_deps = \<lparr>
     dp_config = \<lparr>cf_model = ''m'', cf_max_iterations = 3, cf_temperature = None, cf_max_tokens = None,
       cf_tool_choice = None, cf_extra = None, cf_retry = default_retry\<rparr>,
     dp_registry = [demo_tool ''search'' AUTO, demo_tool ''pay'' REQUIRED],
     dp_provider = (\<lambda>n r. if n = 0 then ([demo_delta 0 ''c1'' ''pay'', demo_delta 1 ''c2'' ''search''], None)
                            else ([ContentDeltaChunk ''ok''], None)),
     dp_handler = (\<lambda>n i args. Inr [(''success'', JBool True)]),
     dp_policy = None,
     dp_open = local_approvals,
     dp_relieve = (\<lambda>n ms. (ms, [])),
     dp_account = provider_reported_cost,
     dp_derive = (\<lambda>c r. []),
     dp_progress = (\<lambda>n c. []),
     dp_json_error = (\<lambda>s. []),
     dp_str = (\<lambda>j. []),
     dp_hex = string_of_nat\<rparr>"

definition demo_approval :: answer where
  "demo_approval = Mapping [(''tool_call_id'', JStr ''c1''), (''decision'', JStr ''approved'')]"

lemma demo_evaluated:
  "case start 9 demo_deps [] ''t'' fresh_loop of None \<Rightarrow> False
   | Some (L, es) \<Rightarrow>
      (case resume 9 demo_deps [demo_approval] ''t'' L of
         Inr (Some (L', es')) \<Rightarrow>
           map (\<lambda>(c, args). tc_name c) (new_runs fresh_loop L) = [''search'']
           \<and> map (\<lambda>(c, args). tc_name c) (new_runs L L') = [''pay''] \<and> length (w_sent (lp_world L')) = 2
       | _ \<Rightarrow> False)"
  by code_simp

lemma demo_turn:
  obtains L es L' es' where "start 9 demo_deps [] ''t'' fresh_loop = Some (L, es)"
    "resume 9 demo_deps [demo_approval] ''t'' L = Inr (Some (L', es'))"
    "map (\<lambda>(c, args). tc_name c) (new_runs fresh_loop L) = [''search'']"
    "map (\<lambda>(c, args). tc_name c) (new_runs L L') = [''pay'']" "length (w_sent (lp_world L')) = 2"
  using demo_evaluated by (auto split: option.splits sum.splits)

lemma demo_silent: "ports_silent demo_deps"
  by (simp add: ports_silent_def progress_silent_def demo_deps_def)

lemma demo_relief: "relief_keeps_answers demo_deps"
  by (simp add: relief_keeps_answers_def demo_deps_def)

lemma demo_session:
  assumes "start 9 demo_deps [] ''t'' fresh_loop = Some (L, es)" and "every_call_answered [] \<Longrightarrow> P []"
  shows "session P demo_deps L"
  by (rule session.started [OF session.fresh _ assms(1)]) (simp add: assms(2) every_call_answered_def)

section \<open>Every turn ends, within its model calls\<close>

lemma drive_sent:
  assumes "drive fuel D n st w = Some (n', st', w')" and "n = MODEL \<or> n = TOOLS"
    and "ts_iteration st < cf_max_iterations (dp_config D)"
  shows "\<exists>new. w_sent w' = w_sent w @ new
    \<and> length new \<le> (cf_max_iterations (dp_config D) - ts_iteration st) * attempts_allowed D"
proof -
  let ?M = "cf_max_iterations (dp_config D)" and ?A = "attempts_allowed D" and ?i = "ts_iteration st"
  define I where "I = (\<lambda>(n :: node) (s :: turn_state) (v :: turn_world).
     \<exists>new. w_sent v = w_sent w @ new \<and> ?i \<le> ts_iteration s \<and> length new \<le> (?M - ?i) * ?A
       \<and> (n \<in> {MODEL, TOOLS, APPROVAL_GATE, APPROVAL_REQUEST} \<longrightarrow>
            ts_iteration s < ?M \<and> length new \<le> (ts_iteration s - ?i) * ?A))"
  have "I n' st' w' \<and> halted n' st'"
  proof (rule drive_invariant [OF assms(1)])
    show "I n st w" using assms(2,3) by (auto simp: I_def)
  next
    fix n1 s v n2 s' v'
    assume I: "I n1 s v" and h: "\<not> halted n1 s" and st: "step D n1 s v = (n2, s', v')"
    from I obtain new where new: "w_sent v = w_sent w @ new" "?i \<le> ts_iteration s"
      "length new \<le> (?M - ?i) * ?A"
      "n1 \<in> {MODEL, TOOLS, APPROVAL_GATE, APPROVAL_REQUEST} \<longrightarrow>
            ts_iteration s < ?M \<and> length new \<le> (ts_iteration s - ?i) * ?A"
      by (auto simp: I_def)
    from st h show "I n2 s' v'"
    proof (cases rule: step_cases)
      case model
      with new have lt: "ts_iteration s < ?M" "length new \<le> (ts_iteration s - ?i) * ?A" by auto
      have grow: "length new + Suc k \<le> (Suc (ts_iteration s) - ?i) * ?A" if "k < ?A" for k
      proof -
        have "length new + Suc k \<le> (ts_iteration s - ?i) * ?A + ?A"
          using lt(2) that by (intro add_mono) auto
        then show ?thesis using new(2) by (simp add: Suc_diff_le)
      qed
      have cap: "(Suc (ts_iteration s) - ?i) * ?A \<le> (?M - ?i) * ?A"
        using lt(1) by (intro mult_right_mono) auto
      from model(2) show ?thesis
      proof (cases rule: model_nodeE)
        case (failed ms relief k es gs e)
        with new(1) have "w_sent v' = w_sent w @ (new @ replicate (Suc k) (build_request D ms))" by simp
        moreover have "length (new @ replicate (Suc k) (build_request D ms)) \<le> (?M - ?i) * ?A"
          by (rule order_trans [OF _ cap]) (use grow [OF failed(2)] in simp)
        ultimately show ?thesis
          using failed(8) new(2) by (auto simp: I_def model route_after_model_def)
      next
        case (answered ms relief k es gs calls content acc fin)
        with new(1) have sent: "w_sent v' = w_sent w @ (new @ replicate (Suc k) (build_request D ms))" by simp
        have a: "length (new @ replicate (Suc k) (build_request D ms)) \<le> (ts_iteration s' - ?i) * ?A"
          using grow [OF answered(2)] answered(8) by simp
        moreover have "length (new @ replicate (Suc k) (build_request D ms)) \<le> (?M - ?i) * ?A"
          by (rule order_trans [OF _ cap]) (use grow [OF answered(2)] in simp)
        moreover have "?i \<le> ts_iteration s'" using answered(8) new(2) by simp
        moreover have "n2 \<in> {MODEL, TOOLS, APPROVAL_GATE, APPROVAL_REQUEST} \<longrightarrow> ts_iteration s' < ?M"
          by (auto simp: model route_after_model_def split: if_splits)
        ultimately show ?thesis unfolding I_def using sent by blast
      qed
    next
      case tools
      from tools(2) show ?thesis
        by (cases rule: tool_nodeE) (use new tools in \<open>auto simp: I_def\<close>)
    qed (use new in \<open>auto simp: I_def approval_request_node_eq\<close>)
  qed
  then show ?thesis by (auto simp: I_def)
qed

definition enough :: "deps \<Rightarrow> nat" where
  "enough D = 2 * cf_max_iterations (dp_config D) + 3"

lemma run_from_returns:
  assumes "n = MODEL \<or> n = TOOLS"
  shows "\<exists>L' es. run_from (enough D) D thread n st L = Some (L', es)"
proof -
  have "steps_to_go D n st \<le> enough D"
    using assms by (auto simp: steps_to_go_def enough_def)
  from drive_enough [OF this, of "(lp_world L)\<lparr>w_events := []\<rparr>"] show ?thesis
    by (auto simp: run_from_def)
qed



section \<open>A retry never repeats what the caller has seen\<close>

text \<open>C8: the model is asked again only while nothing visible has been streamed: all attempts of a
  generation send the same request, at most as often as the policy allows, and the content, reasoning
  and images the caller sees are exactly those of the last attempt.\<close>

theorem retry_replays_nothing:
  "let (g, error, w') = stream_generation D r prior 0 w;
       sent = drop (length (w_sent w)) (w_sent w');
       last = length (w_sent w') - 1
   in sent = replicate (length sent) r \<and> 1 \<le> length sent \<and> length sent \<le> attempts_allowed D
      \<and> filter visible (drop (length (w_events w)) (w_events w'))
        = filter visible (attempt_events D r prior last)"
proof -
  obtain g error w' where s: "stream_generation D r prior 0 w = (g, error, w')"
    by (cases "stream_generation D r prior 0 w")
  from stream_generation_attempts [OF s] obtain k where k:
    "k < attempts_allowed D" "w_sent w' = w_sent w @ replicate (Suc k) r"
    "\<forall>j < k. \<not> list_ex visible (attempt_events D r prior (length (w_sent w) + j))"
    "w_events w' = w_events w
        @ concat (map (\<lambda>j. attempt_events D r prior (length (w_sent w) + j)) [0..<Suc k])
        @ (case error of None \<Rightarrow> [] | Some e \<Rightarrow> [ErrorEvent e])"
    by auto
  have early: "filter visible (concat (map (\<lambda>j. attempt_events D r prior (length (w_sent w) + j)) [0..<k])) = []"
    using k(3) by (auto simp: filter_empty_conv list_ex_iff)
  have "filter visible (drop (length (w_events w)) (w_events w'))
      = filter visible (attempt_events D r prior (length (w_sent w) + k))"
    unfolding k(4) using early by (auto split: option.split)
  with s k(1,2) show ?thesis by simp
qed

section \<open>Sign-off\<close>

lemma set_map_filter_iff: "y \<in> set (List.map_filter f xs) \<longleftrightarrow> (\<exists>x \<in> set xs. f x = Some y)"
  by (induction xs) (auto simp: map_filter_simps split: option.split)

lemma gated_calls_iff: "(c, d) \<in> set (gated_calls D cs) \<longleftrightarrow> c \<in> set cs \<and> gate_of D c = Some (c, d)"
  by (force simp: gated_calls_def set_map_filter_iff gate_of_def split: option.splits if_splits)

lemma runnable_answered:
  assumes "c \<in> set (fst (partition_by_gate D calls ds))" and "gate_of D c \<noteq> None"
  shows "tc_id c \<in> dc_call ` set ds"
proof -
  from assms(2) obtain d where "gate_of D c = Some (c, d)"
    by (auto simp: gate_of_def split: option.splits if_splits)
  with assms(1) have "(c, d) \<in> set (gated_calls D calls)"
    by (auto simp: gated_calls_iff partition_by_gate_def)
  with assms(1) show ?thesis
    by (fastforce simp: partition_by_gate_def)
qed

text \<open>Along a run entered with decisions \<open>ds\<close>, a gated handler runs only for an approved call.\<close>

definition cleared :: "deps \<Rightarrow> tool_decision list \<Rightarrow> tool_call \<Rightarrow> bool" where
  "cleared D ds c \<longleftrightarrow> (gate_of D c \<noteq> None \<longrightarrow> (\<exists>d \<in> set ds. dc_call d = tc_id c \<and> approved d))"

lemma tool_node_cleared:
  assumes "c \<in> set (fst (partition_by_gate D calls ds))" and "tc_id c \<notin> denied_ids ds"
  shows "cleared D ds c"
proof (unfold cleared_def, intro impI)
  assume "gate_of D c \<noteq> None"
  from runnable_answered [OF assms(1) this] obtain d where "d \<in> set ds" "tc_id c = dc_call d" by blast
  moreover from this assms(2) have "approved d" by (fastforce simp: denied_ids_def)
  ultimately show "\<exists>d \<in> set ds. dc_call d = tc_id c \<and> approved d" by auto
qed

lemma drive_cleared:
  assumes "drive fuel D n st w = Some (n', st', w')" and "ts_decisions st = ds"
  shows "\<forall>(c, args) \<in> set (drop (length (w_ran w)) (w_ran w')). cleared D ds c"
proof -
  define I where "I = (\<lambda>(n :: node) (s :: turn_state) (v :: turn_world).
     (ts_decisions s = ds \<or> ts_decisions s = [])
     \<and> (\<exists>new. w_ran v = w_ran w @ new \<and> (\<forall>(c, args) \<in> set new. cleared D ds c)))"
  have none: "cleared D ds c" if "cleared D [] c" for c using that by (auto simp: cleared_def)
  have "I n' st' w' \<and> halted n' st'"
  proof (rule drive_invariant [OF assms(1)])
    show "I n st w" using assms(2) by (simp add: I_def)
  next
    fix n1 s v n2 s' v'
    assume I: "I n1 s v" and h: "\<not> halted n1 s" and st: "step D n1 s v = (n2, s', v')"
    from st h show "I n2 s' v'"
    proof (cases rule: step_cases)
      case model
      from model(2) show ?thesis
        by (cases rule: model_nodeE) (use I in \<open>auto simp: I_def\<close>)
    next
      case tools
      from tools(2) show ?thesis
      proof (cases rule: tool_nodeE)
        case (1 calls deferred xs es new)
        then have "\<forall>(c, args) \<in> set new. cleared D (ts_decisions s) c"
          using tool_node_cleared [of _ D "ts_pending s" "ts_decisions s"] by fastforce
        then have "\<forall>(c, args) \<in> set new. cleared D ds c"
          using I none by (auto simp: I_def)
        with 1 I show ?thesis by (fastforce simp: I_def)
      qed
    qed (use I in \<open>auto simp: I_def approval_request_node_eq\<close>)
  qed
  then show ?thesis by (auto simp: I_def)
qed

lemma run_from_cleared:
  assumes "run_from fuel D thread n st L = Some (L', es)" and "ts_decisions st = ds"
  shows "\<forall>(c, args) \<in> set (new_runs L L'). cleared D ds c"
  using assms(1) by (rule run_fromE) (use drive_cleared [OF _ assms(2)] in \<open>fastforce simp: new_runs_def\<close>)

text \<open>An answer that is absent counts as a denial.\<close>

lemma answer_for_call: "dc_call (answer_for ds c) = tc_id c"
  by (auto simp: answer_for_def decide_def the_default_def find_Some_iff split: option.splits)

lemma approved_answer:
  assumes "approved (answer_for ds c)"
  shows "\<exists>d. find (\<lambda>d. dc_call d = tc_id c) (rev ds) = Some d \<and> approved d"
  using assms by (auto simp: answer_for_def approved_def decide_def split: option.splits)
     (metis approval_decision.distinct(1) option.exhaust the_default_simps tool_decision.select_convs(2))

text \<open>C4: the handler of a tool that needs sign-off never runs in a turn that starts, and in a turn
  that resumes it runs only for a call the pause asked about whose last answer approves it: a call
  left unanswered, answered for another id, or denied is not run.\<close>

theorem gated_handlers_need_approval:
  "(start fuel D ms thread L = Some (L', es) \<longrightarrow>
      (\<forall>(c, args) \<in> set (new_runs L L'). gate_of D c = None))
   \<and> (resume fuel D answers thread L = Inr (Some (L', es)) \<longrightarrow>
      (\<forall>(c, args) \<in> set (new_runs L L'). gate_of D c \<noteq> None \<longrightarrow>
         (\<exists>st q ds d. paused_state L thread = Some (st, q) \<and> tc_id c \<in> tc_id ` set (aq_tool_calls q)
            \<and> read_answers D answers = Inr ds
            \<and> find (\<lambda>d. dc_call d = tc_id c) (rev ds) = Some d \<and> approved d)))"
proof (intro conjI impI)
  assume "start fuel D ms thread L = Some (L', es)"
  then have "\<forall>(c, args) \<in> set (new_runs L L'). cleared D [] c"
    using run_from_cleared [of fuel D thread MODEL "initial_state ms" L L' es "[]"]
    by (simp add: start_def initial_state_def)
  moreover have "cleared D [] c \<longleftrightarrow> gate_of D c = None" for c
    by (cases "gate_of D c") (auto simp: cleared_def)
  ultimately show "\<forall>(c, args) \<in> set (new_runs L L'). gate_of D c = None" by (simp only:)
next
  assume "resume fuel D answers thread L = Inr (Some (L', es))"
  then obtain st q ds where r: "paused_state L thread = Some (st, q)" "read_answers D answers = Inr ds"
    "run_from fuel D thread TOOLS
       (st\<lparr>ts_request := None, ts_decisions := map (answer_for ds) (aq_tool_calls q)\<rparr>) L = Some (L', es)"
    by (rule resumeE) simp
  from run_from_cleared [OF r(3)] have c: "\<forall>(c, args) \<in> set (new_runs L L').
      cleared D (map (answer_for ds) (aq_tool_calls q)) c" by simp
  show "\<forall>(c, args) \<in> set (new_runs L L'). gate_of D c \<noteq> None \<longrightarrow>
         (\<exists>st q ds d. paused_state L thread = Some (st, q) \<and> tc_id c \<in> tc_id ` set (aq_tool_calls q)
            \<and> read_answers D answers = Inr ds
            \<and> find (\<lambda>d. dc_call d = tc_id c) (rev ds) = Some d \<and> approved d)"
  proof (clarify, goal_cases)
    case (1 c args d1 d2)
    with c have "cleared D (map (answer_for ds) (aq_tool_calls q)) c" by auto
    with 1 obtain c' where c': "c' \<in> set (aq_tool_calls q)" "tc_id c' = tc_id c" "approved (answer_for ds c')"
      by (auto simp: cleared_def answer_for_call)
    with approved_answer [OF c'(3)] r(1,2) show ?case by (metis imageI)
  qed
qed

theorem gated_handlers_need_approval_witness:
  "\<exists>L es L' es'. start 9 demo_deps [] ''t'' fresh_loop = Some (L, es)
     \<and> resume 9 demo_deps [demo_approval] ''t'' L = Inr (Some (L', es'))
     \<and> map (\<lambda>(c, args). tc_name c) (new_runs L L') = [''pay'']
     \<and> (\<forall>(c, args) \<in> set (new_runs fresh_loop L). gate_of demo_deps c = None)
     \<and> (\<forall>(c, args) \<in> set (new_runs L L'). gate_of demo_deps c \<noteq> None \<longrightarrow>
          (\<exists>ds d. read_answers demo_deps [demo_approval] = Inr ds
             \<and> find (\<lambda>d. dc_call d = tc_id c) (rev ds) = Some d \<and> approved d))"
proof (rule demo_turn)
  fix L es L' es'
  assume run: "start 9 demo_deps [] ''t'' fresh_loop = Some (L, es)"
    "resume 9 demo_deps [demo_approval] ''t'' L = Inr (Some (L', es'))"
    "map (\<lambda>(c, args). tc_name c) (new_runs L L') = [''pay'']"
  from gated_handlers_need_approval [of 9 demo_deps "[]" "''t''" fresh_loop L es "[demo_approval]"] run(1)
  have "\<forall>(c, args) \<in> set (new_runs fresh_loop L). gate_of demo_deps c = None" by simp
  moreover from gated_handlers_need_approval [of 9 demo_deps "[]" "''t''" L L' es' "[demo_approval]"] run(2)
  have "\<forall>(c, args) \<in> set (new_runs L L'). gate_of demo_deps c \<noteq> None \<longrightarrow>
          (\<exists>ds d. read_answers demo_deps [demo_approval] = Inr ds
             \<and> find (\<lambda>d. dc_call d = tc_id c) (rev ds) = Some d \<and> approved d)" by blast
  ultimately show ?thesis using run by (intro exI [of _ L] exI [of _ es] exI [of _ L'] exI [of _ es'] conjI)
qed

section \<open>One terminal event, and it is the last\<close>

definition one_terminal :: "stream_event list \<Rightarrow> bool" where
  "one_terminal es \<longleftrightarrow> es \<noteq> [] \<and> terminal (last es) \<and> silent (butlast es)"

lemma one_terminal_snoc [simp]: "one_terminal (es @ [e]) \<longleftrightarrow> terminal e \<and> silent es"
  by (auto simp: one_terminal_def)

lemma drive_terminal:
  assumes "drive fuel D n st w = Some (n', st', w')" and "n = MODEL \<or> n = TOOLS"
    and "ts_error st = None" and "w_events w = []" and ports: "ports_silent D"
  shows "(n' = END \<and> one_terminal (w_events w'))
    \<or> (n' = APPROVAL_GATE \<and> silent (w_events w') \<and> ts_error st' = None \<and> ts_request st' \<noteq> None)"
proof -
  define I where "I = (\<lambda>(n :: node) (s :: turn_state) (v :: turn_world).
     if n = END then one_terminal (w_events v) else silent (w_events v) \<and> ts_error s = None)"
  have "I n' st' w' \<and> halted n' st'"
  proof (rule drive_invariant [OF assms(1)])
    show "I n st w" using assms(2,3,4) by (auto simp: I_def)
  next
    fix n1 s v n2 s' v'
    assume I: "I n1 s v" and h: "\<not> halted n1 s" and st: "step D n1 s v = (n2, s', v')"
    from st h show "I n2 s' v'"
    proof (cases rule: step_cases)
      case model
      with I have quiet: "silent (w_events v)" "ts_error s = None" by (simp_all add: I_def)
      from model(2) show ?thesis
      proof (cases rule: model_nodeE)
        case (failed ms relief k es gs e)
        have "silent relief" using ports failed(1) by (metis ports_silent_def snd_conv)
        with failed quiet have "one_terminal ((w_events v @ relief @ es) @ [ErrorEvent e])"
          unfolding one_terminal_snoc by simp
        with failed show ?thesis by (simp add: I_def model route_after_model_def)
      next
        case (answered ms relief k es gs calls content acc fin)
        have "silent relief" using ports answered(1) by (metis ports_silent_def snd_conv)
        with answered quiet show ?thesis by (auto simp: I_def model route_after_model_def)
      qed
    next
      case tools
      from tools(2) show ?thesis
        by (cases rule: tool_nodeE) (use I tools ports in \<open>auto simp: I_def route_after_tools_def\<close>)
    qed (use I in \<open>auto simp: I_def approval_request_node_eq\<close>)
  qed
  then show ?thesis by (auto simp: I_def halted_def)
qed

lemma session_induct_run:
  assumes "session P D L"
    and "\<And>thread n st. J thread None" \<comment> \<open>no thread yet\<close>
    and "\<And>(L :: agent_loop) ms fuel thread n st w. \<forall>t. J t (lp_threads L t) \<Longrightarrow> P ms \<Longrightarrow>
       drive fuel D MODEL (initial_state ms) ((lp_world L)\<lparr>w_events := []\<rparr>) = Some (n, st, w) \<Longrightarrow> J thread (Some (n, st))"
    and "\<And>(L :: agent_loop) fuel thread s q ds n st w. \<forall>t. J t (lp_threads L t) \<Longrightarrow> lp_threads L thread = Some (APPROVAL_GATE, s) \<Longrightarrow>
       ts_request s = Some q \<Longrightarrow>
       drive fuel D TOOLS (s\<lparr>ts_request := None, ts_decisions := map (answer_for ds) (aq_tool_calls q)\<rparr>)
         ((lp_world L)\<lparr>w_events := []\<rparr>) = Some (n, st, w) \<Longrightarrow> J thread (Some (n, st))"
  shows "\<forall>t. J t (lp_threads L t)"
  using assms(1)
proof induction
  case fresh
  then show ?case using assms(2) by (simp add: fresh_loop_def)
next
  case (started L ms fuel thread L' es)
  from started.hyps(3) show ?case unfolding start_def
  proof (rule run_fromE)
    fix n st w
    assume d: "drive fuel D MODEL (initial_state ms) ((lp_world L)\<lparr>w_events := []\<rparr>) = Some (n, st, w)"
      and L': "L' = L\<lparr>lp_threads := (lp_threads L)(thread \<mapsto> (n, st)), lp_world := w\<rparr>"
    show ?thesis using assms(3) [OF started.IH started.hyps(2) d] started.IH by (simp add: L')
  qed
next
  case (resumed L fuel answers thread L' es)
  from resumed.hyps(2) obtain s q ds where r: "paused_state L thread = Some (s, q)"
    "run_from fuel D thread TOOLS
       (s\<lparr>ts_request := None, ts_decisions := map (answer_for ds) (aq_tool_calls q)\<rparr>) L = Some (L', es)"
    by (rule resumeE) simp
  from r(1) have p: "lp_threads L thread = Some (APPROVAL_GATE, s)" "ts_request s = Some q"
    by (auto elim: paused_stateE)
  from r(2) show ?case
  proof (rule run_fromE)
    fix n st w
    assume d: "drive fuel D TOOLS (s\<lparr>ts_request := None, ts_decisions := map (answer_for ds) (aq_tool_calls q)\<rparr>)
        ((lp_world L)\<lparr>w_events := []\<rparr>) = Some (n, st, w)"
      and L': "L' = L\<lparr>lp_threads := (lp_threads L)(thread \<mapsto> (n, st)), lp_world := w\<rparr>"
    show ?thesis using assms(4) [OF resumed.IH p d] resumed.IH by (simp add: L')
  qed
qed

lemma run_from_terminal:
  assumes "run_from fuel D thread n st L = Some (L', es)" and "n = MODEL \<or> n = TOOLS"
    and "ts_error st = None" and "ports_silent D"
  shows "one_terminal es"
  using assms(1)
proof (rule run_fromE)
  fix n' st' w'
  assume d: "drive fuel D n st ((lp_world L)\<lparr>w_events := []\<rparr>) = Some (n', st', w')"
    and es: "es = w_events w' @ (if n' = APPROVAL_GATE
       then case ts_request st' of Some q \<Rightarrow> pause_events D st' q | None \<Rightarrow> [] else [])"
  have pause: "one_terminal (xs @ pause_events D s q)" if "silent xs" for xs s q
    using that by (simp add: pause_events_def one_terminal_def Let_def butlast_append)
  from drive_terminal [OF d assms(2,3) _ assms(4)] show ?thesis
    using es pause by auto
qed

lemma session_paused_error:
  assumes "session P D L" and "ports_silent D" and "paused_state L thread = Some (st, q)"
  shows "ts_error st = None"
proof -
  define J where "J = (\<lambda>(t :: string) (x :: (node \<times> turn_state) option). \<forall>st. x = Some (APPROVAL_GATE, st) \<longrightarrow> ts_error st = None)"
  have "\<forall>t. J t (lp_threads L t)"
    using assms(1)
  proof (rule session_induct_run)
    show "J t None" for t by (simp add: J_def)
    show "J thread (Some (n, st))"
      if "drive fuel D MODEL (initial_state ms) ((lp_world L)\<lparr>w_events := []\<rparr>) = Some (n, st, w)"
      for L ms fuel thread n st w
      using drive_terminal [OF that _ _ _ assms(2)] by (auto simp: J_def initial_state_def)
    show "J thread (Some (n, st))"
      if "\<forall>t. J t (lp_threads L t)" "lp_threads L thread = Some (APPROVAL_GATE, s)"
        "drive fuel D TOOLS (s\<lparr>ts_request := None, ts_decisions := map (answer_for ds) (aq_tool_calls q)\<rparr>)
           ((lp_world L)\<lparr>w_events := []\<rparr>) = Some (n, st, w)"
      for L :: agent_loop and fuel thread s q ds n st w
    proof -
      have "ts_error s = None" using that(1,2) by (auto simp: J_def)
      with drive_terminal [OF that(3) _ _ _ assms(2)] show ?thesis by (auto simp: J_def)
    qed
  qed
  with assms(3) show ?thesis by (auto simp: J_def elim: paused_stateE)
qed

text \<open>C6: whatever a caller has done with the loop before, a turn that starts or resumes streams
  exactly one terminal event, a \<open>done\<close> or an \<open>error\<close>, as its last; a pause is announced by such a
  \<open>done\<close> too.  The ports the caller supplies must not emit terminal events of their own.\<close>

theorem turn_has_one_terminal_event:
  assumes "session P D L" and "ports_silent D"
  shows "(start fuel D ms thread L = Some (L', es) \<longrightarrow> one_terminal es)
    \<and> (resume fuel D answers thread L = Inr (Some (L', es)) \<longrightarrow> one_terminal es)"
proof (intro conjI impI)
  assume "start fuel D ms thread L = Some (L', es)"
  then show "one_terminal es"
    unfolding start_def by (rule run_from_terminal) (simp_all add: initial_state_def assms(2))
next
  assume "resume fuel D answers thread L = Inr (Some (L', es))"
  then obtain st q ds where r: "paused_state L thread = Some (st, q)"
    "run_from fuel D thread TOOLS
       (st\<lparr>ts_request := None, ts_decisions := map (answer_for ds) (aq_tool_calls q)\<rparr>) L = Some (L', es)"
    by (rule resumeE) simp
  from session_paused_error [OF assms r(1)] show "one_terminal es"
    by (intro run_from_terminal [OF r(2)]) (simp_all add: assms(2))
qed

theorem turn_has_one_terminal_event_witness:
  "\<exists>L es L' es'. start 9 demo_deps [] ''t'' fresh_loop = Some (L, es) \<and> one_terminal es
     \<and> resume 9 demo_deps [demo_approval] ''t'' L = Inr (Some (L', es')) \<and> one_terminal es'"
proof (rule demo_turn)
  fix L es L' es'
  assume run: "start 9 demo_deps [] ''t'' fresh_loop = Some (L, es)"
    "resume 9 demo_deps [demo_approval] ''t'' L = Inr (Some (L', es'))"
  have "session (\<lambda>ms. True) demo_deps L" by (rule demo_session [OF run(1)]) simp
  from turn_has_one_terminal_event [OF session.fresh demo_silent, of 9 "[]" "''t''" L es "[]"]
    turn_has_one_terminal_event [OF this demo_silent, of 9 "[]" "''t''" L' es' "[demo_approval]"] run
  show ?thesis by blast
qed

section \<open>Every call is answered before the model goes on\<close>

lemma due_append: "due out (xs @ ys) = (case due out xs of None \<Rightarrow> None | Some out' \<Rightarrow> due out' ys)"
  by (induction xs arbitrary: out) (auto split: option.split)

lemma due_outcomes:
  "mset (map (\<lambda>x. tc_id (oc_call x)) xs) \<subseteq># out \<Longrightarrow>
   due out (map outcome_message xs) = Some (out - mset (map (\<lambda>x. tc_id (oc_call x)) xs))"
proof (induction xs arbitrary: out)
  case (Cons x xs)
  then have "tc_id (oc_call x) \<in># out" "mset (map (\<lambda>x. tc_id (oc_call x)) xs) \<subseteq># out - {#tc_id (oc_call x)#}"
    by (auto simp: insert_subset_eq_iff)
  with Cons.IH [of "out - {#tc_id (oc_call x)#}"] show ?case
    by (simp add: outcome_message_def)
qed simp

lemma due_assistant: "due {#} [assistant_message content calls] = Some (mset (map tc_id calls))"
  by (simp add: assistant_message_def)

lemma partition_mset:
  assumes "partition_by_gate D calls ds = (now, deferred)"
  shows "mset (map tc_id calls) = mset (map tc_id now) + mset (map tc_id deferred)"
proof -
  define Q where "Q = (\<lambda>c :: tool_call. tc_id c \<in> (\<lambda>(c, _). tc_id c) ` set (gated_calls D calls) - dc_call ` set ds)"
  have parts: "now = filter (\<lambda>c. \<not> Q c) calls" "deferred = filter Q calls"
    using assms by (auto simp: partition_by_gate_def Let_def Q_def)
  have "mset (map tc_id calls) = mset (map tc_id (filter (\<lambda>c. \<not> Q c) calls)) + mset (map tc_id (filter Q calls))"
    by (induction calls) auto
  then show ?thesis by (simp only: parts)
qed

definition open_calls :: "turn_state \<Rightarrow> bool" where
  "open_calls st \<longleftrightarrow> due {#} (ts_messages st) = Some (mset (map tc_id (ts_pending st)))"

lemma tool_node_open_calls:
  assumes "tool_node D st w = (st', w')" and "open_calls st"
  shows "open_calls st'"
  using assms(1)
proof (cases rule: tool_nodeE)
  case (1 calls deferred xs es new)
  have m: "mset (map tc_id (ts_pending st)) = mset (map tc_id calls) + mset (map tc_id deferred)"
    by (rule partition_mset [OF 1(1)])
  have ids: "mset (map (\<lambda>x. tc_id (oc_call x)) xs) = mset (map tc_id calls)"
    using arg_cong [OF 1(2), of "\<lambda>cs. mset (map tc_id cs)"] by (simp add: comp_def)
  have "due (mset (map tc_id (ts_pending st))) (map outcome_message xs) = Some (mset (map tc_id deferred))"
    using due_outcomes [of xs "mset (map tc_id (ts_pending st))"] unfolding ids m by simp
  with assms(2) show ?thesis
    by (simp add: open_calls_def 1(3) due_append)
qed

lemma drive_answered:
  assumes "drive fuel D n st w = Some (n', st', w')" and "n = MODEL \<and> ts_pending st = [] \<or> n = TOOLS"
    and "open_calls st" and relief: "relief_keeps_answers D"
  shows "open_calls st' \<and> (\<exists>new. w_sent w' = w_sent w @ new \<and> (\<forall>r \<in> set new. every_call_answered (rq_messages r)))"
proof -
  define I where "I = (\<lambda>(n :: node) (s :: turn_state) (v :: turn_world).
     open_calls s \<and> (n = MODEL \<longrightarrow> ts_pending s = [])
     \<and> (\<exists>new. w_sent v = w_sent w @ new \<and> (\<forall>r \<in> set new. every_call_answered (rq_messages r))))"
  have "I n' st' w' \<and> halted n' st'"
  proof (rule drive_invariant [OF assms(1)])
    show "I n st w" using assms(2,3) by (auto simp: I_def)
  next
    fix n1 s v n2 s' v'
    assume I: "I n1 s v" and h: "\<not> halted n1 s" and st: "step D n1 s v = (n2, s', v')"
    from st h show "I n2 s' v'"
    proof (cases rule: step_cases)
      case model
      with I have idle: "ts_pending s = []" "every_call_answered (ts_messages s)"
        by (auto simp: I_def open_calls_def every_call_answered_def)
      have relieved: "every_call_answered ms" if "dp_relieve D (length (w_sent v)) (ts_messages s) = (ms, es)" for ms es
        using relief idle(2) that by (metis fst_conv relief_keeps_answers_def)
      have sent: "rq_messages (build_request D ms) = ms" for ms by (simp add: build_request_def Let_def)
      from model(2) show ?thesis
      proof (cases rule: model_nodeE)
        case (failed ms relief k es gs e)
        note ms = relieved [OF failed(1)]
        with failed idle have "open_calls s'" "ts_pending s' = []" by (auto simp: open_calls_def every_call_answered_def)
        with failed ms I show ?thesis by (auto simp: I_def sent)
      next
        case (answered ms relief k es gs calls content acc fin)
        note ms = relieved [OF answered(1)]
        then have "open_calls s'"
          using due_assistant by (simp add: answered(8) open_calls_def every_call_answered_def due_append)
        moreover have "n2 \<noteq> MODEL" by (simp add: model route_after_model_def)
        ultimately show ?thesis using answered ms I by (auto simp: I_def sent)
      qed
    next
      case tools
      then have "open_calls s'" using I tool_node_open_calls by (auto simp: I_def)
      with tools(2) show ?thesis
        by (cases rule: tool_nodeE) (use I tools in \<open>auto simp: I_def route_after_tools_def\<close>)
    qed (use I in \<open>auto simp: I_def approval_request_node_eq open_calls_def\<close>)
  qed
  then show ?thesis by (simp add: I_def)
qed

lemma open_calls_initial: "every_call_answered ms \<Longrightarrow> open_calls (initial_state ms)"
  by (simp add: open_calls_def every_call_answered_def initial_state_def)

lemma session_paused_open:
  assumes "session every_call_answered D L" and "relief_keeps_answers D" and "paused_state L thread = Some (st, q)"
  shows "open_calls st"
proof -
  define J where "J = (\<lambda>(t :: string) (x :: (node \<times> turn_state) option). \<forall>n st. x = Some (n, st) \<longrightarrow> open_calls st)"
  have "\<forall>t. J t (lp_threads L t)"
    using assms(1)
  proof (rule session_induct_run)
    show "J t None" for t by (simp add: J_def)
    show "J thread (Some (n, st))"
      if "every_call_answered ms"
        "drive fuel D MODEL (initial_state ms) ((lp_world L)\<lparr>w_events := []\<rparr>) = Some (n, st, w)"
      for L ms fuel thread n st w
      using drive_answered [OF that(2) _ open_calls_initial [OF that(1)] assms(2)]
      by (simp add: J_def initial_state_def)
    show "J thread (Some (n, st))"
      if "\<forall>t. J t (lp_threads L t)" "lp_threads L thread = Some (APPROVAL_GATE, s)"
        "drive fuel D TOOLS (s\<lparr>ts_request := None, ts_decisions := map (answer_for ds) (aq_tool_calls q)\<rparr>)
           ((lp_world L)\<lparr>w_events := []\<rparr>) = Some (n, st, w)"
      for L :: agent_loop and fuel thread s q ds n st w
    proof -
      have "open_calls s" using that(1,2) by (auto simp: J_def)
      then have "open_calls (s\<lparr>ts_request := None, ts_decisions := map (answer_for ds) (aq_tool_calls q)\<rparr>)"
        by (simp add: open_calls_def)
      from drive_answered [OF that(3) _ this assms(2)] show ?thesis by (simp add: J_def)
    qed
  qed
  with assms(3) show ?thesis by (auto simp: J_def elim: paused_stateE)
qed

text \<open>C5: in every request the model is sent, in any session of turns and resumptions, each tool call
  of the conversation has been answered exactly once, in the round that made it: the model is never
  asked to go on over a call that is open, denied and failed calls and calls of unknown tools
  included.  The conversations handed in must be closed, and trimming the history must keep them so.\<close>

theorem model_sees_every_call_answered:
  assumes "session every_call_answered D L" and relief: "relief_keeps_answers D"
    and "r \<in> set (w_sent (lp_world L))"
  shows "every_call_answered (rq_messages r)"
  using assms(1,3)
proof (induction arbitrary: r)
  case fresh
  then show ?case by (simp add: fresh_loop_def)
next
  case (started L ms fuel thread L' es)
  from started.hyps(3) show ?case unfolding start_def
  proof (rule run_fromE)
    fix n st w
    assume d: "drive fuel D MODEL (initial_state ms) ((lp_world L)\<lparr>w_events := []\<rparr>) = Some (n, st, w)"
      and L': "L' = L\<lparr>lp_threads := (lp_threads L)(thread \<mapsto> (n, st)), lp_world := w\<rparr>"
    from drive_answered [OF d _ open_calls_initial [OF started.hyps(2)] relief] show ?thesis
      using started.IH started.prems L' by (auto simp: initial_state_def)
  qed
next
  case (resumed L fuel answers thread L' es)
  from resumed.hyps(2) obtain s q ds where p: "paused_state L thread = Some (s, q)"
    and run: "run_from fuel D thread TOOLS
       (s\<lparr>ts_request := None, ts_decisions := map (answer_for ds) (aq_tool_calls q)\<rparr>) L = Some (L', es)"
    by (rule resumeE) simp
  have "open_calls (s\<lparr>ts_request := None, ts_decisions := map (answer_for ds) (aq_tool_calls q)\<rparr>)"
    using session_paused_open [OF resumed.hyps(1) relief p] by (simp add: open_calls_def)
  note answered = drive_answered [OF _ _ this relief]
  from run show ?case
    by (rule run_fromE) (use answered resumed.IH resumed.prems in fastforce)
qed

theorem model_sees_every_call_answered_witness:
  "\<exists>L :: agent_loop. length (w_sent (lp_world L)) = 2
     \<and> (\<forall>r \<in> set (w_sent (lp_world L)). every_call_answered (rq_messages r))"
proof (rule demo_turn)
  fix L es L' es'
  assume run: "start 9 demo_deps [] ''t'' fresh_loop = Some (L, es)"
    "resume 9 demo_deps [demo_approval] ''t'' L = Inr (Some (L', es'))" "length (w_sent (lp_world L')) = 2"
  have "session every_call_answered demo_deps L" by (rule demo_session [OF run(1)])
  then have "session every_call_answered demo_deps L'" using run(2) by (rule session.resumed)
  from model_sees_every_call_answered [OF this demo_relief]
  have "\<forall>r \<in> set (w_sent (lp_world L')). every_call_answered (rq_messages r)" by (intro ballI)
  with run(3) show ?thesis by (intro exI [of _ L'] conjI)
qed

end
