(* ===== verification/Agent_Turn.thy ===== *)
theory Agent_Turn
  imports Agent_Wire Agent_Graph_Properties Recording_Properties
begin

text \<open>
  One chat request served by the agent core: \<^verbatim>\<open>agent_service/stream.py\<close> (V2, with the reroute of
  a saturated model), \<^verbatim>\<open>v1_stream.py\<close>, and what \<^verbatim>\<open>endpoint.py\<close> settles of an abandoned one.

  An attempt runs the loop of \<open>Agent_Graph\<close> on a fresh store; its events are pulled one at a
  time, so a turn is settled between the event before \<open>done\<close> and the frame of \<open>done\<close>.  What
  the code builds around the loop is the record \<open>env\<close>: the loop's ports and the display names per
  attempt, the answer of the reroute port, and when the client cancels (by attempt and event).  The
  rows tools write themselves are not part of the billing state here; converting the request's
  messages, installing the request's contexts and closing the HTTP client are not modelled.
\<close>

record turn_request =
  rt_user_id :: uid
  rt_conversation_id :: string
  rt_model :: string
  rt_file_tools :: bool

record env =
  ev_quantize :: "usd \<Rightarrow> usd option"
  ev_catalog :: catalog
  ev_origin_of :: "uid \<Rightarrow> string \<Rightarrow> string option"
  ev_deps :: "nat \<Rightarrow> turn_request \<Rightarrow> deps"
  ev_display_names :: "nat \<Rightarrow> turn_request \<Rightarrow> (string \<times> string) list"
  ev_server_icons :: "nat \<Rightarrow> turn_request \<Rightarrow> (string \<times> json_dict) list"
  ev_alternative :: "turn_request \<Rightarrow> string list \<Rightarrow> turn_request option"
  ev_cancelled :: "nat \<Rightarrow> nat \<Rightarrow> bool"
  ev_messages :: "provider_message list"
  ev_contents :: "string list"
  ev_response_dict :: "exn \<Rightarrow> json_dict"

section \<open>One run on one model\<close>

datatype attempt_end = Completed | Failed error_event | Cancelled

definition settle :: "env \<Rightarrow> turn_request \<Rightarrow> turn_accounting \<Rightarrow> retry_state \<Rightarrow> turn_accounting \<times> retry_state" where
  "settle E turn a st = settle_turn (ev_quantize E) (ev_catalog E) (ev_origin_of E) (rt_user_id turn) (rt_model turn) a st"

text \<open>\<^verbatim>\<open>_events\<close> feeding \<^verbatim>\<open>V2Wire.frames\<close>, from event number \<open>i\<close> of attempt \<open>n\<close> on.\<close>

fun attempt_frames :: "env \<Rightarrow> v2_config \<Rightarrow> turn_request \<Rightarrow> nat \<Rightarrow> nat \<Rightarrow> stream_event list \<Rightarrow> v2_wire \<Rightarrow> retry_state
    \<Rightarrow> frame list \<times> attempt_end \<times> v2_wire \<times> retry_state" where
  "attempt_frames E cfg turn n i [] ws st = (flush (vw_held ws), Completed, ws, st)"
| "attempt_frames E cfg turn n i (e # es) ws st =
     (if ev_cancelled E n i then (flush (vw_held ws), Cancelled, ws, st)
      else case e of
        ErrorEvent er \<Rightarrow> (flush (vw_held ws), Failed er, ws, st)
      | _ \<Rightarrow>
          let (ws1, st1) = (case e of
                 DoneEvent d \<Rightarrow> (case settle E turn (vw_accounting ws) st of
                                  (a, st') \<Rightarrow> (ws\<lparr>vw_accounting := a\<rparr>, st'))
               | _ \<Rightarrow> (ws, st));
              (fs, ws2) = v2_event cfg e ws1;
              (gs, end, ws3, st3) = attempt_frames E cfg turn n (Suc i) es ws2 st1
          in (fs @ gs, end, ws3, st3))"

definition THREAD_ID :: "turn_request \<Rightarrow> nat \<Rightarrow> string" where
  "THREAD_ID turn n = ''v2-'' @ rt_conversation_id turn @ ''-'' @ string_of_nat n"

definition loop_events :: "deps \<Rightarrow> provider_message list \<Rightarrow> string \<Rightarrow> stream_event list" where
  "loop_events D ms thread = (case start (enough D) D ms thread fresh_loop of Some (L, es) \<Rightarrow> es | None \<Rightarrow> [])"

definition run_attempt :: "env \<Rightarrow> nat \<Rightarrow> turn_request \<Rightarrow> retry_state
    \<Rightarrow> frame list \<times> attempt_end \<times> v2_wire \<times> retry_state" where
  "run_attempt E n turn st =
     attempt_frames E
       \<lparr>vc_display_names = ev_display_names E n turn, vc_server_icons = ev_server_icons E n turn,
        vc_file_tools = rt_file_tools turn\<rparr>
       turn n 0 (loop_events (ev_deps E n turn) (ev_messages E) (THREAD_ID turn n)) new_v2_wire st"

section \<open>The turn\<close>

definition MAX_REROUTE_ATTEMPTS :: nat where "MAX_REROUTE_ATTEMPTS = 2"

definition is_rate_limited :: "error_event \<Rightarrow> bool" where
  "is_rate_limited e \<longleftrightarrow> map_of (the_default [] (er_extra e)) ''status_code'' = Some (JNum 429)"

definition cancelled_frame :: "string \<Rightarrow> frame" where
  "cancelled_frame model = (''done'',
     [(''model'', JStr model), (''finish_reason'', JStr ''cancelled''), (''usage'', JObj []), (''cost'', JNum 0)])"

definition reroute_frame :: "turn_request \<Rightarrow> turn_request \<Rightarrow> frame" where
  "reroute_frame t t' = (''sterna_reroute'', [(''from_model'', JStr (rt_model t)), (''to_model'', JStr (rt_model t'))])"

text \<open>What became of each attempt, in order: the request it ran, its end and its figures.\<close>

record turn_outcome =
  ot_turn :: turn_request
  ot_end :: attempt_end
  ot_accounting :: turn_accounting

definition conclude :: "turn_request \<Rightarrow> frame list \<times> attempt_end \<times> v2_wire \<times> retry_state \<Rightarrow> frame list" where
  "conclude turn r = (case r of (fs, end, _, _) \<Rightarrow>
     fs @ (case end of Completed \<Rightarrow> [] | Cancelled \<Rightarrow> [cancelled_frame (rt_model turn)] | Failed e \<Rightarrow> [v2_error_frame e]))"

definition alternative_for :: "env \<Rightarrow> turn_request \<Rightarrow> string list \<Rightarrow> attempt_end \<Rightarrow> turn_request option" where
  "alternative_for E turn excluded end = (case end of
      Failed e \<Rightarrow> if is_rate_limited e then ev_alternative E turn excluded else None
    | _ \<Rightarrow> None)"

fun attempts :: "env \<Rightarrow> nat \<Rightarrow> nat \<Rightarrow> turn_request \<Rightarrow> string list \<Rightarrow> retry_state
    \<Rightarrow> frame list \<times> turn_outcome list \<times> retry_state" where
  "attempts E 0 n turn excluded st =
     (let r = run_attempt E n turn st; (_, end, ws, st') = r
      in (conclude turn r, [\<lparr>ot_turn = turn, ot_end = end, ot_accounting = vw_accounting ws\<rparr>], st'))"
| "attempts E (Suc k) n turn excluded st =
     (let r = run_attempt E n turn st; (fs, end, ws, st') = r;
          excluded = excluded @ [rt_model turn];
          this = \<lparr>ot_turn = turn, ot_end = end, ot_accounting = vw_accounting ws\<rparr>
      in case alternative_for E turn excluded end of
           None \<Rightarrow> (conclude turn r, [this], st')
         | Some turn' \<Rightarrow>
             (case attempts E k (Suc n) turn' excluded st' of
                (gs, os, st'') \<Rightarrow> (fs @ reroute_frame turn turn' # gs, this # os, st'')))"

definition denial_frame :: "env \<Rightarrow> exn \<Rightarrow> frame" where
  "denial_frame E e = (''error'', dict_put ''code''
     (JStr (error_code_value (case e of FeatureNotAvailable _ _ _ \<Rightarrow> FEATURE_NOT_AVAILABLE | _ \<Rightarrow> QUOTA_EXCEEDED)))
     (ev_response_dict E e))"

definition v2_frames :: "env \<Rightarrow> turn_request \<Rightarrow> retry_state \<Rightarrow> frame list \<times> turn_outcome list \<times> retry_state" where
  "v2_frames E turn st =
     (case precheck_chat_quota (ev_catalog E) (rt_user_id turn) (rt_model turn) (ev_contents E) (base st) of
        (Some denial, w) \<Rightarrow> ([denial_frame E denial], [], st\<lparr>base := w\<rparr>)
      | (None, w) \<Rightarrow> attempts E MAX_REROUTE_ATTEMPTS 0 turn [] (st\<lparr>base := w\<rparr>))"

text \<open>\<^verbatim>\<open>_settle_abandoned\<close>: the generations to settle when the client went away.\<close>

definition settle_abandoned :: "bool \<Rightarrow> turn_accounting \<Rightarrow> string list option" where
  "settle_abandoned is_openrouter a =
     (if tu_settled a \<or> \<not> is_openrouter then None else Some (tu_generation_ids a))"

section \<open>The V1 turn\<close>

fun v1_events :: "env \<Rightarrow> turn_request \<Rightarrow> stream_event list \<Rightarrow> v1_wire \<Rightarrow> retry_state \<Rightarrow> frame list \<times> v1_wire \<times> retry_state" where
  "v1_events E turn [] ws st = ([], ws, st)"
| "v1_events E turn (e # es) ws st =
     (let (ws1, st1) = (case e of
             DoneEvent d \<Rightarrow> (case settle E turn (v1_accounting ws) st of (a, st') \<Rightarrow> (ws\<lparr>v1_accounting := a\<rparr>, st'))
           | _ \<Rightarrow> (ws, st));
          (fs, ws2) = v1_event e ws1;
          (gs, ws3, st3) = v1_events E turn es ws2 st1
      in (fs @ gs, ws3, st3))"

definition v1_frames :: "env \<Rightarrow> turn_request \<Rightarrow> retry_state \<Rightarrow> frame list \<times> retry_state" where
  "v1_frames E turn st =
     (case precheck_chat_quota (ev_catalog E) (rt_user_id turn) (rt_model turn) (ev_contents E) (base st) of
        (Some denial, w) \<Rightarrow> ([denial_frame E denial], st\<lparr>base := w\<rparr>)
      | (None, w) \<Rightarrow>
          (case v1_events E turn (loop_events (ev_deps E 0 turn) (ev_messages E) (''v1-'' @ rt_conversation_id turn))
                  new_v1_wire (st\<lparr>base := w\<rparr>) of (fs, _, st') \<Rightarrow> (fs, st')))"

section \<open>One attempt\<close>

lemma attempt_frames_other:
  assumes "\<not> terminal e" and "\<not> ev_cancelled E n i"
  shows "attempt_frames E cfg turn n i (e # es) ws st =
     (case v2_event cfg e ws of (fs, ws2) \<Rightarrow>
        (case attempt_frames E cfg turn n (Suc i) es ws2 st of (gs, end, ws3, st3) \<Rightarrow> (fs @ gs, end, ws3, st3)))"
  using assms by (cases e) (simp_all split: prod.split)

declare attempt_frames.simps(2) [simp del]

lemma attempt_frames_cancelled:
  "ev_cancelled E n i \<Longrightarrow> attempt_frames E cfg turn n i (e # es) ws st = (flush (vw_held ws), Cancelled, ws, st)"
  by (simp add: attempt_frames.simps(2))

definition ends_once :: "frame list \<Rightarrow> bool" where
  "ends_once fs \<longleftrightarrow> (\<exists>pre f. fs = pre @ [f] \<and> terminal_frame f \<and> quiet pre)"

lemma ends_once_append: "quiet fs \<Longrightarrow> ends_once gs \<Longrightarrow> ends_once (fs @ gs)"
proof -
  assume q: "quiet fs" and "ends_once gs"
  then obtain pre f where g: "gs = pre @ [f]" "terminal_frame f" "quiet pre" by (auto simp: ends_once_def)
  then show ?thesis unfolding ends_once_def by (intro exI [of _ "fs @ pre"] exI [of _ f]) (simp add: q)
qed

text \<open>An attempt's own frames end with a terminal one exactly when it completed.\<close>

lemma attempt_frames_shape:
  assumes "one_terminal es" and "held_ok ws"
  shows "case attempt_frames E cfg turn n i es ws st of (fs, end, ws', st') \<Rightarrow>
     (if end = Completed then ends_once fs else quiet fs)"
  using assms
proof (induction es arbitrary: i ws st)
  case (Cons e es)
  show ?case
  proof (cases "terminal e")
    case False
    with Cons.prems(1) have rest: "one_terminal es" by (auto simp: one_terminal_def split: if_splits)
    show ?thesis
    proof (cases "ev_cancelled E n i")
      case True
      then show ?thesis using Cons.prems(2) by (simp add: held_ok_def attempt_frames_cancelled)
    next
      case not_cancelled: False
      obtain fs ws2 where v: "v2_event cfg e ws = (fs, ws2)" by fastforce
      with v2_event_silent [OF False Cons.prems(2), of cfg] have q: "held_ok ws2" "quiet fs" by simp_all
      obtain gs fin ws3 st3 where r: "attempt_frames E cfg turn n (Suc i) es ws2 st = (gs, fin, ws3, st3)"
        by (metis prod.exhaust)
      from Cons.IH [OF rest q(1), of "Suc i" st] r q(2) show ?thesis
        by (simp add: attempt_frames_other [OF False not_cancelled] v ends_once_append)
    qed
  next
    case True
    with Cons.prems(1) have es: "es = []" by (auto simp: one_terminal_def split: if_splits)
    from True Cons.prems(2) show ?thesis
      by (cases e) (auto simp: attempt_frames.simps(2) es held_ok_def ends_once_def done_frame_def terminal_frame_def Let_def split: prod.split)
  qed
qed (simp add: one_terminal_def)

lemma loop_events_one_terminal:
  assumes "ports_silent D"
  shows "one_terminal (loop_events D ms thread)"
proof -
  obtain L es where s: "start (enough D) D ms thread fresh_loop = Some (L, es)"
    using run_from_returns [of MODEL D thread "initial_state ms" fresh_loop] by (auto simp: start_def)
  then have "one_terminal es"
    unfolding start_def by (rule run_from_terminal) (simp_all add: initial_state_def assms)
  with s show ?thesis by (simp add: loop_events_def)
qed

lemma held_ok_new: "held_ok new_v2_wire"
  by (simp add: held_ok_def new_v2_wire_def)

lemma run_attempt_shape:
  assumes "\<forall>n t. ports_silent (ev_deps E n t)"
  shows "case run_attempt E n turn st of (fs, end, ws', st') \<Rightarrow>
     (if end = Completed then ends_once fs else quiet fs)"
  unfolding run_attempt_def
  by (rule attempt_frames_shape [OF loop_events_one_terminal held_ok_new]) (simp add: assms)

lemma conclude_ends_once:
  assumes "\<forall>n t. ports_silent (ev_deps E n t)"
  shows "ends_once (conclude turn (run_attempt E n turn st))"
  using run_attempt_shape [OF assms, of n turn st]
  by (auto simp: conclude_def ends_once_def cancelled_frame_def v2_error_frame_def terminal_frame_def
      split: prod.splits attempt_end.splits)

lemma alternative_failed: "alternative_for E turn excluded end = Some t \<Longrightarrow> \<exists>e. end = Failed e \<and> is_rate_limited e"
  by (auto simp: alternative_for_def split: attempt_end.splits if_splits)

lemma attempts_shape:
  assumes "\<forall>n t. ports_silent (ev_deps E n t)"
  shows "case attempts E k n turn excluded st of (fs, os, st') \<Rightarrow>
     ends_once fs \<and> os \<noteq> [] \<and> length os \<le> Suc k
     \<and> list_all (\<lambda>x. \<exists>e. ot_end x = Failed e \<and> is_rate_limited e) (butlast os)"
proof (induction k arbitrary: n turn excluded st)
  case 0
  obtain fs fin ws st1 where "run_attempt E n turn st = (fs, fin, ws, st1)" by (metis prod.exhaust)
  with conclude_ends_once [OF assms, of turn n st] show ?case by simp
next
  case (Suc k)
  obtain fs fin ws st1 where r: "run_attempt E n turn st = (fs, fin, ws, st1)" by (metis prod.exhaust)
  show ?case
  proof (cases "alternative_for E turn (excluded @ [rt_model turn]) fin")
    case None
    with r show ?thesis using conclude_ends_once [OF assms, of turn n st] by simp
  next
    case (Some t)
    obtain gs os st2 where a: "attempts E k (Suc n) t (excluded @ [rt_model turn]) st1 = (gs, os, st2)"
      by (metis prod.exhaust)
    from alternative_failed [OF Some] obtain e where e: "fin = Failed e" "is_rate_limited e" by blast
    have "quiet (fs @ [reroute_frame turn t])"
      using run_attempt_shape [OF assms, of n turn st] r e by (simp add: reroute_frame_def terminal_frame_def)
    from ends_once_append [OF this, of gs] Suc.IH [of "Suc n" t "excluded @ [rt_model turn]" st1] a r Some e
    show ?thesis by simp
  qed
qed

text \<open>C10: a chat request's stream always ends, with exactly one terminal frame - \<open>done\<close>, or
  \<open>error\<close> - and nothing after it, whether the quota gate refused it, the client cancelled it, a
  provider failed or the turn was rerouted; it runs on at most three models, and goes on to another
  one only after a rate limit.\<close>

theorem v2_stream_ends_once:
  assumes "\<forall>n t. ports_silent (ev_deps E n t)"
  shows "case v2_frames E turn st of (fs, os, st') \<Rightarrow>
     ends_once fs \<and> length os \<le> 3
     \<and> list_all (\<lambda>x. \<exists>e. ot_end x = Failed e \<and> is_rate_limited e) (butlast os)"
proof -
  obtain d w where p: "precheck_chat_quota (ev_catalog E) (rt_user_id turn) (rt_model turn) (ev_contents E) (base st) = (d, w)"
    by fastforce
  show ?thesis
  proof (cases d)
    case None
    with p attempts_shape [OF assms, of MAX_REROUTE_ATTEMPTS 0 turn "[]" "st\<lparr>base := w\<rparr>"] show ?thesis
      by (auto simp: v2_frames_def MAX_REROUTE_ATTEMPTS_def split: prod.splits)
  next
    case (Some e)
    with p show ?thesis
      by (auto simp: v2_frames_def ends_once_def denial_frame_def terminal_frame_def)
  qed
qed

section \<open>A concrete request\<close>

definition demo_chat_deps :: deps where
  "demo_chat_deps = demo_deps\<lparr>dp_provider := (\<lambda>n r.
     ([ContentDeltaChunk ''ok'',
       UsageChunk \<lparr>u_prompt_tokens = 4, u_completion_tokens = 2, u_total_tokens = 6\<rparr> (Some (1 / 4)) None], None))\<rparr>"

definition demo_env :: env where
  "demo_env = \<lparr>ev_quantize = Some, ev_catalog = (\<lambda>m. Inr None), ev_origin_of = (\<lambda>u m. None),
     ev_deps = (\<lambda>n t. demo_chat_deps), ev_display_names = (\<lambda>n t. []), ev_server_icons = (\<lambda>n t. []),
     ev_alternative = (\<lambda>t ms. None), ev_cancelled = (\<lambda>n i. False), ev_messages = [], ev_contents = [],
     ev_response_dict = (\<lambda>e. [])\<rparr>"

definition demo_request :: turn_request where
  "demo_request = \<lparr>rt_user_id = ''ann'', rt_conversation_id = ''c'', rt_model = ''m'', rt_file_tools = True\<rparr>"

lemma demo_chat_silent: "ports_silent demo_chat_deps"
  by (simp add: ports_silent_def progress_silent_def demo_deps_def demo_chat_deps_def)

definition demo_usage :: usage where
  "demo_usage = \<lparr>u_prompt_tokens = 4, u_completion_tokens = 2, u_total_tokens = 6\<rparr>"

definition demo_done :: done_event where
  "demo_done = \<lparr>dn_model = ''m'', dn_finish_reason = FR_STOP, dn_usage = demo_usage, dn_cost = 1 / 4,
     dn_prompt_cost = Some 0, dn_completion_cost = Some 0, dn_tool_cost = None, dn_tool_calls = None,
     dn_awaiting_approval = None, dn_approval_count = None, dn_generation_id = None, dn_generation_ids = None\<rparr>"

lemma demo_chat_events:
  "loop_events demo_chat_deps [] ''v2-c-0'' =
     [ContentEvent ''ok'', UsageUpdateEvent \<lparr>ue_usage = demo_usage, ue_cost = 1 / 4, ue_prompt_cost = 0,
        ue_completion_cost = 0, ue_generation_id = [], ue_generation_ids = []\<rparr>, DoneEvent demo_done]"
  by code_simp

theorem v2_stream_ends_once_witness:
  "case v2_frames demo_env demo_request (demo_state demo_world) of (fs, os, st') \<Rightarrow>
     ends_once fs \<and> length os \<le> 3
     \<and> list_all (\<lambda>x. \<exists>e. ot_end x = Failed e \<and> is_rate_limited e) (butlast os)"
  by (rule v2_stream_ends_once) (simp add: demo_env_def demo_chat_silent)

section \<open>What \<open>done\<close> reports is what was settled\<close>

lemma dict_update_Nil [simp]: "dict_update d [] = d"
  and dict_update_Cons [simp]: "dict_update d ((k, v) # kvs) = dict_update (dict_put k v d) kvs"
  by (simp_all add: dict_update_def)

text \<open>Rebuilding a payload around the tool cost keeps every other field.\<close>

definition put_tool_cost :: "usd \<Rightarrow> (string \<times> json) \<Rightarrow> json_dict \<Rightarrow> json_dict" where
  "put_tool_cost c = (\<lambda>(k, v) d. let d = dict_put k v d
     in if k = ''completion_cost'' then dict_put ''tool_cost'' (JNum c) d else d)"

lemma put_tool_cost_other:
  "distinct (map fst kvs) \<Longrightarrow> k \<noteq> ''tool_cost'' \<Longrightarrow>
   map_of (fold (put_tool_cost c) kvs d) k = (case map_of kvs k of None \<Rightarrow> map_of d k | Some v \<Rightarrow> Some v)"
proof (induction kvs arbitrary: d)
  case (Cons kv kvs)
  obtain k' v' where kv: "kv = (k', v')" by fastforce
  have "map_of kvs k = None" if "k = k'" using Cons.prems(1) that kv by (auto simp: map_of_eq_None_iff)
  then show ?case
    using Cons by (auto simp: kv put_tool_cost_def Let_def split: option.split)
qed simp

lemma with_tool_cost_other:
  assumes "distinct (map fst kvs)" and "k \<noteq> ''tool_cost''"
  shows "map_of (with_tool_cost kvs c) k = map_of kvs k"
  using put_tool_cost_other [OF assms, of c "[]"] assms(2)
  unfolding with_tool_cost_def put_tool_cost_def [symmetric]
  by (simp add: Let_def split: option.splits)

lemma keys_present: "fst ` set (present kvs) \<subseteq> fst ` set kvs"
  by (induction kvs) (auto simp: present_def map_filter_simps split: option.splits)

lemma distinct_present: "distinct (map fst kvs) \<Longrightarrow> distinct (map fst (present kvs))"
proof (induction kvs)
  case (Cons kv kvs)
  obtain k v where kv: "kv = (k, v)" by fastforce
  have "present (kv # kvs) = (case v of None \<Rightarrow> present kvs | Some x \<Rightarrow> (k, x) # present kvs)"
    by (simp add: kv present_def map_filter_simps split: option.split)
  with Cons keys_present [of kvs] show ?case by (auto simp: kv split: option.splits)
qed (simp add: present_def map_filter_simps)

lemma distinct_done_payload: "distinct (map fst (done_payload d))"
  unfolding done_payload_def by (rule distinct_present) simp

lemma done_frame_totals:
  "map_of (snd (done_frame d a)) ''cost'' = Some (JNum (reported_cost a))
   \<and> map_of (snd (done_frame d a)) ''prompt_cost'' = Some (JNum (tu_prompt_cost a))
   \<and> map_of (snd (done_frame d a)) ''completion_cost'' = Some (JNum (tu_completion_cost a))
   \<and> map_of (snd (done_frame d a)) ''usage'' = Some (usage_payload
        \<lparr>u_prompt_tokens = tu_prompt_tokens a, u_completion_tokens = tu_completion_tokens a,
         u_total_tokens = tu_total_tokens a\<rparr>)"
proof -
  have "distinct (map fst (dict_update (done_payload d) (totals a)))"
    by (simp add: totals_def distinct_dict_put distinct_done_payload)
  from with_tool_cost_other [OF this] show ?thesis
    by (simp add: done_frame_def totals_def usage_payload_def)
qed

lemma attempt_frames_until_done:
  assumes "\<forall>e \<in> set pre. \<not> terminal e" and "\<forall>j. \<not> ev_cancelled E n j"
  shows "\<exists>fs ws'. attempt_frames E cfg turn n i (pre @ [DoneEvent d]) ws st =
     (fs @ [done_frame d (vw_accounting ws')], Completed, ws',
      snd (settle E turn (fold (account_event (\<lambda>x. x)) pre (vw_accounting ws)) st))
     \<and> vw_accounting ws' = fst (settle E turn (fold (account_event (\<lambda>x. x)) pre (vw_accounting ws)) st)"
  using assms(1)
proof (induction pre arbitrary: i ws)
  case Nil
  obtain a st' where "settle E turn (vw_accounting ws) st = (a, st')" by fastforce
  then show ?case using assms(2) by (simp add: attempt_frames.simps(2) Let_def)
next
  case (Cons e pre)
  obtain fs ws2 where v: "v2_event cfg e ws = (fs, ws2)" by fastforce
  then have "vw_accounting ws2 = account_event (\<lambda>x. x) e (vw_accounting ws)"
    using v2_event_accounting [of cfg e ws] by simp
  moreover from Cons.IH [of "Suc i" ws2] Cons.prems obtain gs ws' where
    "attempt_frames E cfg turn n (Suc i) (pre @ [DoneEvent d]) ws2 st =
      (gs @ [done_frame d (vw_accounting ws')], Completed, ws',
       snd (settle E turn (fold (account_event (\<lambda>x. x)) pre (vw_accounting ws2)) st))"
    "vw_accounting ws' = fst (settle E turn (fold (account_event (\<lambda>x. x)) pre (vw_accounting ws2)) st)"
    by auto
  ultimately show ?case using Cons.prems assms(2)
    by (intro exI [of _ "fs @ gs"] exI [of _ ws']) (simp add: attempt_frames_other v)
qed

lemma settle_keeps_figures:
  "fst (settle E turn a st) = a\<lparr>tu_settled := tu_settled (fst (settle E turn a st))\<rparr>"
  by (simp add: settle_def settle_turn_def split: prod.split)



text \<open>An attempt that fails is not settled, whatever its earlier generations spent.\<close>

lemma failed_attempt_settles_nothing:
  assumes "\<forall>e \<in> set pre. \<not> terminal e" and "\<forall>j. \<not> ev_cancelled E n j"
  shows "\<exists>fs ws'. attempt_frames E cfg turn n i (pre @ [ErrorEvent er]) ws st = (fs, Failed er, ws', st)
     \<and> vw_accounting ws' = fold (account_event (\<lambda>x. x)) pre (vw_accounting ws)"
  using assms(1)
proof (induction pre arbitrary: i ws)
  case Nil
  then show ?case using assms(2) by (simp add: attempt_frames.simps(2))
next
  case (Cons e pre)
  obtain fs ws2 where v: "v2_event cfg e ws = (fs, ws2)" by fastforce
  then have "vw_accounting ws2 = account_event (\<lambda>x. x) e (vw_accounting ws)"
    using v2_event_accounting [of cfg e ws] by simp
  with Cons.IH [of "Suc i" ws2] Cons.prems assms(2) show ?case
    by (auto simp: attempt_frames_other v)
qed

end
