(* ===== verification/Py_Text.thy ===== *)
theory Py_Text
  imports Sse_Wire
begin

text \<open>
  Strings and JSON values as Python code reads them: substrings, \<^verbatim>\<open>join\<close>, \<^verbatim>\<open>split\<close>, and the
  conversions \<^verbatim>\<open>int\<close> and \<^verbatim>\<open>Decimal(str(x))\<close>.  Strings are ASCII.
\<close>

section \<open>Substrings\<close>

fun suffixes :: "'a list \<Rightarrow> 'a list list" where
  "suffixes [] = [[]]"
| "suffixes (x # xs) = (x # xs) # suffixes xs"

definition starts_with :: "string \<Rightarrow> string \<Rightarrow> bool" where
  "starts_with p s \<longleftrightarrow> take (length p) s = p"

definition contains :: "string \<Rightarrow> string \<Rightarrow> bool" where
  "contains p s \<longleftrightarrow> list_ex (starts_with p) (suffixes s)"

section \<open>Lists of strings\<close>

fun join_with :: "string \<Rightarrow> string list \<Rightarrow> string" where
  "join_with sep [] = []"
| "join_with sep [s] = s"
| "join_with sep (s # t # ss) = s @ sep @ join_with sep (t # ss)"

section \<open>JSON values\<close>

fun is_list :: "json \<Rightarrow> bool" where
  "is_list (JList _) = True"
| "is_list _ = False"

definition first_some :: "'a option \<Rightarrow> 'a option \<Rightarrow> 'a option" where
  "first_some a b = (case a of None \<Rightarrow> b | Some _ \<Rightarrow> a)"

text \<open>\<^verbatim>\<open>int(x)\<close> of a JSON value; \<open>None\<close> where it raises.\<close>

definition int_of_json :: "json \<Rightarrow> int option" where
  "int_of_json j = (case j of
      JNum q \<Rightarrow> Some (if q < 0 then - \<lfloor>- q\<rfloor> else \<lfloor>q\<rfloor>)
    | JBool b \<Rightarrow> Some (if b then 1 else 0)
    | JStr s \<Rightarrow> int_of_string s
    | _ \<Rightarrow> None)"

text \<open>\<^verbatim>\<open>Decimal(str(x))\<close> of a JSON value; \<open>None\<close> where it raises.  The special values
  of a decimal are not read.\<close>

definition decimal_of_json :: "json \<Rightarrow> rat option" where
  "decimal_of_json j = (case j of JNum q \<Rightarrow> Some q | JStr s \<Rightarrow> py_float s | _ \<Rightarrow> None)"

end
