(* ===== verification/Smart_Router.thy ===== *)
theory Smart_Router
  imports Usage_Models Py_Text
begin

text \<open>
  The router behind the \<^verbatim>\<open>Auto\<close> model, \<^verbatim>\<open>llm/smart_router/\<close>: heuristics, the classifier,
  the choice from the routing pool, the running score of a conversation, and \<^verbatim>\<open>resolve\<close> with its
  reroute.  Messages are JSON values as the endpoint receives them; strings are ASCII, so the
  regular expressions are read over ASCII word characters, and the literal order of their
  alternatives does not matter because each is followed by a word boundary.

  The text of a text part is a string, as the serializers demand; a reasoning of the classifier that
  is not a string is read as none.

  Arguments of the operations: \<open>ask\<close> is one call of the classifying model (its reply and cost,
  \<open>None\<close> where the client raises), \<open>md5\<close> the hash of the cache key, \<open>name_of\<close> the display name of a
  model in the catalogue.  Latencies, metrics and log lines are not modelled; the decay
  \<^verbatim>\<open>0.85 ** n\<close> is exact.
\<close>

section \<open>Heuristics\<close>

record heuristic_result =
  hr_score :: int
  hr_confidence :: rat
  hr_has_images :: bool
  hr_has_code :: bool
  hr_is_trivial :: bool

definition REASONING_KEYWORDS :: "string list" where
  "REASONING_KEYWORDS =
     [''analyze'', ''debug'', ''refactor'', ''optimize'', ''architect'', ''design'',
      ''implement'', ''evaluate'', ''compare'', ''contrast'', ''explain'', ''prove'',
      ''derive'', ''synthesize'', ''critique'', ''review'', ''diagnose'', ''investigate'',
      ''troubleshoot'', ''benchmark'', ''migrate'', ''integrate'', ''decompose'']"

definition FILE_EXTENSIONS :: "string list" where
  "FILE_EXTENSIONS =
     [''py'', ''js'', ''ts'', ''tsx'', ''jsx'', ''java'', ''cpp'', ''c'', ''h'', ''go'', ''rs'', ''rb'', ''php'',
      ''cs'', ''swift'', ''kt'', ''scala'', ''r'', ''sql'', ''html'', ''css'', ''scss'', ''yaml'', ''yml'',
      ''json'', ''xml'', ''toml'', ''md'', ''csv'', ''xlsx'', ''pdf'']"

definition LATEX_COMMANDS :: "string list" where
  "LATEX_COMMANDS =
     [''frac'', ''int'', ''sum'', ''begin'', ''end'', ''alpha'', ''beta'', ''gamma'', ''delta'', ''theta'',
      ''lambda'', ''sigma'', ''partial'', ''nabla'']"

definition CODE_CHARS :: string where
  "CODE_CHARS = [CHR ''{'', CHR ''}'', CHR ''['', CHR '']'', CHR ''('', CHR '')'', CHR '';'', CHR 0x60, CHR ''~'',
     CHR ''<'', CHR ''>'', CHR ''|'', CHR 0x5C]"

definition word_char :: "char \<Rightarrow> bool" where
  "word_char c \<longleftrightarrow> is_digit c \<or> c = CHR ''_'' \<or>
     (let n = (of_char c :: nat) in 65 \<le> n \<and> n \<le> 90 \<or> 97 \<le> n \<and> n \<le> 122)"

definition ends_word :: "string \<Rightarrow> bool" where
  "ends_word s = (case s of [] \<Rightarrow> True | c # _ \<Rightarrow> \<not> word_char c)"

text \<open>\<^verbatim>\<open>FILE_EXTENSION_RE\<close>: a dot, an extension, a word boundary.\<close>

definition has_file_reference :: "string \<Rightarrow> bool" where
  "has_file_reference s \<longleftrightarrow>
     list_ex (\<lambda>t. list_ex (\<lambda>x. starts_with (CHR ''.'' # x) t \<and> ends_word (drop (Suc (length x)) t)) FILE_EXTENSIONS)
       (suffixes s)"

definition has_latex :: "string \<Rightarrow> bool" where
  "has_latex s \<longleftrightarrow> list_ex (\<lambda>x. contains (CHR 0x5C # x) s) LATEX_COMMANDS"

definition has_url :: "string \<Rightarrow> bool" where
  "has_url s \<longleftrightarrow> contains ''http://'' s \<or> contains ''https://'' s"

definition code_fence :: string where "code_fence = [CHR 0x60, CHR 0x60, CHR 0x60]"

text \<open>\<^verbatim>\<open>text.split()\<close>: the number of runs of characters that are not white space.\<close>

fun count_tokens :: "bool \<Rightarrow> string \<Rightarrow> nat" where
  "count_tokens inside [] = 0"
| "count_tokens inside (c # cs) =
     (if py_space c then count_tokens False cs
      else if inside then count_tokens True cs else Suc (count_tokens True cs))"

definition is_trivial_message :: "string \<Rightarrow> bool" where
  "is_trivial_message s \<longleftrightarrow>
     length s \<le> 30 \<and> count_tokens False s \<le> 3 \<and> \<not> list_ex (\<lambda>c. c \<in> set CODE_CHARS) s
     \<and> \<not> contains ''http'' (lower s)"

definition is_part :: "string \<Rightarrow> json \<Rightarrow> bool" where
  "is_part kind p \<longleftrightarrow> is_dict p \<and> jget p ''type'' = JStr kind"

definition any_images :: "json list \<Rightarrow> bool" where
  "any_images messages \<longleftrightarrow> list_ex (\<lambda>m. list_ex (is_part ''image_url'') (jelements (jget m ''content''))) messages"

definition text_parts :: "json list \<Rightarrow> string list" where
  "text_parts parts = map (\<lambda>p. the_default [] (jstr (jget p ''text''))) (filter (is_part ''text'') parts)"

text \<open>\<^verbatim>\<open>msg.get('content', '')\<close>: an absent key reads as the empty string.\<close>

definition content_of :: "json \<Rightarrow> json" where
  "content_of m = (case m of JObj kvs \<Rightarrow> (case map_of kvs ''content'' of None \<Rightarrow> JStr [] | Some c \<Rightarrow> c) | _ \<Rightarrow> JStr [])"

definition is_user :: "json \<Rightarrow> bool" where
  "is_user m \<longleftrightarrow> jget m ''role'' = JStr ''user''"

fun last_user_text :: "json list \<Rightarrow> string" where
  "last_user_text [] = []"
| "last_user_text (m # ms) =
     (if \<not> is_user m then last_user_text ms
      else case content_of m of
             JStr s \<Rightarrow> s
           | JList parts \<Rightarrow> join_with '' '' (text_parts parts)
           | _ \<Rightarrow> last_user_text ms)"

definition get_last_user_text :: "json list \<Rightarrow> string" where
  "get_last_user_text messages = last_user_text (rev messages)"

definition count_user_turns :: "json list \<Rightarrow> nat" where
  "count_user_turns messages = length (filter is_user messages)"

definition length_score :: "nat \<Rightarrow> int" where
  "length_score n = (if n < 50 then 0 else if n < 200 then 10 else if n < 500 then 20 else if n < 2000 then 35 else 50)"

definition turn_score :: "nat \<Rightarrow> int" where
  "turn_score n = (if 10 < n then 15 else if 5 < n then 8 else 0)"

definition looks_like_code :: "string \<Rightarrow> bool" where
  "looks_like_code s \<longleftrightarrow> contains code_fence s \<or> 3 < length (filter (\<lambda>c. c \<in> set CODE_CHARS) s)"

definition keyword_count :: "string \<Rightarrow> nat" where
  "keyword_count s = length (filter (\<lambda>kw. contains kw (lower s)) REASONING_KEYWORDS)"

definition raw_score :: "json list \<Rightarrow> int" where
  "raw_score messages =
     (let s = get_last_user_text messages
      in length_score (length s) + turn_score (count_user_turns messages)
         + (if any_images messages then 20 else 0) + (if has_file_reference s then 15 else 0)
         + (if looks_like_code s then 20 else 0) + (if has_latex s then 15 else 0)
         + (if has_url s then 5 else 0) + (if 3 \<le> keyword_count s then 25 else 0))"

definition confidence_of :: "int \<Rightarrow> rat" where
  "confidence_of score = (if score \<le> 15 then 9 / 10 else if 70 \<le> score then 85 / 100 else 1 / 2)"

definition score_message :: "json list \<Rightarrow> heuristic_result" where
  "score_message messages =
     (let s = get_last_user_text messages
      in if is_trivial_message s \<and> \<not> any_images messages
         then \<lparr>hr_score = 5, hr_confidence = 95 / 100, hr_has_images = False, hr_has_code = False, hr_is_trivial = True\<rparr>
         else let score = min (raw_score messages) 100
              in \<lparr>hr_score = score, hr_confidence = confidence_of score, hr_has_images = any_images messages,
                  hr_has_code = looks_like_code s, hr_is_trivial = False\<rparr>)"

section \<open>The classifier\<close>

record classified =
  cl_score :: int
  cl_reasoning :: string
  cl_capabilities :: json

record classification =
  cn_result :: classified
  cn_cost :: "rat option"
  cn_from_cache :: bool

definition truncate_message :: "string \<Rightarrow> nat \<Rightarrow> string \<times> nat" where
  "truncate_message s max_total =
     (let n = length s; half = max_total div 2
      in if n \<le> max_total then (s, n)
         else (take half s @ [CHR 0x0A, CHR 0x0A] @ ''[... '' @ string_of_nat (n - max_total) @ '' chars omitted ...]''
               @ [CHR 0x0A, CHR 0x0A] @ drop (n - half) s, n))"

text \<open>The text of a content; any other value cannot be sliced, and the code raises.\<close>

definition plain_content :: "json \<Rightarrow> string option" where
  "plain_content c = (case c of JStr s \<Rightarrow> Some s | JList parts \<Rightarrow> Some (join_with '' '' (text_parts parts)) | _ \<Rightarrow> None)"

definition history_line :: "json \<Rightarrow> string option" where
  "history_line m = map_option (\<lambda>t. the_default [] (jstr (jget m ''role'')) @ '': '' @ take 500 t) (plain_content (content_of m))"

text \<open>The latest turns before the last message, oldest first; \<open>None\<close> where it raises.\<close>

definition build_history_context :: "json list \<Rightarrow> nat \<Rightarrow> string option" where
  "build_history_context messages max_turns =
     (let turns = filter (\<lambda>m. jget m ''role'' \<in> {JStr ''user'', JStr ''assistant''}) (rev (butlast messages));
          recent = map history_line (take (max 1 max_turns) turns)
      in if recent = [] then Some []
         else if None \<in> set recent then None
         else Some (''Recent conversation context:'' @ [CHR 0x0A] @ join_with [CHR 0x0A] (rev (map the recent))
                @ [CHR 0x0A, CHR 0x0A]))"

text \<open>What is classified: the text of the last user message.\<close>

definition classified_text :: "json list \<Rightarrow> string" where
  "classified_text messages = (case find is_user (rev messages) of
      None \<Rightarrow> [] | Some m \<Rightarrow> the_default [] (plain_content (content_of m)))"

text \<open>\<^verbatim>\<open>\{.*?\}\s*```\<close>: the shortest object that a closing fence follows.\<close>

fun object_before_fence :: "string \<Rightarrow> string option" where
  "object_before_fence [] = None"
| "object_before_fence (c # cs) =
     (if c = CHR ''}'' \<and> starts_with code_fence (dropWhile py_space cs) then Some [c]
      else map_option (Cons c) (object_before_fence cs))"

definition fenced_object :: "string \<Rightarrow> string option" where
  "fenced_object s =
     (let bodies = map (\<lambda>t. let r = drop 3 t; r = (if starts_with ''json'' r then drop 4 r else r) in dropWhile py_space r)
                     (filter (starts_with code_fence) (suffixes s))
      in case List.map_filter (\<lambda>b. if starts_with ''{'' b then object_before_fence b else None) bodies of
           [] \<Rightarrow> None | x # _ \<Rightarrow> Some x)"

definition brace :: "char \<Rightarrow> bool" where "brace c \<longleftrightarrow> c = CHR ''{'' \<or> c = CHR ''}''"

text \<open>The first brace-free object that names the score.\<close>

definition flat_object :: "string \<Rightarrow> string option" where
  "flat_object s =
     (case List.map_filter (\<lambda>t. case t of
             [] \<Rightarrow> None
           | c # cs \<Rightarrow>
               let body = takeWhile (\<lambda>d. \<not> brace d) cs; rest = dropWhile (\<lambda>d. \<not> brace d) cs
               in if c = CHR ''{'' \<and> starts_with ''}'' rest \<and> contains (CHR 0x22 # ''complexity_score'' @ [CHR 0x22]) body
                  then Some (c # body @ ''}'') else None)
         (suffixes s) of [] \<Rightarrow> None | x # _ \<Rightarrow> Some x)"

definition extract_json :: "string \<Rightarrow> json option" where
  "extract_json s = first_some (loads s)
     (first_some (Option.bind (fenced_object s) loads) (Option.bind (flat_object s) loads))"

definition read_classification :: "string \<Rightarrow> classified option" where
  "read_classification reply = (case extract_json reply of
      Some (JObj kvs) \<Rightarrow>
        (case map_of kvs ''complexity_score'' of
           None \<Rightarrow> None
         | Some v \<Rightarrow> map_option (\<lambda>n.
              \<lparr>cl_score = max 0 (min 100 n), cl_reasoning = the_default [] (jstr (jget (JObj kvs) ''reasoning'')),
               cl_capabilities = the_default (JObj []) (map_of kvs ''capabilities_needed'')\<rparr>) (int_of_json v))
    | _ \<Rightarrow> None)"

section \<open>State\<close>

record pool_row =
  pr_model_id :: string
  pr_cost_tier :: string
  pr_min_score :: int
  pr_max_score :: int
  pr_priority :: int
  pr_active :: bool
  pr_reasoning :: bool
  pr_modalities :: "string list"
  pr_max_tokens :: "int option"

record conversation_score =
  cs_current :: int
  cs_max :: int
  cs_turns :: int
  cs_last_model :: string
  cs_simple_turns :: int

record routing_log =
  rl_user :: uid
  rl_conversation :: string
  rl_tier :: nat
  rl_final_score :: int
  rl_model :: string
  rl_rerouted_from :: "string option"

record router_state =
  rs_now :: datetime
  rs_pool :: "pool_row list"
  rs_pool_cache :: "(datetime \<times> pool_row list) option"
  rs_classified :: "string \<Rightarrow> (datetime \<times> classified) option"
  rs_scores :: "string \<times> uid \<Rightarrow> conversation_score option"
  rs_log :: "routing_log list"

definition cached_until :: "datetime \<Rightarrow> (datetime \<times> 'a) option \<Rightarrow> 'a option" where
  "cached_until t c = (case c of Some (expiry, x) \<Rightarrow> if t < expiry then Some x else None | None \<Rightarrow> None)"

definition ROUTER_CACHE_TTL :: timedelta where "ROUTER_CACHE_TTL = seconds 300"

definition CLASSIFICATION_PROMPT_KEY :: "(string \<Rightarrow> string) \<Rightarrow> string \<Rightarrow> string" where
  "CLASSIFICATION_PROMPT_KEY md5 s = ''smart_router:classify:'' @ md5 (take 500 s)"

text \<open>The outer \<open>None\<close> is an exception that leaves the function, the inner one its answer \<^verbatim>\<open>None\<close>.\<close>

definition classify_message ::
  "(nat \<Rightarrow> string \<Rightarrow> (string \<times> rat option) option) \<Rightarrow> (string \<Rightarrow> string) \<Rightarrow> json list \<Rightarrow> router_state
   \<Rightarrow> classification option option \<times> router_state" where
  "classify_message ask md5 messages rs =
     (let s = classified_text messages; key = CLASSIFICATION_PROMPT_KEY md5 s
      in if s = [] then (Some None, rs)
         else case cached_until (rs_now rs) (rs_classified rs key) of
           Some c \<Rightarrow> (Some (Some \<lparr>cn_result = c, cn_cost = None, cn_from_cache = True\<rparr>), rs)
         | None \<Rightarrow>
             let (shown, original_length) = truncate_message s 1000
             in case build_history_context messages 3 of
                  None \<Rightarrow> (None, rs)
                | Some history \<Rightarrow>
                    (case Option.bind (ask original_length (history @ ''User message:'' @ [CHR 0x0A] @ shown))
                            (\<lambda>(reply, cost). map_option (\<lambda>c. (c, cost)) (read_classification reply)) of
                       None \<Rightarrow> (Some None, rs)
                     | Some (c, cost) \<Rightarrow>
                         (Some (Some \<lparr>cn_result = c, cn_cost = cost, cn_from_cache = False\<rparr>),
                          rs\<lparr>rs_classified := (rs_classified rs)(key \<mapsto> (rs_now rs + ROUTER_CACHE_TTL, c))\<rparr>)))"

section \<open>The pool\<close>

definition FALLBACK_MODEL :: string where "FALLBACK_MODEL = ''google/gemini-2.0-flash-001''"

definition tier_rank :: "string \<Rightarrow> int" where
  "tier_rank t = (if t = ''budget'' then 0 else if t = ''balanced'' then 1 else if t = ''premium'' then 2 else 99)"

text \<open>Budget first, then the higher priority: two stable sorts, the last one on the tier.\<close>

definition sort_pool :: "pool_row list \<Rightarrow> pool_row list" where
  "sort_pool rows = sort_key (\<lambda>e. tier_rank (pr_cost_tier e)) (sort_key (\<lambda>e. - pr_priority e) rows)"

definition load_pool :: "router_state \<Rightarrow> pool_row list \<times> router_state" where
  "load_pool rs = (case cached_until (rs_now rs) (rs_pool_cache rs) of
      Some pool \<Rightarrow> (pool, rs)
    | None \<Rightarrow> let pool = sort_pool (filter pr_active (rs_pool rs))
              in (pool, rs\<lparr>rs_pool_cache := Some (rs_now rs + ROUTER_CACHE_TTL, pool)\<rparr>))"

record needs =
  nd_vision :: bool
  nd_reasoning :: bool
  nd_long_context :: bool

definition capable :: "needs \<Rightarrow> pool_row \<Rightarrow> bool" where
  "capable nd e \<longleftrightarrow> (nd_vision nd \<longrightarrow> ''image'' \<in> set (pr_modalities e)) \<and> (nd_reasoning nd \<longrightarrow> pr_reasoning e)
     \<and> (nd_long_context nd \<longrightarrow> 100000 \<le> the_default 0 (pr_max_tokens e))"

definition in_range :: "int \<Rightarrow> pool_row \<Rightarrow> bool" where
  "in_range score e \<longleftrightarrow> pr_min_score e \<le> score \<and> score \<le> pr_max_score e"

definition suits :: "int \<Rightarrow> needs \<Rightarrow> string list \<Rightarrow> pool_row \<Rightarrow> bool" where
  "suits score nd excluded e \<longleftrightarrow> pr_model_id e \<notin> set excluded \<and> in_range score e \<and> capable nd e"

definition pick_model :: "pool_row list \<Rightarrow> int \<Rightarrow> needs \<Rightarrow> string list \<Rightarrow> string \<times> string" where
  "pick_model pool score nd excluded = (case find (suits score nd excluded) pool of
      Some e \<Rightarrow> (pr_model_id e, pr_cost_tier e)
    | None \<Rightarrow> (case find (\<lambda>e. pr_model_id e \<notin> set excluded) (rev pool) of
        Some e \<Rightarrow> (pr_model_id e, pr_cost_tier e)
      | None \<Rightarrow> (FALLBACK_MODEL, ''budget'')))"

definition select_model :: "int \<Rightarrow> needs \<Rightarrow> string list \<Rightarrow> router_state \<Rightarrow> (string \<times> string) \<times> router_state" where
  "select_model score nd excluded rs = (case load_pool rs of (pool, rs') \<Rightarrow> (pick_model pool score nd excluded, rs'))"

section \<open>The score of a conversation\<close>

definition DECAY_FACTOR :: rat where "DECAY_FACTOR = 85 / 100"
definition DOWNGRADE_THRESHOLD :: int where "DOWNGRADE_THRESHOLD = 3"
definition SIMPLE_SCORE_CEILING :: int where "SIMPLE_SCORE_CEILING = 25"

definition get_conversation_score :: "string \<Rightarrow> uid \<Rightarrow> router_state \<Rightarrow> int" where
  "get_conversation_score c u rs = (case rs_scores rs (c, u) of
      None \<Rightarrow> 0
    | Some r \<Rightarrow>
        if DOWNGRADE_THRESHOLD \<le> cs_simple_turns r
        then \<lfloor>of_int (cs_current r) * DECAY_FACTOR ^ nat (cs_simple_turns r - DOWNGRADE_THRESHOLD + 1)\<rfloor>
        else cs_current r)"

definition update_conversation_score :: "string \<Rightarrow> uid \<Rightarrow> int \<Rightarrow> string \<Rightarrow> router_state \<Rightarrow> router_state" where
  "update_conversation_score c u new_score model rs =
     (let simple = new_score < SIMPLE_SCORE_CEILING;
          r' = (case rs_scores rs (c, u) of
                  None \<Rightarrow> \<lparr>cs_current = new_score, cs_max = new_score, cs_turns = 1, cs_last_model = model,
                             cs_simple_turns = (if simple then 1 else 0)\<rparr>
                | Some r \<Rightarrow>
                    if simple
                    then r\<lparr>cs_simple_turns := cs_simple_turns r + 1, cs_turns := cs_turns r + 1, cs_last_model := model\<rparr>
                    else r\<lparr>cs_simple_turns := 0, cs_turns := cs_turns r + 1, cs_current := max (cs_current r) new_score,
                           cs_max := max (cs_max r) new_score, cs_last_model := model\<rparr>)
      in rs\<lparr>rs_scores := (rs_scores rs)((c, u) \<mapsto> r')\<rparr>)"

section \<open>Resolution\<close>

record resolution =
  rz_model_id :: string
  rz_model_name :: string
  rz_tier :: nat
  rz_heuristic_score :: int
  rz_llm_score :: "int option"
  rz_final_score :: int
  rz_cost_tier :: string
  rz_reason :: string
  rz_cost :: "rat option"
  rz_has_images :: bool
  rz_has_code :: bool
  rz_prompt_length :: nat

fun prompt_length :: "json list \<Rightarrow> nat" where
  "prompt_length [] = 0"
| "prompt_length (m # ms) =
     (if \<not> is_user m then prompt_length ms
      else case content_of m of
             JStr s \<Rightarrow> length s
           | JList parts \<Rightarrow> sum_list (map length (text_parts parts))
           | _ \<Rightarrow> prompt_length ms)"

definition get_prompt_length :: "json list \<Rightarrow> nat" where
  "get_prompt_length messages = prompt_length (rev messages)"

definition AUTO_ROUTER_MODEL_ID :: string where "AUTO_ROUTER_MODEL_ID = ''ornithops/sterna''"

definition is_auto_router_model :: "string \<Rightarrow> bool" where
  "is_auto_router_model m \<longleftrightarrow> m \<noteq> [] \<and> takeWhile (\<lambda>c. c \<noteq> CHR '':'') m = AUTO_ROUTER_MODEL_ID"

definition wants :: "json \<Rightarrow> string \<Rightarrow> bool" where
  "wants caps k \<longleftrightarrow> truthy (jget caps k)"

record request_context =
  rc_conversation :: "string option"
  rc_user :: "uid option"
  rc_excluded :: "string list"
  rc_min_score :: "int option"

text \<open>The conversation and the user, when there are both.\<close>

definition tracked :: "request_context \<Rightarrow> (string \<times> uid) option" where
  "tracked rc = (case (rc_conversation rc, rc_user rc) of
      (Some c, Some u) \<Rightarrow> if c = [] then None else Some (c, u) | _ \<Rightarrow> None)"

record router_ports =
  rp_ask :: "nat \<Rightarrow> string \<Rightarrow> (string \<times> rat option) option"
  rp_md5 :: "string \<Rightarrow> string"
  rp_name_of :: "string \<Rightarrow> string"

text \<open>Step 4: what the classifier adds, and why.\<close>

definition second_tier :: "router_ports \<Rightarrow> heuristic_result \<Rightarrow> request_context \<Rightarrow> json list \<Rightarrow> router_state
    \<Rightarrow> (classification option \<times> string) option \<times> router_state" where
  "second_tier P h rc messages rs =
     (if hr_is_trivial h then (Some (None, ''trivial message''), rs)
      else if hr_score h \<le> 15 \<and> 85 / 100 \<le> hr_confidence h then (Some (None, ''simple message (high confidence)''), rs)
      else if hr_confidence h < 85 / 100 \<and> rc_min_score rc = None
      then (case classify_message (rp_ask P) (rp_md5 P) messages rs of
              (None, rs') \<Rightarrow> (None, rs')
            | (Some (Some c), rs') \<Rightarrow>
                let reason = str_or (cl_reasoning (cn_result c)) ''LLM classification''
                in (Some (Some c, if cn_from_cache c then ''(cached) '' @ reason else reason), rs')
            | (Some None, rs') \<Rightarrow> (Some (None, ''Tier 2 failed, using heuristic''), rs'))
      else (Some (None, ''heuristic score '' @ string_of_int (hr_score h)), rs))"

text \<open>The capabilities are read with \<^verbatim>\<open>caps.get\<close>, which only an object has.\<close>

definition caps_readable :: "classification option \<Rightarrow> bool" where
  "caps_readable c = (case c of None \<Rightarrow> True | Some c \<Rightarrow> is_dict (cl_capabilities (cn_result c)))"

definition needs_of :: "heuristic_result \<Rightarrow> classification option \<Rightarrow> needs" where
  "needs_of h c = (case c of
      None \<Rightarrow> \<lparr>nd_vision = hr_has_images h, nd_reasoning = False, nd_long_context = False\<rparr>
    | Some c \<Rightarrow>
        let caps = cl_capabilities (cn_result c)
        in \<lparr>nd_vision = hr_has_images h \<or> wants caps ''vision'', nd_reasoning = wants caps ''reasoning'',
            nd_long_context = wants caps ''long_context''\<rparr>)"

definition effective_score :: "heuristic_result \<Rightarrow> request_context \<Rightarrow> classification option \<Rightarrow> int" where
  "effective_score h rc c =
     max (max (hr_score h) (the_default (hr_score h) (rc_min_score rc)))
         (case c of None \<Rightarrow> hr_score h | Some c \<Rightarrow> cl_score (cn_result c))"

text \<open>Steps 5 to 9, once the message is classified.\<close>

definition resolve_with :: "router_ports \<Rightarrow> json list \<Rightarrow> request_context \<Rightarrow> heuristic_result \<Rightarrow> int
    \<Rightarrow> classification option \<Rightarrow> string \<Rightarrow> router_state \<Rightarrow> resolution \<times> router_state" where
  "resolve_with P messages rc h conv_score c reason rs =
     (let final_score = max (effective_score h rc c) conv_score;
          ((model, cost_tier), rs) = select_model final_score (needs_of h c) (rc_excluded rc) rs;
          rs = (case tracked rc of Some (cv, u) \<Rightarrow> update_conversation_score cv u final_score model rs | None \<Rightarrow> rs);
          tier = (if c = None then 1 else 2);
          rs = (case rc_user rc of
                  Some u \<Rightarrow> rs\<lparr>rs_log := rs_log rs @ [\<lparr>rl_user = u, rl_conversation = the_default [] (rc_conversation rc),
                     rl_tier = tier, rl_final_score = final_score, rl_model = model, rl_rerouted_from = None\<rparr>]\<rparr>
                | None \<Rightarrow> rs)
      in (\<lparr>rz_model_id = model, rz_model_name = rp_name_of P model, rz_tier = tier, rz_heuristic_score = hr_score h,
           rz_llm_score = map_option (\<lambda>c. cl_score (cn_result c)) c, rz_final_score = final_score,
           rz_cost_tier = cost_tier, rz_reason = reason, rz_cost = Option.bind c cn_cost,
           rz_has_images = hr_has_images h, rz_has_code = hr_has_code h,
           rz_prompt_length = get_prompt_length messages\<rparr>, rs))"

text \<open>\<open>None\<close> where an exception leaves \<^verbatim>\<open>resolve\<close>.\<close>

definition resolve :: "router_ports \<Rightarrow> json list \<Rightarrow> request_context \<Rightarrow> router_state \<Rightarrow> resolution option \<times> router_state" where
  "resolve P messages rc rs =
     (let h = score_message messages;
          conv_score = (case tracked rc of Some (c, u) \<Rightarrow> get_conversation_score c u rs | None \<Rightarrow> 0)
      in case second_tier P h rc messages rs of
           (None, rs) \<Rightarrow> (None, rs)
         | (Some (c, reason), rs) \<Rightarrow>
             if caps_readable c
             then (case resolve_with P messages rc h conv_score c reason rs of (z, rs) \<Rightarrow> (Some z, rs))
             else (None, rs))"

definition reroute_on_rate_limit :: "router_ports \<Rightarrow> string \<Rightarrow> json list \<Rightarrow> string option \<Rightarrow> uid option \<Rightarrow> string list
    \<Rightarrow> router_state \<Rightarrow> string option \<times> router_state" where
  "reroute_on_rate_limit P failed messages conversation u excluded rs =
     (let excluded = (if failed \<in> set excluded then excluded else excluded @ [failed])
      in case resolve P messages \<lparr>rc_conversation = conversation, rc_user = u, rc_excluded = excluded, rc_min_score = None\<rparr> rs of
           (None, rs') \<Rightarrow> (None, rs')
         | (Some z, rs') \<Rightarrow>
             if rz_model_id z = failed then (None, rs')
             else (Some (rz_model_id z),
                   (case u of
                      None \<Rightarrow> rs'
                    | Some v \<Rightarrow> rs'\<lparr>rs_log := rs_log rs' @ [\<lparr>rl_user = v, rl_conversation = the_default [] conversation,
                        rl_tier = rz_tier z, rl_final_score = rz_final_score z, rl_model = rz_model_id z,
                        rl_rerouted_from = Some failed\<rparr>]\<rparr>)))"

end
