(* ===== verification/Router_Properties.thy ===== *)
theory Router_Properties
  imports Smart_Router
begin

text \<open>
  What the router guarantees: scores stay on their scale, the model chosen is the cheapest that
  suits, a reroute leaves the models already tried, and how the score of a conversation moves.
\<close>

section \<open>Scores\<close>

lemma raw_score_nonneg: "0 \<le> raw_score messages"
  by (simp add: raw_score_def Let_def length_score_def turn_score_def)

lemma heuristic_score_bounds: "0 \<le> hr_score (score_message messages) \<and> hr_score (score_message messages) \<le> 100"
  using raw_score_nonneg [of messages] by (simp add: score_message_def Let_def)

lemma classified_score_bounds: "read_classification reply = Some c \<Longrightarrow> 0 \<le> cl_score c \<and> cl_score c \<le> 100"
  by (auto simp: read_classification_def split: option.splits json.splits)

section \<open>The pool\<close>

definition cheaper :: "pool_row \<Rightarrow> pool_row \<Rightarrow> bool" where
  "cheaper e e' \<longleftrightarrow> tier_rank (pr_cost_tier e) < tier_rank (pr_cost_tier e') \<or>
     tier_rank (pr_cost_tier e) = tier_rank (pr_cost_tier e') \<and> pr_priority e' \<le> pr_priority e"

lemma cheaper_at:
  "tier_rank (pr_cost_tier a) < tier_rank (pr_cost_tier b) \<Longrightarrow> cheaper a b"
  "cheaper a b \<longleftrightarrow> tier_rank (pr_cost_tier a) < tier_rank (pr_cost_tier b) \<or>
     tier_rank (pr_cost_tier a) = tier_rank (pr_cost_tier b) \<and> pr_priority b \<le> pr_priority a"
  by (auto simp: cheaper_def)

lemma insort_key_sorted_wrt:
  assumes "sorted_wrt R xs" and "\<And>y. y \<in> set xs \<Longrightarrow> R x y"
    and trans: "\<And>a b c. f a < f b \<Longrightarrow> R' a b" "\<And>a b. R' a b \<longleftrightarrow> f a < f b \<or> f a = f b \<and> R a b"
    and "sorted_wrt R' xs'" and "set xs' = set xs"
  shows "sorted_wrt R' (insort_key f x xs')"
  using assms(5,6,2)
proof (induction xs' arbitrary: xs)
  case (Cons y ys)
  show ?case
  proof (cases "f x \<le> f y")
    case True
    have "R' x z" if "z \<in> set (y # ys)" for z
    proof -
      have "R x z" using Cons.prems that by auto
      moreover have "f x \<le> f z"
        using True that Cons.prems(1) trans(2) by (auto intro: order_trans less_imp_le)
      ultimately show ?thesis using trans(2) by (cases "f x = f z") auto
    qed
    with True Cons.prems(1) show ?thesis by simp
  next
    case False
    then have lt: "R' y x" using trans(1) by simp
    have ys: "sorted_wrt R' ys" "\<forall>z \<in> set ys. R' y z" using Cons.prems(1) by auto
    have "sorted_wrt R' (insort_key f x ys)"
      using Cons.IH [OF ys(1) refl] Cons.prems(2,3) by auto
    with False lt ys(2) show ?thesis by (auto simp: set_insort_key)
  qed
qed simp

lemma sort_pool_sorted: "sorted_wrt cheaper (sort_pool rows)"
proof -
  let ?f = "\<lambda>e :: pool_row. tier_rank (pr_cost_tier e)"
  let ?R = "\<lambda>a b :: pool_row. pr_priority b \<le> pr_priority a"
  have "sorted_wrt cheaper (sort_key ?f xs)" if "sorted_wrt ?R xs" for xs
    using that
  proof (induction xs)
    case (Cons x xs)
    then have "sorted_wrt ?R xs" "\<forall>y \<in> set xs. ?R x y" "sorted_wrt cheaper (sort_key ?f xs)" by auto
    then have "sorted_wrt cheaper (insort_key ?f x (sort_key ?f xs))"
      by (intro insort_key_sorted_wrt [of ?R xs x ?f cheaper]) (blast | rule cheaper_at | assumption | simp)+
    then show ?case by (simp add: sort_key_def)
  qed simp
  moreover have "sorted_wrt ?R (sort_key (\<lambda>e. - pr_priority e) rows)"
    using sorted_sort_key [of "\<lambda>e. - pr_priority e" rows] by (simp add: sorted_wrt_map)
  ultimately show ?thesis by (simp add: sort_pool_def)
qed

text \<open>The pool kept in the cache is one that was loaded.\<close>

definition pool_cache_ok :: "router_state \<Rightarrow> bool" where
  "pool_cache_ok rs \<longleftrightarrow> (\<forall>expiry pool. rs_pool_cache rs = Some (expiry, pool) \<longrightarrow> sorted_wrt cheaper pool)"

lemma load_pool_sorted:
  assumes "pool_cache_ok rs"
  shows "sorted_wrt cheaper (fst (load_pool rs)) \<and> pool_cache_ok (snd (load_pool rs))"
  using assms sort_pool_sorted
  by (auto simp: load_pool_def pool_cache_ok_def cached_until_def Let_def split: option.splits if_splits)

lemma find_sorted:
  assumes "sorted_wrt R xs" and "find P xs = Some x" and "y \<in> set xs" and "P y" and "\<And>a. R a a"
  shows "R x y"
  using assms(1-4) by (induction xs) (auto simp: assms(5) split: if_splits)

lemma find_Some_mem: "find P xs = Some x \<Longrightarrow> x \<in> set xs \<and> P x"
  by (induction xs) (auto split: if_splits)

lemma select_model_pick: "fst (select_model score nd ex rs) = pick_model (fst (load_pool rs)) score nd ex"
  by (simp add: select_model_def split: prod.split)


definition demo_pool_row :: "string \<Rightarrow> string \<Rightarrow> string list \<Rightarrow> int \<Rightarrow> pool_row" where
  "demo_pool_row m tier modalities lo = \<lparr>pr_model_id = m, pr_cost_tier = tier, pr_min_score = lo, pr_max_score = 100,
     pr_priority = 0, pr_active = True, pr_reasoning = False, pr_modalities = modalities, pr_max_tokens = None\<rparr>"

definition demo_router :: router_state where
  "demo_router = \<lparr>rs_now = 0,
     rs_pool = [demo_pool_row ''big'' ''premium'' [] 0, demo_pool_row ''eye'' ''budget'' [''image''] 0, demo_pool_row ''mid'' ''balanced'' [] 30],
     rs_pool_cache = None, rs_classified = (\<lambda>k. None), rs_scores = (\<lambda>k. None), rs_log = []\<rparr>"

definition demo_needs :: needs where
  "demo_needs = \<lparr>nd_vision = False, nd_reasoning = False, nd_long_context = False\<rparr>"

lemma demo_pool_ok: "pool_cache_ok demo_router"
  by (simp add: pool_cache_ok_def demo_router_def)


section \<open>Rerouting\<close>

lemma pick_model_excluded:
  "fst (pick_model pool score nd ex) \<notin> set ex
   \<or> fst (pick_model pool score nd ex) = FALLBACK_MODEL \<and> list_all (\<lambda>e. pr_model_id e \<in> set ex) pool"
  by (auto simp: pick_model_def suits_def list_all_iff find_None_iff dest!: find_Some_mem split: option.splits)

lemma second_tier_keeps:
  assumes "second_tier P h rc messages rs = (c, rs')"
  shows "rs_pool rs' = rs_pool rs \<and> rs_pool_cache rs' = rs_pool_cache rs \<and> rs_now rs' = rs_now rs \<and> rs_scores rs' = rs_scores rs"
  using assms
  by (auto simp: second_tier_def classify_message_def Let_def split: if_splits option.splits prod.splits)

lemma load_pool_cong:
  "rs_pool a = rs_pool b \<Longrightarrow> rs_pool_cache a = rs_pool_cache b \<Longrightarrow> rs_now a = rs_now b \<Longrightarrow> fst (load_pool a) = fst (load_pool b)"
  by (simp add: load_pool_def Let_def split: option.split)

lemma resolve_with_model:
  "rz_model_id (fst (resolve_with P messages rc h conv_score c reason rs))
   = fst (fst (select_model (max (effective_score h rc c) conv_score) (needs_of h c) (rc_excluded rc) rs))"
  by (simp add: resolve_with_def Let_def split: prod.split)

text \<open>A resolution that returns is one of steps 5 to 9 from a state that differs in the classifier's cache only.\<close>

lemma resolve_cases:
  assumes "resolve P messages rc rs = (Some z, rs')"
  obtains c reason rs1 where
    "resolve_with P messages rc (score_message messages)
       (case tracked rc of Some (c, u) \<Rightarrow> get_conversation_score c u rs | None \<Rightarrow> 0) c reason rs1 = (z, rs')"
    "fst (load_pool rs1) = fst (load_pool rs)" "rs_scores rs1 = rs_scores rs"
proof -
  obtain c rs1 where t: "second_tier P (score_message messages) rc messages rs = (c, rs1)" by fastforce
  with assms obtain cl reason where "c = Some (cl, reason)"
    by (cases c) (auto simp: resolve_def Let_def)
  with t assms second_tier_keeps [OF t] load_pool_cong [of rs1 rs] that [of cl reason rs1] show ?thesis
    by (auto simp: resolve_def Let_def split: if_splits prod.splits)
qed

text \<open>C18: a rate limit never sends the turn back to the model that hit it, and goes to a model that
  was already given up only when the whole pool has been: then it is the built-in fallback.\<close>

theorem reroute_leaves_tried_models:
  "case fst (reroute_on_rate_limit P failed messages conversation u excluded rs) of
     None \<Rightarrow> True
   | Some m \<Rightarrow> m \<noteq> failed \<and>
       (m \<notin> set excluded
        \<or> m = FALLBACK_MODEL \<and> list_all (\<lambda>e. pr_model_id e \<in> set (failed # excluded)) (fst (load_pool rs)))"
proof -
  let ?ex = "if failed \<in> set excluded then excluded else excluded @ [failed]"
  let ?rc = "\<lparr>rc_conversation = conversation, rc_user = u, rc_excluded = ?ex, rc_min_score = None\<rparr>"
  have set_ex: "set ?ex = set (failed # excluded)" by auto
  obtain r rs' where r: "resolve P messages ?rc rs = (r, rs')" by fastforce
  show ?thesis
  proof (cases r)
    case None
    with r show ?thesis by (simp add: reroute_on_rate_limit_def Let_def)
  next
    case (Some z)
    with r obtain h cv c reason rs1 where
      w: "resolve_with P messages ?rc h cv c reason rs1 = (z, rs')" and pool: "fst (load_pool rs1) = fst (load_pool rs)"
      by (metis resolve_cases)
    have "rz_model_id z \<notin> set ?ex
        \<or> rz_model_id z = FALLBACK_MODEL \<and> list_all (\<lambda>e. pr_model_id e \<in> set ?ex) (fst (load_pool rs))"
      using resolve_with_model [of P messages ?rc h cv c reason rs1]
        pick_model_excluded [of "fst (load_pool rs1)" "max (effective_score h ?rc c) cv" "needs_of h c" ?ex]
      by (simp add: w select_model_pick pool)
    moreover have "fst (reroute_on_rate_limit P failed messages conversation u excluded rs)
        = (if rz_model_id z = failed then None else Some (rz_model_id z))"
      using r Some by (simp add: reroute_on_rate_limit_def Let_def)
    ultimately show ?thesis unfolding set_ex by auto
  qed
qed

section \<open>The score of a conversation\<close>

lemma tracked_Some: "tracked rc = Some (c, u) \<Longrightarrow> rc_conversation rc = Some c \<and> rc_user rc = Some u"
  by (auto simp: tracked_def split: option.splits if_splits)

lemma select_model_scores: "rs_scores (snd (select_model score nd ex rs)) = rs_scores rs"
  by (auto simp: select_model_def load_pool_def Let_def split: option.split)

lemma update_score_record:
  "rs_scores (update_conversation_score c u score model rs) =
     (rs_scores rs)((c, u) \<mapsto> the (rs_scores (update_conversation_score c u score model rs) (c, u)))"
  by (simp add: update_conversation_score_def Let_def)

text \<open>One resolution on a tracked conversation, as the record sees it.\<close>

lemma update_score_cong:
  "rs_scores a = rs_scores b \<Longrightarrow>
   rs_scores (update_conversation_score c u x m a) (c, u) = rs_scores (update_conversation_score c u x m b) (c, u)"
  by (simp add: update_conversation_score_def Let_def)

lemma resolve_tracked:
  assumes "tracked rc = Some (c, u)" and "resolve P messages rc rs = (Some z, rs')"
  shows "\<exists>model. get_conversation_score c u rs \<le> rz_final_score z
     \<and> rs_scores rs' (c, u) = rs_scores (update_conversation_score c u (rz_final_score z) model rs) (c, u)"
proof -
  let ?h = "score_message messages"
  have "\<exists>cl reason rs1. resolve_with P messages rc ?h (get_conversation_score c u rs) cl reason rs1 = (z, rs')
      \<and> rs_scores rs1 = rs_scores rs"
    by (rule resolve_cases [OF assms(2)]) (auto simp: assms(1))
  then obtain cl reason rs1 where
    w: "resolve_with P messages rc ?h (get_conversation_score c u rs) cl reason rs1 = (z, rs')"
    and same: "rs_scores rs1 = rs_scores rs"
    by blast
  let ?score = "max (effective_score ?h rc cl) (get_conversation_score c u rs)"
  obtain model tier rs2 where s: "select_model ?score (needs_of ?h cl) (rc_excluded rc) rs1 = ((model, tier), rs2)"
    by (metis prod.exhaust)
  have scores: "rs_scores rs2 = rs_scores rs"
    using select_model_scores [of ?score "needs_of ?h cl" "rc_excluded rc" rs1] by (simp add: s same)
  from w have "rz_final_score z = ?score \<and> rs_scores rs' (c, u) = rs_scores (update_conversation_score c u ?score model rs2) (c, u)"
    by (auto simp: resolve_with_def s assms(1) Let_def tracked_Some [OF assms(1)])
  with update_score_cong [OF scores, of c u ?score model] show ?thesis by auto
qed

lemma resolve_raised:
  assumes "resolve P messages rc rs = (None, rs')"
  shows "rs_scores rs' = rs_scores rs"
proof -
  obtain c rs1 where t: "second_tier P (score_message messages) rc messages rs = (c, rs1)" by fastforce
  with assms have "rs' = rs1" by (cases c) (auto simp: resolve_def Let_def split: if_splits prod.splits)
  with second_tier_keeps [OF t] show ?thesis by simp
qed

text \<open>A conversation that has been complex has no simple turns counted: each later turn is scored
  with the conversation's own score, so it is recorded as complex too.\<close>

definition settled_score :: "conversation_score \<Rightarrow> bool" where
  "settled_score r \<longleftrightarrow> (SIMPLE_SCORE_CEILING \<le> cs_current r \<longrightarrow> cs_simple_turns r = 0)"

definition record_ok :: "router_state \<Rightarrow> string \<Rightarrow> uid \<Rightarrow> bool" where
  "record_ok rs c u \<longleftrightarrow> (\<forall>r. rs_scores rs (c, u) = Some r \<longrightarrow> settled_score r)"

definition level :: "router_state \<Rightarrow> string \<Rightarrow> uid \<Rightarrow> int" where
  "level rs c u = (case rs_scores rs (c, u) of Some r \<Rightarrow> if SIMPLE_SCORE_CEILING \<le> cs_current r then cs_current r else 0 | None \<Rightarrow> 0)"

lemma level_cases: "level rs c u = 0 \<or> 0 < level rs c u"
  by (auto simp: level_def SIMPLE_SCORE_CEILING_def split: option.split)

lemma get_level: "record_ok rs c u \<Longrightarrow> 0 < level rs c u \<Longrightarrow> get_conversation_score c u rs = level rs c u"
  by (auto simp: level_def get_conversation_score_def record_ok_def settled_score_def DOWNGRADE_THRESHOLD_def
      split: option.splits if_splits)

lemma update_level:
  assumes "record_ok rs c u" and "get_conversation_score c u rs \<le> x"
    and upd: "rs_scores rs' (c, u) = rs_scores (update_conversation_score c u x m rs) (c, u)"
  shows "record_ok rs' c u \<and> (SIMPLE_SCORE_CEILING \<le> x \<longrightarrow> level rs' c u = x) \<and> (x < SIMPLE_SCORE_CEILING \<longrightarrow> level rs c u = 0 \<and> level rs' c u = 0)"
proof -
  have le: "level rs c u \<le> x" if "0 < level rs c u" using get_level [OF assms(1) that] assms(2) by simp
  show ?thesis
    using assms(1) le upd
    by (auto simp: record_ok_def settled_score_def level_def update_conversation_score_def Let_def
        SIMPLE_SCORE_CEILING_def max_def split: option.splits if_splits)
qed

text \<open>The final scores of successive resolutions on one conversation.\<close>

fun final_scores :: "router_ports \<Rightarrow> (json list \<times> request_context) list \<Rightarrow> router_state \<Rightarrow> int list" where
  "final_scores P [] rs = []"
| "final_scores P ((messages, rc) # rest) rs =
     (let r = resolve P messages rc rs
      in map rz_final_score (case fst r of None \<Rightarrow> [] | Some z \<Rightarrow> [z]) @ final_scores P rest (snd r))"

lemma final_scores_level:
  assumes "\<forall>(messages, rc) \<in> set turns. tracked rc = Some (c, u)" and "record_ok rs c u"
  shows "sorted_wrt (\<lambda>x y. x < SIMPLE_SCORE_CEILING \<or> x \<le> y) (final_scores P turns rs)
     \<and> (\<forall>x \<in> set (final_scores P turns rs). level rs c u \<le> x \<or> level rs c u = 0)"
  using assms
proof (induction turns arbitrary: rs)
  case (Cons turn turns)
  obtain messages rc where turn: "turn = (messages, rc)" by fastforce
  obtain r rs' where r: "resolve P messages rc rs = (r, rs')" by fastforce
  show ?case
  proof (cases r)
    case None
    with resolve_raised r have "rs_scores rs' = rs_scores rs" by blast
    then have "record_ok rs' c u" "level rs' c u = level rs c u"
      using Cons.prems(2) by (simp_all add: record_ok_def level_def)
    with Cons.IH [of rs'] Cons.prems(1) show ?thesis by (simp add: turn r None)
  next
    case (Some z)
    with r have z: "resolve P messages rc rs = (Some z, rs')" by simp
  from resolve_tracked [OF _ z, of c u] Cons.prems turn obtain m where
    x: "get_conversation_score c u rs \<le> rz_final_score z"
    "rs_scores rs' (c, u) = rs_scores (update_conversation_score c u (rz_final_score z) m rs) (c, u)"
    by auto
  note up = update_level [OF Cons.prems(2) x]
  have IH: "sorted_wrt (\<lambda>x y. x < SIMPLE_SCORE_CEILING \<or> x \<le> y) (final_scores P turns rs')"
    "\<forall>y \<in> set (final_scores P turns rs'). level rs' c u \<le> y \<or> level rs' c u = 0"
    using Cons.IH [of rs'] Cons.prems(1) up by auto
  have now: "level rs c u \<le> rz_final_score z \<or> level rs c u = 0"
    using level_cases [of rs c u] get_level [OF Cons.prems(2)] x(1) by auto
  show ?thesis
  proof (cases "SIMPLE_SCORE_CEILING \<le> rz_final_score z")
    case True
    with up have l: "level rs' c u = rz_final_score z" by simp
    with True have "0 < level rs' c u" by (simp add: SIMPLE_SCORE_CEILING_def)
    with l IH now True show ?thesis by (auto simp: turn z)
  next
    case False
    with up IH show ?thesis by (auto simp: turn z)
  qed
  qed
qed simp

text \<open>On a conversation followed from its start, the score a turn is routed on never drops below
  that of an earlier turn that was complex: the conversation's own score is folded into the score that
  is then recorded, so simple turns are never counted and the decay never sets in.\<close>

theorem conversation_score_never_drops:
  assumes "rs_scores rs (c, u) = None" and "\<forall>(messages, rc) \<in> set turns. tracked rc = Some (c, u)"
    and "i < j" and "j < length (final_scores P turns rs)"
    and "SIMPLE_SCORE_CEILING \<le> final_scores P turns rs ! i"
  shows "final_scores P turns rs ! i \<le> final_scores P turns rs ! j"
proof -
  have "record_ok rs c u" using assms(1) by (simp add: record_ok_def)
  from conjunct1 [OF final_scores_level [OF assms(2) this, of P]]
  have "\<forall>i j. i < j \<longrightarrow> j < length (final_scores P turns rs) \<longrightarrow>
      final_scores P turns rs ! i < SIMPLE_SCORE_CEILING \<or> final_scores P turns rs ! i \<le> final_scores P turns rs ! j"
    unfolding sorted_wrt_iff_nth_less .
  with assms(3-5) show ?thesis by fastforce
qed

definition demo_ports :: router_ports where
  "demo_ports = \<lparr>rp_ask = (\<lambda>n s. None), rp_md5 = (\<lambda>s. s), rp_name_of = (\<lambda>m. m)\<rparr>"

definition demo_turn_context :: "int option \<Rightarrow> request_context" where
  "demo_turn_context lo = \<lparr>rc_conversation = Some ''c'', rc_user = Some ''ann'', rc_excluded = [], rc_min_score = lo\<rparr>"

definition demo_said :: "string \<Rightarrow> json list" where
  "demo_said s = [JObj [(''role'', JStr ''user''), (''content'', JStr s)]]"

text \<open>One complex turn, then ten greetings: all are routed on the score of the first.\<close>

definition demo_talk :: "(json list \<times> request_context) list" where
  "demo_talk = (demo_said ''hard'', demo_turn_context (Some 80)) # replicate 10 (demo_said ''hi'', demo_turn_context None)"

lemma demo_talk_scores: "final_scores demo_ports demo_talk demo_router = replicate 11 80"
  by code_simp

lemma demo_router_scores: "rs_scores demo_router k = None"
  by (simp add: demo_router_def)

theorem conversation_score_never_drops_witness:
  "final_scores demo_ports demo_talk demo_router ! 0 \<le> final_scores demo_ports demo_talk demo_router ! 10
   \<and> final_scores demo_ports demo_talk demo_router ! 10 = 80 \<and> hr_score (score_message (demo_said ''hi'')) = 5"
proof -
  have "\<forall>(messages, rc) \<in> set demo_talk. tracked rc = Some (''c'', ''ann'')"
    by (simp add: demo_talk_def demo_turn_context_def tracked_def)
  from conversation_score_never_drops [OF _ this, of demo_router 0 10 demo_ports]
  have "final_scores demo_ports demo_talk demo_router ! 0 \<le> final_scores demo_ports demo_talk demo_router ! 10"
    by (simp add: demo_talk_scores demo_router_scores SIMPLE_SCORE_CEILING_def)
  moreover have "hr_score (score_message (demo_said ''hi'')) = 5" by code_simp
  ultimately show ?thesis by (simp add: demo_talk_scores)
qed

section \<open>Replies that break the routing\<close>

definition demo_hard :: "json list" where
  "demo_hard = [JObj [(''role'', JStr ''user''), (''content'', JList
     [JObj [(''type'', JStr ''text''), (''text'', JStr ''why?'')], JObj [(''type'', JStr ''image_url'')]])]]"

definition null_capabilities :: router_ports where
  "null_capabilities = demo_ports\<lparr>rp_ask := (\<lambda>n s. Some (dumps (JObj [(''complexity_score'', JNum 70), (''capabilities_needed'', JNull)]), None))\<rparr>"

text \<open>A classifier that answers null for the capabilities makes the resolution raise; the reply stays
  in the cache, so the same message raises again without the classifier.\<close>

lemma null_capabilities_break_the_routing:
  "fst (resolve null_capabilities demo_hard (demo_turn_context None) demo_router) = None
   \<and> fst (resolve demo_ports demo_hard (demo_turn_context None)
        (snd (resolve null_capabilities demo_hard (demo_turn_context None) demo_router))) = None"
  by code_simp

text \<open>So does an earlier message of the assistant without text, as one that only calls tools.\<close>

lemma null_content_breaks_the_routing:
  "fst (resolve demo_ports ([JObj [(''role'', JStr ''assistant''), (''content'', JNull)]] @ demo_hard)
     (demo_turn_context None) demo_router) = None"
  by code_simp

text \<open>A greeting rerouted after \<open>mid\<close> hit its limit and \<open>big\<close> was given up before.\<close>

theorem reroute_leaves_tried_models_witness:
  "fst (reroute_on_rate_limit demo_ports ''mid'' (demo_said ''hi'') None None [''big''] demo_router) = Some ''eye''
   \<and> ''eye'' \<noteq> ''mid'' \<and> ''eye'' \<notin> set [''big'']"
proof -
  have s: "fst (reroute_on_rate_limit demo_ports ''mid'' (demo_said ''hi'') None None [''big''] demo_router) = Some ''eye''"
    by code_simp
  from reroute_leaves_tried_models 
    [where P = demo_ports and failed = "''mid''" and messages = "demo_said ''hi''" and conversation = None
      and u = None and excluded = "[''big'']" and rs = demo_router]
  show ?thesis unfolding s by (simp add: FALLBACK_MODEL_def)
qed

section \<open>The fallbacks\<close>

text \<open>When no model suits, an image is sent to a model that does not take images, and a model that was
  excluded is returned when it is the built-in one.\<close>

lemma fallback_ignores_capabilities:
  "fst (select_model 20 (demo_needs\<lparr>nd_vision := True\<rparr>) [''eye''] demo_router) = (''big'', ''premium'')
   \<and> \<not> capable (demo_needs\<lparr>nd_vision := True\<rparr>) (demo_pool_row ''big'' ''premium'' [] 0)"
  by code_simp

lemma fallback_may_be_excluded:
  "fst (select_model 20 demo_needs [''big'', ''eye'', ''mid'', FALLBACK_MODEL] demo_router) = (FALLBACK_MODEL, ''budget'')"
  by code_simp

end
