(* ===== verification/Key_Resolution.thy ===== *)
theory Key_Resolution
  imports Usage_Models Py_Text
begin

text \<open>
  Which key a call is made with, and who pays for it: \<^verbatim>\<open>llm/provider_registry.py\<close>,
  \<^verbatim>\<open>llm/services/api_key_resolver.py\<close>, and the key columns of \<^verbatim>\<open>User\<close> in
  \<^verbatim>\<open>authentication/models.py\<close>.

  A principal is the user object as the resolver sees it; a request is \<open>None\<close> (absent) or the
  principal it carries, if any.  Columns are read decrypted.  The configured key is the argument
  \<open>fallback\<close>, empty when there is none.
\<close>

section \<open>First-party providers\<close>

definition OPENROUTER_BASE_URL :: string where "OPENROUTER_BASE_URL = ''https://openrouter.ai/api/v1''"

definition BYOK_PROVIDERS :: "(string \<times> string) list" where
  "BYOK_PROVIDERS =
     [(''openai'', ''https://api.openai.com/v1''), (''anthropic'', ''https://api.anthropic.com/v1''),
      (''google'', ''https://generativelanguage.googleapis.com/v1beta/openai''),
      (''mistralai'', ''https://api.mistral.ai/v1''), (''deepseek'', ''https://api.deepseek.com/v1''),
      (''x-ai'', ''https://api.x.ai/v1'')]"

definition before :: "char \<Rightarrow> string \<Rightarrow> string" where
  "before c s = takeWhile (\<lambda>d. d \<noteq> c) s"

definition provider_for_model :: "string option \<Rightarrow> string option" where
  "provider_for_model model_id = (case model_id of
      None \<Rightarrow> None
    | Some m \<Rightarrow>
        if CHR ''/'' \<notin> set m then None
        else if before (CHR ''/'') m \<in> fst ` set BYOK_PROVIDERS then Some (before (CHR ''/'') m) else None)"

definition native_model_name :: "string option \<Rightarrow> string option" where
  "native_model_name model_id = (case model_id of
      None \<Rightarrow> None
    | Some m \<Rightarrow>
        Some (before (CHR '':'') (if CHR ''/'' \<in> set m then tl (dropWhile (\<lambda>c. c \<noteq> CHR ''/'') m) else m)))"

definition provider_base_url :: "string \<Rightarrow> string option" where
  "provider_base_url slug = map_of BYOK_PROVIDERS slug"

definition is_openrouter_url :: "string option \<Rightarrow> bool" where
  "is_openrouter_url url \<longleftrightarrow> (\<not> truthy_str url \<or> contains ''openrouter.ai'' (the_default [] url))"

section \<open>The keys of a user\<close>

record principal =
  pc_authenticated :: bool
  pc_openrouter_key :: "string option"
  pc_provisioned_at :: "datetime option"
  pc_provider_keys :: "string option"

definition load_provider_keys :: "principal \<Rightarrow> (string \<times> json) list" where
  "load_provider_keys p =
     (if truthy_str (pc_provider_keys p)
      then (case Option.bind (pc_provider_keys p) loads of Some (JObj kvs) \<Rightarrow> kvs | _ \<Rightarrow> []) else [])"

definition get_provider_key :: "string \<Rightarrow> principal \<Rightarrow> string option" where
  "get_provider_key slug p = nonempty (Option.bind (map_of (load_provider_keys p) slug) jstr)"

definition set_provider_key :: "string \<Rightarrow> string \<Rightarrow> principal \<Rightarrow> principal" where
  "set_provider_key slug key p =
     p\<lparr>pc_provider_keys := Some (dumps (JObj (dict_put slug (JStr key) (load_provider_keys p))))\<rparr>"

definition delete_provider_key :: "string \<Rightarrow> principal \<Rightarrow> principal" where
  "delete_provider_key slug p =
     (let keys = filter (\<lambda>(k, v). k \<noteq> slug) (load_provider_keys p)
      in p\<lparr>pc_provider_keys := (if keys = [] then None else Some (dumps (JObj keys)))\<rparr>)"

section \<open>The resolver\<close>

definition get_user_from_request :: "principal option option \<Rightarrow> principal option" where
  "get_user_from_request request = (case request of
      Some (Some p) \<Rightarrow> if pc_authenticated p then Some p else None | _ \<Rightarrow> None)"

definition get_api_key_for_user :: "principal option \<Rightarrow> string option" where
  "get_api_key_for_user user = (case user of
      None \<Rightarrow> None
    | Some p \<Rightarrow> if pc_authenticated p then nonempty (pc_openrouter_key p) else None)"

definition fallback_key :: "string \<Rightarrow> string option" where
  "fallback_key fallback = (if fallback = [] then None else Some fallback)"

text \<open>\<open>None\<close> is \<^verbatim>\<open>NoAPIKeyError\<close>.\<close>

definition get_api_key :: "string \<Rightarrow> principal option option \<Rightarrow> string option" where
  "get_api_key fallback request =
     first_some (get_api_key_for_user (get_user_from_request request)) (fallback_key fallback)"

definition get_api_key_with_fallback :: "string \<Rightarrow> principal option \<Rightarrow> principal option option \<Rightarrow> string option" where
  "get_api_key_with_fallback fallback user request =
     (case get_api_key_for_user user of
        Some k \<Rightarrow> Some k
      | None \<Rightarrow> if request \<noteq> None then get_api_key fallback request else fallback_key fallback)"

text \<open>The user is looked up in the request only when none is given.\<close>

definition caller :: "principal option \<Rightarrow> principal option option \<Rightarrow> principal option" where
  "caller user request = (case user of None \<Rightarrow> get_user_from_request request | Some p \<Rightarrow> Some p)"

definition key_origin :: "principal \<Rightarrow> string" where
  "key_origin p = (if pc_provisioned_at p \<noteq> None then BILLING_ORIGIN_PLATFORM else BILLING_ORIGIN_BYOK)"

text \<open>The user's OpenRouter key, or the configured one, each with who pays.\<close>

definition openrouter_key :: "string \<Rightarrow> principal option \<Rightarrow> (string \<times> string) option" where
  "openrouter_key fallback user = (case user of
      Some p \<Rightarrow>
        (case get_api_key_for_user (Some p) of
           Some k \<Rightarrow> Some (k, key_origin p)
         | None \<Rightarrow> map_option (\<lambda>k. (k, BILLING_ORIGIN_PLATFORM)) (fallback_key fallback))
    | None \<Rightarrow> map_option (\<lambda>k. (k, BILLING_ORIGIN_PLATFORM)) (fallback_key fallback))"

definition direct_endpoint :: "principal option \<Rightarrow> string option \<Rightarrow> (string \<times> string \<times> string) option" where
  "direct_endpoint user model_id = (case user of
      Some p \<Rightarrow>
        if pc_authenticated p
        then (case provider_for_model model_id of
                Some slug \<Rightarrow> map_option (\<lambda>k. (k, the_default [] (provider_base_url slug), slug)) (get_provider_key slug p)
              | None \<Rightarrow> None)
        else None
    | None \<Rightarrow> None)"

definition resolve_endpoint :: "string \<Rightarrow> principal option \<Rightarrow> principal option option \<Rightarrow> string option
    \<Rightarrow> (string \<times> string \<times> string \<times> string option) option" where
  "resolve_endpoint fallback user request model_id =
     (case direct_endpoint (caller user request) model_id of
        Some (k, url, slug) \<Rightarrow> Some (k, url, BILLING_ORIGIN_BYOK, Some slug)
      | None \<Rightarrow> map_option (\<lambda>(k, origin). (k, OPENROUTER_BASE_URL, origin, None)) (openrouter_key fallback (caller user request)))"

definition resolve_with_origin :: "string \<Rightarrow> principal option \<Rightarrow> principal option option \<Rightarrow> string option
    \<Rightarrow> (string \<times> string) option" where
  "resolve_with_origin fallback user request model_id =
     (if model_id \<noteq> None
      then map_option (\<lambda>(k, url, origin, slug). (k, origin)) (resolve_endpoint fallback user request model_id)
      else openrouter_key fallback (caller user request))"

section \<open>Who pays is whose key it is\<close>

text \<open>A key the user put in, and the endpoint it belongs to.\<close>

definition own_key :: "principal \<Rightarrow> string option \<Rightarrow> string \<Rightarrow> string \<Rightarrow> string option \<Rightarrow> bool" where
  "own_key p model_id key url slug \<longleftrightarrow> pc_authenticated p \<and>
     (case slug of
        Some s \<Rightarrow> provider_for_model model_id = Some s \<and> get_provider_key s p = Some key \<and> map_of BYOK_PROVIDERS s = Some url
      | None \<Rightarrow> pc_openrouter_key p = Some key \<and> pc_provisioned_at p = None \<and> url = OPENROUTER_BASE_URL)"

lemma provider_known: "provider_for_model m = Some s \<Longrightarrow> map_of BYOK_PROVIDERS s = Some (the_default [] (provider_base_url s))"
proof -
  assume "provider_for_model m = Some s"
  then have "s \<in> fst ` set BYOK_PROVIDERS" by (cases m) (simp_all add: provider_for_model_def split: if_splits)
  then obtain u where "map_of BYOK_PROVIDERS s = Some u" by (metis map_of_eq_None_iff option.exhaust)
  then show ?thesis by (simp add: provider_base_url_def)
qed

lemma origins_differ [simp]: "BILLING_ORIGIN_BYOK \<noteq> BILLING_ORIGIN_PLATFORM" "BILLING_ORIGIN_PLATFORM \<noteq> BILLING_ORIGIN_BYOK"
  by (simp_all add: BILLING_ORIGIN_BYOK_def BILLING_ORIGIN_PLATFORM_def)

lemma nonempty_Some: "nonempty x = Some y \<longleftrightarrow> x = Some y \<and> y \<noteq> []"
  by (auto simp: nonempty_def split: option.splits)

lemma openrouter_key_cases:
  assumes "openrouter_key fallback user = Some (k, origin)"
  obtains (own) p where "user = Some p" "pc_authenticated p" "pc_openrouter_key p = Some k" "pc_provisioned_at p = None"
      "origin = BILLING_ORIGIN_BYOK"
  | (provisioned) p where "user = Some p" "pc_authenticated p" "pc_openrouter_key p = Some k" "pc_provisioned_at p \<noteq> None"
      "origin = BILLING_ORIGIN_PLATFORM"
  | (fallback) "k = fallback" "k \<noteq> []" "origin = BILLING_ORIGIN_PLATFORM" "get_api_key_for_user user = None"
proof (cases "get_api_key_for_user user")
  case None
  with assms have "fallback_key fallback = Some k" "origin = BILLING_ORIGIN_PLATFORM"
    by (auto simp: openrouter_key_def split: option.splits)
  then show thesis using that(3) None by (auto simp: fallback_key_def split: if_splits)
next
  case (Some j)
  then obtain p where p: "user = Some p" "pc_authenticated p" "pc_openrouter_key p = Some j"
    by (auto simp: get_api_key_for_user_def nonempty_Some split: option.splits if_splits)
  with assms Some have "j = k" "origin = key_origin p" by (simp_all add: openrouter_key_def)
  with p that(1,2) show thesis by (cases "pc_provisioned_at p") (simp_all add: key_origin_def)
qed


text \<open>Both resolvers agree on the model they are asked for.\<close>

lemma resolve_with_origin_endpoint:
  "resolve_with_origin fallback user request (Some m) =
     map_option (\<lambda>(k, url, origin, slug). (k, origin)) (resolve_endpoint fallback user request (Some m))"
  by (simp add: resolve_with_origin_def)

section \<open>Storing provider keys\<close>

lemma map_of_remove: "map_of (filter (\<lambda>(k, v). k \<noteq> slug) kvs) s = (if s = slug then None else map_of kvs s)"
  by (induction kvs) auto

lemma json_ok_dict_put: "json_ok (JObj kvs) \<Longrightarrow> json_ok (JObj (dict_put k (JStr s) kvs))"
proof -
  assume ok: "json_ok (JObj kvs)"
  have "list_all (\<lambda>kv. json_ok (snd kv)) kvs \<Longrightarrow> list_all (\<lambda>kv. json_ok (snd kv)) (dict_put k (JStr s) kvs)"
    by (induction kvs) auto
  with ok distinct_dict_put show ?thesis by auto
qed

lemma load_after_dump:
  "json_ok (JObj kvs) \<Longrightarrow> load_provider_keys (p\<lparr>pc_provider_keys := Some (dumps (JObj kvs))\<rparr>) = kvs"
proof -
  assume ok: "json_ok (JObj kvs)"
  have "dumps (JObj kvs) \<noteq> []" using dumps_head [of "JObj kvs"] by auto
  with loads_dumps [OF ok] show ?thesis by (simp add: load_provider_keys_def)
qed

text \<open>A stored provider key is read back, the keys of the other providers stay, and a deleted key is gone.\<close>

theorem provider_keys_read_back:
  assumes "json_ok (JObj (load_provider_keys p))" and "key \<noteq> []"
  shows "get_provider_key s (set_provider_key slug key p) = (if s = slug then Some key else get_provider_key s p)
     \<and> get_provider_key s (delete_provider_key slug p) = (if s = slug then None else get_provider_key s p)"
proof
  show "get_provider_key s (set_provider_key slug key p) = (if s = slug then Some key else get_provider_key s p)"
    using load_after_dump [OF json_ok_dict_put [OF assms(1), of slug key], of p] assms(2)
    by (simp add: get_provider_key_def set_provider_key_def map_of_dict_put nonempty_def)
next
  let ?keys = "filter (\<lambda>(k, v). k \<noteq> slug) (load_provider_keys p)"
  have ok: "json_ok (JObj ?keys)" using assms(1) by (auto simp: list_all_iff distinct_map_filter)
  have "load_provider_keys (delete_provider_key slug p) = ?keys"
  proof (cases "?keys = []")
    case True
    then have "delete_provider_key slug p = p\<lparr>pc_provider_keys := None\<rparr>" by (simp add: delete_provider_key_def Let_def)
    then have "load_provider_keys (delete_provider_key slug p) = []" by (simp add: load_provider_keys_def)
    with True show ?thesis by (simp only:)
  next
    case False
    then have "delete_provider_key slug p = p\<lparr>pc_provider_keys := Some (dumps (JObj ?keys))\<rparr>"
      by (simp only: delete_provider_key_def Let_def if_False)
    then show ?thesis using load_after_dump [OF ok, of p] by simp
  qed
  moreover have "map_of ?keys s = (if s = slug then None else map_of (load_provider_keys p) s)"
    using map_of_remove [of slug "load_provider_keys p" s] by simp
  ultimately show "get_provider_key s (delete_provider_key slug p) = (if s = slug then None else get_provider_key s p)"
    by (simp add: get_provider_key_def nonempty_def)
qed

definition demo_principal :: principal where
  "demo_principal = \<lparr>pc_authenticated = True, pc_openrouter_key = Some ''sk-own'', pc_provisioned_at = None, pc_provider_keys = None\<rparr>"

lemma provider_keys_read_back_witness:
  "get_provider_key ''openai'' (set_provider_key ''openai'' ''sk'' demo_principal) = Some ''sk''
   \<and> get_provider_key ''openai'' (delete_provider_key ''openai'' (set_provider_key ''openai'' ''sk'' demo_principal)) = None"
proof -
  have l: "load_provider_keys (set_provider_key ''openai'' ''sk'' demo_principal) = [(''openai'', JStr ''sk'')]"
    by code_simp
  have "json_ok (JObj (load_provider_keys demo_principal))" by (simp add: load_provider_keys_def demo_principal_def)
  from provider_keys_read_back [OF this, of "''sk''" "''openai''" "''openai''"]
    provider_keys_read_back [of "set_provider_key ''openai'' ''sk'' demo_principal" "''sk''" "''openai''" "''openai''"]
  show ?thesis by (simp add: l)
qed

end
