(* ===== verification/Abort_Settlement.thy ===== *)
theory Abort_Settlement
  imports Agent_Ledger Key_Resolution Recording_Properties
begin

text \<open>
  Billing a stream its client abandoned: the Celery task of \<^verbatim>\<open>llm/tasks.py\<close> that settles each
  generation by its id, and the advisory settlement of a stopped message that the client may ask
  for in \<^verbatim>\<open>conversations/views.py\<close>.

  Outside the repository: \<open>http\<close>, what OpenRouter answers about a generation (its status and JSON
  body; \<open>None\<close> where the call fails or the body is no JSON), per attempt of the task; \<open>account\<close>, the
  key columns of a user.  As documented by OpenRouter, the fields of a record are numbers or null.
  The cache that holds the markers can be read; the claimed cost is noted as a number.
\<close>

section \<open>The record of a generation\<close>

datatype fetched = FetchFailed | NotFinalized | Finalized json

definition fetch_generation_data :: "(int \<times> json) option \<Rightarrow> fetched" where
  "fetch_generation_data reply = (case reply of
      None \<Rightarrow> FetchFailed
    | Some (status, body) \<Rightarrow>
        if status = 200
        then (if \<not> is_dict body then FetchFailed
              else if truthy (jget body ''data'') then Finalized (jget body ''data'') else NotFinalized)
        else if status = 404 then NotFinalized
        else FetchFailed)"

definition is_generation_settled :: "uid \<Rightarrow> string \<Rightarrow> Quota_Service.world \<Rightarrow> bool" where
  "is_generation_settled u g w \<longleftrightarrow>
     list_ex (\<lambda>l. log_user l = u \<and> log_service l = service_value OPENROUTER \<and> log_request_id l = g) (logs (db w))"

definition total_cost :: "json \<Rightarrow> usd" where
  "total_cost data = the_default 0 (jnum (jget data ''total_cost''))"

definition settlement_operation :: "string \<Rightarrow> string \<Rightarrow> string \<Rightarrow> json \<Rightarrow> Quota_Service.world \<Rightarrow> billable_operation" where
  "settlement_operation model_id session g data w =
     (chat_operation (opt_str_or (jstr (jget data ''model'')) model_id) (total_cost data)
        (count_field data ''tokens_prompt'') (count_field data ''tokens_completion'') w)
     \<lparr>op_request_id := g, op_session_id := session, op_extra_data := [(''settlement'', JStr ''aborted_stream'')]\<rparr>"

section \<open>The task\<close>

record settle_counts =
  sc_settled :: nat
  sc_skipped :: nat
  sc_pending :: nat

definition no_counts :: settle_counts where
  "no_counts = \<lparr>sc_settled = 0, sc_skipped = 0, sc_pending = 0\<rparr>"

text \<open>The loop over the ids: the counts with the number of pending ids, or \<open>None\<close> where an exception ends it.\<close>

fun settle_ids :: "(usd \<Rightarrow> usd option) \<Rightarrow> catalog \<Rightarrow> (string \<Rightarrow> fetched) \<Rightarrow> uid \<Rightarrow> string \<Rightarrow> string \<Rightarrow> string
    \<Rightarrow> string list \<Rightarrow> settle_counts \<Rightarrow> retry_state \<Rightarrow> settle_counts option \<times> retry_state" where
  "settle_ids q catalog fetch u origin model_id session [] c st = (Some c, st)"
| "settle_ids q catalog fetch u origin model_id session (g # gs) c st =
     (if g = [] then settle_ids q catalog fetch u origin model_id session gs c st
      else if is_generation_settled u g (base st)
      then settle_ids q catalog fetch u origin model_id session gs (c\<lparr>sc_skipped := Suc (sc_skipped c)\<rparr>) st
      else case fetch g of
        FetchFailed \<Rightarrow> (None, st)
      | NotFinalized \<Rightarrow> settle_ids q catalog fetch u origin model_id session gs (c\<lparr>sc_pending := Suc (sc_pending c)\<rparr>) st
      | Finalized data \<Rightarrow>
          if \<not> is_dict data then (None, st)
          else (case record_usage q catalog u (settlement_operation model_id session g data (base st)) (Some origin) st of
             (Inl e, _, st') \<Rightarrow> (None, st')
           | (Inr _, _, st') \<Rightarrow>
               settle_ids q catalog fetch u origin model_id session gs (c\<lparr>sc_settled := Suc (sc_settled c)\<rparr>) st'))"

text \<open>The billing origin of the task asks for the user's OpenRouter key alone.\<close>

definition settlement_origin :: "string \<Rightarrow> principal \<Rightarrow> string" where
  "settlement_origin fallback p =
     (case resolve_with_origin fallback (Some p) None None of Some (k, origin) \<Rightarrow> origin | None \<Rightarrow> BILLING_ORIGIN_PLATFORM)"

definition settle_attempt :: "(usd \<Rightarrow> usd option) \<Rightarrow> catalog \<Rightarrow> string \<Rightarrow> (uid \<Rightarrow> principal) \<Rightarrow> (string \<Rightarrow> fetched)
    \<Rightarrow> uid \<Rightarrow> string list \<Rightarrow> string \<Rightarrow> string \<Rightarrow> retry_state \<Rightarrow> settle_counts option \<times> retry_state" where
  "settle_attempt q catalog fallback account fetch u ids model_id session st =
     (if u = [] \<or> ids = [] then (Some no_counts, st)
      else if \<not> list_ex (\<lambda>a. user_id a = u) (users (db (base st))) then (Some no_counts, st)
      else if get_api_key_for_user (Some (account u)) = None then (Some no_counts, st)
      else settle_ids q catalog fetch u (settlement_origin fallback (account u)) model_id session ids no_counts st)"

text \<open>An exception makes Celery retry, and so does a pending id, until no retry is left; \<open>between\<close> is
  what the rest of the system does while the task waits.  The result is what the last attempt returned.\<close>

fun settle_task :: "(usd \<Rightarrow> usd option) \<Rightarrow> catalog \<Rightarrow> string \<Rightarrow> (uid \<Rightarrow> principal) \<Rightarrow> (nat \<Rightarrow> string \<Rightarrow> (int \<times> json) option)
    \<Rightarrow> (nat \<Rightarrow> retry_state \<Rightarrow> retry_state) \<Rightarrow> nat \<Rightarrow> uid \<Rightarrow> string list \<Rightarrow> string \<Rightarrow> string \<Rightarrow> retry_state
    \<Rightarrow> settle_counts option \<times> retry_state" where
  "settle_task q catalog fallback account http between n u ids model_id session st =
     (case settle_attempt q catalog fallback account (\<lambda>g. fetch_generation_data (http n g)) u ids model_id session st of
        (c, st') \<Rightarrow>
          if (case c of Some c \<Rightarrow> sc_pending c = 0 | None \<Rightarrow> False) \<or> n = 0 then (c, st')
          else settle_task q catalog fallback account http between (n - 1) u ids model_id session (between n st'))"

declare settle_task.simps [simp del]

section \<open>Enqueueing\<close>

record settlement_message =
  sg_user_id :: uid
  sg_ids :: "string list"
  sg_model_id :: string
  sg_session_id :: string

definition ABORT_SETTLEMENT_CACHE_TTL :: timedelta where "ABORT_SETTLEMENT_CACHE_TTL = seconds (15 * 60)"

record settlement_state =
  st_billing :: retry_state
  st_tasks :: "settlement_message list"
  st_markers :: "string \<Rightarrow> datetime option"

definition enqueue_abort_settlement :: "bool \<Rightarrow> uid \<Rightarrow> string list \<Rightarrow> string \<Rightarrow> string \<Rightarrow> settlement_state \<Rightarrow> bool \<times> settlement_state" where
  "enqueue_abort_settlement cache_up u generation_ids model_id chat_id s =
     (let ids = filter (\<lambda>g. g \<noteq> []) generation_ids
      in if u = [] \<or> ids = [] then (False, s)
         else if \<not> broker_up (st_billing s) then (False, s)
         else let s = s\<lparr>st_tasks := st_tasks s @ [\<lparr>sg_user_id = u, sg_ids = ids, sg_model_id = model_id, sg_session_id = chat_id\<rparr>]\<rparr>
              in (True, if chat_id \<noteq> [] \<and> cache_up
                        then s\<lparr>st_markers := (st_markers s)(chat_id \<mapsto> clock (base (st_billing s)) + ABORT_SETTLEMENT_CACHE_TTL)\<rparr>
                        else s))"

section \<open>The stopped message a client reports\<close>

record stopped_message =
  sm_id :: string
  sm_chat_id :: string
  sm_model_id :: string
  sm_is_stopped :: bool
  sm_metadata :: json

definition STOPPED_COST_CLAMP_FACTOR :: rat where "STOPPED_COST_CLAMP_FACTOR = 2"

text \<open>The sum over the unsettled ids; \<open>None\<close> where the lookup is unreliable.\<close>

fun sum_generations :: "(string \<Rightarrow> fetched) \<Rightarrow> uid \<Rightarrow> Quota_Service.world \<Rightarrow> string list
    \<Rightarrow> (usd \<times> int \<times> int \<times> string list) option" where
  "sum_generations fetch u w [] = Some (0, 0, 0, [])"
| "sum_generations fetch u w (g # gs) =
     (if is_generation_settled u g w then sum_generations fetch u w gs
      else case fetch g of
        Finalized data \<Rightarrow>
          if \<not> is_dict data then None
          else map_option (\<lambda>(cost, prompt, completion, ids).
                 (total_cost data + cost, count_field data ''tokens_prompt'' + prompt,
                  count_field data ''tokens_completion'' + completion, g # ids)) (sum_generations fetch u w gs)
      | _ \<Rightarrow> None)"

definition verified_generation_usage :: "(uid \<Rightarrow> principal) \<Rightarrow> (string \<Rightarrow> fetched) \<Rightarrow> uid \<Rightarrow> string list \<Rightarrow> Quota_Service.world
    \<Rightarrow> (usd \<times> int \<times> int \<times> string list) option" where
  "verified_generation_usage account fetch u ids w =
     (if ids = [] \<or> get_api_key_for_user (Some (account u)) = None then None else sum_generations fetch u w ids)"

definition catalog_cost_cap :: "catalog \<Rightarrow> string \<Rightarrow> int \<Rightarrow> int \<Rightarrow> Quota_Service.world \<Rightarrow> usd option \<times> Quota_Service.world" where
  "catalog_cost_cap catalog model_id prompt_tokens completion_tokens w =
     (case estimate_cost_detailed catalog model_id prompt_tokens completion_tokens w of
        (Inl _, w') \<Rightarrow> (None, w')
      | (Inr (_, _, cost), w') \<Rightarrow> (Some (cost * STOPPED_COST_CLAMP_FACTOR), w'))"

definition stopped_operation :: "stopped_message \<Rightarrow> usd \<Rightarrow> int \<Rightarrow> int \<Rightarrow> string list \<Rightarrow> (string \<times> json) list \<Rightarrow> Quota_Service.world
    \<Rightarrow> billable_operation" where
  "stopped_operation m cost prompt completion ids extra w =
     (chat_operation (sm_model_id m) cost prompt completion w)
     \<lparr>op_request_id := (case ids of [g] \<Rightarrow> g | _ \<Rightarrow> []),
      op_extra_data := [(''stopped_message'', JBool True), (''message_id'', JStr (sm_id m))] @ extra\<rparr>"

text \<open>\<^verbatim>\<open>data.get(k) or 0\<close>, read as an integer.\<close>

definition claimed_int :: "json \<Rightarrow> string \<Rightarrow> int option" where
  "claimed_int data k = (if truthy (jget data k) then int_of_json (jget data k) else Some 0)"

text \<open>What iterating over \<^verbatim>\<open>metadata.get('generation_ids') or []\<close> gives; \<open>None\<close> where it raises.  The
  entries of a list are strings.\<close>

definition metadata_ids :: "json \<Rightarrow> string list option" where
  "metadata_ids metadata =
     (let v = jget metadata ''generation_ids''
      in if \<not> is_dict metadata \<or> \<not> truthy v then Some []
         else case v of
           JList xs \<Rightarrow> Some (List.map_filter (\<lambda>j. nonempty (jstr j)) xs)
         | JStr t \<Rightarrow> Some (map (\<lambda>c. [c]) t)
         | JObj kvs \<Rightarrow> Some (filter (\<lambda>k. k \<noteq> []) (map fst kvs))
         | _ \<Rightarrow> None)"

definition settle_claim :: "(usd \<Rightarrow> usd option) \<Rightarrow> catalog \<Rightarrow> (uid \<Rightarrow> principal) \<Rightarrow> (string \<Rightarrow> fetched)
    \<Rightarrow> uid \<Rightarrow> stopped_message \<Rightarrow> string list \<Rightarrow> usd \<Rightarrow> int \<Rightarrow> int \<Rightarrow> retry_state \<Rightarrow> retry_state" where
  "settle_claim q catalog account fetch u m generation_ids claimed prompt completion st =
     (let claim = [(''client_claimed_cost'', JNum claimed)]
      in case verified_generation_usage account fetch u generation_ids (base st) of
           Some (cost, p, c, ids) \<Rightarrow>
             if cost \<le> 0 then st
             else snd (snd (record_usage q catalog u
                    (stopped_operation m cost p c ids
                      (claim @ [(''accepted_source'', JStr ''generation_lookup''), (''generation_ids'', JList (map JStr ids))]) (base st))
                    None st))
         | None \<Rightarrow>
             (case catalog_cost_cap catalog (sm_model_id m) prompt completion (base st) of
                (cap, w) \<Rightarrow>
                  let accepted = (case cap of Some x \<Rightarrow> min claimed x | None \<Rightarrow> claimed)
                  in snd (snd (record_usage q catalog u
                       (stopped_operation m accepted prompt completion []
                         (claim @ [(''accepted_source'', JStr ''catalog_price_clamp'')]) w)
                       None (st\<lparr>base := w\<rparr>)))))"

definition settle_stopped_message :: "(usd \<Rightarrow> usd option) \<Rightarrow> catalog \<Rightarrow> (uid \<Rightarrow> principal) \<Rightarrow> (string \<Rightarrow> fetched)
    \<Rightarrow> uid \<Rightarrow> stopped_message \<Rightarrow> json \<Rightarrow> settlement_state \<Rightarrow> settlement_state" where
  "settle_stopped_message q catalog account fetch u m data s =
     (case (decimal_of_json (jget data ''cost''), claimed_int data ''prompt_tokens'', claimed_int data ''completion_tokens'') of
        (Some claimed, Some prompt, Some completion) \<Rightarrow>
          if claimed < 0 \<or> prompt < 0 \<or> completion < 0 then s
          else if (case st_markers s (sm_chat_id m) of Some t \<Rightarrow> clock (base (st_billing s)) < t | None \<Rightarrow> False) then s
          else (case metadata_ids (sm_metadata m) of
                  None \<Rightarrow> s
                | Some ids \<Rightarrow>
                    s\<lparr>st_billing := settle_claim q catalog account fetch u m ids claimed prompt completion (st_billing s)\<rparr>)
      | _ \<Rightarrow> s)"

text \<open>\<^verbatim>\<open>perform_update\<close>, once the message is saved.\<close>

definition perform_update :: "(usd \<Rightarrow> usd option) \<Rightarrow> catalog \<Rightarrow> (uid \<Rightarrow> principal) \<Rightarrow> (string \<Rightarrow> fetched)
    \<Rightarrow> uid \<Rightarrow> stopped_message \<Rightarrow> json \<Rightarrow> settlement_state \<Rightarrow> settlement_state" where
  "perform_update q catalog account fetch u m data s =
     (if sm_is_stopped m \<and> truthy (jget data ''cost'') \<and> truthy (jget data ''prompt_tokens'')
      then settle_stopped_message q catalog account fetch u m data s else s)"

section \<open>What recording leaves behind\<close>

definition gen_rows :: "uid \<Rightarrow> string \<Rightarrow> Quota_Service.world \<Rightarrow> usage_log list" where
  "gen_rows u g w =
     filter (\<lambda>l. log_user l = u \<and> log_service l = service_value OPENROUTER \<and> log_request_id l = g) (logs (db w))"

lemma settled_gen_rows: "is_generation_settled u g w \<longleftrightarrow> gen_rows u g w \<noteq> []"
  by (auto simp: is_generation_settled_def gen_rows_def list_ex_iff filter_empty_conv)

lemma price_and_origin_op:
  assumes "price_and_origin catalog op bo w = (res, op1, w1)"
  shows "db w1 = db w \<and> (\<exists>c. op1 = op\<lparr>op_cost_usd := c, op_billing_origin := op_billing_origin op1\<rparr>
     \<and> (op_cost_usd op \<noteq> 0 \<longrightarrow> c = op_cost_usd op))"
proof -
  have "db w1 = db w" using price_and_origin_spec [OF assms] by (simp add: priced_def)
  with assms show ?thesis
    by (auto simp: price_and_origin_def Let_def split: sum.splits prod.splits if_splits)
qed

text \<open>The retry queue's messages for one user and request.\<close>

definition queued :: "uid \<Rightarrow> string \<Rightarrow> retry_state \<Rightarrow> deduction_data list" where
  "queued u g st = filter (\<lambda>d. dd_user_id d = u \<and> d_request_id (dd_extra d) = g) (celery_queue st @ messages (redis_list st))"

definition row_of :: "(usd \<Rightarrow> usd option) \<Rightarrow> uid \<Rightarrow> billable_operation \<Rightarrow> usage_log \<Rightarrow> bool" where
  "row_of q u op l \<longleftrightarrow> log_user l = u \<and> log_service l = service_value (op_service op) \<and> log_request_id l = op_request_id op
     \<and> log_prompt_tokens l = op_prompt_tokens op \<and> log_completion_tokens l = op_completion_tokens op"

lemma make_log_row:
  assumes "op1 = op\<lparr>op_cost_usd := c, op_billing_origin := b\<rparr>"
  shows "row_of q u op (make_log u (service_value (op_service op1)) cost f (details_of op1 n b') w)"
  using assms by (simp add: row_of_def make_log_def details_of_def)

lemma record_usage_keeps_servers:
  "record_usage q catalog u op bo st = (res, op', st') \<Longrightarrow> broker_up st' = broker_up st \<and> redis_up st' = redis_up st"
  by (auto simp: record_usage_def billing_queue_failed_deduction_def queue_failed_deduction_def Let_def
      split: sum.splits prod.splits if_splits)

lemma queue_grows:
  assumes "broker_up st \<or> redis_up st"
  shows "set (queued v g st) \<subseteq> set (queued v g (billing_queue_failed_deduction u op st))
     \<and> queued u (op_request_id op) (billing_queue_failed_deduction u op st) \<noteq> []"
  using queue_outcome [OF assms, of u op] by (auto simp: queued_def details_of_def filter_empty_conv)

text \<open>Recording writes one row, or queues one message, or fails; nothing is taken out of a queue.\<close>

lemma record_usage_rows:
  assumes run: "record_usage q catalog u op bo st = (res, op', st')" and up: "broker_up st \<or> redis_up st"
  obtains (row) l where "res = Inr ()" "logs (db (base st')) = logs (db (base st)) @ [l]" "row_of q u op l"
      "q (if op_billing_origin op' = BILLING_ORIGIN_BYOK then 0 else op_cost_usd op') = Some (log_cost_usd l)"
      "op_cost_usd op \<noteq> 0 \<longrightarrow> op_cost_usd op' = op_cost_usd op" "\<And>v g. queued v g st' = queued v g st"
      "op_billing_origin op' = opt_str_or bo (str_or (op_billing_origin op) BILLING_ORIGIN_PLATFORM)"
      "log_billing_origin l = op_billing_origin op'"
  | (queue) "res = Inr ()" "logs (db (base st')) = logs (db (base st))" "queued u (op_request_id op) st' \<noteq> []"
      "\<And>v g. set (queued v g st) \<subseteq> set (queued v g st')"
  | (error) e where "res = Inl e" "logs (db (base st')) = logs (db (base st))" "\<And>v g. queued v g st' = queued v g st"
proof -
  obtain r op1 w1 where p: "price_and_origin catalog op bo (base st) = (r, op1, w1)" by (metis surj_pair)
  note op1 = price_and_origin_op [OF p]
  have origin: "op_billing_origin op1 = opt_str_or bo (str_or (op_billing_origin op) BILLING_ORIGIN_PLATFORM)" if "r = Inr ()"
    using price_and_origin_spec [OF p] that by simp
  from op1 obtain c where c: "op1 = op\<lparr>op_cost_usd := c, op_billing_origin := op_billing_origin op1\<rparr>"
    "op_cost_usd op \<noteq> 0 \<longrightarrow> c = op_cost_usd op" and w1: "db w1 = db (base st)" by blast
  have cost: "op_cost_usd op1 = c" by (subst c(1)) simp
  have req: "op_request_id op1 = op_request_id op" by (subst c(1)) simp
  have qd: "queued v g (st\<lparr>base := w\<rparr>) = queued v g st" for v g w by (simp add: queued_def)
  consider (fail) e where "r = Inl e" | (byok) "r = Inr ()" "op_billing_origin op1 = BILLING_ORIGIN_BYOK"
    | (platform) "r = Inr ()" "op_billing_origin op1 \<noteq> BILLING_ORIGIN_BYOK" by (cases r) auto
  then show thesis
  proof cases
    case fail
    with run p have "res = Inl e" "st' = st\<lparr>base := w1\<rparr>" by (simp_all add: record_usage_def)
    then show thesis using error w1 qd by simp
  next
    case byok
    obtain b w2 where b: "record_byok_analytics_row q u op1 w1 = (b, w2)" by fastforce
    with run p byok have e: "res = b" "op' = op1" "st' = st\<lparr>base := w2\<rparr>" by (simp_all add: record_usage_def)
    show thesis
    proof (cases b)
      case (Inl x)
      with b have "w2 = w1" by (auto simp: record_byok_analytics_row_def create_log_def split: option.splits)
      with error [of x] e Inl w1 qd show thesis by simp
    next
      case (Inr x)
      from b Inr obtain k where k: "q 0 = Some k" "logs (db w2) = logs (db w1) @
          [make_log u (service_value (op_service op1)) k (feature_value (op_feature op1))
             (details_of op1 (num_or (op_request_count op1) 1) BILLING_ORIGIN_BYOK) w1]"
        by (auto simp: record_byok_analytics_row_def create_log_def append_log_def split: option.splits)
      show thesis
      proof (rule row)
        show "row_of q u op (make_log u (service_value (op_service op1)) k (feature_value (op_feature op1))
             (details_of op1 (num_or (op_request_count op1) 1) BILLING_ORIGIN_BYOK) w1)" by (rule make_log_row [OF c(1)])
      qed (use e Inr k byok c(2) cost w1 qd origin in \<open>auto simp: make_log_def details_of_def\<close>)
    qed
  next
    case platform
    let ?k = "details_of op1 (num_or (op_request_count op1) 1) (op_billing_origin op1)"
    obtain d w2 where d: "deduct_usage q u (service_value (op_service op1)) (op_cost_usd op1)
        (feature_value (op_feature op1)) ?k w1 = (d, w2)" by fastforce
    show thesis
    proof (cases d)
      case (Inl x)
      with run p platform d have e: "res = Inr ()" "st' = billing_queue_failed_deduction u op1 (st\<lparr>base := w2\<rparr>)"
        by (auto simp: record_usage_def)
      have up': "broker_up (st\<lparr>base := w2\<rparr>) \<or> redis_up (st\<lparr>base := w2\<rparr>)" using up by simp
      have "db w2 = db w1" using deduct_usage_error d Inl by blast
      then show thesis
        using queue e queue_outcome [OF up', of u op1] queue_grows [OF up', of _ _ u op1] w1 by (simp add: req qd)
    next
      case (Inr x)
      with run p platform d have e: "res = Inr ()" "op' = op1" "st' = st\<lparr>base := w2\<rparr>" by (simp_all add: record_usage_def)
      obtain k where k: "q (op_cost_usd op1) = Some k" "logs (db w2) = logs (db w1) @
          [make_log u (service_value (op_service op1)) k (feature_value (op_feature op1)) ?k w1]"
        by (rule deduct_usage_Inr [OF d [unfolded Inr]])
      show thesis
      proof (rule row)
        show "row_of q u op (make_log u (service_value (op_service op1)) k (feature_value (op_feature op1)) ?k w1)"
          by (rule make_log_row [OF c(1)])
      qed (use e k platform c(2) cost w1 qd origin in \<open>auto simp: make_log_def details_of_def\<close>)
    qed
  qed
qed

section \<open>Each generation once\<close>

lemma gen_rows_append:
  assumes "logs (db w') = logs (db w) @ [l]" and "row_of q u op l" and "op_service op = OPENROUTER"
  shows "gen_rows v g w' = gen_rows v g w @ (if v = u \<and> g = op_request_id op then [l] else [])"
  using assms by (auto simp: gen_rows_def row_of_def)

lemma gen_rows_same: "logs (db w') = logs (db w) \<Longrightarrow> gen_rows v g w' = gen_rows v g w"
  by (simp add: gen_rows_def)

text \<open>A row that OpenRouter's record of the generation accounts for.\<close>

definition accounted :: "(usd \<Rightarrow> usd option) \<Rightarrow> string \<Rightarrow> fetched \<Rightarrow> usage_log \<Rightarrow> bool" where
  "accounted q origin f l \<longleftrightarrow> (\<exists>data. f = Finalized data
     \<and> log_prompt_tokens l = count_field data ''tokens_prompt''
     \<and> log_completion_tokens l = count_field data ''tokens_completion''
     \<and> (origin \<noteq> BILLING_ORIGIN_BYOK \<longrightarrow> total_cost data \<noteq> 0 \<longrightarrow> q (total_cost data) = Some (log_cost_usd l))
     \<and> (origin = BILLING_ORIGIN_BYOK \<longrightarrow> q 0 = Some (log_cost_usd l)))"

text \<open>From one state to a later one a generation that had rows keeps exactly them, and one that had
  none gets at most one, accounted for.\<close>

definition billed_once :: "(string \<Rightarrow> usage_log \<Rightarrow> bool) \<Rightarrow> uid \<Rightarrow> string set \<Rightarrow> retry_state \<Rightarrow> retry_state \<Rightarrow> bool" where
  "billed_once P u G st st' \<longleftrightarrow> (\<forall>g \<in> G. gen_rows u g (base st') = gen_rows u g (base st)
     \<or> gen_rows u g (base st) = [] \<and> (\<exists>l. gen_rows u g (base st') = [l] \<and> P g l))"

lemma billed_once_refl: "billed_once P u G st st"
  by (simp add: billed_once_def)

lemma billed_once_trans:
  assumes "billed_once P u G a b" and "billed_once P u G b c"
  shows "billed_once P u G a c"
  unfolding billed_once_def
proof
  fix g assume g: "g \<in> G"
  have "gen_rows u g (base b) = gen_rows u g (base a) \<or> gen_rows u g (base a) = [] \<and> (\<exists>l. gen_rows u g (base b) = [l] \<and> P g l)"
    "gen_rows u g (base c) = gen_rows u g (base b) \<or> gen_rows u g (base b) = [] \<and> (\<exists>l. gen_rows u g (base c) = [l] \<and> P g l)"
    using assms g by (simp_all add: billed_once_def)
  then show "gen_rows u g (base c) = gen_rows u g (base a) \<or> gen_rows u g (base a) = [] \<and> (\<exists>l. gen_rows u g (base c) = [l] \<and> P g l)"
    by auto
qed

lemma billed_once_mono: "billed_once P u G st st' \<Longrightarrow> (\<And>g l. P g l \<Longrightarrow> Q g l) \<Longrightarrow> billed_once Q u G st st'"
  by (fastforce simp: billed_once_def)

lemma settlement_operation_fields [simp]:
  "op_request_id (settlement_operation m s g data w) = g" "op_service (settlement_operation m s g data w) = OPENROUTER"
  "op_prompt_tokens (settlement_operation m s g data w) = count_field data ''tokens_prompt''"
  "op_completion_tokens (settlement_operation m s g data w) = count_field data ''tokens_completion''"
  "op_cost_usd (settlement_operation m s g data w) = total_cost data"
  by (simp_all add: settlement_operation_def chat_operation_def)

text \<open>What holds of a generation once it has been dealt with.\<close>

definition dealt_with :: "uid \<Rightarrow> retry_state \<Rightarrow> string \<Rightarrow> bool" where
  "dealt_with u st g \<longleftrightarrow> gen_rows u g (base st) \<noteq> [] \<or> queued u g st \<noteq> []"

text \<open>One recording, as the loop sees it.\<close>

lemma record_generation:
  assumes run: "record_usage q catalog u (settlement_operation m s g data (base st)) (Some origin) st = (res, op', st')"
    and up: "broker_up st \<or> redis_up st" and none: "gen_rows u g (base st) = []" and o: "origin \<noteq> []"
  shows "billed_once (\<lambda>g' l. g' = g \<and> accounted q origin (Finalized data) l) u UNIV st st'
    \<and> (res = Inr () \<longrightarrow> dealt_with u st' g) \<and> (\<forall>h. dealt_with u st h \<longrightarrow> dealt_with u st' h)"
  using run up
proof (cases rule: record_usage_rows)
  case (row l)
  have "op_billing_origin op' = origin" using row(7) o by (simp add: opt_str_or_def str_or_def)
  then have "accounted q origin (Finalized data) l"
    using row(3-5) by (auto simp: accounted_def row_of_def)
  then show ?thesis
    using none row(6) gen_rows_append [OF row(2,3)] by (auto simp: billed_once_def dealt_with_def)
next
  case queue
  have keep: "queued v h st' \<noteq> []" if "queued v h st \<noteq> []" for v h
    using queue(4) [of v h] that by (cases "queued v h st'") auto
  have "billed_once P u UNIV st st'" for P using gen_rows_same [OF queue(2)] by (simp add: billed_once_def)
  moreover have "dealt_with u st' g" using queue(3) by (simp add: dealt_with_def)
  moreover have "dealt_with u st' h" if "dealt_with u st h" for h
    using that keep gen_rows_same [OF queue(2)] by (auto simp: dealt_with_def)
  ultimately show ?thesis by blast
next
  case (error e)
  then show ?thesis using gen_rows_same [OF error(2)] by (simp add: billed_once_def dealt_with_def)
qed

lemma settle_ids_once:
  assumes "settle_ids q catalog fetch u origin m s ids c st = (r, st')" and "broker_up st \<or> redis_up st" and "origin \<noteq> []"
  shows "billed_once (\<lambda>g l. accounted q origin (fetch g) l) u UNIV st st'
    \<and> (\<forall>h. dealt_with u st h \<longrightarrow> dealt_with u st' h)
    \<and> (case r of None \<Rightarrow> True | Some c' \<Rightarrow> sc_pending c \<le> sc_pending c' \<and>
         (sc_pending c' = sc_pending c \<longrightarrow> (\<forall>g \<in> set ids. g = [] \<or> dealt_with u st' g)))"
  using assms
proof (induction ids arbitrary: c st)
  case Nil
  then show ?case by (auto simp: billed_once_refl)
next
  case (Cons g gs)
  show ?case
  proof (cases "g = [] \<or> is_generation_settled u g (base st)")
    case True
    then have "\<exists>c1. sc_pending c1 = sc_pending c \<and> settle_ids q catalog fetch u origin m s gs c1 st = (r, st')"
    proof (cases "g = []")
      case True
      with Cons.prems(1) show ?thesis by (intro exI [of _ c]) simp
    next
      case False
      with True Cons.prems(1) show ?thesis by (intro exI [of _ "c\<lparr>sc_skipped := Suc (sc_skipped c)\<rparr>"]) simp
    qed
    then obtain c1 where c1: "sc_pending c1 = sc_pending c" "settle_ids q catalog fetch u origin m s gs c1 st = (r, st')" by blast
    have "g = [] \<or> dealt_with u st g" using True by (auto simp: dealt_with_def settled_gen_rows)
    with Cons.IH [OF c1(2) Cons.prems(2,3)] c1(1) show ?thesis by (auto split: option.splits)
  next
    case False
    then have none: "gen_rows u g (base st) = []" by (simp add: settled_gen_rows)
    show ?thesis
    proof (cases "fetch g")
      case FetchFailed
      with False Cons.prems show ?thesis by (simp add: billed_once_refl)
    next
      case NotFinalized
      with False Cons.prems(1) have "settle_ids q catalog fetch u origin m s gs (c\<lparr>sc_pending := Suc (sc_pending c)\<rparr>) st = (r, st')" by simp
      from Cons.IH [OF this Cons.prems(2,3)] show ?thesis by (auto split: option.splits)
    next
      case (Finalized data)
      show ?thesis
      proof (cases "is_dict data")
        case notd: False
        with False Finalized Cons.prems show ?thesis by (simp add: billed_once_refl)
      next
        case d: True
        obtain res op' st1 where run:
          "record_usage q catalog u (settlement_operation m s g data (base st)) (Some origin) st = (res, op', st1)"
          by (metis surj_pair)
        note step = record_generation [OF run Cons.prems(2) none Cons.prems(3)]
        have here: "billed_once (\<lambda>g l. accounted q origin (fetch g) l) u UNIV st st1"
          using step Finalized by (auto elim!: billed_once_mono)
        have up1: "broker_up st1 \<or> redis_up st1" using record_usage_keeps_servers [OF run] Cons.prems(2) by simp
        show ?thesis
        proof (cases res)
          case (Inl e)
          with False Finalized d run Cons.prems(1) have "r = None" "st' = st1" by simp_all
          with here step show ?thesis by simp
        next
          case (Inr x)
          with False Finalized d run Cons.prems(1)
          have rest: "settle_ids q catalog fetch u origin m s gs (c\<lparr>sc_settled := Suc (sc_settled c)\<rparr>) st1 = (r, st')" by simp
          note IH = Cons.IH [OF rest up1 Cons.prems(3)]
          then show ?thesis using billed_once_trans [OF here] step Inr by (auto split: option.splits)
        qed
      qed
    qed
  qed
qed

lemma settlement_origin_nonempty [simp]: "settlement_origin fallback p \<noteq> []"
  by (auto simp: settlement_origin_def resolve_with_origin_def openrouter_key_def key_origin_def BILLING_ORIGIN_BYOK_def
      BILLING_ORIGIN_PLATFORM_def split: option.splits)

lemma settle_ids_keeps_servers:
  "settle_ids q catalog fetch u origin m s ids c st = (r, st') \<Longrightarrow> broker_up st' = broker_up st \<and> redis_up st' = redis_up st"
proof (induction ids arbitrary: c st)
  case (Cons g gs)
  then show ?case
    by (auto dest: record_usage_keeps_servers split: if_splits fetched.splits prod.splits sum.splits)
qed simp

lemma settle_attempt_once:
  assumes "settle_attempt q catalog fallback account fetch u ids m s st = (r, st')" and "broker_up st \<or> redis_up st"
  shows "billed_once (\<lambda>g l. accounted q (settlement_origin fallback (account u)) (fetch g) l) u (set ids) st st'
    \<and> (broker_up st' \<or> redis_up st')
    \<and> (case r of None \<Rightarrow> True | Some c \<Rightarrow> sc_pending c = 0 \<and> c \<noteq> no_counts \<longrightarrow> (\<forall>g \<in> set ids. g = [] \<or> dealt_with u st' g))"
proof (cases "settle_attempt q catalog fallback account fetch u ids m s st = (Some no_counts, st)")
  case True
  with assms show ?thesis by (auto simp: billed_once_refl)
next
  case False
  with assms(1) have run: "settle_ids q catalog fetch u (settlement_origin fallback (account u)) m s ids no_counts st = (r, st')"
    by (auto simp: settle_attempt_def split: if_splits)
  note once = settle_ids_once [OF run assms(2) settlement_origin_nonempty]
  then have "billed_once (\<lambda>g l. accounted q (settlement_origin fallback (account u)) (fetch g) l) u (set ids) st st'"
    by (auto simp: billed_once_def)
  moreover have "sc_pending no_counts = 0" by (simp add: no_counts_def)
  ultimately show ?thesis using once settle_ids_keeps_servers [OF run] assms(2) by (auto split: option.splits)
qed


definition demo_account :: "uid \<Rightarrow> principal" where "demo_account u = demo_principal"

definition demo_generation :: "nat \<Rightarrow> string \<Rightarrow> (int \<times> json) option" where
  "demo_generation k g = (if k = 1 then Some (404, JObj [])
     else Some (200, JObj [(''data'', JObj [(''total_cost'', JNum (1 / 4)), (''tokens_prompt'', JNum 7), (''tokens_completion'', JNum 5)])]))"

definition demo_known :: retry_state where
  "demo_known = demo_state (demo_world\<lparr>db := demo_db\<lparr>users := [\<lparr>user_id = ''ann'', stripe_customer_id = None\<rparr>], logs := []\<rparr>\<rparr>)"

text \<open>The record is not there on the first attempt and is on the second: one row, of no cost for a user with a
  key of her own.\<close>

lemma demo_settled:
  "\<exists>st' l. settle_task numeric_10_6 no_catalog [] demo_account demo_generation (\<lambda>k v. v) 1 ''ann'' [''g1''] ''m'' [] demo_known
     = (Some \<lparr>sc_settled = 1, sc_skipped = 0, sc_pending = 0\<rparr>, st') \<and> gen_rows ''ann'' ''g1'' (base st') = [l] \<and> log_cost_usd l = 0"
proof -
  have q: "numeric_10_6 0 = Some 0" by (simp add: numeric_10_6_def round_def floor_eq_iff)
  have key: "get_api_key_for_user (Some (demo_account ''ann'')) = Some ''sk-own''"
    "settlement_origin [] (demo_account ''ann'') = BILLING_ORIGIN_BYOK"
    by (simp_all add: get_api_key_for_user_def demo_account_def demo_principal_def nonempty_def settlement_origin_def
        resolve_with_origin_def openrouter_key_def caller_def key_origin_def)
  have user: "users (db (base demo_known)) = [\<lparr>user_id = ''ann'', stripe_customer_id = None\<rparr>]" "logs (db (base demo_known)) = []"
    by (simp_all add: demo_known_def demo_state_def)
  have unsettled: "\<not> is_generation_settled ''ann'' ''g1'' (base demo_known)" by (simp add: is_generation_settled_def user)
  show ?thesis
    using user unsettled q
    by (simp add: settle_task.simps settle_attempt_def key demo_generation_def fetch_generation_data_def no_counts_def
        record_usage_def price_and_origin_def settlement_operation_def chat_operation_def total_cost_def count_field_def
        resolve_origin_def opt_str_or_def str_or_def VALID_BILLING_ORIGINS_def OPENROUTER_BACKED_SERVICES_def Let_def
        record_byok_analytics_row_def create_log_def append_log_def gen_rows_def make_log_def details_of_def
        BILLING_ORIGIN_BYOK_def)
qed


section \<open>What the task leaves unbilled, and what is billed twice\<close>

text \<open>A user without a personal key streams on the platform's key, and what she abandons is never billed.\<close>

lemma abandoned_on_platform_key_is_free:
  assumes "get_api_key_for_user (Some (account u)) = None"
  shows "settle_task q catalog fallback account http between n u ids m s st = (Some no_counts, st)"
  using assms by (simp add: settle_task.simps settle_attempt_def no_counts_def)

text \<open>A generation whose deduction failed counts as settled, though its charge only waits in the retry
  queue: while it waits the id has no row, so the next delivery of the task records it again.\<close>

lemma queued_generation_is_recorded_again:
  assumes "record_usage q catalog u (settlement_operation m s g (JObj kvs) (base st)) (Some origin) st = (Inr x, op', st')"
    and "logs (db (base st')) = logs (db (base st))" and "\<not> is_generation_settled u g (base st)" and "g \<noteq> []"
    and "fetch g = Finalized (JObj kvs)"
  shows "settle_ids q catalog fetch u origin m s [g] c st = (Some (c\<lparr>sc_settled := Suc (sc_settled c)\<rparr>), st')
    \<and> settle_ids q catalog fetch u origin m s [g] c st'
      = (case record_usage q catalog u (settlement_operation m s g (JObj kvs) (base st')) (Some origin) st' of
           (Inl e, _, st'') \<Rightarrow> (None, st'')
         | (Inr _, _, st'') \<Rightarrow> (Some (c\<lparr>sc_settled := Suc (sc_settled c)\<rparr>), st''))"
proof -
  have "\<not> is_generation_settled u g (base st')" using assms(2,3) by (simp add: is_generation_settled_def)
  with assms show ?thesis by (auto split: sum.splits prod.splits)
qed

section \<open>The claim of a client is bounded\<close>

text \<open>What the server accepts of a claim.\<close>

definition accepted_cost :: "catalog \<Rightarrow> (uid \<Rightarrow> principal) \<Rightarrow> (string \<Rightarrow> fetched) \<Rightarrow> uid \<Rightarrow> stopped_message \<Rightarrow> string list
    \<Rightarrow> usd \<Rightarrow> int \<Rightarrow> int \<Rightarrow> Quota_Service.world \<Rightarrow> usd" where
  "accepted_cost catalog account fetch u m ids claimed prompt completion w =
     (case verified_generation_usage account fetch u ids w of
        Some (cost, _) \<Rightarrow> cost
      | None \<Rightarrow> (case fst (catalog_cost_cap catalog (sm_model_id m) prompt completion w) of
                   Some cap \<Rightarrow> min claimed cap | None \<Rightarrow> claimed))"

lemma catalog_cost_cap_db: "db (snd (catalog_cost_cap catalog m p c w)) = db w"
  using get_model_pricing_priced [of w catalog m]
  by (auto simp: catalog_cost_cap_def estimate_cost_detailed_def priced_def Let_def split: sum.splits prod.splits)

lemma stopped_operation_fields [simp]:
  "op_service (stopped_operation m cost p c ids extra w) = OPENROUTER"
  "op_cost_usd (stopped_operation m cost p c ids extra w) = cost"
  "op_billing_origin (stopped_operation m cost p c ids extra w) = BILLING_ORIGIN_PLATFORM"
  "op_request_id (stopped_operation m cost p c ids extra w) = (case ids of [g] \<Rightarrow> g | _ \<Rightarrow> [])"
  by (simp_all add: stopped_operation_def chat_operation_def BILLING_ORIGIN_PLATFORM_def)

definition claim_row :: "(usd \<Rightarrow> usd option) \<Rightarrow> uid \<Rightarrow> usd \<Rightarrow> retry_state \<Rightarrow> retry_state \<Rightarrow> bool" where
  "claim_row q u cost st st' \<longleftrightarrow> logs (db (base st')) = logs (db (base st))
     \<or> (\<exists>l. logs (db (base st')) = logs (db (base st)) @ [l] \<and> log_user l = u \<and> log_service l = service_value OPENROUTER
          \<and> log_billing_origin l = BILLING_ORIGIN_PLATFORM \<and> (cost \<noteq> 0 \<longrightarrow> q cost = Some (log_cost_usd l)))"

lemma claim_row_record:
  assumes "broker_up st \<or> redis_up st"
  shows "claim_row q u cost st (snd (snd (record_usage q catalog u (stopped_operation m cost p c ids extra w) None st)))"
proof -
  obtain res op' st' where run: "record_usage q catalog u (stopped_operation m cost p c ids extra w) None st = (res, op', st')"
    by (metis surj_pair)
  from run assms have "claim_row q u cost st st'"
  proof (cases rule: record_usage_rows)
    case (row l)
    have "op_billing_origin op' = BILLING_ORIGIN_PLATFORM" using row(7)
      by (simp add: opt_str_or_def str_or_def BILLING_ORIGIN_PLATFORM_def)
    then show ?thesis using row by (auto simp: claim_row_def row_of_def)
  qed (simp_all add: claim_row_def)
  with run show ?thesis by simp
qed

lemma settle_claim_row:
  assumes "broker_up st \<or> redis_up st"
  shows "claim_row q u (accepted_cost catalog account fetch u m ids claimed prompt completion (base st)) st
    (settle_claim q catalog account fetch u m ids claimed prompt completion st)"
proof (cases "verified_generation_usage account fetch u ids (base st)")
  case None
  obtain cap w where cap: "catalog_cost_cap catalog (sm_model_id m) prompt completion (base st) = (cap, w)" by fastforce
  then have "db w = db (base st)" using catalog_cost_cap_db [of catalog "sm_model_id m" prompt completion "base st"] by simp
  then show ?thesis
    using assms claim_row_record [of "st\<lparr>base := w\<rparr>"]
    by (simp add: settle_claim_def accepted_cost_def None cap Let_def claim_row_def)
next
  case (Some v)
  obtain cost p c g where v: "v = (cost, p, c, g)" by (cases v)
  have same: "claim_row q u cost st st" by (simp add: claim_row_def)
  show ?thesis
    using claim_row_record [OF assms] same by (simp add: settle_claim_def accepted_cost_def Let_def Some v)
qed


definition demo_stopped :: stopped_message where
  "demo_stopped = \<lparr>sm_id = ''m1'', sm_chat_id = ''c1'', sm_model_id = ''m'', sm_is_stopped = True,
     sm_metadata = JObj [(''generation_ids'', JList [JStr ''g1''])]\<rparr>"

definition demo_claim :: json where
  "demo_claim = JObj [(''cost'', JNum 100), (''prompt_tokens'', JNum 7), (''completion_tokens'', JNum 5)]"

definition demo_settlement :: settlement_state where
  "demo_settlement = \<lparr>st_billing = demo_known, st_tasks = [], st_markers = \<lambda>_. None\<rparr>"

lemma demo_accepted:
  "accepted_cost no_catalog demo_account (\<lambda>g. fetch_generation_data (demo_generation 0 g)) ''ann'' demo_stopped [''g1''] claimed p c
     (base demo_known) = 1 / 4"
proof -
  have "get_api_key_for_user (Some (demo_account ''ann'')) = Some ''sk-own''"
    by (simp add: get_api_key_for_user_def demo_account_def demo_principal_def nonempty_def)
  moreover have "\<not> is_generation_settled ''ann'' ''g1'' (base demo_known)"
    by (simp add: is_generation_settled_def demo_known_def demo_state_def)
  ultimately show ?thesis
    by (simp add: accepted_cost_def verified_generation_usage_def demo_generation_def fetch_generation_data_def
        total_cost_def)
qed


section \<open>Where the two settlements miss each other\<close>

lemma sum_generations_unsettled:
  "sum_generations fetch u w gs = Some (cost, p, c, ids) \<Longrightarrow> g \<in> set ids \<Longrightarrow> \<not> is_generation_settled u g w"
  by (induction gs arbitrary: cost p c ids) (auto split: if_splits fetched.splits)

text \<open>The row of a claim that covers several generations carries no generation id, so none of them counts as
  settled and the task that finds them bills them again.\<close>

lemma several_generations_stay_unsettled:
  assumes "verified_generation_usage account fetch u gs (base st) = Some (cost, p, c, ids)" and "length ids \<noteq> 1"
    and "g \<in> set ids" and "g \<noteq> []" and up: "broker_up st \<or> redis_up st"
  shows "\<not> is_generation_settled u g (base (settle_claim q catalog account fetch u m gs claimed prompt completion st))"
proof -
  have fresh: "gen_rows u g (base st) = []"
    using assms(1,3) sum_generations_unsettled by (auto simp: verified_generation_usage_def settled_gen_rows split: if_splits)
  let ?op = "\<lambda>w. stopped_operation m cost p c ids
     ([(''client_claimed_cost'', JNum claimed)] @
      [(''accepted_source'', JStr ''generation_lookup''), (''generation_ids'', JList (map JStr ids))]) w"
  have no_id: "op_request_id (?op w) = []" for w using assms(2) by (cases ids rule: remdups_adj.cases) simp_all
  obtain res op' st' where run: "record_usage q catalog u (?op (base st)) None st = (res, op', st')" by (metis surj_pair)
  from run up have "gen_rows u g (base st') = []"
  proof (cases rule: record_usage_rows)
    case (row l)
    show ?thesis using gen_rows_append [OF row(2,3), of u g] no_id fresh assms(4) by simp
  qed (use gen_rows_same fresh in \<open>metis+\<close>)
  with run fresh assms(1) show ?thesis by (simp add: settle_claim_def Let_def settled_gen_rows)
qed

text \<open>Nor does a claim look at whose key was used: the row of a user with a key of her own counts against her
  quota, where the task would have recorded it at no cost.\<close>

lemma claim_ignores_own_key:
  assumes "op_cost_usd (stopped_operation m cost p c ids extra w) \<noteq> 0"
  shows "op_billing_origin (fst (snd (record_usage q catalog u (stopped_operation m cost p c ids extra w) None st))) = BILLING_ORIGIN_PLATFORM
    \<and> settlement_origin [] demo_principal = BILLING_ORIGIN_BYOK"
  using assms
  by (auto simp: record_usage_def price_and_origin_def resolve_origin_def opt_str_or_def str_or_def VALID_BILLING_ORIGINS_def
      settlement_origin_def resolve_with_origin_def openrouter_key_def caller_def key_origin_def demo_principal_def nonempty_def
      get_api_key_for_user_def Let_def BILLING_ORIGIN_PLATFORM_def split: sum.splits prod.splits if_splits)

end
