(* ===== verification/Blob_Store.thy ===== *)
theory Blob_Store
  imports Py_Text "HOL-Library.Word"
begin

text \<open>
  Where the bytes of workspace files are kept: \<^verbatim>\<open>workspaces/services/workspace_storage.py\<close> and the
  \<^verbatim>\<open>WorkspaceFile\<close> row of \<^verbatim>\<open>workspaces/models.py\<close>.  Small contents are a column, large ones an
  object in R2.

  Outside the repository: R2 itself, a map from keys to bytes.  \<open>net n\<close> is how the \<open>n\<close>-th call ends:
  it succeeds, it is refused (\<^verbatim>\<open>ClientError\<close>), or it breaks with any other exception; \<open>sha\<close> is the
  hexadecimal SHA-256 digest.  Creating the client itself does not fail.
\<close>

type_synonym bytes = "8 word list"

section \<open>Object keys\<close>

definition CONTEXT_CHATS :: string where "CONTEXT_CHATS = ''chats''"
definition CONTEXT_PROFILE :: string where "CONTEXT_PROFILE = ''profile''"
definition RESOURCE_IDE_FILES :: string where "RESOURCE_IDE_FILES = ''ide-files''"
definition RESOURCE_ASSETS :: string where "RESOURCE_ASSETS = ''assets''"
definition RESOURCE_IMAGES :: string where "RESOURCE_IMAGES = ''assets/images''"
definition RESOURCE_VIDEOS :: string where "RESOURCE_VIDEOS = ''assets/videos''"
definition RESOURCE_FILES :: string where "RESOURCE_FILES = ''assets/files''"
definition RESOURCE_AVATAR :: string where "RESOURCE_AVATAR = ''avatar''"

definition chat_ide_file :: "string \<Rightarrow> string \<Rightarrow> string \<Rightarrow> string" where
  "chat_ide_file user_id chat_id hash = join_with ''/'' [user_id, CONTEXT_CHATS, chat_id, RESOURCE_IDE_FILES, hash]"

definition chat_asset :: "string \<Rightarrow> string \<Rightarrow> string \<Rightarrow> string" where
  "chat_asset user_id chat_id asset_id = join_with ''/'' [user_id, CONTEXT_CHATS, chat_id, RESOURCE_ASSETS, asset_id]"

definition chat_image :: "string \<Rightarrow> string \<Rightarrow> string \<Rightarrow> string" where
  "chat_image user_id chat_id asset_id = join_with ''/'' [user_id, CONTEXT_CHATS, chat_id, RESOURCE_IMAGES, asset_id]"

definition chat_video :: "string \<Rightarrow> string \<Rightarrow> string \<Rightarrow> string" where
  "chat_video user_id chat_id asset_id = join_with ''/'' [user_id, CONTEXT_CHATS, chat_id, RESOURCE_VIDEOS, asset_id]"

definition chat_file :: "string \<Rightarrow> string \<Rightarrow> string \<Rightarrow> string" where
  "chat_file user_id chat_id asset_id = join_with ''/'' [user_id, CONTEXT_CHATS, chat_id, RESOURCE_FILES, asset_id]"

definition user_avatar :: "string \<Rightarrow> string" where
  "user_avatar user_id = join_with ''/'' [user_id, CONTEXT_PROFILE, RESOURCE_AVATAR]"

text \<open>\<^verbatim>\<open>s.split(c)\<close> for one character.\<close>

fun split_on :: "char \<Rightarrow> string \<Rightarrow> string list" where
  "split_on c [] = [[]]"
| "split_on c (d # s) = (if d = c then [] # split_on c s else (d # hd (split_on c s)) # tl (split_on c s))"

record parsed_key =
  pk_user_id :: string
  pk_context_type :: string
  pk_context_id :: string
  pk_resource_type :: string
  pk_identifier :: string

definition parse_key :: "string \<Rightarrow> parsed_key option" where
  "parse_key key = (case split_on (CHR ''/'') key of
      [u, t, c, r, i] \<Rightarrow> Some \<lparr>pk_user_id = u, pk_context_type = t, pk_context_id = c, pk_resource_type = r, pk_identifier = i\<rparr>
    | _ \<Rightarrow> None)"

definition user_prefix :: "string \<Rightarrow> string" where
  "user_prefix user_id = user_id @ ''/''"

definition chat_prefix :: "string \<Rightarrow> string \<Rightarrow> string" where
  "chat_prefix user_id chat_id = join_with ''/'' [user_id, CONTEXT_CHATS, chat_id, []]"

section \<open>R2\<close>

datatype r2_answer = R2Ok | R2Refused | R2Broken

record r2_state =
  r2_objects :: "string \<rightharpoonup> bytes"
  r2_calls :: nat

record storage_config =
  account_id :: string
  access_key_id :: string
  secret_access_key :: string
  bucket_name :: string
  endpoint_url :: string
  inline_threshold :: nat

definition r2_enabled :: "storage_config \<Rightarrow> bool" where
  "r2_enabled cfg \<longleftrightarrow> access_key_id cfg \<noteq> [] \<and> secret_access_key cfg \<noteq> [] \<and> (endpoint_url cfg \<noteq> [] \<or> account_id cfg \<noteq> [])"

definition effective_endpoint_url :: "storage_config \<Rightarrow> string option" where
  "effective_endpoint_url cfg =
     (if endpoint_url cfg \<noteq> [] then Some (endpoint_url cfg)
      else if account_id cfg \<noteq> [] then Some (''https://'' @ account_id cfg @ ''.r2.cloudflarestorage.com'')
      else None)"

definition put_object :: "string \<Rightarrow> bytes \<Rightarrow> r2_state \<Rightarrow> r2_state" where
  "put_object key content r = r\<lparr>r2_objects := (r2_objects r)(key \<mapsto> content)\<rparr>"

definition delete_object :: "string \<Rightarrow> r2_state \<Rightarrow> r2_state" where
  "delete_object key r = r\<lparr>r2_objects := (r2_objects r)(key := None)\<rparr>"

definition count_call :: "r2_state \<Rightarrow> r2_state" where
  "count_call r = r\<lparr>r2_calls := Suc (r2_calls r)\<rparr>"

text \<open>The private operations.  \<open>None\<close> is an exception that is not a \<^verbatim>\<open>ClientError\<close>.\<close>

definition upload_to_r2 :: "storage_config \<Rightarrow> (nat \<Rightarrow> r2_answer) \<Rightarrow> string \<Rightarrow> bytes \<Rightarrow> r2_state \<Rightarrow> bool option \<times> r2_state" where
  "upload_to_r2 cfg net key content r =
     (if \<not> r2_enabled cfg then (Some False, r)
      else case net (r2_calls r) of
        R2Ok \<Rightarrow> (Some True, put_object key content (count_call r))
      | R2Refused \<Rightarrow> (Some False, count_call r)
      | R2Broken \<Rightarrow> (None, count_call r))"

definition download_from_r2 :: "storage_config \<Rightarrow> (nat \<Rightarrow> r2_answer) \<Rightarrow> string \<Rightarrow> r2_state \<Rightarrow> bytes option option \<times> r2_state" where
  "download_from_r2 cfg net key r =
     (if \<not> r2_enabled cfg then (Some None, r)
      else case net (r2_calls r) of
        R2Ok \<Rightarrow> (Some (r2_objects r key), count_call r)
      | R2Refused \<Rightarrow> (Some None, count_call r)
      | R2Broken \<Rightarrow> (None, count_call r))"

definition delete_from_r2 :: "storage_config \<Rightarrow> (nat \<Rightarrow> r2_answer) \<Rightarrow> string \<Rightarrow> r2_state \<Rightarrow> bool option \<times> r2_state" where
  "delete_from_r2 cfg net key r =
     (if \<not> r2_enabled cfg then (Some False, r)
      else case net (r2_calls r) of
        R2Ok \<Rightarrow> (Some True, delete_object key (count_call r))
      | R2Refused \<Rightarrow> (Some False, count_call r)
      | R2Broken \<Rightarrow> (None, count_call r))"

definition check_r2_connection :: "storage_config \<Rightarrow> (nat \<Rightarrow> r2_answer) \<Rightarrow> r2_state \<Rightarrow> bool option \<times> r2_state" where
  "check_r2_connection cfg net r =
     (if \<not> r2_enabled cfg then (Some False, r)
      else case net (r2_calls r) of
        R2Ok \<Rightarrow> (Some True, count_call r) | R2Refused \<Rightarrow> (Some False, count_call r) | R2Broken \<Rightarrow> (None, count_call r))"

section \<open>Tiered storage\<close>

definition STORAGE_INLINE :: string where "STORAGE_INLINE = ''inline''"
definition STORAGE_R2 :: string where "STORAGE_R2 = ''r2''"

record workspace_file =
  wf_id :: nat
  wf_workspace :: string
  wf_path :: string
  wf_filename :: string
  wf_mime_type :: "string option"
  wf_size_bytes :: nat
  wf_storage_type :: string
  wf_content :: "bytes option"
  wf_r2_bucket :: "string option"
  wf_r2_key :: "string option"
  wf_sha256_hash :: string

record storage_result =
  sr_success :: bool
  sr_storage_type :: string
  sr_r2_bucket :: "string option"
  sr_r2_key :: "string option"
  sr_content :: "bytes option"
  sr_error :: "string option"

definition determine_storage_type :: "storage_config \<Rightarrow> nat \<Rightarrow> string" where
  "determine_storage_type cfg content_size =
     (if content_size \<le> inline_threshold cfg then STORAGE_INLINE
      else if r2_enabled cfg then STORAGE_R2 else STORAGE_INLINE)"

definition generate_r2_key :: "string \<Rightarrow> string \<Rightarrow> string \<Rightarrow> string" where
  "generate_r2_key user_id chat_id hash = chat_ide_file user_id chat_id hash"

definition stored_inline :: "bytes \<Rightarrow> string option \<Rightarrow> storage_result" where
  "stored_inline content error =
     \<lparr>sr_success = True, sr_storage_type = STORAGE_INLINE, sr_r2_bucket = None, sr_r2_key = None, sr_content = Some content, sr_error = error\<rparr>"

definition store_file :: "storage_config \<Rightarrow> (nat \<Rightarrow> r2_answer) \<Rightarrow> (bytes \<Rightarrow> string) \<Rightarrow> string \<Rightarrow> string \<Rightarrow> bytes \<Rightarrow> string option
    \<Rightarrow> r2_state \<Rightarrow> storage_result option \<times> r2_state" where
  "store_file cfg net sha user_id chat_id content content_hash r =
     (let hash = opt_str_or content_hash (sha content)
      in if determine_storage_type cfg (length content) = STORAGE_INLINE
         then (Some (stored_inline content None), r)
         else let key = generate_r2_key user_id chat_id hash
              in case upload_to_r2 cfg net key content r of
                   (None, r') \<Rightarrow> (None, r')
                 | (Some True, r') \<Rightarrow>
                     (Some \<lparr>sr_success = True, sr_storage_type = STORAGE_R2, sr_r2_bucket = Some (bucket_name cfg),
                            sr_r2_key = Some key, sr_content = None, sr_error = None\<rparr>, r')
                 | (Some False, r') \<Rightarrow> (Some (stored_inline content (Some ''R2 upload failed, stored inline'')), r'))"

definition retrieve_file :: "storage_config \<Rightarrow> (nat \<Rightarrow> r2_answer) \<Rightarrow> workspace_file \<Rightarrow> r2_state \<Rightarrow> bytes option option \<times> r2_state" where
  "retrieve_file cfg net f r =
     (if wf_storage_type f = STORAGE_INLINE then (Some (wf_content f), r)
      else if wf_storage_type f = STORAGE_R2 \<and> truthy_str (wf_r2_key f)
      then (case download_from_r2 cfg net (the_default [] (wf_r2_key f)) r of
              (None, r') \<Rightarrow> (None, r')
            | (Some (Some content), r') \<Rightarrow> (Some (Some content), r')
            | (Some None, r') \<Rightarrow> (Some (case wf_content f of Some (b # bs) \<Rightarrow> Some (b # bs) | _ \<Rightarrow> None), r'))
      else (Some (wf_content f), r))"

definition delete_stored_file :: "storage_config \<Rightarrow> (nat \<Rightarrow> r2_answer) \<Rightarrow> workspace_file \<Rightarrow> r2_state \<Rightarrow> bool option \<times> r2_state" where
  "delete_stored_file cfg net f r =
     (if wf_storage_type f = STORAGE_R2 \<and> truthy_str (wf_r2_key f)
      then delete_from_r2 cfg net (the_default [] (wf_r2_key f)) r else (Some True, r))"

section \<open>What the tables rely on\<close>

text \<open>A keyed store of blobs, and a table of entries that name a blob each: what keeps every entry readable.\<close>

locale blob_store =
  fixes get :: "'s \<Rightarrow> 'k \<Rightarrow> 'v option" and put :: "'k \<Rightarrow> 'v \<Rightarrow> 's \<Rightarrow> 's" and del :: "'k \<Rightarrow> 's \<Rightarrow> 's"
  assumes get_put: "get (put k v s) j = (if j = k then Some v else get s j)"
    and get_del: "get (del k s) j = (if j = k then None else get s j)"
begin

definition readable :: "('k \<times> 'v) set \<Rightarrow> 's \<Rightarrow> bool" where
  "readable entries s \<longleftrightarrow> (\<forall>(k, v) \<in> entries. get s k = Some v)"

lemma readable_empty [simp]: "readable {} s"
  by (simp add: readable_def)

lemma readable_mono: "readable entries s \<Longrightarrow> entries' \<subseteq> entries \<Longrightarrow> readable entries' s"
  by (auto simp: readable_def)

lemma readable_put:
  "readable entries s \<Longrightarrow> (\<And>w. (k, w) \<in> entries \<Longrightarrow> w = v) \<Longrightarrow> readable (insert (k, v) entries) (put k v s)"
  by (auto simp: readable_def get_put)

lemma readable_put_same:
  "readable entries s \<Longrightarrow> (\<And>w. (k, w) \<in> entries \<Longrightarrow> w = v) \<Longrightarrow> readable entries (put k v s)"
  by (auto simp: readable_def get_put)

lemma readable_del: "readable entries s \<Longrightarrow> k \<notin> fst ` entries \<Longrightarrow> readable entries (del k s)"
  by (force simp: readable_def get_del)

lemma dangling_del: "(k, v) \<in> entries \<Longrightarrow> \<not> readable entries (del k s)"
  by (force simp: readable_def get_del)

end

interpretation r2: blob_store r2_objects put_object delete_object
  by unfold_locales (simp_all add: put_object_def delete_object_def)

lemma r2_calls_objects [simp]:
  "r2_objects (count_call r) = r2_objects r" "r2_calls (put_object k c r) = r2_calls r" "r2_calls (delete_object k r) = r2_calls r"
  by (simp_all add: count_call_def put_object_def delete_object_def)

lemma readable_objects: "r2_objects r' = r2_objects r \<Longrightarrow> r2.readable entries r' \<longleftrightarrow> r2.readable entries r"
  by (simp add: r2.readable_def)

lemma upload_cases:
  assumes "upload_to_r2 cfg net key content r = (b, r')"
  obtains (stored) "b = Some True" "r' = put_object key content (count_call r)"
  | (kept) "b \<noteq> Some True" "r2_objects r' = r2_objects r"
  using assms by (auto simp: upload_to_r2_def split: if_splits r2_answer.splits)

lemma delete_cases:
  assumes "delete_from_r2 cfg net key r = (b, r')"
  obtains (deleted) "b = Some True" "r' = delete_object key (count_call r)"
  | (kept) "b \<noteq> Some True" "r2_objects r' = r2_objects r"
  using assms by (auto simp: delete_from_r2_def split: if_splits r2_answer.splits)

lemma download_keeps: "download_from_r2 cfg net key r = (b, r') \<Longrightarrow> r2_objects r' = r2_objects r"
  by (auto simp: download_from_r2_def split: if_splits r2_answer.splits)

text \<open>A digest without collisions on the contents that occur, and without slashes.\<close>

definition digests :: "(bytes \<Rightarrow> string) \<Rightarrow> bytes set \<Rightarrow> bool" where
  "digests sha B \<longleftrightarrow> inj_on sha B \<and> (\<forall>b \<in> B. CHR ''/'' \<notin> set (sha b))"

lemma digestsD: "digests sha B \<Longrightarrow> b \<in> B \<Longrightarrow> inv_into B sha (sha b) = b \<and> CHR ''/'' \<notin> set (sha b)"
  by (simp add: digests_def)

section \<open>A stored file reads back\<close>

lemma storage_types_differ [simp]: "STORAGE_INLINE \<noteq> STORAGE_R2" "STORAGE_R2 \<noteq> STORAGE_INLINE"
  by (simp_all add: STORAGE_INLINE_def STORAGE_R2_def)

lemma chat_ide_file_nonempty [simp]: "chat_ide_file u c h \<noteq> []"
  by (simp add: chat_ide_file_def CONTEXT_CHATS_def)

text \<open>Whatever R2 does while a content is stored, a file row written from the result gives the content
  back, unless R2 fails when it is read.\<close>

lemma stored_file_reads_back:
  assumes "store_file cfg net sha u c content hash r = (Some res, r')"
    and "wf_storage_type f = sr_storage_type res" and "wf_content f = sr_content res" and "wf_r2_key f = sr_r2_key res"
    and "net (r2_calls r') = R2Ok"
  shows "fst (retrieve_file cfg net f r') = Some (Some content) \<and> r2_objects r' \<in> {r2_objects r,
     (r2_objects r)(chat_ide_file u c (opt_str_or hash (sha content)) \<mapsto> content)}"
proof (cases "determine_storage_type cfg (length content) = STORAGE_INLINE")
  case True
  with assms show ?thesis by (auto simp: store_file_def stored_inline_def retrieve_file_def)
next
  case False
  then have on: "r2_enabled cfg" by (auto simp: determine_storage_type_def split: if_splits)
  let ?key = "generate_r2_key u c (opt_str_or hash (sha content))"
  obtain b r1 where up: "upload_to_r2 cfg net ?key content r = (b, r1)" by fastforce
  from up show ?thesis
  proof (cases rule: upload_cases)
    case stored
    with False up assms(1) have "res = \<lparr>sr_success = True, sr_storage_type = STORAGE_R2, sr_r2_bucket = Some (bucket_name cfg),
        sr_r2_key = Some ?key, sr_content = None, sr_error = None\<rparr>" "r' = r1" by (auto simp: store_file_def Let_def)
    with stored on assms show ?thesis
      by (simp add: retrieve_file_def download_from_r2_def generate_r2_key_def truthy_str_def put_object_def)
  next
    case kept
    with False up assms(1) have "res = stored_inline content (Some ''R2 upload failed, stored inline'')" "r' = r1"
      by (auto simp: store_file_def Let_def split: option.splits bool.splits)
    with kept assms show ?thesis by (simp add: retrieve_file_def stored_inline_def)
  qed
qed

section \<open>Keys\<close>

lemma split_on_nonempty [simp]: "split_on c s \<noteq> []"
  by (cases s) simp_all

lemma split_on_id: "c \<notin> set s \<Longrightarrow> split_on c s = [s]"
  by (induction s) auto

lemma split_on_append: "split_on c (s @ c # t) = split_on c s @ split_on c t"
  by (induction s) simp_all

lemma split_join: "ps \<noteq> [] \<Longrightarrow> \<forall>p \<in> set ps. c \<notin> set p \<Longrightarrow> split_on c (join_with [c] ps) = ps"
  by (induction "[c]" ps rule: join_with.induct) (simp_all add: split_on_id split_on_append)

text \<open>The key of a workspace file tells whose it is, as long as its parts have no slash (identifiers and
  hexadecimal digests have none) \<dots>\<close>

lemma ide_file_key_parses:
  assumes "CHR ''/'' \<notin> set u" and "CHR ''/'' \<notin> set c" and "CHR ''/'' \<notin> set h"
  shows "parse_key (chat_ide_file u c h) = Some \<lparr>pk_user_id = u, pk_context_type = CONTEXT_CHATS, pk_context_id = c,
     pk_resource_type = RESOURCE_IDE_FILES, pk_identifier = h\<rparr>"
proof -
  have "CHR ''/'' \<notin> set CONTEXT_CHATS" "CHR ''/'' \<notin> set RESOURCE_IDE_FILES"
    by (simp_all add: CONTEXT_CHATS_def RESOURCE_IDE_FILES_def)
  with assms have "split_on (CHR ''/'') (chat_ide_file u c h) = [u, CONTEXT_CHATS, c, RESOURCE_IDE_FILES, h]"
    unfolding chat_ide_file_def by (intro split_join) simp_all
  then show ?thesis by (simp add: parse_key_def)
qed

text \<open>\<dots> but the key of an image, whose resource type has a slash of its own, does not parse at all; nor
  do those of videos and files, and the key of an avatar is too short.\<close>

lemma image_key_does_not_parse:
  assumes "CHR ''/'' \<notin> set u" and "CHR ''/'' \<notin> set c" and "CHR ''/'' \<notin> set a"
  shows "parse_key (chat_image u c a) = None"
proof -
  have "CHR ''/'' \<notin> set CONTEXT_CHATS" by (simp add: CONTEXT_CHATS_def)
  with assms have "split_on (CHR ''/'') (join_with ''/'' [u, CONTEXT_CHATS, c, ''assets'', ''images'', a])
      = [u, CONTEXT_CHATS, c, ''assets'', ''images'', a]" by (intro split_join) simp_all
  moreover have "chat_image u c a = join_with ''/'' [u, CONTEXT_CHATS, c, ''assets'', ''images'', a]"
    by (simp add: chat_image_def RESOURCE_IMAGES_def)
  ultimately show ?thesis by (simp add: parse_key_def)
qed

end
