(* ===== verification/File_Versions.thy ===== *)
theory File_Versions
  imports Blob_Store Usage_Models "HOL-Library.List_Lexorder" "HOL-Library.Char_ord"
begin

text \<open>
  The versions of workspace files: \<^verbatim>\<open>workspaces/services/file_version_service.py\<close>, its tables
  \<^verbatim>\<open>FileVersion\<close> and \<^verbatim>\<open>FileVersionContent\<close>, and the change lists of
  \<^verbatim>\<open>workspaces/api/version_views.py\<close>.

  Contents are stored once per digest and counted.  A transaction rolls the tables back, never R2.  The
  tables answer; text columns are ordered by code points; \<open>mime\<close> is the table of
  \<^verbatim>\<open>mimetypes.guess_type\<close>, which the host configures.
\<close>

section \<open>Rows\<close>

record workspace_ref =
  ws_id :: string
  ws_user_id :: string
  ws_chat_id :: string

record version_content =
  vc_hash :: string
  vc_storage_type :: string
  vc_content :: "bytes option"
  vc_r2_key :: string
  vc_size_bytes :: nat
  vc_refs :: int

record file_version =
  fv_id :: nat
  fv_workspace :: string
  fv_path :: string
  fv_number :: nat
  fv_source_type :: string
  fv_message :: "string option"
  fv_job_id :: string
  fv_tool_name :: string
  fv_ref :: string
  fv_size_bytes :: nat
  fv_is_deleted :: bool
  fv_is_binary :: bool
  fv_mime_type :: string
  fv_created_at :: datetime
  fv_created_by :: "string option"

record version_state =
  vs_contents :: "version_content list"
  vs_versions :: "file_version list"
  vs_next_id :: nat
  vs_r2 :: r2_state
  vs_clock :: datetime

definition SOURCE_TYPES :: "(string \<times> string) list" where
  "SOURCE_TYPES =
     [(''user_edit'', ''User Edit''), (''file_tool'', ''File Tool''), (''coding_agent'', ''Coding Agent''),
      (''upload'', ''Upload''), (''restore'', ''Restore''), (''initial'', ''Initial'')]"

definition get_source_type_display :: "file_version \<Rightarrow> string" where
  "get_source_type_display v = the_default (fv_source_type v) (map_of SOURCE_TYPES (fv_source_type v))"

definition versions_of :: "string \<Rightarrow> string \<Rightarrow> version_state \<Rightarrow> file_version list" where
  "versions_of w path s = filter (\<lambda>v. fv_workspace v = w \<and> fv_path v = path) (vs_versions s)"

definition get_latest_version :: "workspace_ref \<Rightarrow> string \<Rightarrow> version_state \<Rightarrow> file_version option" where
  "get_latest_version w path s = first_by (\<lambda>v. - int (fv_number v)) (versions_of (ws_id w) path s)"

definition get_next_version_number :: "workspace_ref \<Rightarrow> string \<Rightarrow> version_state \<Rightarrow> nat" where
  "get_next_version_number w path s = (case get_latest_version w path s of Some v \<Rightarrow> fv_number v + 1 | None \<Rightarrow> 1)"

section \<open>Binary files\<close>

definition BINARY_EXTENSIONS :: "string list" where
  "BINARY_EXTENSIONS =
     [''.png'', ''.jpg'', ''.jpeg'', ''.gif'', ''.webp'', ''.ico'', ''.bmp'', ''.svg'',
      ''.pdf'', ''.doc'', ''.docx'', ''.xls'', ''.xlsx'', ''.ppt'', ''.pptx'',
      ''.zip'', ''.tar'', ''.gz'', ''.rar'', ''.7z'',
      ''.exe'', ''.dll'', ''.so'', ''.dylib'',
      ''.mp3'', ''.mp4'', ''.wav'', ''.avi'', ''.mov'', ''.webm'',
      ''.woff'', ''.woff2'', ''.ttf'', ''.otf'', ''.eot'',
      ''.pyc'', ''.pyo'', ''.class'', ''.o'']"

text \<open>\<^verbatim>\<open>os.path.splitext(path)[1]\<close>: the part from the last dot of the name, leading dots apart.\<close>

definition path_extension :: "string \<Rightarrow> string" where
  "path_extension path =
     (let name = dropWhile (\<lambda>c. c = CHR ''.'') (last (split_on (CHR ''/'') path))
      in if CHR ''.'' \<in> set name then CHR ''.'' # last (split_on (CHR ''.'') name) else [])"

definition is_binary_file :: "string \<Rightarrow> bytes \<Rightarrow> bool" where
  "is_binary_file path content \<longleftrightarrow> lower (path_extension path) \<in> set BINARY_EXTENSIONS \<or> 0 \<in> set (take 8192 content)"

definition get_mime_type :: "(string \<Rightarrow> string option) \<Rightarrow> string \<Rightarrow> string" where
  "get_mime_type mime path = opt_str_or (mime path) ''application/octet-stream''"

section \<open>Creating a version\<close>

definition version_r2_key :: "string \<Rightarrow> string \<Rightarrow> string \<Rightarrow> string" where
  "version_r2_key user chat hash = join_with ''/'' [user, ''chats'', chat, ''versions'', hash]"

text \<open>The row of a content that is stored for the first time.\<close>

definition place_content :: "storage_config \<Rightarrow> (nat \<Rightarrow> r2_answer) \<Rightarrow> workspace_ref \<Rightarrow> string \<Rightarrow> bytes \<Rightarrow> r2_state
    \<Rightarrow> version_content \<times> r2_state" where
  "place_content cfg net w hash content r =
     (let row = \<lparr>vc_hash = hash, vc_storage_type = STORAGE_INLINE, vc_content = Some content, vc_r2_key = [],
                 vc_size_bytes = length content, vc_refs = 1\<rparr>;
          key = version_r2_key (ws_user_id w) (ws_chat_id w) hash
      in if length content \<le> inline_threshold cfg then (row, r)
         else case upload_to_r2 cfg net key content r of
           (Some True, r') \<Rightarrow> (row\<lparr>vc_storage_type := STORAGE_R2, vc_content := None, vc_r2_key := key\<rparr>, r')
         | (_, r') \<Rightarrow> (row, r'))"

definition add_refs :: "int \<Rightarrow> string \<Rightarrow> version_content list \<Rightarrow> version_content list" where
  "add_refs k hash = map (\<lambda>c. if vc_hash c = hash then c\<lparr>vc_refs := vc_refs c + k\<rparr> else c)"

definition keep_content :: "storage_config \<Rightarrow> (nat \<Rightarrow> r2_answer) \<Rightarrow> workspace_ref \<Rightarrow> string \<Rightarrow> bytes \<Rightarrow> version_state
    \<Rightarrow> version_state" where
  "keep_content cfg net w hash content s =
     (if hash \<in> vc_hash ` set (vs_contents s)
      then s\<lparr>vs_contents := add_refs 1 hash (vs_contents s)\<rparr>
      else case place_content cfg net w hash content (vs_r2 s) of
        (row, r) \<Rightarrow> s\<lparr>vs_contents := vs_contents s @ [row], vs_r2 := r\<rparr>)"

record version_args =
  va_source_type :: string
  va_message :: "string option"
  va_job_id :: "string option"
  va_tool_name :: "string option"
  va_user :: "string option"
  va_is_deleted :: bool

definition new_version :: "(bytes \<Rightarrow> string) \<Rightarrow> (string \<Rightarrow> string option) \<Rightarrow> workspace_ref \<Rightarrow> string \<Rightarrow> bytes \<Rightarrow> version_args
    \<Rightarrow> version_state \<Rightarrow> file_version" where
  "new_version sha mime w path content a s =
     \<lparr>fv_id = vs_next_id s, fv_workspace = ws_id w, fv_path = path, fv_number = get_next_version_number w path s,
      fv_source_type = va_source_type a, fv_message = va_message a, fv_job_id = opt_str_or (va_job_id a) [],
      fv_tool_name = opt_str_or (va_tool_name a) [], fv_ref = sha content, fv_size_bytes = length content,
      fv_is_deleted = va_is_deleted a, fv_is_binary = is_binary_file path content, fv_mime_type = get_mime_type mime path,
      fv_created_at = vs_clock s, fv_created_by = va_user a\<rparr>"

definition create_version :: "storage_config \<Rightarrow> (nat \<Rightarrow> r2_answer) \<Rightarrow> (bytes \<Rightarrow> string) \<Rightarrow> (string \<Rightarrow> string option)
    \<Rightarrow> workspace_ref \<Rightarrow> string \<Rightarrow> bytes \<Rightarrow> version_args \<Rightarrow> version_state \<Rightarrow> file_version \<times> version_state" where
  "create_version cfg net sha mime w path content a s =
     (let s1 = keep_content cfg net w (sha content) content s;
          v = new_version sha mime w path content a s1
      in (v, s1\<lparr>vs_versions := vs_versions s1 @ [v], vs_next_id := Suc (vs_next_id s1)\<rparr>))"

definition create_deletion_tombstone :: "storage_config \<Rightarrow> (nat \<Rightarrow> r2_answer) \<Rightarrow> (bytes \<Rightarrow> string) \<Rightarrow> (string \<Rightarrow> string option)
    \<Rightarrow> workspace_ref \<Rightarrow> string \<Rightarrow> version_args \<Rightarrow> version_state \<Rightarrow> file_version \<times> version_state" where
  "create_deletion_tombstone cfg net sha mime w path a s =
     create_version cfg net sha mime w path [] (a\<lparr>va_tool_name := None, va_is_deleted := True\<rparr>) s"

section \<open>Reading versions\<close>

definition get_file_history :: "workspace_ref \<Rightarrow> string \<Rightarrow> nat \<Rightarrow> version_state \<Rightarrow> file_version list" where
  "get_file_history w path limit s = take limit (sort_key (\<lambda>v. - int (fv_number v)) (versions_of (ws_id w) path s))"

definition get_version :: "nat \<Rightarrow> version_state \<Rightarrow> file_version option" where
  "get_version i s = List.find (\<lambda>v. fv_id v = i) (vs_versions s)"

text \<open>The bytes of a version; \<open>None\<close> where an exception leaves the method.\<close>

definition get_version_content :: "storage_config \<Rightarrow> (nat \<Rightarrow> r2_answer) \<Rightarrow> file_version \<Rightarrow> version_state
    \<Rightarrow> bytes option \<times> version_state" where
  "get_version_content cfg net v s =
     (case List.find (\<lambda>c. vc_hash c = fv_ref v) (vs_contents s) of
        None \<Rightarrow> (None, s)
      | Some c \<Rightarrow>
          let inline = (case vc_content c of Some (b # bs) \<Rightarrow> Some (b # bs) | _ \<Rightarrow> None)
          in if vc_storage_type c = STORAGE_INLINE then (Some (the_default [] (vc_content c)), s)
             else case download_from_r2 cfg net (vc_r2_key c) (vs_r2 s) of
               (Some (Some content), r) \<Rightarrow> (Some content, s\<lparr>vs_r2 := r\<rparr>)
             | (_, r) \<Rightarrow> (inline, s\<lparr>vs_r2 := r\<rparr>))"

definition get_workspace_timeline :: "workspace_ref \<Rightarrow> datetime option \<Rightarrow> string option \<Rightarrow> nat \<Rightarrow> version_state \<Rightarrow> file_version list" where
  "get_workspace_timeline w since source_type limit s =
     take limit (sort_key (\<lambda>v. - fv_created_at v)
       (filter (\<lambda>v. fv_workspace v = ws_id w
            \<and> (case since of Some t \<Rightarrow> t \<le> fv_created_at v | None \<Rightarrow> True)
            \<and> (truthy_str source_type \<longrightarrow> Some (fv_source_type v) = source_type)) (vs_versions s)))"

definition by_path_and_number :: "file_version list \<Rightarrow> file_version list" where
  "by_path_and_number vs = sort_key fv_path (sort_key fv_number vs)"

definition get_message_file_changes :: "string \<Rightarrow> version_state \<Rightarrow> file_version list" where
  "get_message_file_changes message s = by_path_and_number (filter (\<lambda>v. fv_message v = Some message) (vs_versions s))"

definition get_job_file_changes :: "string \<Rightarrow> version_state \<Rightarrow> file_version list" where
  "get_job_file_changes job s = by_path_and_number (filter (\<lambda>v. fv_job_id v = job) (vs_versions s))"

record version_info =
  vi_id :: nat
  vi_number :: nat
  vi_path :: string
  vi_source_type :: string
  vi_source_type_display :: string
  vi_message :: "string option"
  vi_job_id :: "string option"
  vi_tool_name :: "string option"
  vi_size_bytes :: nat
  vi_is_deleted :: bool
  vi_is_binary :: bool
  vi_mime_type :: string
  vi_created_at :: datetime
  vi_created_by_id :: "string option"
  vi_created_by_username :: "string option"

text \<open>The custom \<^verbatim>\<open>User\<close> of \<^verbatim>\<open>authentication/models.py\<close> has no attribute \<^verbatim>\<open>username\<close>: for a
  version with a creator the conversion raises (\<open>None\<close>).\<close>

definition to_version_info :: "file_version \<Rightarrow> version_info option" where
  "to_version_info v =
     (if fv_created_by v \<noteq> None then None
      else Some \<lparr>vi_id = fv_id v, vi_number = fv_number v, vi_path = fv_path v, vi_source_type = fv_source_type v,
        vi_source_type_display = get_source_type_display v, vi_message = fv_message v,
        vi_job_id = nonempty (Some (fv_job_id v)), vi_tool_name = nonempty (Some (fv_tool_name v)),
        vi_size_bytes = fv_size_bytes v, vi_is_deleted = fv_is_deleted v, vi_is_binary = fv_is_binary v,
        vi_mime_type = fv_mime_type v, vi_created_at = fv_created_at v, vi_created_by_id = None, vi_created_by_username = None\<rparr>)"

record comparison_result =
  cr_version_a :: version_info
  cr_version_b :: version_info
  cr_original :: "bytes option"
  cr_modified :: "bytes option"
  cr_is_binary :: bool

definition comparison :: "file_version \<Rightarrow> file_version \<Rightarrow> bytes option \<Rightarrow> bytes option \<Rightarrow> comparison_result option" where
  "comparison a b original modified = (case (to_version_info a, to_version_info b) of
      (Some x, Some y) \<Rightarrow> Some \<lparr>cr_version_a = x, cr_version_b = y, cr_original = original, cr_modified = modified,
                             cr_is_binary = fv_is_binary a \<or> fv_is_binary b\<rparr>
    | _ \<Rightarrow> None)"

definition compare_versions :: "storage_config \<Rightarrow> (nat \<Rightarrow> r2_answer) \<Rightarrow> file_version \<Rightarrow> file_version \<Rightarrow> version_state
    \<Rightarrow> comparison_result option \<times> version_state" where
  "compare_versions cfg net a b s =
     (if fv_is_binary a \<or> fv_is_binary b then (comparison a b None None, s)
      else case get_version_content cfg net a s of
        (None, s1) \<Rightarrow> (None, s1)
      | (Some x, s1) \<Rightarrow>
          (case get_version_content cfg net b s1 of
             (None, s2) \<Rightarrow> (None, s2)
           | (Some y, s2) \<Rightarrow> (comparison a b (Some x) (Some y), s2)))"

section \<open>Cleaning up\<close>

text \<open>The versions beyond the limit, oldest first.  Deleting those of one path leaves the others' alone, so
  they are read at once.\<close>

definition old_versions :: "string \<Rightarrow> nat \<Rightarrow> datetime \<Rightarrow> version_state \<Rightarrow> string \<Rightarrow> file_version list" where
  "old_versions w keep cutoff s path =
     (let vs = versions_of w path s
      in take (length vs - keep) (sort_key fv_number (filter (\<lambda>v. fv_created_at v < cutoff) vs)))"

definition crowded_paths :: "string \<Rightarrow> nat \<Rightarrow> version_state \<Rightarrow> string list" where
  "crowded_paths w keep s =
     filter (\<lambda>p. keep < length (versions_of w p s)) (remdups (map fv_path (filter (\<lambda>v. fv_workspace v = w) (vs_versions s))))"

text \<open>A count that would become negative violates the column's check (\<open>None\<close>).\<close>

fun drop_versions :: "file_version list \<Rightarrow> version_state \<Rightarrow> version_state option" where
  "drop_versions [] s = Some s"
| "drop_versions (v # vs) s =
     (if list_ex (\<lambda>c. vc_hash c = fv_ref v \<and> vc_refs c < 1) (vs_contents s) then None
      else drop_versions vs (s\<lparr>vs_contents := add_refs (-1) (fv_ref v) (vs_contents s),
                               vs_versions := filter (\<lambda>x. fv_id x \<noteq> fv_id v) (vs_versions s)\<rparr>))"

text \<open>Unused contents go with their objects; a content that a version still refers to is protected
  (\<open>False\<close>).  Exceptions of R2 are logged.\<close>

fun drop_contents :: "storage_config \<Rightarrow> (nat \<Rightarrow> r2_answer) \<Rightarrow> version_content list \<Rightarrow> version_state \<Rightarrow> bool \<times> version_state" where
  "drop_contents cfg net [] s = (True, s)"
| "drop_contents cfg net (c # cs) s =
     (let s1 = (if vc_storage_type c = STORAGE_R2 \<and> vc_r2_key c \<noteq> []
                then s\<lparr>vs_r2 := snd (delete_from_r2 cfg net (vc_r2_key c) (vs_r2 s))\<rparr> else s)
      in if list_ex (\<lambda>v. fv_ref v = vc_hash c) (vs_versions s1) then (False, s1)
         else drop_contents cfg net cs (s1\<lparr>vs_contents := filter (\<lambda>x. vc_hash x \<noteq> vc_hash c) (vs_contents s1)\<rparr>))"

definition cleanup_old_versions :: "storage_config \<Rightarrow> (nat \<Rightarrow> r2_answer) \<Rightarrow> workspace_ref \<Rightarrow> nat \<Rightarrow> int \<Rightarrow> version_state
    \<Rightarrow> nat option \<times> version_state" where
  "cleanup_old_versions cfg net w keep older_than_days s =
     (let cutoff = vs_clock s - days older_than_days;
          olds = concat (map (old_versions (ws_id w) keep cutoff s) (crowded_paths (ws_id w) keep s))
      in case drop_versions olds s of
           None \<Rightarrow> (None, s)
         | Some s1 \<Rightarrow>
             (case drop_contents cfg net (filter (\<lambda>c. vc_refs c = 0) (vs_contents s1)) s1 of
                (True, s2) \<Rightarrow> (Some (length olds), s2)
              | (False, s2) \<Rightarrow> (None, s\<lparr>vs_r2 := vs_r2 s2\<rparr>)))"

section \<open>The change lists\<close>

record file_change =
  ch_path :: string
  ch_filename :: string
  ch_versions :: "nat list"
  ch_type :: string
  ch_is_binary :: bool

definition change_of :: "(file_version \<Rightarrow> string) \<Rightarrow> file_version \<Rightarrow> file_change" where
  "change_of kind v =
     \<lparr>ch_path = fv_path v, ch_filename = last (split_on (CHR ''/'') (fv_path v)), ch_versions = [],
      ch_type = kind v, ch_is_binary = fv_is_binary v\<rparr>"

definition note_version :: "file_version \<Rightarrow> file_change \<Rightarrow> file_change" where
  "note_version v f =
     (let f = f\<lparr>ch_versions := ch_versions f @ [fv_id v]\<rparr> in if fv_is_deleted v then f\<lparr>ch_type := ''deleted''\<rparr> else f)"

definition group_version :: "(file_version \<Rightarrow> string) \<Rightarrow> file_version \<Rightarrow> file_change list \<Rightarrow> file_change list" where
  "group_version kind v files =
     map (\<lambda>f. if ch_path f = fv_path v then note_version v f else f)
       (if fv_path v \<in> ch_path ` set files then files else files @ [change_of kind v])"

definition group_versions :: "(file_version \<Rightarrow> string) \<Rightarrow> file_version list \<Rightarrow> file_change list" where
  "group_versions kind vs = fold (group_version kind) vs []"

definition message_change_type :: "file_version \<Rightarrow> string" where
  "message_change_type v = (if fv_number v = 1 then ''created'' else ''modified'')"

definition job_change_type :: "file_version \<Rightarrow> string" where
  "job_change_type v =
     (if fv_tool_name v = ''Edit'' then ''modified'' else if fv_tool_name v = ''Write'' then ''created''
      else message_change_type v)"

definition message_file_changes :: "string \<Rightarrow> version_state \<Rightarrow> file_change list" where
  "message_file_changes message s = group_versions message_change_type (get_message_file_changes message s)"

definition job_file_changes :: "string \<Rightarrow> version_state \<Rightarrow> file_change list" where
  "job_file_changes job s = group_versions job_change_type (get_job_file_changes job s)"

end
