(* ===== verification/Version_Properties.thy ===== *)
theory Version_Properties
  imports File_Versions
begin

text \<open>
  What the versions of a workspace promise: a version reads back what it was created with for as long
  as it exists, whatever else is created and cleaned up; the counts are exact; cleaning up takes only
  old versions and leaves enough of them.
\<close>

section \<open>The invariant of the tables\<close>

definition refs :: "string \<Rightarrow> file_version list \<Rightarrow> nat" where
  "refs h vs = length (filter (\<lambda>v. fv_ref v = h) vs)"

lemma refs_simps [simp]: "refs h [] = 0" "refs h (v # vs) = (if fv_ref v = h then Suc (refs h vs) else refs h vs)"
  "refs h (us @ vs) = refs h us + refs h vs"
  by (simp_all add: refs_def)

lemma refs_pos: "v \<in> set vs \<Longrightarrow> 0 < refs (fv_ref v) vs"
  by (induction vs) auto

lemma refs_zero: "refs h vs = 0 \<Longrightarrow> v \<in> set vs \<Longrightarrow> fv_ref v \<noteq> h"
  using refs_pos by fastforce

text \<open>Where a content is: \<open>pre h\<close> is the content whose digest is \<open>h\<close>.\<close>

definition placed :: "(string \<Rightarrow> bytes) \<Rightarrow> version_content \<Rightarrow> bool" where
  "placed pre c \<longleftrightarrow> CHR ''/'' \<notin> set (vc_hash c) \<and>
     (if vc_storage_type c = STORAGE_R2 then \<exists>u ch. vc_r2_key c = version_r2_key u ch (vc_hash c)
      else vc_storage_type c = STORAGE_INLINE \<and> vc_content c = Some (pre (vc_hash c)))"

definition blobs :: "(string \<Rightarrow> bytes) \<Rightarrow> version_content list \<Rightarrow> (string \<times> bytes) set" where
  "blobs pre cs = (\<lambda>c. (vc_r2_key c, pre (vc_hash c))) ` {c \<in> set cs. vc_storage_type c = STORAGE_R2}"

text \<open>The invariant, with \<open>d h\<close> references of digest \<open>h\<close> counted that no version holds yet.\<close>

definition versions_inv_but :: "(string \<Rightarrow> int) \<Rightarrow> (string \<Rightarrow> bytes) \<Rightarrow> version_state \<Rightarrow> bool" where
  "versions_inv_but d pre s \<longleftrightarrow>
     distinct (map vc_hash (vs_contents s)) \<and> distinct (map fv_id (vs_versions s))
     \<and> (\<forall>v \<in> set (vs_versions s). fv_id v < vs_next_id s \<and> fv_ref v \<in> vc_hash ` set (vs_contents s)
          \<and> length (pre (fv_ref v)) = fv_size_bytes v)
     \<and> (\<forall>c \<in> set (vs_contents s). placed pre c \<and> vc_refs c = int (refs (vc_hash c) (vs_versions s)) + d (vc_hash c))
     \<and> r2.readable (blobs pre (vs_contents s)) (vs_r2 s)"

abbreviation versions_inv :: "(string \<Rightarrow> bytes) \<Rightarrow> version_state \<Rightarrow> bool" where
  "versions_inv \<equiv> versions_inv_but (\<lambda>_. 0)"

lemma version_key_hash:
  assumes "CHR ''/'' \<notin> set h"
  shows "last (split_on (CHR ''/'') (version_r2_key u ch h)) = h"
proof -
  have "version_r2_key u ch h = (u @ ''/chats/'' @ ch @ ''/versions'') @ CHR ''/'' # h"
    by (simp add: version_r2_key_def)
  then show ?thesis using split_on_id [OF assms] by (simp only: split_on_append) simp
qed

lemma placed_keys:
  assumes "placed pre c" and "placed pre c'" and "vc_storage_type c = STORAGE_R2" and "vc_storage_type c' = STORAGE_R2"
    and "vc_r2_key c = vc_r2_key c'"
  shows "vc_hash c = vc_hash c'"
  using assms version_key_hash by (metis placed_def)

lemma add_refs_simps [simp]:
  "map vc_hash (add_refs k h cs) = map vc_hash cs" "vc_hash ` set (add_refs k h cs) = vc_hash ` set cs"
  by (induction cs) (auto simp: add_refs_def)

lemma ball_add_refs:
  "(\<forall>c \<in> set (add_refs k h cs). P c) \<longleftrightarrow> (\<forall>c \<in> set cs. P (if vc_hash c = h then c\<lparr>vc_refs := vc_refs c + k\<rparr> else c))"
  by (auto simp: add_refs_def)

lemma blobs_append: "blobs pre (cs @ [c]) =
    (if vc_storage_type c = STORAGE_R2 then insert (vc_r2_key c, pre (vc_hash c)) (blobs pre cs) else blobs pre cs)"
  by (auto simp: blobs_def)

lemma blobs_add_refs [simp]: "blobs pre (add_refs k h cs) = blobs pre cs"
proof (induction cs)
  case (Cons c cs)
  have "blobs pre (x # xs) = (if vc_storage_type x = STORAGE_R2 then insert (vc_r2_key x, pre (vc_hash x)) (blobs pre xs) else blobs pre xs)"
    for x xs by (auto simp: blobs_def)
  with Cons show ?case by (simp add: add_refs_def)
qed (simp add: add_refs_def)

lemma placed_refs [simp]: "placed pre (c\<lparr>vc_refs := k\<rparr>) = placed pre c"
  by (simp add: placed_def)

lemma inv_add_refs:
  assumes "versions_inv_but d pre s"
  shows "versions_inv_but (\<lambda>x. d x + (if x = h then k else 0)) pre (s\<lparr>vs_contents := add_refs k h (vs_contents s)\<rparr>)"
  using assms by (simp add: versions_inv_but_def ball_add_refs)

section \<open>Creating\<close>

lemma keep_content_fields:
  "vs_versions (keep_content cfg net w h b s) = vs_versions s" "vs_next_id (keep_content cfg net w h b s) = vs_next_id s"
  "vs_clock (keep_content cfg net w h b s) = vs_clock s" "h \<in> vc_hash ` set (vs_contents (keep_content cfg net w h b s))"
  by (auto simp: keep_content_def place_content_def Let_def split: prod.splits option.splits bool.splits)

lemma keep_content_inv:
  assumes inv: "versions_inv pre s" and pre: "pre h = b" and hex: "CHR ''/'' \<notin> set h"
  shows "versions_inv_but (\<lambda>x. if x = h then 1 else 0) pre (keep_content cfg net w h b s)"
proof (cases "h \<in> vc_hash ` set (vs_contents s)")
  case True
  then show ?thesis using inv_add_refs [OF inv, of h 1] by (simp add: keep_content_def)
next
  case False
  obtain row r where p: "place_content cfg net w h b (vs_r2 s) = (row, r)" by fastforce
  let ?key = "version_r2_key (ws_user_id w) (ws_chat_id w) h"
  have unused: "refs h (vs_versions s) = 0"
  proof (rule ccontr)
    assume "refs h (vs_versions s) \<noteq> 0"
    then obtain v where "v \<in> set (vs_versions s)" "fv_ref v = h" by (auto simp: refs_def filter_empty_conv)
    with inv False show False by (auto simp: versions_inv_but_def)
  qed
  have other: "x = pre h" if "(?key, x) \<in> blobs pre (vs_contents s)" for x
  proof -
    from that obtain c where c: "c \<in> set (vs_contents s)" "vc_storage_type c = STORAGE_R2" "vc_r2_key c = ?key" "x = pre (vc_hash c)"
      by (auto simp: blobs_def)
    with inv have "placed pre c" by (simp add: versions_inv_but_def)
    with c(2,3) have "vc_hash c = h" using version_key_hash [OF hex] version_key_hash by (metis placed_def)
    with c(4) show ?thesis by simp
  qed
  consider (inline) "row = \<lparr>vc_hash = h, vc_storage_type = STORAGE_INLINE, vc_content = Some b, vc_r2_key = [],
                 vc_size_bytes = length b, vc_refs = 1\<rparr>" "r2_objects r = r2_objects (vs_r2 s)"
    | (r2) "row = \<lparr>vc_hash = h, vc_storage_type = STORAGE_R2, vc_content = None, vc_r2_key = ?key,
                 vc_size_bytes = length b, vc_refs = 1\<rparr>" "r = put_object ?key b (count_call (vs_r2 s))"
  proof (cases "length b \<le> inline_threshold cfg")
    case True
    with p show thesis by (intro inline) (auto simp: place_content_def Let_def)
  next
    case False
    obtain x r1 where up: "upload_to_r2 cfg net ?key b (vs_r2 s) = (x, r1)" by fastforce
    from up show thesis
    proof (cases rule: upload_cases)
      case stored
      with p False up show thesis by (intro r2) (auto simp: place_content_def Let_def)
    next
      case kept
      with p False up show thesis by (intro inline) (auto simp: place_content_def Let_def split: option.splits bool.splits)
    qed
  qed
  then have "vc_hash row = h \<and> vc_refs row = 1 \<and> placed pre row \<and> r2.readable (blobs pre (vs_contents s @ [row])) r"
  proof cases
    case inline
    then have "blobs pre (vs_contents s @ [row]) = blobs pre (vs_contents s)" by (simp add: blobs_append)
    then have "r2.readable (blobs pre (vs_contents s @ [row])) r"
      using inline(2) inv readable_objects [of r "vs_r2 s"] by (simp add: versions_inv_but_def)
    with inline hex pre show ?thesis by (simp add: placed_def)
  next
    case r2
    then have "blobs pre (vs_contents s @ [row]) = insert (?key, pre h) (blobs pre (vs_contents s))" by (simp add: blobs_append)
    moreover have "r2.readable (blobs pre (vs_contents s)) (count_call (vs_r2 s))"
      using inv readable_objects [of "count_call (vs_r2 s)" "vs_r2 s"] by (simp add: versions_inv_but_def)
    ultimately have "r2.readable (blobs pre (vs_contents s @ [row])) r"
      using r2.readable_put [of "blobs pre (vs_contents s)" "count_call (vs_r2 s)" ?key "pre h"] other r2(2) pre by simp
    with r2 hex show ?thesis by (auto simp: placed_def)
  qed
  then have row: "vc_hash row = h" "vc_refs row = 1" "placed pre row"
    "r2.readable (blobs pre (vs_contents s @ [row])) r" by simp_all
  have "keep_content cfg net w h b s = s\<lparr>vs_contents := vs_contents s @ [row], vs_r2 := r\<rparr>"
    using False p by (simp add: keep_content_def)
  moreover have "vc_hash c \<noteq> h" if "c \<in> set (vs_contents s)" for c using False that by auto
  ultimately show ?thesis using inv row unused False by (auto simp: versions_inv_but_def)
qed

lemma create_version_inv:
  assumes inv: "versions_inv pre s" and pre: "pre (sha b) = b" and hex: "CHR ''/'' \<notin> set (sha b)"
  shows "versions_inv pre (snd (create_version cfg net sha mime w path b a s))"
proof -
  let ?s1 = "keep_content cfg net w (sha b) b s"
  have i: "versions_inv_but (\<lambda>x. if x = sha b then 1 else 0) pre ?s1" by (rule keep_content_inv [OF inv pre hex])
  have m: "sha b \<in> vc_hash ` set (vs_contents ?s1)" by (rule keep_content_fields)
  show ?thesis
    using i m pre by (auto simp: versions_inv_but_def create_version_def new_version_def Let_def)
qed

section \<open>Cleaning up\<close>

lemma refs_remove:
  assumes "distinct (map fv_id vs)" and "v \<in> set vs"
  shows "int (refs h (filter (\<lambda>x. fv_id x \<noteq> fv_id v) vs)) = int (refs h vs) - (if fv_ref v = h then 1 else 0)"
  using assms
proof (induction vs)
  case (Cons x xs)
  show ?case
  proof (cases "x = v")
    case True
    then have "filter (\<lambda>y. fv_id y \<noteq> fv_id v) xs = xs" using Cons.prems(1) True by (intro filter_True) (auto simp: image_iff)
    with True show ?thesis by simp
  next
    case False
    then have "fv_id x \<noteq> fv_id v" using Cons.prems by auto
    with Cons False show ?thesis by auto
  qed
qed simp

definition drop_version :: "file_version \<Rightarrow> version_state \<Rightarrow> version_state" where
  "drop_version v s = s\<lparr>vs_contents := add_refs (-1) (fv_ref v) (vs_contents s),
     vs_versions := filter (\<lambda>x. fv_id x \<noteq> fv_id v) (vs_versions s)\<rparr>"

lemma drop_version_inv:
  assumes inv: "versions_inv pre s" and v: "v \<in> set (vs_versions s)"
  shows "versions_inv pre (drop_version v s)"
proof -
  have d: "distinct (map fv_id (vs_versions s))" using inv by (simp add: versions_inv_but_def)
  have "versions_inv_but (\<lambda>x. if x = fv_ref v then -1 else 0) pre (s\<lparr>vs_contents := add_refs (-1) (fv_ref v) (vs_contents s)\<rparr>)"
    using inv_add_refs [OF inv, of "fv_ref v" "-1"] by simp
  then show ?thesis
    using refs_remove [OF d v] by (auto simp: versions_inv_but_def drop_version_def distinct_map_filter)
qed

lemma drop_versions_eq:
  assumes "versions_inv pre s" and "set vs \<subseteq> set (vs_versions s)" and "distinct (map fv_id vs)"
  shows "\<exists>s'. drop_versions vs s = Some s' \<and> versions_inv pre s' \<and> vs_r2 s' = vs_r2 s
     \<and> vs_versions s' = filter (\<lambda>x. fv_id x \<notin> fv_id ` set vs) (vs_versions s)"
  using assms
proof (induction vs arbitrary: s)
  case (Cons v vs)
  have v: "v \<in> set (vs_versions s)" using Cons.prems(2) by simp
  have "\<not> list_ex (\<lambda>c. vc_hash c = fv_ref v \<and> vc_refs c < 1) (vs_contents s)"
    using Cons.prems(1) refs_pos [OF v] by (auto simp: versions_inv_but_def list_ex_iff)
  then have e: "drop_versions (v # vs) s = drop_versions vs (drop_version v s)" by (simp add: drop_version_def)
  have sub: "set vs \<subseteq> set (vs_versions (drop_version v s))"
    using Cons.prems(2,3) by (auto simp: drop_version_def image_iff)
  from Cons.IH [OF drop_version_inv [OF Cons.prems(1) v] sub] Cons.prems(3) obtain s' where
    "drop_versions vs (drop_version v s) = Some s'" "versions_inv pre s'" "vs_r2 s' = vs_r2 (drop_version v s)"
    "vs_versions s' = filter (\<lambda>x. fv_id x \<notin> fv_id ` set vs) (vs_versions (drop_version v s))" by auto
  then show ?case unfolding e by (auto simp: drop_version_def intro: filter_cong)
qed simp

lemma drop_content_inv:
  assumes inv: "versions_inv pre s" and c: "c \<in> set (vs_contents s)" and zero: "vc_refs c = 0"
    and r: "r2_objects r \<in> {r2_objects (vs_r2 s), (r2_objects (vs_r2 s))(vc_r2_key c := None)}"
    and other: "vc_storage_type c = STORAGE_R2 \<or> r2_objects r = r2_objects (vs_r2 s)"
  shows "versions_inv pre (s\<lparr>vs_r2 := r, vs_contents := filter (\<lambda>x. vc_hash x \<noteq> vc_hash c) (vs_contents s)\<rparr>)
    \<and> \<not> list_ex (\<lambda>v. fv_ref v = vc_hash c) (vs_versions s)"
proof -
  let ?cs = "filter (\<lambda>x. vc_hash x \<noteq> vc_hash c) (vs_contents s)"
  have "refs (vc_hash c) (vs_versions s) = 0" using inv c zero by (auto simp: versions_inv_but_def)
  then have none: "fv_ref v \<noteq> vc_hash c" if "v \<in> set (vs_versions s)" for v using refs_zero that by blast
  have sub: "blobs pre ?cs \<subseteq> blobs pre (vs_contents s)" by (auto simp: blobs_def)
  have read: "r2.readable (blobs pre ?cs) (vs_r2 s)"
    using inv sub r2.readable_mono by (auto simp: versions_inv_but_def)
  have free: "vc_r2_key c \<notin> fst ` blobs pre ?cs" if "vc_storage_type c = STORAGE_R2"
  proof
    assume "vc_r2_key c \<in> fst ` blobs pre ?cs"
    then obtain x where x: "x \<in> set (vs_contents s)" "vc_hash x \<noteq> vc_hash c" "vc_storage_type x = STORAGE_R2" "vc_r2_key x = vc_r2_key c"
      by (auto simp: blobs_def)
    with inv c have "placed pre x" "placed pre c" by (simp_all add: versions_inv_but_def)
    with x that placed_keys show False by metis
  qed
  have "r2.readable (blobs pre ?cs) r"
  proof (cases "r2_objects r = r2_objects (vs_r2 s)")
    case True
    with read readable_objects show ?thesis by blast
  next
    case False
    with r other have "vc_storage_type c = STORAGE_R2" "r2_objects r = r2_objects (delete_object (vc_r2_key c) (vs_r2 s))"
      by (auto simp: delete_object_def)
    with r2.readable_del [OF read free] readable_objects show ?thesis by blast
  qed
  moreover have "fv_ref v \<in> vc_hash ` set ?cs" if "v \<in> set (vs_versions s)" for v
    using inv none [OF that] that by (fastforce simp: versions_inv_but_def)
  ultimately show ?thesis
    using inv none by (auto simp: versions_inv_but_def distinct_map_filter list_ex_iff)
qed

lemma drop_contents_eq:
  assumes "versions_inv pre s" and "\<And>c. c \<in> set cs \<Longrightarrow> c \<in> set (vs_contents s) \<and> vc_refs c = 0" and "distinct (map vc_hash cs)"
  shows "\<exists>s'. drop_contents cfg net cs s = (True, s') \<and> versions_inv pre s' \<and> vs_versions s' = vs_versions s"
  using assms
proof (induction cs arbitrary: s)
  case (Cons c cs)
  define r where "r = (if vc_storage_type c = STORAGE_R2 \<and> vc_r2_key c \<noteq> []
      then snd (delete_from_r2 cfg net (vc_r2_key c) (vs_r2 s)) else vs_r2 s)"
  have r: "r2_objects r \<in> {r2_objects (vs_r2 s), (r2_objects (vs_r2 s))(vc_r2_key c := None)}"
    "vc_storage_type c = STORAGE_R2 \<or> r2_objects r = r2_objects (vs_r2 s)"
    by (auto simp: r_def delete_from_r2_def delete_object_def split: r2_answer.splits)
  let ?s = "s\<lparr>vs_r2 := r, vs_contents := filter (\<lambda>x. vc_hash x \<noteq> vc_hash c) (vs_contents s)\<rparr>"
  from Cons.prems(2) [of c] drop_content_inv [OF Cons.prems(1) _ _ r]
  have i: "versions_inv pre ?s" "\<not> list_ex (\<lambda>v. fv_ref v = vc_hash c) (vs_versions s)" by simp_all
  have e: "drop_contents cfg net (c # cs) s = drop_contents cfg net cs ?s"
    using i(2) by (cases "vc_storage_type c = STORAGE_R2 \<and> vc_r2_key c \<noteq> []") (auto simp: r_def)
  have "x \<in> set (vs_contents ?s) \<and> vc_refs x = 0" if "x \<in> set cs" for x
    using Cons.prems(2) [of x] Cons.prems(3) that by (auto simp: image_iff)
  from Cons.IH [OF i(1) this] Cons.prems(3) show ?case unfolding e by auto
qed simp

lemma old_versions_sub:
  "v \<in> set (old_versions w keep cutoff s p) \<Longrightarrow>
     v \<in> set (vs_versions s) \<and> fv_workspace v = w \<and> fv_path v = p \<and> fv_created_at v < cutoff"
  by (auto simp: old_versions_def versions_of_def Let_def dest!: in_set_takeD)

lemma old_versions_distinct:
  "distinct (map fv_id (vs_versions s)) \<Longrightarrow> distinct (map fv_id (old_versions w keep cutoff s p))"
  by (simp add: old_versions_def versions_of_def Let_def distinct_map distinct_map_filter inj_on_def)
    (auto dest!: in_set_takeD)

definition all_old :: "workspace_ref \<Rightarrow> nat \<Rightarrow> int \<Rightarrow> version_state \<Rightarrow> file_version list" where
  "all_old w keep n s =
     concat (map (old_versions (ws_id w) keep (vs_clock s - days n) s) (crowded_paths (ws_id w) keep s))"

lemma all_old_mem:
  "v \<in> set (all_old w keep n s) \<longleftrightarrow> v \<in> set (old_versions (ws_id w) keep (vs_clock s - days n) s (fv_path v))
     \<and> fv_path v \<in> set (crowded_paths (ws_id w) keep s)"
  by (auto simp: all_old_def dest: old_versions_sub)

lemma distinct_concat_keys:
  assumes "distinct ps" and "\<And>p. p \<in> set ps \<Longrightarrow> distinct (map f (g p))"
    and "\<And>p x. x \<in> set (g p) \<Longrightarrow> x \<in> X \<and> h x = p" and "inj_on f X"
  shows "distinct (map f (concat (map g ps)))"
  using assms(1,2)
proof (induction ps)
  case (Cons p ps)
  have "f x \<noteq> f y" if "x \<in> set (g p)" "y \<in> set (g r)" "r \<in> set ps" for x y r
    using assms(3) [OF that(1)] assms(3) [OF that(2)] Cons.prems(1) that(3) inj_onD [OF assms(4)] by force
  with Cons show ?case by fastforce
qed simp

lemma all_old_ok:
  assumes "distinct (map fv_id (vs_versions s))"
  shows "set (all_old w keep n s) \<subseteq> set (vs_versions s)" and "distinct (map fv_id (all_old w keep n s))"
proof -
  show "set (all_old w keep n s) \<subseteq> set (vs_versions s)" by (auto simp: all_old_def dest: old_versions_sub)
  show "distinct (map fv_id (all_old w keep n s))"
    unfolding all_old_def
  proof (rule distinct_concat_keys [where h = fv_path and X = "set (vs_versions s)"])
    show "distinct (crowded_paths (ws_id w) keep s)" by (simp add: crowded_paths_def)
    show "inj_on fv_id (set (vs_versions s))" using assms by (simp add: distinct_map)
  qed (use assms old_versions_distinct old_versions_sub in blast)+
qed

lemma length_minus: "distinct ys \<Longrightarrow> length ys \<le> length (filter (\<lambda>y. y \<notin> set xs) ys) + length xs"
proof -
  assume d: "distinct ys"
  have "length (filter (\<lambda>y. y \<in> set xs) ys) = card (set ys \<inter> set xs)"
    using distinct_card [OF distinct_filter [OF d]] by (metis Int_def filter_set mem_Collect_eq set_filter)
  also have "\<dots> \<le> card (set xs)" by (simp add: card_mono)
  also have "\<dots> \<le> length xs" by (rule card_length)
  finally show ?thesis using sum_length_filter_compl [of "\<lambda>y. y \<in> set xs" ys] by simp
qed

lemma sorted_take_before:
  assumes "x \<in> set (take k (sort_key f xs))" and "y \<in> set xs" and "y \<notin> set (take k (sort_key f xs))"
  shows "f x \<le> f y"
proof -
  have "y \<in> set (drop k (sort_key f xs))" using assms(2,3) by (metis Un_iff append_take_drop_id set_append set_sort)
  moreover have "sorted (map f (take k (sort_key f xs) @ drop k (sort_key f xs)))" by simp
  ultimately show ?thesis using assms(1) by (simp only: map_append sorted_append) simp
qed

lemma zero_counts_gone:
  assumes "drop_contents cfg net cs s = (True, s')" and "c \<in> set (vs_contents s')"
  shows "c \<in> set (vs_contents s) \<and> vc_hash c \<notin> vc_hash ` set cs"
  using assms
proof (induction cs arbitrary: s)
  case (Cons x xs)
  let ?s1 = "if vc_storage_type x = STORAGE_R2 \<and> vc_r2_key x \<noteq> []
      then s\<lparr>vs_r2 := snd (delete_from_r2 cfg net (vc_r2_key x) (vs_r2 s))\<rparr> else s"
  from Cons.prems(1) have "drop_contents cfg net xs (?s1\<lparr>vs_contents := filter (\<lambda>y. vc_hash y \<noteq> vc_hash x) (vs_contents ?s1)\<rparr>) = (True, s')"
    by (simp only: drop_contents.simps Let_def split: if_split_asm) (simp_all split: if_split_asm)
  from Cons.IH [OF this Cons.prems(2)] show ?case by (simp split: if_split_asm)
qed simp

lemma cleanup_eq:
  assumes inv: "versions_inv pre s"
  shows "\<exists>s'. cleanup_old_versions cfg net w keep n s = (Some (length (all_old w keep n s)), s') \<and> versions_inv pre s'
     \<and> vs_versions s' = filter (\<lambda>v. v \<notin> set (all_old w keep n s)) (vs_versions s)
     \<and> (\<forall>c \<in> set (vs_contents s'). 0 < vc_refs c)"
proof -
  have d: "distinct (map fv_id (vs_versions s))" using inv by (simp add: versions_inv_but_def)
  from drop_versions_eq [OF inv all_old_ok(1) all_old_ok(2), OF d d] obtain s1 where
    s1: "drop_versions (all_old w keep n s) s = Some s1" "versions_inv pre s1" "vs_r2 s1 = vs_r2 s"
      "vs_versions s1 = filter (\<lambda>x. fv_id x \<notin> fv_id ` set (all_old w keep n s)) (vs_versions s)" by blast
  have same: "fv_id x \<in> fv_id ` set (all_old w keep n s) \<longleftrightarrow> x \<in> set (all_old w keep n s)" if "x \<in> set (vs_versions s)" for x
    using d that by (intro inj_on_image_mem_iff [OF _ that all_old_ok(1)]) (simp_all add: distinct_map)
  have "distinct (map vc_hash (filter (\<lambda>c. vc_refs c = 0) (vs_contents s1)))"
    using s1(2) by (simp add: versions_inv_but_def distinct_map_filter)
  from drop_contents_eq [OF s1(2) _ this, of cfg net] obtain s2 where
    "drop_contents cfg net (filter (\<lambda>c. vc_refs c = 0) (vs_contents s1)) s1 = (True, s2)" "versions_inv pre s2"
    "vs_versions s2 = vs_versions s1" by auto
  note gone = zero_counts_gone [OF this(1)]
  have "0 < vc_refs c" if "c \<in> set (vs_contents s2)" for c
  proof -
    from gone [OF that] have "c \<in> set (vs_contents s1)" "vc_refs c \<noteq> 0" by auto
    with s1(2) show ?thesis by (simp add: versions_inv_but_def)
  qed
  moreover from \<open>drop_contents _ _ _ _ = _\<close> \<open>versions_inv pre s2\<close> \<open>vs_versions s2 = vs_versions s1\<close> have "cleanup_old_versions cfg net w keep n s = (Some (length (all_old w keep n s)), s2)" "versions_inv pre s2"
    "vs_versions s2 = vs_versions s1"
    using s1(1) by (simp_all add: cleanup_old_versions_def Let_def all_old_def [symmetric])
  moreover have "vs_versions s1 = filter (\<lambda>v. v \<notin> set (all_old w keep n s)) (vs_versions s)"
    unfolding s1(4) using same by (intro filter_cong) simp_all
  ultimately show ?thesis by auto
qed

section \<open>Any run of the service\<close>

definition no_versions :: "datetime \<Rightarrow> version_state" where
  "no_versions t = \<lparr>vs_contents = [], vs_versions = [], vs_next_id = 0, vs_r2 = \<lparr>r2_objects = \<lambda>_. None, r2_calls = 0\<rparr>, vs_clock = t\<rparr>"

text \<open>The contents come from \<open>B\<close>.  Time passes, and other services use R2 under keys of their own.\<close>

inductive version_step :: "storage_config \<Rightarrow> (nat \<Rightarrow> r2_answer) \<Rightarrow> (bytes \<Rightarrow> string) \<Rightarrow> (string \<Rightarrow> string option) \<Rightarrow> bytes set
    \<Rightarrow> version_state \<Rightarrow> version_state \<Rightarrow> bool"
  for cfg net sha mime B where
  create: "create_version cfg net sha mime w path b a s = (v, s') \<Longrightarrow> b \<in> B \<Longrightarrow> version_step cfg net sha mime B s s'"
| tombstone: "create_deletion_tombstone cfg net sha mime w path a s = (v, s') \<Longrightarrow> [] \<in> B \<Longrightarrow> version_step cfg net sha mime B s s'"
| read: "get_version_content cfg net v s = (x, s') \<Longrightarrow> version_step cfg net sha mime B s s'"
| cleanup: "cleanup_old_versions cfg net w keep n s = (x, s') \<Longrightarrow> version_step cfg net sha mime B s s'"
| elsewhere: "(\<And>u c h. r2_objects r (version_r2_key u c h) = r2_objects (vs_r2 s) (version_r2_key u c h)) \<Longrightarrow>
    version_step cfg net sha mime B s (s\<lparr>vs_r2 := r, vs_clock := t\<rparr>)"

inductive_cases version_stepE: "version_step cfg net sha mime B s s'"

abbreviation version_run :: "storage_config \<Rightarrow> (nat \<Rightarrow> r2_answer) \<Rightarrow> (bytes \<Rightarrow> string) \<Rightarrow> (string \<Rightarrow> string option) \<Rightarrow> bytes set
    \<Rightarrow> version_state \<Rightarrow> version_state \<Rightarrow> bool" where
  "version_run cfg net sha mime B \<equiv> (version_step cfg net sha mime B)\<^sup>*\<^sup>*"

lemma get_version_content_state:
  "get_version_content cfg net v s = (x, s') \<Longrightarrow> s' = s\<lparr>vs_r2 := vs_r2 s'\<rparr> \<and> r2_objects (vs_r2 s') = r2_objects (vs_r2 s)"
  by (auto simp: get_version_content_def Let_def dest: download_keeps split: option.splits prod.splits if_splits)

lemma inv_same_objects:
  assumes inv: "versions_inv pre s" and same: "\<And>u c h. r2_objects r (version_r2_key u c h) = r2_objects (vs_r2 s) (version_r2_key u c h)"
  shows "versions_inv pre (s\<lparr>vs_r2 := r, vs_clock := t\<rparr>)"
proof -
  have "r2_objects r k = r2_objects (vs_r2 s) k" if "(k, x) \<in> blobs pre (vs_contents s)" for k x
    using inv that same by (force simp: blobs_def versions_inv_but_def placed_def)
  then have "r2.readable (blobs pre (vs_contents s)) r"
    using inv by (force simp: versions_inv_but_def r2.readable_def)
  with inv show ?thesis by (simp add: versions_inv_but_def)
qed

lemma version_step_inv:
  assumes "version_step cfg net sha mime B s s'" and "digests sha B" and "versions_inv (inv_into B sha) s"
  shows "versions_inv (inv_into B sha) s'"
  using assms(1)
proof cases
  case (create w path b a v)
  with create_version_inv [OF assms(3)] digestsD [OF assms(2)] show ?thesis by (metis snd_conv)
next
  case (tombstone w path a v)
  with create_version_inv [OF assms(3)] digestsD [OF assms(2)] show ?thesis
    by (metis create_deletion_tombstone_def snd_conv)
next
  case (read v x)
  then have "s' = s\<lparr>vs_r2 := vs_r2 s'\<rparr>" "r2_objects (vs_r2 s') = r2_objects (vs_r2 s)"
    using get_version_content_state by blast+
  moreover from this(2) have "versions_inv (inv_into B sha) (s\<lparr>vs_r2 := vs_r2 s', vs_clock := vs_clock s\<rparr>)"
    by (intro inv_same_objects [OF assms(3)]) simp
  moreover have "s\<lparr>vs_r2 := vs_r2 s', vs_clock := vs_clock s\<rparr> = s\<lparr>vs_r2 := vs_r2 s'\<rparr>" by simp
  ultimately show ?thesis by metis
next
  case (cleanup w keep n x)
  with cleanup_eq [OF assms(3)] show ?thesis by (metis prod.inject)
next
  case (elsewhere r t)
  with inv_same_objects [OF assms(3)] show ?thesis by simp
qed

lemma version_run_inv:
  assumes "version_run cfg net sha mime B s s'" and "digests sha B" and "versions_inv (inv_into B sha) s"
  shows "versions_inv (inv_into B sha) s'"
  using assms by (induction rule: rtranclp_induct) (simp_all add: version_step_inv)

lemma no_versions_inv [simp]: "versions_inv pre (no_versions t)"
  by (simp add: versions_inv_but_def no_versions_def blobs_def)

section \<open>Properties\<close>

lemma find_hash:
  "distinct (map vc_hash cs) \<Longrightarrow> c \<in> set cs \<Longrightarrow> List.find (\<lambda>x. vc_hash x = vc_hash c) cs = Some c"
  by (induction cs) (auto simp: image_iff)

lemma content_of_version:
  assumes inv: "versions_inv pre s" and v: "v \<in> set (vs_versions s)" and on: "r2_enabled cfg" and ok: "net (r2_calls (vs_r2 s)) = R2Ok"
  shows "fst (get_version_content cfg net v s) = Some (pre (fv_ref v))"
proof -
  from inv v have "fv_ref v \<in> vc_hash ` set (vs_contents s)" by (simp add: versions_inv_but_def)
  then obtain c where c: "c \<in> set (vs_contents s)" "vc_hash c = fv_ref v" by auto
  have f: "List.find (\<lambda>x. vc_hash x = fv_ref v) (vs_contents s) = Some c"
    using find_hash [OF _ c(1)] inv c(2) by (simp add: versions_inv_but_def)
  have p: "placed pre c" using inv c(1) by (simp add: versions_inv_but_def)
  show ?thesis
  proof (cases "vc_storage_type c = STORAGE_R2")
    case True
    then have "(vc_r2_key c, pre (fv_ref v)) \<in> blobs pre (vs_contents s)" using c by (force simp: blobs_def)
    then have "r2_objects (vs_r2 s) (vc_r2_key c) = Some (pre (fv_ref v))"
      using inv by (auto simp: versions_inv_but_def r2.readable_def)
    with f True on ok show ?thesis by (simp add: get_version_content_def download_from_r2_def)
  next
    case False
    with f p c(2) show ?thesis by (simp add: get_version_content_def placed_def)
  qed
qed

text \<open>C24: A version reads back what it was created with, for as long as it is in the table: whatever is created,
  deduplicated and cleaned up afterwards, in this workspace and in others, and whatever R2 refuses
  meanwhile.  The digest is free of collisions on the contents that occur.\<close>

theorem version_reads_back:
  assumes "version_run cfg net sha mime B (no_versions t) s"
    and "create_version cfg net sha mime w path content a s = (v, s1)" and "content \<in> B"
    and "version_run cfg net sha mime B s1 s2" and "v \<in> set (vs_versions s2)"
    and "digests sha B" and "r2_enabled cfg" and "net (r2_calls (vs_r2 s2)) = R2Ok"
  shows "fst (get_version_content cfg net v s2) = Some content"
proof -
  have "version_step cfg net sha mime B s s1" using assms(2,3) by (rule version_step.create)
  with assms(1,4) have "version_run cfg net sha mime B (no_versions t) s2" by (meson rtranclp.rtrancl_into_rtrancl rtranclp_trans)
  then have "versions_inv (inv_into B sha) s2" using version_run_inv [OF _ assms(6)] by simp
  moreover have "fv_ref v = sha content" using assms(2) by (auto simp: create_version_def new_version_def Let_def)
  ultimately show ?thesis using content_of_version assms(5,7,8) digestsD [OF assms(6,3)] by simp
qed

definition demo_storage :: storage_config where
  "demo_storage = \<lparr>account_id = ''acc'', access_key_id = ''id'', secret_access_key = ''secret'', bucket_name = ''b'',
     endpoint_url = [], inline_threshold = 1\<rparr>"

definition demo_digest :: "bytes \<Rightarrow> string" where
  "demo_digest b = replicate (length b) CHR ''a''"

definition demo_workspace :: workspace_ref where
  "demo_workspace = \<lparr>ws_id = ''w1'', ws_user_id = ''u1'', ws_chat_id = ''c1''\<rparr>"

definition demo_args :: version_args where
  "demo_args = \<lparr>va_source_type = ''user_edit'', va_message = None, va_job_id = None, va_tool_name = None, va_user = None,
     va_is_deleted = False\<rparr>"

definition demo_net :: "nat \<Rightarrow> r2_answer" where
  "demo_net n = (if n = 1 then R2Refused else R2Ok)"

definition demo_create :: "string \<Rightarrow> bytes \<Rightarrow> version_state \<Rightarrow> file_version \<times> version_state" where
  "demo_create path b s = create_version demo_storage demo_net demo_digest (\<lambda>_. None) demo_workspace path b demo_args s"

definition demo_first :: version_state where "demo_first = snd (demo_create ''a.txt'' [1, 2] (no_versions 0))"
definition demo_second :: version_state where "demo_second = snd (demo_create ''b.txt'' [1, 2, 3] demo_first)"

lemma demo_on: "r2_enabled demo_storage"
  by (simp add: r2_enabled_def demo_storage_def)

lemma demo_digests: "digests demo_digest {[], [1, 2], [1, 2, 3]}"
  by (auto simp: digests_def demo_digest_def inj_on_def)

lemma demo_steps:
  "version_step demo_storage demo_net demo_digest (\<lambda>_. None) {[], [1, 2], [1, 2, 3]} (no_versions 0) demo_first"
  "version_step demo_storage demo_net demo_digest (\<lambda>_. None) {[], [1, 2], [1, 2, 3]} demo_first demo_second"
proof -
  have "version_step demo_storage demo_net demo_digest (\<lambda>_. None) {[], [1, 2], [1, 2, 3]} s (snd (demo_create p b s))"
    if "b \<in> {[], [1, 2], [1, 2, 3]}" for p b s
    using that by (intro version_step.create [where v = "fst (demo_create p b s)"]) (auto simp: demo_create_def)
  then show "version_step demo_storage demo_net demo_digest (\<lambda>_. None) {[], [1, 2], [1, 2, 3]} (no_versions 0) demo_first"
    "version_step demo_storage demo_net demo_digest (\<lambda>_. None) {[], [1, 2], [1, 2, 3]} demo_first demo_second"
    by (simp_all add: demo_first_def demo_second_def)
qed

lemma create_version_fields:
  "vs_versions (snd (create_version cfg net sha mime w path b a s)) = vs_versions s @ [fst (create_version cfg net sha mime w path b a s)]"
  "vs_clock (snd (create_version cfg net sha mime w path b a s)) = vs_clock s"
  by (simp_all add: create_version_def Let_def keep_content_fields)

lemma demo_state_fields:
  "vs_versions demo_first = [fst (demo_create ''a.txt'' [1, 2] (no_versions 0))]"
  "vs_versions demo_second = [fst (demo_create ''a.txt'' [1, 2] (no_versions 0)), fst (demo_create ''b.txt'' [1, 2, 3] demo_first)]"
  "vs_clock demo_second = 0"
  by (simp_all add: demo_second_def demo_create_def demo_first_def create_version_fields no_versions_def)

lemma demo_calls: "r2_calls (vs_r2 demo_first) = 1" "vc_hash ` set (vs_contents demo_first) = {''aa''}"
  "r2_calls (vs_r2 demo_second) = 2"
proof -
  have e: "inline_threshold demo_storage = 1" by (simp add: demo_storage_def)
  show first: "r2_calls (vs_r2 demo_first) = 1" and hashes: "vc_hash ` set (vs_contents demo_first) = {''aa''}"
    by (simp_all add: demo_first_def demo_create_def create_version_def keep_content_def place_content_def upload_to_r2_def
        demo_on e demo_net_def no_versions_def Let_def demo_digest_def put_object_def count_call_def numeral_2_eq_2)
  have "demo_digest [1, 2, 3] = ''aaa''" by (simp add: demo_digest_def numeral_3_eq_3)
  with hashes have "keep_content demo_storage demo_net demo_workspace (demo_digest [1, 2, 3]) [1, 2, 3] demo_first =
      (case place_content demo_storage demo_net demo_workspace ''aaa'' [1, 2, 3] (vs_r2 demo_first) of
        (row, r) \<Rightarrow> demo_first\<lparr>vs_contents := vs_contents demo_first @ [row], vs_r2 := r\<rparr>)"
    by (simp add: keep_content_def)
  with first show "r2_calls (vs_r2 demo_second) = 2"
    by (simp add: demo_second_def demo_create_def create_version_def place_content_def upload_to_r2_def demo_on e demo_net_def
        Let_def count_call_def)
qed

text \<open>Two large files; the upload of the second is refused, so it is kept inline.\<close>

lemma version_reads_back_witness:
  "fst (get_version_content demo_storage demo_net (fst (demo_create ''a.txt'' [1, 2] (no_versions 0))) demo_second) = Some [1, 2]"
proof -
  have created: "create_version demo_storage demo_net demo_digest (\<lambda>_. None) demo_workspace ''a.txt'' [1, 2] demo_args (no_versions 0)
      = (fst (demo_create ''a.txt'' [1, 2] (no_versions 0)), demo_first)"
    by (simp add: demo_first_def demo_create_def)
  show ?thesis
    by (rule version_reads_back [OF rtranclp.rtrancl_refl created _ r_into_rtranclp _ demo_digests demo_on, OF _ demo_steps(2)])
      (simp_all add: demo_state_fields demo_calls demo_net_def)
qed

text \<open>C25: Cleaning up never fails, takes only versions of this workspace that are older than the cutoff, leaves
  each path at least the requested number (or all it had), takes the oldest first, and keeps the
  counts exact: every count that remains is positive.\<close>

theorem cleanup_takes_old_versions_only:
  assumes "version_run cfg net sha mime B (no_versions t) s" and "digests sha B"
    and "cleanup_old_versions cfg net w keep n s = (res, s')"
  shows "res = Some (length (vs_versions s) - length (vs_versions s'))
    \<and> set (vs_versions s') \<subseteq> set (vs_versions s)
    \<and> (\<forall>v \<in> set (vs_versions s) - set (vs_versions s'). fv_workspace v = ws_id w \<and> fv_created_at v < vs_clock s - days n
         \<and> (\<forall>x \<in> set (versions_of (ws_id w) (fv_path v) s'). fv_created_at x < vs_clock s - days n \<longrightarrow> fv_number v \<le> fv_number x))
    \<and> (\<forall>p. min keep (length (versions_of (ws_id w) p s)) \<le> length (versions_of (ws_id w) p s'))
    \<and> (\<forall>c \<in> set (vs_contents s'). 0 < vc_refs c \<and> vc_refs c = int (refs (vc_hash c) (vs_versions s')))"
proof -
  let ?cut = "vs_clock s - days n" and ?old = "all_old w keep n s"
  have inv: "versions_inv (inv_into B sha) s" using version_run_inv [OF assms(1,2)] by simp
  then have d: "distinct (map fv_id (vs_versions s))" by (simp add: versions_inv_but_def)
  then have dv: "distinct (vs_versions s)" by (simp add: distinct_map)
  from cleanup_eq [OF inv] assms(3) have s': "res = Some (length ?old)" "versions_inv (inv_into B sha) s'"
    "vs_versions s' = filter (\<lambda>v. v \<notin> set ?old) (vs_versions s)" "\<forall>c \<in> set (vs_contents s'). 0 < vc_refs c"
    by (metis prod.inject)+
  have "set (filter (\<lambda>v. v \<in> set ?old) (vs_versions s)) = set ?old" using all_old_ok(1) [OF d] by auto
  then have "length (filter (\<lambda>v. v \<in> set ?old) (vs_versions s)) = length ?old"
    using distinct_card [OF distinct_filter [OF dv]] distinct_card [of ?old] all_old_ok(2) [OF d] by (metis distinct_map)
  then have "res = Some (length (vs_versions s) - length (vs_versions s'))"
    using s'(1,3) sum_length_filter_compl [of "\<lambda>v. v \<in> set ?old" "vs_versions s"] by simp
  moreover have "fv_workspace v = ws_id w \<and> fv_created_at v < ?cut
      \<and> (\<forall>x \<in> set (versions_of (ws_id w) (fv_path v) s'). fv_created_at x < ?cut \<longrightarrow> fv_number v \<le> fv_number x)"
    if "v \<in> set (vs_versions s) - set (vs_versions s')" for v
  proof -
    from that s'(3) have v: "v \<in> set (old_versions (ws_id w) keep ?cut s (fv_path v))" "fv_path v \<in> set (crowded_paths (ws_id w) keep s)"
      by (auto simp: all_old_mem)
    have "fv_number v \<le> fv_number x" if "x \<in> set (versions_of (ws_id w) (fv_path v) s')" "fv_created_at x < ?cut" for x
    proof -
      from that(1) s'(3) v(2) have x: "x \<in> set (versions_of (ws_id w) (fv_path v) s)" "x \<notin> set (old_versions (ws_id w) keep ?cut s (fv_path v))"
        by (auto simp: versions_of_def all_old_mem)
      show ?thesis using v(1) x that(2) by (auto simp: old_versions_def Let_def intro: sorted_take_before)
    qed
    with old_versions_sub [OF v(1)] show ?thesis by blast
  qed
  moreover have "min keep (length (versions_of (ws_id w) p s)) \<le> length (versions_of (ws_id w) p s')" for p
  proof -
    let ?vs = "versions_of (ws_id w) p s"
    have vs': "versions_of (ws_id w) p s' = filter (\<lambda>v. v \<notin> set ?old) ?vs" by (auto simp: versions_of_def s'(3) intro: filter_cong)
    have "(v \<in> set ?old) = (v \<in> set (old_versions (ws_id w) keep ?cut s p) \<and> p \<in> set (crowded_paths (ws_id w) keep s))" if "v \<in> set ?vs" for v
      using that by (simp add: all_old_mem versions_of_def)
    then have e: "versions_of (ws_id w) p s' = filter (\<lambda>v. \<not> (v \<in> set (old_versions (ws_id w) keep ?cut s p) \<and> p \<in> set (crowded_paths (ws_id w) keep s))) ?vs"
      unfolding vs' by (intro filter_cong) simp_all
    have "length (old_versions (ws_id w) keep ?cut s p) \<le> length ?vs - keep" by (simp add: old_versions_def Let_def)
    moreover have "length ?vs \<le> length (filter (\<lambda>v. v \<notin> set (old_versions (ws_id w) keep ?cut s p)) ?vs) + length (old_versions (ws_id w) keep ?cut s p)"
      using dv by (intro length_minus) (simp add: versions_of_def)
    moreover have "length (filter (\<lambda>v. v \<notin> set (old_versions (ws_id w) keep ?cut s p)) ?vs) \<le> length (versions_of (ws_id w) p s')"
      unfolding e by (cases "p \<in> set (crowded_paths (ws_id w) keep s)") simp_all
    ultimately show ?thesis by linarith
  qed
  ultimately show ?thesis using s'(2,3,4) by (auto simp: versions_inv_but_def)
qed

lemma cleanup_takes_old_versions_only_witness:
  "\<exists>n s'. cleanup_old_versions demo_storage demo_net demo_workspace 1 (-1) demo_second = (Some n, s')
     \<and> 1 \<le> length (versions_of ''w1'' ''a.txt'' s') \<and> (\<forall>c \<in> set (vs_contents s'). 0 < vc_refs c)"
proof -
  obtain res s' where run: "cleanup_old_versions demo_storage demo_net demo_workspace 1 (-1) demo_second = (res, s')" by fastforce
  have r: "version_run demo_storage demo_net demo_digest (\<lambda>_. None) {[], [1, 2], [1, 2, 3]} (no_versions 0) demo_second"
    by (rule rtranclp.rtrancl_into_rtrancl [where b = demo_first], rule r_into_rtranclp) (rule demo_steps)+
  have "fv_path (fst (demo_create p b s)) = p \<and> fv_workspace (fst (demo_create p b s)) = ''w1''" for p b s
    by (simp add: demo_create_def create_version_def new_version_def demo_workspace_def Let_def)
  then have "versions_of ''w1'' ''a.txt'' demo_second = [fst (demo_create ''a.txt'' [1, 2] (no_versions 0))]"
    by (simp add: versions_of_def demo_state_fields)
  moreover have "ws_id demo_workspace = ''w1''" by (simp add: demo_workspace_def)
  ultimately have one: "length (versions_of (ws_id demo_workspace) ''a.txt'' demo_second) = 1" by simp
  note all = cleanup_takes_old_versions_only [OF r demo_digests run]
  from all have "\<And>p. min 1 (length (versions_of (ws_id demo_workspace) p demo_second)) \<le> length (versions_of (ws_id demo_workspace) p s')"
    by blast
  from this [of "''a.txt''"] one have "1 \<le> length (versions_of (ws_id demo_workspace) ''a.txt'' s')" by simp
  moreover from all have "\<forall>c \<in> set (vs_contents s'). 0 < vc_refs c" by blast
  moreover from all obtain n where "res = Some n" by blast
  ultimately show ?thesis using run \<open>ws_id demo_workspace = ''w1''\<close> by auto
qed

text \<open>A new version becomes the latest of its path and heads its history; the rest of the history stays.\<close>

lemma sort_key_snoc_least: "(\<And>x. x \<in> set xs \<Longrightarrow> f v < f x) \<Longrightarrow> sort_key f (xs @ [v]) = v # sort_key f xs"
proof (induction xs)
  case (Cons x xs)
  then have "f v < f x" "sort_key f (xs @ [v]) = v # sort_key f xs" by simp_all
  then have "\<not> f x \<le> f v" by simp
  with \<open>sort_key f (xs @ [v]) = v # sort_key f xs\<close> show ?case by simp
qed simp

lemma first_by_snoc_least: "(\<And>x. x \<in> set xs \<Longrightarrow> f v < f x) \<Longrightarrow> first_by f (xs @ [v]) = Some v"
  by (induction xs) auto

lemma next_number_greater: "x \<in> set (versions_of (ws_id w) p s) \<Longrightarrow> fv_number x < get_next_version_number w p s"
  using first_by_least [of "\<lambda>v. - int (fv_number v)" "versions_of (ws_id w) p s" _ x]
  by (auto simp: get_next_version_number_def get_latest_version_def split: option.splits)

theorem new_version_heads_the_history:
  "let (v, s') = create_version cfg net sha mime w path content a s
   in get_latest_version w path s' = Some v
    \<and> get_file_history w path (Suc n) s' = v # get_file_history w path n s
    \<and> fv_number v = get_next_version_number w path s
    \<and> (\<forall>p. p = path \<or> get_file_history w p n s' = get_file_history w p n s)"
proof -
  let ?s1 = "keep_content cfg net w (sha content) content s"
  define v where "v = new_version sha mime w path content a ?s1"
  have f: "fv_workspace v = ws_id w" "fv_path v = path" by (simp_all add: v_def new_version_def)
  have same: "versions_of u p ?s1 = versions_of u p s" for u p by (simp add: versions_of_def keep_content_fields)
  then have num: "fv_number v = get_next_version_number w path s"
    by (simp add: v_def new_version_def get_next_version_number_def get_latest_version_def)
  have less: "- int (fv_number v) < - int (fv_number x)" if "x \<in> set (versions_of (ws_id w) path s)" for x
    using next_number_greater [OF that] num by simp
  have new: "versions_of (ws_id w) p (?s1\<lparr>vs_versions := vs_versions ?s1 @ [v], vs_next_id := k\<rparr>) =
      versions_of (ws_id w) p s @ (if p = path then [v] else [])" for p k
    using f by (simp add: versions_of_def keep_content_fields)
  show ?thesis
    using num sort_key_snoc_least [of "versions_of (ws_id w) path s" "\<lambda>v. - int (fv_number v)" v, OF less]
      first_by_snoc_least [of "versions_of (ws_id w) path s" "\<lambda>v. - int (fv_number v)" v, OF less]
    by (simp add: create_version_def Let_def v_def [symmetric] get_latest_version_def get_file_history_def new)
qed

section \<open>Where the change lists go wrong\<close>

text \<open>A version with a creator can be neither shown nor compared.\<close>

lemma creator_breaks_the_comparison:
  assumes "fv_created_by a \<noteq> None" and "fv_is_binary a"
  shows "to_version_info a = None" and "fst (compare_versions cfg net a b s) = None"
  using assms by (simp_all add: to_version_info_def compare_versions_def comparison_def)

text \<open>A file that is deleted and created again in one message is listed as deleted.\<close>

lemma recreated_file_is_listed_as_deleted:
  assumes "fv_path b = fv_path a" and "fv_is_deleted a" and "\<not> fv_is_deleted b"
  shows "map ch_type (group_versions kind [a, b]) = [''deleted'']"
  using assms by (simp add: group_versions_def group_version_def change_of_def note_version_def Let_def)

end
