(* ===== verification/Workspace_Sync.thy ===== *)
theory Workspace_Sync
  imports Blob_Store "HOL-Library.List_Lexorder" "HOL-Library.Char_ord"
begin

text \<open>
  Saving a sandbox and restoring it: \<^verbatim>\<open>workspaces/services/sync_service.py\<close> with its two backends
  \<^verbatim>\<open>storage/postgres.py\<close> and \<^verbatim>\<open>storage/r2.py\<close>.

  A container is the list of its files in the order in which \<^verbatim>\<open>rglob\<close> finds them, or \<open>None\<close> when its
  directory does not exist.  Of a file the model keeps what each access sees: the size (\<open>None\<close>: the call
  raises \<^verbatim>\<open>OSError\<close>), the bytes that are hashed, and the bytes that are read when it is saved.  The tables
  answer; rows are numbered; text columns are ordered by code points; a target directory can be made.  The texts of
  exceptions are left out of the errors.
\<close>

section \<open>Files and results\<close>

definition DEFAULT_EXCLUDE_PATTERNS :: "string list" where
  "DEFAULT_EXCLUDE_PATTERNS =
     [''__pycache__'', ''.venv'', ''venv'', ''.pytest_cache'', ''.mypy_cache'', ''.ruff_cache'', ''*.pyc'', ''*.pyo'', ''*.egg-info'',
      ''node_modules'', ''.npm'', ''.git'', ''.idea'', ''.vscode'', ''*.swp'', ''*.swo'', ''.DS_Store'', ''Thumbs.db'',
      ''*.log'', ''*.tmp'', ''.env'', ''.env.local'']"

record container_file =
  cf_parts :: "string list"
  cf_size :: "nat option"
  cf_hashed :: "bytes option"
  cf_read :: "bytes option"

definition cf_path :: "container_file \<Rightarrow> string" where
  "cf_path f = join_with ''/'' (cf_parts f)"

record file_info =
  fi_path :: string
  fi_size :: nat
  fi_sha256 :: string
  fi_mime_type :: "string option"

datatype sync_error = WorkspaceTooLarge | DeleteFailed string | FileFailed string | SyncFailed

record sync_result =
  sy_files_synced :: nat
  sy_bytes_synced :: nat
  sy_files_deleted :: nat
  sy_files_skipped :: nat
  sy_errors :: "sync_error list"

definition sy_success :: "sync_result \<Rightarrow> bool" where
  "sy_success r \<longleftrightarrow> sy_errors r = []"

definition nothing_synced :: "sync_error list \<Rightarrow> sync_result" where
  "nothing_synced errors = \<lparr>sy_files_synced = 0, sy_bytes_synced = 0, sy_files_deleted = 0, sy_files_skipped = 0, sy_errors = errors\<rparr>"

definition note_error :: "sync_error \<Rightarrow> sync_result \<Rightarrow> sync_result" where
  "note_error e r = r\<lparr>sy_errors := sy_errors r @ [e]\<rparr>"

record sync_config =
  sc_inline_threshold :: nat
  sc_max_file_size :: nat
  sc_max_workspace_size :: nat
  sc_exclude_patterns :: "string list"
  sc_bucket :: string

section \<open>The tables\<close>

record workspace_row =
  wr_id :: string
  wr_user :: string
  wr_chat :: string
  wr_total_size_bytes :: nat
  wr_file_count :: nat
  wr_last_accessed_at :: datetime

record sync_row =
  ss_workspace :: string
  ss_status :: string
  ss_direction :: "string option"
  ss_files_total :: nat
  ss_files_synced :: nat
  ss_bytes_total :: nat
  ss_bytes_synced :: nat
  ss_started_at :: "datetime option"
  ss_completed_at :: "datetime option"
  ss_error_message :: "sync_error option"

record sync_store =
  so_workspaces :: "workspace_row list"
  so_files :: "workspace_file list"
  so_syncs :: "sync_row list"
  so_r2 :: r2_state
  so_next :: nat
  so_now :: datetime

definition get_workspace :: "string \<Rightarrow> string \<Rightarrow> sync_store \<Rightarrow> workspace_row option" where
  "get_workspace user chat s = List.find (\<lambda>w. wr_user w = user \<and> wr_chat w = chat) (so_workspaces s)"

definition get_or_create_workspace :: "string \<Rightarrow> string \<Rightarrow> sync_store \<Rightarrow> workspace_row \<times> sync_store" where
  "get_or_create_workspace user chat s = (case get_workspace user chat s of
      Some w \<Rightarrow> (w, s)
    | None \<Rightarrow>
        let w = \<lparr>wr_id = string_of_nat (so_next s), wr_user = user, wr_chat = chat, wr_total_size_bytes = 0, wr_file_count = 0,
                 wr_last_accessed_at = so_now s\<rparr>
        in (w, s\<lparr>so_workspaces := so_workspaces s @ [w], so_next := Suc (so_next s)\<rparr>))"

definition get_workspace_files :: "string \<Rightarrow> sync_store \<Rightarrow> workspace_file list" where
  "get_workspace_files w s = sort_key wf_path (filter (\<lambda>f. wf_workspace f = w) (so_files s))"

definition upsert_file :: "workspace_file \<Rightarrow> sync_store \<Rightarrow> sync_store" where
  "upsert_file f s =
     (if \<exists>g \<in> set (so_files s). wf_workspace g = wf_workspace f \<and> wf_path g = wf_path f
      then s\<lparr>so_files := map (\<lambda>g. if wf_workspace g = wf_workspace f \<and> wf_path g = wf_path f then f\<lparr>wf_id := wf_id g\<rparr> else g) (so_files s)\<rparr>
      else s\<lparr>so_files := so_files s @ [f\<lparr>wf_id := so_next s\<rparr>], so_next := Suc (so_next s)\<rparr>)"

definition delete_file_row :: "nat \<Rightarrow> sync_store \<Rightarrow> sync_store" where
  "delete_file_row i s = s\<lparr>so_files := filter (\<lambda>f. wf_id f \<noteq> i) (so_files s)\<rparr>"

definition update_workspace_stats :: "string \<Rightarrow> sync_store \<Rightarrow> sync_store" where
  "update_workspace_stats w s =
     (let fs = filter (\<lambda>f. wf_workspace f = w) (so_files s)
      in s\<lparr>so_workspaces := map (\<lambda>r. if wr_id r = w
             then r\<lparr>wr_total_size_bytes := sum_list (map wf_size_bytes fs), wr_file_count := length fs\<rparr> else r) (so_workspaces s)\<rparr>)"

definition touch_workspace :: "string \<Rightarrow> sync_store \<Rightarrow> sync_store" where
  "touch_workspace w s = s\<lparr>so_workspaces := map (\<lambda>r. if wr_id r = w then r\<lparr>wr_last_accessed_at := so_now s\<rparr> else r) (so_workspaces s)\<rparr>"

definition fresh_sync_state :: "string \<Rightarrow> sync_row" where
  "fresh_sync_state w = \<lparr>ss_workspace = w, ss_status = ''idle'', ss_direction = None, ss_files_total = 0, ss_files_synced = 0,
     ss_bytes_total = 0, ss_bytes_synced = 0, ss_started_at = None, ss_completed_at = None, ss_error_message = None\<rparr>"

definition get_or_create_sync_state :: "string \<Rightarrow> sync_store \<Rightarrow> sync_store" where
  "get_or_create_sync_state w s =
     (if \<exists>r \<in> set (so_syncs s). ss_workspace r = w then s else s\<lparr>so_syncs := so_syncs s @ [fresh_sync_state w]\<rparr>)"

definition updated_sync_state :: "datetime \<Rightarrow> string \<Rightarrow> string \<Rightarrow> nat \<Rightarrow> nat \<Rightarrow> sync_error option \<Rightarrow> sync_row \<Rightarrow> sync_row" where
  "updated_sync_state now status direction files bytes error r =
     (let r = r\<lparr>ss_status := status, ss_direction := Some direction, ss_files_total := 0, ss_files_synced := files,
                ss_bytes_total := 0, ss_bytes_synced := bytes, ss_error_message := error\<rparr>
      in if status = ''syncing'' then r\<lparr>ss_started_at := Some now, ss_completed_at := None\<rparr>
         else if status = ''idle'' \<or> status = ''error'' then r\<lparr>ss_completed_at := Some now\<rparr> else r)"

definition update_sync_state :: "string \<Rightarrow> string \<Rightarrow> string \<Rightarrow> nat \<Rightarrow> nat \<Rightarrow> sync_error option \<Rightarrow> sync_store \<Rightarrow> sync_store" where
  "update_sync_state w status direction files bytes error s =
     (let s = get_or_create_sync_state w s
      in s\<lparr>so_syncs := map (\<lambda>r. if ss_workspace r = w then updated_sync_state (so_now s) status direction files bytes error r else r) (so_syncs s)\<rparr>)"

section \<open>R2, asynchronously\<close>

text \<open>Uploads and downloads raise (\<open>None\<close>) whatever the failure; deletions report a refusal as \<open>False\<close>.\<close>

definition r2_upload :: "(nat \<Rightarrow> r2_answer) \<Rightarrow> string \<Rightarrow> bytes \<Rightarrow> r2_state \<Rightarrow> unit option \<times> r2_state" where
  "r2_upload net key content r = (case net (r2_calls r) of
      R2Ok \<Rightarrow> (Some (), put_object key content (count_call r)) | _ \<Rightarrow> (None, count_call r))"

definition r2_download :: "(nat \<Rightarrow> r2_answer) \<Rightarrow> string \<Rightarrow> r2_state \<Rightarrow> bytes option \<times> r2_state" where
  "r2_download net key r = (case net (r2_calls r) of R2Ok \<Rightarrow> (r2_objects r key, count_call r) | _ \<Rightarrow> (None, count_call r))"

definition r2_delete :: "(nat \<Rightarrow> r2_answer) \<Rightarrow> string \<Rightarrow> r2_state \<Rightarrow> bool option \<times> r2_state" where
  "r2_delete net key r = (case net (r2_calls r) of
      R2Ok \<Rightarrow> (Some True, delete_object key (count_call r))
    | R2Refused \<Rightarrow> (Some False, count_call r)
    | R2Broken \<Rightarrow> (None, count_call r))"

definition sync_key :: "string \<Rightarrow> string \<Rightarrow> string" where
  "sync_key w hash = w @ ''/files/'' @ hash"

section \<open>Saving\<close>

definition should_exclude :: "string list \<Rightarrow> string list \<Rightarrow> bool" where
  "should_exclude patterns parts \<longleftrightarrow>
     list_ex (\<lambda>p. if starts_with ''*'' p then starts_with (rev (tl p)) (rev (join_with ''/'' parts)) else p \<in> set parts) patterns"

datatype scan_end = ScanDone | ScanTooLarge | ScanFailed

text \<open>\<^verbatim>\<open>_scan_directory\<close> with the loop that consumes it.\<close>

fun scan_files :: "sync_config \<Rightarrow> (bytes \<Rightarrow> string) \<Rightarrow> (string \<Rightarrow> string option) \<Rightarrow> container_file list \<Rightarrow> nat \<Rightarrow> file_info list \<times> scan_end" where
  "scan_files cfg sha mime [] used = ([], ScanDone)"
| "scan_files cfg sha mime (f # fs) used =
     (if should_exclude (sc_exclude_patterns cfg) (cf_parts f) then scan_files cfg sha mime fs used
      else case cf_size f of
        None \<Rightarrow> scan_files cfg sha mime fs used
      | Some n \<Rightarrow>
          if n > sc_max_file_size cfg \<or> n = 0 then scan_files cfg sha mime fs used
          else (case cf_hashed f of
              None \<Rightarrow> ([], ScanFailed)
            | Some b \<Rightarrow>
                if used + n > sc_max_workspace_size cfg then ([], ScanTooLarge)
                else apfst ((#) \<lparr>fi_path = cf_path f, fi_size = n, fi_sha256 = sha b, fi_mime_type = mime (cf_path f)\<rparr>)
                       (scan_files cfg sha mime fs (used + n))))"

text \<open>\<^verbatim>\<open>_delete_file\<close>, and the loop over the rows whose path was not found.\<close>

definition delete_stored :: "(nat \<Rightarrow> r2_answer) \<Rightarrow> workspace_file \<Rightarrow> sync_store \<Rightarrow> bool \<times> sync_store" where
  "delete_stored net f s =
     (if wf_storage_type f = STORAGE_R2 \<and> truthy_str (wf_r2_key f)
      then (case r2_delete net (the_default [] (wf_r2_key f)) (so_r2 s) of
              (None, r) \<Rightarrow> (False, s\<lparr>so_r2 := r\<rparr>)
            | (Some _, r) \<Rightarrow> (True, delete_file_row (wf_id f) (s\<lparr>so_r2 := r\<rparr>)))
      else (True, delete_file_row (wf_id f) s))"

fun delete_missing :: "(nat \<Rightarrow> r2_answer) \<Rightarrow> string set \<Rightarrow> workspace_file list \<Rightarrow> sync_result \<Rightarrow> sync_store \<Rightarrow> sync_result \<times> sync_store" where
  "delete_missing net found [] r s = (r, s)"
| "delete_missing net found (f # fs) r s =
     (if wf_path f \<in> found then delete_missing net found fs r s
      else case delete_stored net f s of
        (True, s') \<Rightarrow> delete_missing net found fs (r\<lparr>sy_files_deleted := Suc (sy_files_deleted r)\<rparr>) s'
      | (False, s') \<Rightarrow> delete_missing net found fs (note_error (DeleteFailed (wf_path f)) r) s')"

text \<open>\<^verbatim>\<open>_save_file\<close>: \<open>False\<close> where it raises.\<close>

definition file_name :: "string \<Rightarrow> string" where
  "file_name path = last (split_on (CHR ''/'') path)"

definition save_file :: "sync_config \<Rightarrow> (nat \<Rightarrow> r2_answer) \<Rightarrow> (string \<Rightarrow> bytes option) \<Rightarrow> string \<Rightarrow> file_info \<Rightarrow> sync_store
    \<Rightarrow> bool \<times> sync_store" where
  "save_file cfg net read w i s = (case read (fi_path i) of
      None \<Rightarrow> (False, s)
    | Some content \<Rightarrow>
        let row = \<lparr>wf_id = 0, wf_workspace = w, wf_path = fi_path i, wf_filename = file_name (fi_path i), wf_mime_type = fi_mime_type i,
                   wf_size_bytes = fi_size i, wf_storage_type = STORAGE_INLINE, wf_content = Some content, wf_r2_bucket = None,
                   wf_r2_key = None, wf_sha256_hash = fi_sha256 i\<rparr>;
            key = sync_key w (fi_sha256 i)
        in if fi_size i \<le> sc_inline_threshold cfg then (True, upsert_file row s)
           else case r2_upload net key content (so_r2 s) of
             (None, r) \<Rightarrow> (False, s\<lparr>so_r2 := r\<rparr>)
           | (Some _, r) \<Rightarrow>
               (True, upsert_file (row\<lparr>wf_storage_type := STORAGE_R2, wf_content := None, wf_r2_bucket := Some (sc_bucket cfg),
                                       wf_r2_key := Some key\<rparr>) (s\<lparr>so_r2 := r\<rparr>)))"

fun save_files :: "sync_config \<Rightarrow> (nat \<Rightarrow> r2_answer) \<Rightarrow> (string \<Rightarrow> bytes option) \<Rightarrow> string \<Rightarrow> (string \<Rightarrow> string option)
    \<Rightarrow> file_info list \<Rightarrow> sync_result \<Rightarrow> sync_store \<Rightarrow> sync_result \<times> sync_store" where
  "save_files cfg net read w existing [] r s = (r, s)"
| "save_files cfg net read w existing (i # is) r s =
     (if existing (fi_path i) = Some (fi_sha256 i)
      then save_files cfg net read w existing is (r\<lparr>sy_files_skipped := Suc (sy_files_skipped r)\<rparr>) s
      else case save_file cfg net read w i s of
        (True, s') \<Rightarrow> save_files cfg net read w existing is
                       (r\<lparr>sy_files_synced := Suc (sy_files_synced r), sy_bytes_synced := sy_bytes_synced r + fi_size i\<rparr>) s'
      | (False, s') \<Rightarrow> save_files cfg net read w existing is (note_error (FileFailed (fi_path i)) r) s')"

definition read_container :: "container_file list \<Rightarrow> string \<Rightarrow> bytes option" where
  "read_container files path = Option.bind (map_of (map (\<lambda>f. (cf_path f, f)) files) path) cf_read"

definition stored_hashes :: "workspace_file list \<Rightarrow> string \<Rightarrow> string option" where
  "stored_hashes files path = map_of (map (\<lambda>f. (wf_path f, wf_sha256_hash f)) files) path"

definition save_workspace :: "sync_config \<Rightarrow> (nat \<Rightarrow> r2_answer) \<Rightarrow> (bytes \<Rightarrow> string) \<Rightarrow> (string \<Rightarrow> string option)
    \<Rightarrow> string \<Rightarrow> string \<Rightarrow> container_file list option \<Rightarrow> sync_store \<Rightarrow> sync_result \<times> sync_store" where
  "save_workspace cfg net sha mime user chat container s =
     (let (w, s1) = get_or_create_workspace user chat s;
          s2 = update_sync_state (wr_id w) ''syncing'' ''save'' 0 0 None (get_or_create_sync_state (wr_id w) s1);
          existing = get_workspace_files (wr_id w) s2;
          files = (case container of None \<Rightarrow> [] | Some fs \<Rightarrow> fs)
      in case scan_files cfg sha mime files 0 of
           (_, ScanFailed) \<Rightarrow>
             (nothing_synced [SyncFailed], update_sync_state (wr_id w) ''error'' ''save'' 0 0 (Some SyncFailed) s2)
         | (infos, end) \<Rightarrow>
             let (r3, s3) = delete_missing net (fi_path ` set infos) existing
                              (nothing_synced (if end = ScanTooLarge then [WorkspaceTooLarge] else [])) s2;
                 (r4, s4) = save_files cfg net (read_container files) (wr_id w) (stored_hashes existing) infos r3 s3
             in (r4, update_sync_state (wr_id w) ''idle'' ''save'' (sy_files_synced r4) (sy_bytes_synced r4) None
                       (update_workspace_stats (wr_id w) s4)))"

section \<open>Restoring\<close>

text \<open>A container file system: the bytes under each path.\<close>

definition restore_file :: "(nat \<Rightarrow> r2_answer) \<Rightarrow> (string \<Rightarrow> bool) \<Rightarrow> workspace_file \<Rightarrow> sync_store \<Rightarrow> (string \<rightharpoonup> bytes)
    \<Rightarrow> bool \<times> sync_store \<times> (string \<rightharpoonup> bytes)" where
  "restore_file net can_write f s fs =
     (if \<not> can_write (wf_path f) then (False, s, fs)
      else if wf_storage_type f = STORAGE_INLINE
      then (case wf_content f of
              Some b \<Rightarrow> (True, s, fs(wf_path f \<mapsto> b))
            | None \<Rightarrow> (False, s, fs(wf_path f \<mapsto> [])))
      else (case r2_download net (the_default [] (wf_r2_key f)) (so_r2 s) of
              (Some b, r) \<Rightarrow> (True, s\<lparr>so_r2 := r\<rparr>, fs(wf_path f \<mapsto> b))
            | (None, r) \<Rightarrow> (False, s\<lparr>so_r2 := r\<rparr>, fs)))"

fun restore_files :: "(nat \<Rightarrow> r2_answer) \<Rightarrow> (string \<Rightarrow> bool) \<Rightarrow> workspace_file list \<Rightarrow> sync_result \<Rightarrow> sync_store \<Rightarrow> (string \<rightharpoonup> bytes)
    \<Rightarrow> sync_result \<times> sync_store \<times> (string \<rightharpoonup> bytes)" where
  "restore_files net can_write [] r s fs = (r, s, fs)"
| "restore_files net can_write (f # files) r s fs = (case restore_file net can_write f s fs of
      (True, s', fs') \<Rightarrow> restore_files net can_write files
         (r\<lparr>sy_files_synced := Suc (sy_files_synced r), sy_bytes_synced := sy_bytes_synced r + wf_size_bytes f\<rparr>) s' fs'
    | (False, s', fs') \<Rightarrow> restore_files net can_write files (note_error (FileFailed (wf_path f)) r) s' fs')"

definition restore_workspace :: "(nat \<Rightarrow> r2_answer) \<Rightarrow> (string \<Rightarrow> bool) \<Rightarrow> string \<Rightarrow> string \<Rightarrow> sync_store \<Rightarrow> (string \<rightharpoonup> bytes)
    \<Rightarrow> sync_result \<times> sync_store \<times> (string \<rightharpoonup> bytes)" where
  "restore_workspace net can_write user chat s fs = (case get_workspace user chat s of
      None \<Rightarrow> (nothing_synced [], s, fs)
    | Some w \<Rightarrow>
        let s1 = update_sync_state (wr_id w) ''syncing'' ''restore'' 0 0 None (get_or_create_sync_state (wr_id w) s);
            (r, s2, fs') = restore_files net can_write (get_workspace_files (wr_id w) s1) (nothing_synced []) s1 fs
        in (r, update_sync_state (wr_id w) ''idle'' ''restore'' (sy_files_synced r) (sy_bytes_synced r) None (touch_workspace (wr_id w) s2), fs'))"

section \<open>Deleting a workspace\<close>

text \<open>An exception of R2 ends it (\<open>None\<close>) with the objects before it gone.\<close>

fun delete_objects :: "(nat \<Rightarrow> r2_answer) \<Rightarrow> workspace_file list \<Rightarrow> r2_state \<Rightarrow> bool \<times> r2_state" where
  "delete_objects net [] r = (True, r)"
| "delete_objects net (f # fs) r =
     (if wf_storage_type f = STORAGE_R2 \<and> truthy_str (wf_r2_key f)
      then (case r2_delete net (the_default [] (wf_r2_key f)) r of
              (None, r') \<Rightarrow> (False, r') | (Some _, r') \<Rightarrow> delete_objects net fs r')
      else delete_objects net fs r)"

definition delete_workspace :: "(nat \<Rightarrow> r2_answer) \<Rightarrow> string \<Rightarrow> string \<Rightarrow> sync_store \<Rightarrow> bool option \<times> sync_store" where
  "delete_workspace net user chat s = (case get_workspace user chat s of
      None \<Rightarrow> (Some False, s)
    | Some w \<Rightarrow>
        (case delete_objects net (get_workspace_files (wr_id w) s) (so_r2 s) of
           (False, r) \<Rightarrow> (None, s\<lparr>so_r2 := r\<rparr>)
         | (True, r) \<Rightarrow>
             (Some True, s\<lparr>so_r2 := r, so_workspaces := filter (\<lambda>x. wr_id x \<noteq> wr_id w) (so_workspaces s),
                           so_files := filter (\<lambda>f. wf_workspace f \<noteq> wr_id w) (so_files s),
                           so_syncs := filter (\<lambda>y. ss_workspace y \<noteq> wr_id w) (so_syncs s)\<rparr>)))"

end
