(* ===== verification/Sync_Properties.thy ===== *)
theory Sync_Properties
  imports Workspace_Sync
begin

text \<open>
  What saving and restoring promise: a restore that reports success gives back exactly the files that
  the last successful save kept; without failures both succeed, as long as no two large files of the
  workspace have the same content.
\<close>

section \<open>What a save keeps\<close>

definition steady :: "container_file list \<Rightarrow> bool" where
  "steady files \<longleftrightarrow> distinct (map cf_path files)
     \<and> (\<forall>f \<in> set files. \<exists>b. cf_size f = Some (length b) \<and> cf_hashed f = Some b \<and> cf_read f = Some b)"

definition keeps :: "sync_config \<Rightarrow> container_file \<Rightarrow> bool" where
  "keeps cfg f \<longleftrightarrow> \<not> should_exclude (sc_exclude_patterns cfg) (cf_parts f)
     \<and> cf_size f \<noteq> Some 0 \<and> the (cf_size f) \<le> sc_max_file_size cfg"

definition snapshot :: "sync_config \<Rightarrow> container_file list \<Rightarrow> string \<rightharpoonup> bytes" where
  "snapshot cfg files = map_of (map (\<lambda>f. (cf_path f, the (cf_read f))) (filter (keeps cfg) files))"

definition info_of :: "(bytes \<Rightarrow> string) \<Rightarrow> (string \<Rightarrow> string option) \<Rightarrow> container_file \<Rightarrow> file_info" where
  "info_of sha mime f = \<lparr>fi_path = cf_path f, fi_size = the (cf_size f), fi_sha256 = sha (the (cf_read f)), fi_mime_type = mime (cf_path f)\<rparr>"

lemma steady_Cons:
  "steady (f # fs) \<longleftrightarrow> steady fs \<and> cf_path f \<notin> cf_path ` set fs
     \<and> (\<exists>b. cf_size f = Some (length b) \<and> cf_hashed f = Some b \<and> cf_read f = Some b)"
  by (auto simp: steady_def)

lemma scan_steady:
  assumes "steady fs"
  shows "snd (scan_files cfg sha mime fs n) \<noteq> ScanFailed
    \<and> (snd (scan_files cfg sha mime fs n) = ScanDone \<longrightarrow>
        fst (scan_files cfg sha mime fs n) = map (info_of sha mime) (filter (keeps cfg) fs))
    \<and> (n + sum_list (map (\<lambda>f. the (cf_size f)) (filter (keeps cfg) fs)) \<le> sc_max_workspace_size cfg \<longrightarrow>
        snd (scan_files cfg sha mime fs n) = ScanDone)"
  using assms
proof (induction fs arbitrary: n)
  case (Cons f fs)
  then obtain b where b: "cf_size f = Some (length b)" "cf_hashed f = Some b" "cf_read f = Some b" by (auto simp: steady_Cons)
  have q: "steady fs" using Cons.prems by (simp add: steady_Cons)
  show ?case
  proof (cases "keeps cfg f")
    case True
    with b have "\<not> should_exclude (sc_exclude_patterns cfg) (cf_parts f)" "\<not> (length b > sc_max_file_size cfg \<or> length b = 0)"
      by (auto simp: keeps_def)
    with True b Cons.IH [OF q, of "n + length b"] show ?thesis
      by (auto simp: info_of_def add.assoc)
  next
    case False
    with b have "should_exclude (sc_exclude_patterns cfg) (cf_parts f) \<or> length b > sc_max_file_size cfg \<or> length b = 0"
      by (auto simp: keeps_def)
    with False b Cons.IH [OF q, of n] show ?thesis by auto
  qed
qed simp

section \<open>Integrity of the store\<close>

definition row_ok :: "(bytes \<Rightarrow> string) \<Rightarrow> bytes set \<Rightarrow> workspace_file \<Rightarrow> bool" where
  "row_ok sha B f \<longleftrightarrow>
     (wf_storage_type f = STORAGE_INLINE \<and> (\<exists>b \<in> B. wf_content f = Some b \<and> sha b = wf_sha256_hash f))
     \<or> (wf_storage_type f = STORAGE_R2 \<and> wf_r2_key f = Some (sync_key (wf_workspace f) (wf_sha256_hash f))
          \<and> wf_sha256_hash f \<in> sha ` B)"

definition objects_ok :: "(bytes \<Rightarrow> string) \<Rightarrow> bytes set \<Rightarrow> r2_state \<Rightarrow> bool" where
  "objects_ok sha B r \<longleftrightarrow>
     (\<forall>w h b. r2_objects r (sync_key w h) = Some b \<longrightarrow> CHR ''/'' \<notin> set h \<longrightarrow> b \<in> B \<and> sha b = h)"

definition keys_unique :: "workspace_file list \<Rightarrow> bool" where
  "keys_unique fs \<longleftrightarrow> distinct (map (\<lambda>f. (wf_workspace f, wf_path f)) fs) \<and> distinct (map wf_id fs)"

definition integrity :: "(bytes \<Rightarrow> string) \<Rightarrow> bytes set \<Rightarrow> sync_store \<Rightarrow> bool" where
  "integrity sha B s \<longleftrightarrow> (\<forall>f \<in> set (so_files s). row_ok sha B f \<and> wf_id f < so_next s)
     \<and> keys_unique (so_files s) \<and> objects_ok sha B (so_r2 s)"

text \<open>The digest a workspace has for each path.\<close>

definition hash_at :: "string \<Rightarrow> sync_store \<Rightarrow> string \<rightharpoonup> string" where
  "hash_at w s = map_of (map (\<lambda>f. (wf_path f, wf_sha256_hash f)) (filter (\<lambda>f. wf_workspace f = w) (so_files s)))"

lemma paths_unique: "keys_unique fs \<Longrightarrow> distinct (map wf_path (filter (\<lambda>f. wf_workspace f = w) fs))"
  by (induction fs) (auto simp: keys_unique_def image_iff)

lemma hash_at_Some:
  assumes "keys_unique (so_files s)"
  shows "hash_at w s p = Some h \<longleftrightarrow> (\<exists>f \<in> set (so_files s). wf_workspace f = w \<and> wf_path f = p \<and> wf_sha256_hash f = h)"
proof -
  have "distinct (map fst (map (\<lambda>f. (wf_path f, wf_sha256_hash f)) (filter (\<lambda>f. wf_workspace f = w) (so_files s))))"
    using paths_unique [OF assms, of w] by (simp add: comp_def)
  from map_of_eq_Some_iff [OF this] show ?thesis by (auto simp: hash_at_def image_iff)
qed

lemma stored_hashes_at:
  assumes "keys_unique (so_files s)"
  shows "stored_hashes (get_workspace_files w s) = hash_at w s"
proof -
  let ?g = "\<lambda>f. (wf_path f, wf_sha256_hash f)"
  have d: "distinct (map wf_path (filter (\<lambda>f. wf_workspace f = w) (so_files s)))" by (rule paths_unique [OF assms])
  then have "distinct (map wf_path (get_workspace_files w s))" by (simp add: get_workspace_files_def distinct_map)
  with d have "map_of (map ?g (get_workspace_files w s)) = map_of (map ?g (filter (\<lambda>f. wf_workspace f = w) (so_files s)))"
    by (subst map_of_inject_set) (simp_all add: comp_def get_workspace_files_def)
  then show ?thesis by (intro ext) (simp add: stored_hashes_def hash_at_def)
qed

lemma key_hash:
  assumes "sync_key w h = sync_key w' h'" and "CHR ''/'' \<notin> set h" and "CHR ''/'' \<notin> set h'"
  shows "h = h'"
proof -
  have "last (split_on (CHR ''/'') (sync_key u k)) = k" if "CHR ''/'' \<notin> set k" for u k
  proof -
    have "sync_key u k = (u @ ''/files'') @ CHR ''/'' # k" by (simp add: sync_key_def)
    then show ?thesis using split_on_id [OF that] by (simp only: split_on_append) simp
  qed
  with assms show ?thesis by metis
qed

lemma objects_ok_same: "r2_objects r' = r2_objects r \<Longrightarrow> objects_ok sha B r' \<longleftrightarrow> objects_ok sha B r"
  by (simp add: objects_ok_def)

lemma objects_ok_put:
  assumes "objects_ok sha B r" and "digests sha B" and "b \<in> B"
  shows "objects_ok sha B (put_object (sync_key w (sha b)) b r)"
proof -
  have hex: "CHR ''/'' \<notin> set (sha b)" using assms(2,3) by (simp add: digests_def)
  have "c \<in> B \<and> sha c = h" if "r2_objects (put_object (sync_key w (sha b)) b r) (sync_key u h) = Some c" "CHR ''/'' \<notin> set h" for u h c
  proof (cases "sync_key u h = sync_key w (sha b)")
    case True
    with key_hash [OF True that(2) hex] that(1) assms(3) show ?thesis by (simp add: put_object_def)
  next
    case False
    with that assms(1) show ?thesis by (auto simp: put_object_def objects_ok_def)
  qed
  then show ?thesis by (simp add: objects_ok_def)
qed

lemma objects_ok_delete: "objects_ok sha B r \<Longrightarrow> objects_ok sha B (delete_object k r)"
  by (auto simp: objects_ok_def delete_object_def split: if_splits)

lemma r2_delete_objects: "r2_delete net k r = (x, r') \<Longrightarrow> r2_objects r' \<in> {r2_objects r, (r2_objects r)(k := None)}"
  by (auto simp: r2_delete_def delete_object_def split: r2_answer.splits)

lemma r2_delete_ok: "r2_delete net k r = (x, r') \<Longrightarrow> objects_ok sha B r \<Longrightarrow> objects_ok sha B r'"
proof -
  assume "r2_delete net k r = (x, r')" and ok: "objects_ok sha B r"
  then consider "r2_objects r' = r2_objects r" | "r2_objects r' = r2_objects (delete_object k r)"
    using r2_delete_objects by (fastforce simp: delete_object_def)
  then show ?thesis using ok objects_ok_delete [OF ok] by cases (simp_all only: objects_ok_def)
qed

lemma keys_unique_filter: "keys_unique fs \<Longrightarrow> keys_unique (filter P fs)"
  by (simp add: keys_unique_def distinct_map_filter)

section \<open>Deleting what was not found\<close>

lemma same_row:
  assumes "keys_unique fs" and "f \<in> set fs" and "g \<in> set fs"
  shows "wf_id g = wf_id f \<longleftrightarrow> wf_workspace g = wf_workspace f \<and> wf_path g = wf_path f"
proof -
  have "inj_on wf_id (set fs)" "inj_on (\<lambda>f. (wf_workspace f, wf_path f)) (set fs)"
    using assms(1) by (simp_all add: keys_unique_def distinct_map)
  with assms(2,3) show ?thesis by (auto dest: inj_onD)
qed

lemma delete_stored_spec:
  assumes run: "delete_stored net f s = (ok, s')" and i: "integrity sha B s"
  shows "integrity sha B s' \<and> so_next s' = so_next s \<and> r2_objects (so_r2 s') \<in> {r2_objects (so_r2 s), (r2_objects (so_r2 s))(the_default [] (wf_r2_key f) := None)}
    \<and> (wf_storage_type f = STORAGE_R2 \<or> so_r2 s' = so_r2 s)
    \<and> so_files s' = (if ok then filter (\<lambda>g. wf_id g \<noteq> wf_id f) (so_files s) else so_files s)"
proof (cases "wf_storage_type f = STORAGE_R2 \<and> truthy_str (wf_r2_key f)")
  case True
  obtain x r where d: "r2_delete net (the_default [] (wf_r2_key f)) (so_r2 s) = (x, r)" by fastforce
  have "objects_ok sha B r" using r2_delete_ok [OF d] i by (simp add: integrity_def)
  with True d run i r2_delete_objects [OF d] show ?thesis
    by (auto simp: delete_stored_def delete_file_row_def integrity_def keys_unique_filter split: option.splits)
next
  case False
  with run i show ?thesis by (auto simp: delete_stored_def delete_file_row_def integrity_def keys_unique_filter)
qed

lemma hash_at_filter:
  assumes "keys_unique (so_files s)" and "f \<in> set (so_files s)" and "so_files s' = filter (\<lambda>g. wf_id g \<noteq> wf_id f) (so_files s)"
  shows "hash_at w s' = (if wf_workspace f = w then (hash_at w s)(wf_path f := None) else hash_at w s)"
proof
  fix p
  have k: "keys_unique (so_files s')" using assms(1,3) keys_unique_filter by simp
  have "hash_at w s' p = Some h \<longleftrightarrow> (if wf_workspace f = w then (hash_at w s)(wf_path f := None) else hash_at w s) p = Some h" for h
    unfolding hash_at_Some [OF k] using hash_at_Some [OF assms(1)] same_row [OF assms(1,2)] assms(3) by auto
  then show "hash_at w s' p = (if wf_workspace f = w then (hash_at w s)(wf_path f := None) else hash_at w s) p"
    by (metis option.exhaust)
qed

lemma delete_missing_spec:
  assumes "delete_missing net found fs r s = (r', s')" and "integrity sha B s"
    and "set fs \<subseteq> {f \<in> set (so_files s). wf_workspace f = w}" and "distinct (map wf_id fs)"
  shows "integrity sha B s' \<and> (sy_errors r' = [] \<longrightarrow> sy_errors r = [] \<and>
    hash_at w s' = (\<lambda>p. if p \<in> wf_path ` set fs - found then None else hash_at w s p))"
  using assms
proof (induction fs arbitrary: r s)
  case (Cons f fs)
  show ?case
  proof (cases "wf_path f \<in> found")
    case True
    with Cons show ?thesis by (simp add: insert_Diff_if)
  next
    case False
    obtain ok s1 where d: "delete_stored net f s = (ok, s1)" by fastforce
    note spec = delete_stored_spec [OF d Cons.prems(2)]
    have u: "keys_unique (so_files s)" using Cons.prems(2) by (simp add: integrity_def)
    have sub: "set fs \<subseteq> {f \<in> set (so_files s1). wf_workspace f = w}"
      using spec Cons.prems(3,4) by (auto simp: image_iff)
    have dist: "distinct (map wf_id fs)" using Cons.prems(4) by simp
    show ?thesis
    proof (cases ok)
      case True
      with False d Cons.prems(1) have "delete_missing net found fs (r\<lparr>sy_files_deleted := Suc (sy_files_deleted r)\<rparr>) s1 = (r', s')" by simp
      from Cons.IH [OF this conjunct1 [OF spec] sub dist]
      have IH: "integrity sha B s'" "sy_errors r' = [] \<Longrightarrow> sy_errors r = [] \<and> hash_at w s' = (\<lambda>p. if p \<in> wf_path ` set fs - found then None else hash_at w s1 p)"
        by simp_all
      have "hash_at w s1 = (hash_at w s)(wf_path f := None)"
        using hash_at_filter [OF u, of f s1 w] spec True Cons.prems(3) by simp
      with IH False show ?thesis by (auto simp: fun_eq_iff)
    next
      case notok: False
      with False d Cons.prems(1) have "delete_missing net found fs (note_error (DeleteFailed (wf_path f)) r) s1 = (r', s')" by simp
      from Cons.IH [OF this conjunct1 [OF spec] sub dist] show ?thesis by (simp add: note_error_def)
    qed
  qed
qed simp

section \<open>Saving what was found\<close>

lemma row_ok_id [simp]: "row_ok sha B (f\<lparr>wf_id := i\<rparr>) = row_ok sha B f"
  by (simp add: row_ok_def)

lemma upsert_r2 [simp]: "so_r2 (upsert_file f s) = so_r2 s"
  by (simp add: upsert_file_def)

lemma upsert_files:
  assumes "keys_unique (so_files s)"
  shows "\<exists>i. set (so_files (upsert_file f s)) =
      insert (f\<lparr>wf_id := i\<rparr>) {g \<in> set (so_files s). \<not> (wf_workspace g = wf_workspace f \<and> wf_path g = wf_path f)}"
proof (cases "\<exists>g \<in> set (so_files s). wf_workspace g = wf_workspace f \<and> wf_path g = wf_path f")
  case True
  then obtain g where g: "g \<in> set (so_files s)" "wf_workspace g = wf_workspace f" "wf_path g = wf_path f" by blast
  have "wf_id x = wf_id g" if "x \<in> set (so_files s)" "wf_workspace x = wf_workspace f \<and> wf_path x = wf_path f" for x
    using same_row [OF assms g(1) that(1)] that(2) g(2,3) by simp
  then have one: "f\<lparr>wf_id := wf_id x\<rparr> = f\<lparr>wf_id := wf_id g\<rparr>"
    if "x \<in> set (so_files s)" "wf_workspace x = wf_workspace f \<and> wf_path x = wf_path f" for x using that by simp
  let ?g = "\<lambda>g. if wf_workspace g = wf_workspace f \<and> wf_path g = wf_path f then f\<lparr>wf_id := wf_id g\<rparr> else g"
  have "?g ` set (so_files s) =
      insert (f\<lparr>wf_id := wf_id g\<rparr>) {x \<in> set (so_files s). \<not> (wf_workspace x = wf_workspace f \<and> wf_path x = wf_path f)}" (is "_ = ?R")
  proof (intro equalityI subsetI)
    fix y assume "y \<in> ?g ` set (so_files s)"
    then obtain x where x: "x \<in> set (so_files s)" "y = ?g x" by blast
    then show "y \<in> ?R" using one [OF x(1)] by (cases "wf_workspace x = wf_workspace f \<and> wf_path x = wf_path f") auto
  next
    fix y assume "y \<in> ?R"
    then have "y = ?g g \<or> y \<in> set (so_files s) \<and> y = ?g y" using g by auto
    with g(1) show "y \<in> ?g ` set (so_files s)" by blast
  qed
  with True show ?thesis by (intro exI [of _ "wf_id g"]) (simp add: upsert_file_def)
next
  case False
  then show ?thesis by (intro exI [of _ "so_next s"]) (auto simp: upsert_file_def)
qed

lemma upsert_spec:
  assumes i: "integrity sha B s" and ok: "row_ok sha B f"
  shows "integrity sha B (upsert_file f s)"
    and "hash_at w (upsert_file f s) = (if wf_workspace f = w then (hash_at w s)(wf_path f \<mapsto> wf_sha256_hash f) else hash_at w s)"
proof -
  have u: "keys_unique (so_files s)" using i by (simp add: integrity_def)
  have u': "keys_unique (so_files (upsert_file f s))"
  proof (cases "\<exists>g \<in> set (so_files s). wf_workspace g = wf_workspace f \<and> wf_path g = wf_path f")
    case True
    let ?g = "\<lambda>g. if wf_workspace g = wf_workspace f \<and> wf_path g = wf_path f then f\<lparr>wf_id := wf_id g\<rparr> else g"
    have m: "map (\<lambda>f. (wf_workspace f, wf_path f)) (map ?g fs) = map (\<lambda>f. (wf_workspace f, wf_path f)) fs"
      "map wf_id (map ?g fs) = map wf_id fs" for fs by (induction fs) auto
    have e: "so_files (upsert_file f s) = map ?g (so_files s)" using True by (simp add: upsert_file_def)
    from u show ?thesis by (simp only: keys_unique_def e m)
  next
    case False
    moreover have "so_next s \<notin> wf_id ` set (so_files s)" using i by (force simp: integrity_def)
    ultimately show ?thesis using u by (auto simp: upsert_file_def keys_unique_def)
  qed
  from upsert_files [OF u, of f] obtain i' where set':
    "set (so_files (upsert_file f s)) = insert (f\<lparr>wf_id := i'\<rparr>) {g \<in> set (so_files s). \<not> (wf_workspace g = wf_workspace f \<and> wf_path g = wf_path f)}" ..
  have "\<forall>g \<in> set (so_files (upsert_file f s)). wf_id g < so_next (upsert_file f s)"
    using i by (auto simp: upsert_file_def integrity_def less_Suc_eq)
  with i ok u' set' show "integrity sha B (upsert_file f s)" by (auto simp: integrity_def)
  show "hash_at w (upsert_file f s) = (if wf_workspace f = w then (hash_at w s)(wf_path f \<mapsto> wf_sha256_hash f) else hash_at w s)"
  proof
    fix p
    have "hash_at w (upsert_file f s) p = Some h \<longleftrightarrow>
        (if wf_workspace f = w then (hash_at w s)(wf_path f \<mapsto> wf_sha256_hash f) else hash_at w s) p = Some h" for h
      unfolding hash_at_Some [OF u'] set' using hash_at_Some [OF u] by auto
    then show "hash_at w (upsert_file f s) p = (if wf_workspace f = w then (hash_at w s)(wf_path f \<mapsto> wf_sha256_hash f) else hash_at w s) p"
      by (metis option.exhaust)
  qed
qed

definition sound :: "(bytes \<Rightarrow> string) \<Rightarrow> bytes set \<Rightarrow> (string \<Rightarrow> bytes option) \<Rightarrow> file_info \<Rightarrow> bool" where
  "sound sha B read i \<longleftrightarrow> (\<exists>b \<in> B. read (fi_path i) = Some b \<and> sha b = fi_sha256 i)"

lemma save_file_spec:
  assumes run: "save_file cfg net read w i s = (ok, s')" and int: "integrity sha B s" and d: "digests sha B" and snd: "sound sha B read i"
  shows "integrity sha B s' \<and> hash_at w s' = (if ok then (hash_at w s)(fi_path i \<mapsto> fi_sha256 i) else hash_at w s)"
proof -
  from snd obtain b where b: "b \<in> B" "read (fi_path i) = Some b" "sha b = fi_sha256 i" by (auto simp: sound_def)
  show ?thesis
  proof (cases "fi_size i \<le> sc_inline_threshold cfg")
    case True
    let ?row = "\<lparr>wf_id = 0, wf_workspace = w, wf_path = fi_path i, wf_filename = file_name (fi_path i), wf_mime_type = fi_mime_type i,
      wf_size_bytes = fi_size i, wf_storage_type = STORAGE_INLINE, wf_content = Some b, wf_r2_bucket = None,
      wf_r2_key = None, wf_sha256_hash = fi_sha256 i\<rparr>"
    have ok: "row_ok sha B ?row" using b by (simp add: row_ok_def)
    have "ok" "s' = upsert_file ?row s" using run True b(2) by (simp_all add: save_file_def Let_def)
    with upsert_spec [OF int ok] show ?thesis by simp
  next
    case False
    let ?key = "sync_key w (fi_sha256 i)"
    let ?row = "\<lparr>wf_id = 0, wf_workspace = w, wf_path = fi_path i, wf_filename = file_name (fi_path i), wf_mime_type = fi_mime_type i,
      wf_size_bytes = fi_size i, wf_storage_type = STORAGE_R2, wf_content = None, wf_r2_bucket = Some (sc_bucket cfg),
      wf_r2_key = Some ?key, wf_sha256_hash = fi_sha256 i\<rparr>"
    have "fi_sha256 i \<in> sha ` B" using b by (metis imageI)
    then have ok: "row_ok sha B ?row" by (simp add: row_ok_def)
    obtain x r where up: "r2_upload net ?key b (so_r2 s) = (x, r)" by fastforce
    show ?thesis
    proof (cases x)
      case None
      with up have "r2_objects r = r2_objects (so_r2 s)" by (auto simp: r2_upload_def split: r2_answer.splits)
      with None False run b(2) up int show ?thesis
        using objects_ok_same [of r "so_r2 s" sha B] by (auto simp: save_file_def Let_def integrity_def hash_at_def)
    next
      case (Some y)
      with up have r: "r = put_object ?key b (count_call (so_r2 s))" by (auto simp: r2_upload_def split: r2_answer.splits)
      have "objects_ok sha B (count_call (so_r2 s))" using int objects_ok_same [of "count_call (so_r2 s)"] by (simp add: integrity_def)
      from objects_ok_put [OF this d b(1), of w] b(3) have "integrity sha B (s\<lparr>so_r2 := r\<rparr>)"
        using int by (simp add: r integrity_def)
      from upsert_spec [OF this ok] have u: "integrity sha B (upsert_file ?row (s\<lparr>so_r2 := r\<rparr>))"
        "hash_at w (upsert_file ?row (s\<lparr>so_r2 := r\<rparr>)) = (hash_at w (s\<lparr>so_r2 := r\<rparr>))(fi_path i \<mapsto> fi_sha256 i)" by simp_all
      have "ok" "s' = upsert_file ?row (s\<lparr>so_r2 := r\<rparr>)" using run False b(2) up Some by (simp_all add: save_file_def Let_def)
      with u show ?thesis by (simp add: hash_at_def)
    qed
  qed
qed

lemma save_files_spec:
  assumes "save_files cfg net read w existing is r s = (r', s')" and "integrity sha B s" and "digests sha B"
    and "\<forall>i \<in> set is. sound sha B read i" and "distinct (map fi_path is)"
    and "\<forall>i \<in> set is. existing (fi_path i) = Some (fi_sha256 i) \<longrightarrow> hash_at w s (fi_path i) = Some (fi_sha256 i)"
  shows "integrity sha B s' \<and> (sy_errors r' = [] \<longrightarrow> sy_errors r = [] \<and>
    hash_at w s' = hash_at w s ++ map_of (map (\<lambda>i. (fi_path i, fi_sha256 i)) is))"
  using assms
proof (induction "is" arbitrary: r s)
  case (Cons i "is")
  have dist: "distinct (map fi_path is)" "fi_path i \<notin> fi_path ` set is" using Cons.prems(5) by simp_all
  have sound: "\<forall>i \<in> set is. sound sha B read i" "sound sha B read i" using Cons.prems(4) by simp_all
  let ?m = "map_of (map (\<lambda>i. (fi_path i, fi_sha256 i)) is)"
  have m: "map_of (map (\<lambda>i. (fi_path i, fi_sha256 i)) (i # is)) = ?m(fi_path i \<mapsto> fi_sha256 i)" by simp
  have fresh: "?m (fi_path i) = None" using dist(2) by (auto simp: map_of_eq_None_iff)
  have swap: "m(fi_path i \<mapsto> h) ++ ?m = (m ++ ?m)(fi_path i \<mapsto> h)" for m h
    using fresh by (auto simp: fun_eq_iff map_add_def split: option.splits)
  show ?case
  proof (cases "existing (fi_path i) = Some (fi_sha256 i)")
    case True
    with Cons.prems(1) have rest: "save_files cfg net read w existing is (r\<lparr>sy_files_skipped := Suc (sy_files_skipped r)\<rparr>) s = (r', s')" by simp
    have "\<forall>i \<in> set is. existing (fi_path i) = Some (fi_sha256 i) \<longrightarrow> hash_at w s (fi_path i) = Some (fi_sha256 i)"
      using Cons.prems(6) by simp
    note IH = Cons.IH [OF rest Cons.prems(2,3) sound(1) dist(1) this]
    have "hash_at w s (fi_path i) = Some (fi_sha256 i)" using True Cons.prems(6) by simp
    then have "(hash_at w s ++ ?m)(fi_path i \<mapsto> fi_sha256 i) = hash_at w s ++ ?m"
      using fresh by (auto simp: fun_eq_iff map_add_def)
    with IH show ?thesis by (simp only: m map_add_upd) simp
  next
    case False
    obtain ok s1 where sf: "save_file cfg net read w i s = (ok, s1)" by fastforce
    note spec = save_file_spec [OF sf Cons.prems(2,3) sound(2)]
    show ?thesis
    proof (cases ok)
      case True
      with False sf Cons.prems(1) have rest: "save_files cfg net read w existing is
          (r\<lparr>sy_files_synced := Suc (sy_files_synced r), sy_bytes_synced := sy_bytes_synced r + fi_size i\<rparr>) s1 = (r', s')" by simp
      have h: "hash_at w s1 = (hash_at w s)(fi_path i \<mapsto> fi_sha256 i)" using spec True by simp
      have "\<forall>j \<in> set is. existing (fi_path j) = Some (fi_sha256 j) \<longrightarrow> hash_at w s1 (fi_path j) = Some (fi_sha256 j)"
        using Cons.prems(6) dist(2) by (auto simp: h image_iff)
      note IH = Cons.IH [OF rest conjunct1 [OF spec] Cons.prems(3) sound(1) dist(1) this]
      with h show ?thesis by (simp only: m map_add_upd swap) simp
    next
      case notok: False
      with False sf Cons.prems(1) have rest: "save_files cfg net read w existing is (note_error (FileFailed (fi_path i)) r) s1 = (r', s')" by simp
      have "\<forall>j \<in> set is. existing (fi_path j) = Some (fi_sha256 j) \<longrightarrow> hash_at w s1 (fi_path j) = Some (fi_sha256 j)"
        using Cons.prems(6) spec notok by simp
      from Cons.IH [OF rest conjunct1 [OF spec] Cons.prems(3) sound(1) dist(1) this] show ?thesis by (simp only: m) (simp add: note_error_def)
    qed
  qed
qed simp

section \<open>Restoring\<close>

text \<open>What is at a path after a restore, given the digest the store has for it.\<close>

definition restored :: "(bytes \<Rightarrow> string) \<Rightarrow> bytes set \<Rightarrow> string option \<Rightarrow> bytes option \<Rightarrow> bytes option \<Rightarrow> bool" where
  "restored sha B h before after = (case h of None \<Rightarrow> after = before | Some h \<Rightarrow> \<exists>b \<in> B. after = Some b \<and> sha b = h)"

lemma restore_file_spec:
  assumes run: "restore_file net can_write f s fs = (ok, s', fs')" and row: "row_ok sha B f" and obj: "objects_ok sha B (so_r2 s)"
    and d: "digests sha B"
  shows "objects_ok sha B (so_r2 s') \<and> so_files s' = so_files s
    \<and> (ok \<longrightarrow> (\<exists>b \<in> B. sha b = wf_sha256_hash f \<and> fs' = fs(wf_path f \<mapsto> b)))"
proof (cases "wf_storage_type f = STORAGE_INLINE")
  case True
  with run row obj show ?thesis by (auto simp: restore_file_def row_ok_def split: if_splits)
next
  case False
  with row have k: "wf_storage_type f = STORAGE_R2" "wf_r2_key f = Some (sync_key (wf_workspace f) (wf_sha256_hash f))"
    "wf_sha256_hash f \<in> sha ` B" by (simp_all add: row_ok_def)
  obtain x r where dl: "r2_download net (sync_key (wf_workspace f) (wf_sha256_hash f)) (so_r2 s) = (x, r)" by fastforce
  have same: "r2_objects r = r2_objects (so_r2 s)" using dl by (auto simp: r2_download_def split: r2_answer.splits)
  then have obj': "objects_ok sha B r" using obj objects_ok_same by blast
  show ?thesis
  proof (cases "can_write (wf_path f)")
    case True
    show ?thesis
    proof (cases x)
      case None
      with True False run k(2) dl obj' show ?thesis by (auto simp: restore_file_def)
    next
      case (Some b)
      with dl have "r2_objects (so_r2 s) (sync_key (wf_workspace f) (wf_sha256_hash f)) = Some b"
        by (auto simp: r2_download_def split: r2_answer.splits)
      moreover have "CHR ''/'' \<notin> set (wf_sha256_hash f)" using k(3) d by (auto simp: digests_def)
      ultimately have "b \<in> B" "sha b = wf_sha256_hash f" using obj by (auto simp: objects_ok_def)
      with True False run k(2) dl obj' Some show ?thesis by (auto simp: restore_file_def)
    qed
  next
    case nowrite: False
    with run obj show ?thesis by (auto simp: restore_file_def)
  qed
qed

lemma restore_files_spec:
  assumes "restore_files net can_write files r s fs = (r', s', fs')" and "\<forall>f \<in> set files. row_ok sha B f"
    and "objects_ok sha B (so_r2 s)" and "digests sha B" and "distinct (map wf_path files)" and "sy_errors r' = []"
  shows "sy_errors r = [] \<and> restored sha B (stored_hashes files p) (fs p) (fs' p)"
  using assms
proof (induction files arbitrary: r s fs)
  case (Cons f files)
  obtain ok s1 fs1 where rf: "restore_file net can_write f s fs = (ok, s1, fs1)" by (metis surj_pair)
  have row: "row_ok sha B f" using Cons.prems(2) by simp
  note spec = restore_file_spec [OF rf row Cons.prems(3,4)]
  have rows: "\<forall>f \<in> set files. row_ok sha B f" "distinct (map wf_path files)" "wf_path f \<notin> wf_path ` set files"
    using Cons.prems(2,5) by simp_all
  show ?case
  proof (cases ok)
    case True
    with rf Cons.prems(1) have "restore_files net can_write files
        (r\<lparr>sy_files_synced := Suc (sy_files_synced r), sy_bytes_synced := sy_bytes_synced r + wf_size_bytes f\<rparr>) s1 fs1 = (r', s', fs')" by simp
    from Cons.IH [OF this rows(1) conjunct1 [OF spec] Cons.prems(4) rows(2) Cons.prems(6)]
    have IH: "sy_errors r = []" "restored sha B (stored_hashes files p) (fs1 p) (fs' p)" by simp_all
    from spec True obtain b where b: "b \<in> B" "sha b = wf_sha256_hash f" "fs1 = fs(wf_path f \<mapsto> b)" by auto
    have none: "stored_hashes files (wf_path f) = None" using rows(3) by (auto simp: stored_hashes_def map_of_eq_None_iff)
    show ?thesis
    proof (cases "p = wf_path f")
      case True
      with IH none b show ?thesis by (auto simp: restored_def stored_hashes_def)
    next
      case False
      then have "stored_hashes (f # files) p = stored_hashes files p" by (simp add: stored_hashes_def)
      with False IH b(3) show ?thesis by simp
    qed
  next
    case False
    with rf Cons.prems(1) have "restore_files net can_write files (note_error (FileFailed (wf_path f)) r) s1 fs1 = (r', s', fs')" by simp
    from Cons.IH [OF this rows(1) conjunct1 [OF spec] Cons.prems(4) rows(2) Cons.prems(6)]
    show ?thesis by (simp add: note_error_def)
  qed
qed (simp add: restored_def stored_hashes_def)

section \<open>The bookkeeping around them\<close>

lemma sync_state_frame [simp]:
  "so_files (get_or_create_sync_state w s) = so_files s" "so_r2 (get_or_create_sync_state w s) = so_r2 s"
  "so_next (get_or_create_sync_state w s) = so_next s" "so_workspaces (get_or_create_sync_state w s) = so_workspaces s"
  "so_files (update_sync_state w st dr m n e s) = so_files s" "so_r2 (update_sync_state w st dr m n e s) = so_r2 s"
  "so_next (update_sync_state w st dr m n e s) = so_next s" "so_workspaces (update_sync_state w st dr m n e s) = so_workspaces s"
  "so_files (update_workspace_stats w s) = so_files s" "so_r2 (update_workspace_stats w s) = so_r2 s"
  "so_next (update_workspace_stats w s) = so_next s"
  by (simp_all add: get_or_create_sync_state_def update_sync_state_def update_workspace_stats_def Let_def)

lemma hash_at_cong: "so_files s' = so_files s \<Longrightarrow> hash_at w s' = hash_at w s"
  by (simp add: hash_at_def)

lemma integrity_cong:
  "so_files s' = so_files s \<Longrightarrow> so_r2 s' = so_r2 s \<Longrightarrow> so_next s \<le> so_next s' \<Longrightarrow> integrity sha B s \<Longrightarrow> integrity sha B s'"
  by (auto simp: integrity_def)

text \<open>The workspaces keep their identity.\<close>

abbreviation workspace_id :: "string \<Rightarrow> string \<Rightarrow> sync_store \<Rightarrow> string option" where
  "workspace_id user chat s \<equiv> map_option wr_id (get_workspace user chat s)"

lemma get_workspace_map:
  assumes "so_workspaces s' = map g (so_workspaces s)" and "\<And>x. wr_user (g x) = wr_user x \<and> wr_chat (g x) = wr_chat x \<and> wr_id (g x) = wr_id x"
  shows "workspace_id user chat s' = workspace_id user chat s"
proof -
  have "map_option wr_id (List.find (\<lambda>w. wr_user w = user \<and> wr_chat w = chat) (map g ws))
      = map_option wr_id (List.find (\<lambda>w. wr_user w = user \<and> wr_chat w = chat) ws)" for ws
    by (induction ws) (simp_all add: assms(2))
  then show ?thesis by (simp add: get_workspace_def assms(1))
qed

lemma workspace_id_stats [simp]: "workspace_id user chat (update_workspace_stats w s) = workspace_id user chat s"
  by (rule get_workspace_map [where g = "\<lambda>r. if wr_id r = w
    then r\<lparr>wr_total_size_bytes := sum_list (map wf_size_bytes (filter (\<lambda>f. wf_workspace f = w) (so_files s))),
           wr_file_count := length (filter (\<lambda>f. wf_workspace f = w) (so_files s))\<rparr> else r"])
    (simp_all add: update_workspace_stats_def Let_def)

lemma workspace_id_same: "so_workspaces s' = so_workspaces s \<Longrightarrow> workspace_id user chat s' = workspace_id user chat s"
  by (simp add: get_workspace_def)

lemma find_snoc: "List.find P xs = None \<Longrightarrow> P x \<Longrightarrow> List.find P (xs @ [x]) = Some x"
  by (induction xs) (auto split: if_splits)

lemma get_or_create_workspace_spec:
  assumes "get_or_create_workspace user chat s = (w, s')"
  shows "so_files s' = so_files s \<and> so_r2 s' = so_r2 s \<and> so_next s \<le> so_next s' \<and> workspace_id user chat s' = Some (wr_id w)"
  using assms
  by (auto simp: get_or_create_workspace_def get_workspace_def Let_def find_snoc split: option.splits)

lemma delete_stored_workspaces: "delete_stored net f s = (ok, s') \<Longrightarrow> so_workspaces s' = so_workspaces s"
  by (auto simp: delete_stored_def delete_file_row_def split: if_splits prod.splits option.splits)

lemma delete_missing_workspaces: "delete_missing net found fs r s = (r', s') \<Longrightarrow> so_workspaces s' = so_workspaces s"
proof (induction fs arbitrary: r s)
  case (Cons f fs)
  obtain ok s1 where d: "delete_stored net f s = (ok, s1)" by fastforce
  with Cons show ?case by (cases ok) (auto dest: delete_stored_workspaces split: if_splits)
qed simp

lemma save_file_workspaces: "save_file cfg net read w i s = (ok, s') \<Longrightarrow> so_workspaces s' = so_workspaces s"
  by (auto simp: save_file_def upsert_file_def Let_def split: if_splits prod.splits option.splits)

lemma save_files_workspaces: "save_files cfg net read w existing is r s = (r', s') \<Longrightarrow> so_workspaces s' = so_workspaces s"
proof (induction "is" arbitrary: r s)
  case (Cons i "is")
  obtain ok s1 where d: "save_file cfg net read w i s = (ok, s1)" by fastforce
  with Cons show ?case by (cases ok) (auto dest: save_file_workspaces split: if_splits)
qed simp

lemma save_files_errors:
  "save_files cfg net read w existing is r s = (r', s') \<Longrightarrow> sy_errors r' = [] \<Longrightarrow> sy_errors r = []"
proof (induction "is" arbitrary: r s)
  case (Cons i "is")
  obtain ok s1 where d: "save_file cfg net read w i s = (ok, s1)" by fastforce
  show ?case
  proof (cases "existing (fi_path i) = Some (fi_sha256 i) \<or> ok")
    case True
    then have "\<exists>r1 s1. sy_errors r1 = sy_errors r \<and> save_files cfg net read w existing is r1 s1 = (r', s')"
    proof (cases "existing (fi_path i) = Some (fi_sha256 i)")
      case True
      with Cons.prems(1) show ?thesis by (intro exI [of _ "r\<lparr>sy_files_skipped := Suc (sy_files_skipped r)\<rparr>"] exI [of _ s]) simp
    next
      case False
      with True d Cons.prems(1) show ?thesis
        by (intro exI [of _ "r\<lparr>sy_files_synced := Suc (sy_files_synced r), sy_bytes_synced := sy_bytes_synced r + fi_size i\<rparr>"] exI [of _ s1]) simp
    qed
    with Cons.IH Cons.prems(2) show ?thesis by metis
  next
    case False
    with d Cons.prems(1) have "save_files cfg net read w existing is (note_error (FileFailed (fi_path i)) r) s1 = (r', s')" by simp
    from Cons.IH [OF this Cons.prems(2)] show ?thesis by (simp add: note_error_def)
  qed
qed simp

lemma get_workspace_files_mem:
  assumes "keys_unique (so_files s)"
  shows "set (get_workspace_files w s) = {f \<in> set (so_files s). wf_workspace f = w}"
    and "distinct (map wf_id (get_workspace_files w s))" and "distinct (map wf_path (get_workspace_files w s))"
  using paths_unique [OF assms, of w] assms
  by (auto simp: get_workspace_files_def distinct_map keys_unique_def inj_on_def)

lemma read_container_file:
  assumes "steady files" and "f \<in> set files"
  shows "read_container files (cf_path f) = cf_read f"
proof -
  have "distinct (map fst (map (\<lambda>f. (cf_path f, f)) files))" using assms(1) by (simp add: steady_def comp_def)
  from map_of_eq_Some_iff [OF this] assms(2) have "map_of (map (\<lambda>f. (cf_path f, f)) files) (cf_path f) = Some f" by auto
  then show ?thesis by (simp add: read_container_def)
qed

text \<open>A save that reports success leaves the workspace with the digests of exactly the files it kept.\<close>

lemma save_workspace_spec:
  assumes int: "integrity sha B s" and d: "digests sha B" and q: "steady files"
    and B: "\<forall>f \<in> set files. the (cf_read f) \<in> B"
    and run: "save_workspace cfg net sha mime user chat (Some files) s = (r, s')" and ok: "sy_success r"
  shows "integrity sha B s' \<and> (\<exists>w. workspace_id user chat s' = Some w
    \<and> hash_at w s' = (\<lambda>p. map_option sha (snapshot cfg files p)))"
proof -
  obtain w s1 where g: "get_or_create_workspace user chat s = (w, s1)" by fastforce
  note gspec = get_or_create_workspace_spec [OF g]
  define s2 where "s2 = update_sync_state (wr_id w) ''syncing'' ''save'' 0 0 None (get_or_create_sync_state (wr_id w) s1)"
  have int2: "integrity sha B s2" using gspec by (intro integrity_cong [OF _ _ _ int]) (simp_all add: s2_def)
  then have u2: "keys_unique (so_files s2)" by (simp add: integrity_def)
  obtain infos e where sc: "scan_files cfg sha mime files 0 = (infos, e)" by fastforce
  let ?ex = "get_workspace_files (wr_id w) s2"
  obtain r3 s3 where del: "delete_missing net (fi_path ` set infos) ?ex
      (nothing_synced (if e = ScanTooLarge then [WorkspaceTooLarge] else [])) s2 = (r3, s3)" by fastforce
  obtain r4 s4 where sv: "save_files cfg net (read_container files) (wr_id w) (stored_hashes ?ex) infos r3 s3 = (r4, s4)" by fastforce
  have scan: "e \<noteq> ScanFailed" "e = ScanDone \<Longrightarrow> infos = map (info_of sha mime) (filter (keeps cfg) files)"
    using scan_steady [OF q, of cfg sha mime 0] sc by simp_all
  have res: "r = r4" "so_files s' = so_files s4" "so_r2 s' = so_r2 s4" "so_next s' = so_next s4"
    "workspace_id user chat s' = workspace_id user chat s4"
    using run g sc del sv scan(1) workspace_id_same [of s' "update_workspace_stats (wr_id w) s4"]
    by (cases e; auto simp: save_workspace_def Let_def s2_def [symmetric])+
  have ok4: "sy_errors r4 = []" using ok res(1) by (simp add: sy_success_def)
  have ok3: "sy_errors r3 = []" by (rule save_files_errors [OF sv ok4])
  note ex = get_workspace_files_mem [OF u2, of "wr_id w"]
  from delete_missing_spec [OF del int2, of "wr_id w"] ex ok3 have int3: "integrity sha B s3"
    and noerr: "e \<noteq> ScanTooLarge"
    and h3: "hash_at (wr_id w) s3 = (\<lambda>p. if p \<in> wf_path ` set ?ex - fi_path ` set infos then None else hash_at (wr_id w) s2 p)"
    by (auto simp: nothing_synced_def)
  have infos: "infos = map (info_of sha mime) (filter (keeps cfg) files)" using scan noerr by (cases e) simp_all
  have snds: "\<forall>i \<in> set infos. sound sha B (read_container files) i"
  proof
    fix i assume "i \<in> set infos"
    then obtain f where f: "f \<in> set files" "i = info_of sha mime f" by (auto simp: infos)
    then obtain b where "cf_read f = Some b" using q by (auto simp: steady_def)
    with f B show "sound sha B (read_container files) i"
      using read_container_file [OF q f(1)] by (force simp: sound_def info_of_def)
  qed
  have dist: "distinct (map fi_path infos)"
  proof -
    have "map fi_path infos = map cf_path (filter (keeps cfg) files)" by (simp add: infos info_of_def comp_def)
    then show ?thesis using q by (simp add: steady_def distinct_map_filter)
  qed
  have skip: "\<forall>i \<in> set infos. stored_hashes ?ex (fi_path i) = Some (fi_sha256 i) \<longrightarrow> hash_at (wr_id w) s3 (fi_path i) = Some (fi_sha256 i)"
    using stored_hashes_at [OF u2] by (simp add: h3)
  let ?m = "map_of (map (\<lambda>i. (fi_path i, fi_sha256 i)) infos)"
  from save_files_spec [OF sv int3 d snds dist skip] ok4 have int4: "integrity sha B s4"
    and h4: "hash_at (wr_id w) s4 = hash_at (wr_id w) s3 ++ ?m" by auto
  have gone: "hash_at (wr_id w) s3 p = None" if "p \<notin> fi_path ` set infos" for p
  proof (rule ccontr)
    assume "hash_at (wr_id w) s3 p \<noteq> None"
    then have "p \<notin> wf_path ` set ?ex" "hash_at (wr_id w) s2 p \<noteq> None" using that by (simp_all add: h3 split: if_split_asm)
    then obtain h where h: "hash_at (wr_id w) s2 p = Some h" "p \<notin> wf_path ` set ?ex" by blast
    then show False using hash_at_Some [OF u2] ex(1) by (auto simp: image_iff)
  qed
  have "(hash_at (wr_id w) s3 ++ ?m) p = ?m p" for p
  proof (cases "?m p")
    case None
    then have "p \<notin> fi_path ` set infos" by (auto simp: map_of_eq_None_iff image_iff)
    with gone None show ?thesis by (simp add: map_add_def)
  qed (simp add: map_add_def)
  moreover have "?m p = map_option sha (snapshot cfg files p)" for p
  proof -
    have "map_of (map (\<lambda>i. (fi_path i, fi_sha256 i)) (map (info_of sha mime) fs)) p
        = map_option sha (map_of (map (\<lambda>f. (cf_path f, the (cf_read f))) fs) p)" for fs
      by (induction fs) (simp_all add: info_of_def)
    then show ?thesis by (simp only: infos snapshot_def)
  qed
  ultimately have "hash_at (wr_id w) s' = (\<lambda>p. map_option sha (snapshot cfg files p))"
    using h4 hash_at_cong [OF res(2)] by (auto simp: fun_eq_iff)
  moreover have "so_workspaces s4 = so_workspaces s1"
    using save_files_workspaces [OF sv] delete_missing_workspaces [OF del] by (simp add: s2_def)
  then have "workspace_id user chat s' = Some (wr_id w)" using res(5) workspace_id_same [of s4 s1] gspec by simp
  moreover have "integrity sha B s'" by (rule integrity_cong [OF res(2,3) _ int4]) (simp add: res(4))
  ultimately show ?thesis by blast
qed


section \<open>Without failures both succeed\<close>

definition objects_present :: "string \<Rightarrow> sync_store \<Rightarrow> bool" where
  "objects_present w s \<longleftrightarrow> (\<forall>f \<in> set (so_files s). wf_workspace f = w \<and> wf_storage_type f = STORAGE_R2 \<longrightarrow>
     r2_objects (so_r2 s) (sync_key w (wf_sha256_hash f)) \<noteq> None)"

definition no_duplicates :: "string \<Rightarrow> sync_store \<Rightarrow> bool" where
  "no_duplicates w s \<longleftrightarrow> (\<forall>f \<in> set (so_files s). \<forall>g \<in> set (so_files s). wf_workspace f = w \<and> wf_workspace g = w
     \<and> wf_storage_type f = STORAGE_R2 \<and> wf_storage_type g = STORAGE_R2 \<and> wf_sha256_hash f = wf_sha256_hash g \<longrightarrow> wf_id f = wf_id g)"

lemma present_cong: "so_files s' = so_files s \<Longrightarrow> r2_objects (so_r2 s') = r2_objects (so_r2 s) \<Longrightarrow> objects_present w s' = objects_present w s"
  by (simp add: objects_present_def)

lemma delete_stored_present:
  assumes run: "delete_stored (\<lambda>_. R2Ok) f s = (ok, s')" and int: "integrity sha B s" and d: "digests sha B"
    and f: "f \<in> set (so_files s)" "wf_workspace f = w" and dup: "no_duplicates w s" and pres: "objects_present w s"
  shows "ok \<and> objects_present w s' \<and> no_duplicates w s'"
proof -
  have row: "row_ok sha B f" using int f(1) by (simp add: integrity_def)
  have ok: "ok" using run by (auto simp: delete_stored_def r2_delete_def split: if_splits)
  from delete_stored_spec [OF run int] ok have files: "so_files s' = filter (\<lambda>g. wf_id g \<noteq> wf_id f) (so_files s)"
    and objs: "r2_objects (so_r2 s') \<in> {r2_objects (so_r2 s), (r2_objects (so_r2 s))(the_default [] (wf_r2_key f) := None)}"
    "wf_storage_type f = STORAGE_R2 \<or> so_r2 s' = so_r2 s" by auto
  have "r2_objects (so_r2 s') (sync_key w (wf_sha256_hash g)) \<noteq> None"
    if g: "g \<in> set (so_files s')" "wf_workspace g = w" "wf_storage_type g = STORAGE_R2" for g
  proof -
    from g files have g': "g \<in> set (so_files s)" "wf_id g \<noteq> wf_id f" by simp_all
    then have old: "r2_objects (so_r2 s) (sync_key w (wf_sha256_hash g)) \<noteq> None" using pres g by (simp add: objects_present_def)
    show ?thesis
    proof (cases "wf_storage_type f = STORAGE_R2")
      case True
      with dup g' g f have ne: "wf_sha256_hash g \<noteq> wf_sha256_hash f" unfolding no_duplicates_def by metis
      have "row_ok sha B g" using int g'(1) by (simp add: integrity_def)
      with row True g(3) have "CHR ''/'' \<notin> set (wf_sha256_hash f)" "CHR ''/'' \<notin> set (wf_sha256_hash g)"
        "wf_r2_key f = Some (sync_key w (wf_sha256_hash f))" using d f(2) by (auto simp: row_ok_def digests_def)
      with ne key_hash have "sync_key w (wf_sha256_hash g) \<noteq> the_default [] (wf_r2_key f)" by (metis the_default_simps(2))
      with objs(1) old show ?thesis by auto
    next
      case False
      with objs(2) old show ?thesis by simp
    qed
  qed
  moreover have "no_duplicates w s'" using dup files by (auto simp: no_duplicates_def)
  ultimately show ?thesis using ok by (simp add: objects_present_def)
qed

lemma delete_missing_present:
  assumes "delete_missing (\<lambda>_. R2Ok) found fs r s = (r', s')" and "integrity sha B s" and "digests sha B"
    and "set fs \<subseteq> {f \<in> set (so_files s). wf_workspace f = w}" and "distinct (map wf_id fs)"
    and "no_duplicates w s" and "objects_present w s"
  shows "sy_errors r' = sy_errors r \<and> objects_present w s'"
  using assms
proof (induction fs arbitrary: r s)
  case (Cons f fs)
  show ?case
  proof (cases "wf_path f \<in> found")
    case True
    with Cons show ?thesis by simp
  next
    case False
    obtain ok s1 where d: "delete_stored (\<lambda>_. R2Ok) f s = (ok, s1)" by fastforce
    have f: "f \<in> set (so_files s)" "wf_workspace f = w" using Cons.prems(4) by simp_all
    note spec = delete_stored_spec [OF d Cons.prems(2)]
    note pres = delete_stored_present [OF d Cons.prems(2,3) f Cons.prems(6,7)]
    have sub: "set fs \<subseteq> {f \<in> set (so_files s1). wf_workspace f = w}" "distinct (map wf_id fs)"
      using spec Cons.prems(4,5) by (auto simp: image_iff)
    from False d Cons.prems(1) pres have rest: "delete_missing (\<lambda>_. R2Ok) found fs (r\<lparr>sy_files_deleted := Suc (sy_files_deleted r)\<rparr>) s1 = (r', s')"
      by simp
    from Cons.IH [OF rest conjunct1 [OF spec] Cons.prems(3) sub] pres show ?thesis by simp
  qed
qed simp

lemma save_file_present:
  assumes run: "save_file cfg (\<lambda>_. R2Ok) read w i s = (ok, s')" and int: "integrity sha B s" and snd: "sound sha B read i" and pres: "objects_present w s"
  shows "ok \<and> objects_present w s'"
proof -
  from snd obtain b where b: "read (fi_path i) = Some b" by (auto simp: sound_def)
  have upsert: "objects_present w (upsert_file f s0)"
    if "objects_present w s0" "keys_unique (so_files s0)" "wf_storage_type f = STORAGE_R2 \<longrightarrow> r2_objects (so_r2 s0) (sync_key w (wf_sha256_hash f)) \<noteq> None" for f s0
    using upsert_files [OF that(2), of f] that(1,3) by (auto simp: objects_present_def)
  have u: "keys_unique (so_files s)" using int by (simp add: integrity_def)
  show ?thesis
  proof (cases "fi_size i \<le> sc_inline_threshold cfg")
    case True
    with run b show ?thesis using upsert [OF pres u] by (auto simp: save_file_def Let_def)
  next
    case False
    let ?r = "put_object (sync_key w (fi_sha256 i)) b (count_call (so_r2 s))"
    have "objects_present w (s\<lparr>so_r2 := ?r\<rparr>)" using pres by (auto simp: objects_present_def put_object_def)
    from upsert [OF this] u have "objects_present w (upsert_file f (s\<lparr>so_r2 := ?r\<rparr>))" if "wf_sha256_hash f = fi_sha256 i" for f
      using that by (simp add: put_object_def)
    with run b False show ?thesis by (auto simp: save_file_def r2_upload_def Let_def)
  qed
qed

lemma save_files_present:
  assumes "save_files cfg (\<lambda>_. R2Ok) read w existing is r s = (r', s')" and "integrity sha B s" and "digests sha B"
    and "\<forall>i \<in> set is. sound sha B read i" and "objects_present w s"
  shows "sy_errors r' = sy_errors r \<and> objects_present w s'"
  using assms
proof (induction "is" arbitrary: r s)
  case (Cons i "is")
  obtain ok s1 where sf: "save_file cfg (\<lambda>_. R2Ok) read w i s = (ok, s1)" by fastforce
  have i: "sound sha B read i" "\<forall>i \<in> set is. sound sha B read i" using Cons.prems(4) by simp_all
  note spec = save_file_spec [OF sf Cons.prems(2,3) i(1)]
  note pres = save_file_present [OF sf Cons.prems(2) i(1) Cons.prems(5)]
  show ?case
  proof (cases "existing (fi_path i) = Some (fi_sha256 i)")
    case True
    with Cons.prems(1) have "save_files cfg (\<lambda>_. R2Ok) read w existing is (r\<lparr>sy_files_skipped := Suc (sy_files_skipped r)\<rparr>) s = (r', s')" by simp
    from Cons.IH [OF this Cons.prems(2,3) i(2) Cons.prems(5)] show ?thesis by simp
  next
    case False
    with sf pres Cons.prems(1) have "save_files cfg (\<lambda>_. R2Ok) read w existing is
        (r\<lparr>sy_files_synced := Suc (sy_files_synced r), sy_bytes_synced := sy_bytes_synced r + fi_size i\<rparr>) s1 = (r', s')" by simp
    from Cons.IH [OF this conjunct1 [OF spec] Cons.prems(3) i(2) conjunct2 [OF pres]] show ?thesis by simp
  qed
qed simp

lemma restore_files_succeed:
  assumes "restore_files (\<lambda>_. R2Ok) (\<lambda>_. True) files r s fs = (r', s', fs')"
    and "\<forall>f \<in> set files. row_ok sha B f \<and> wf_workspace f = w \<and> (wf_storage_type f = STORAGE_R2 \<longrightarrow>
           r2_objects (so_r2 s) (sync_key w (wf_sha256_hash f)) \<noteq> None)"
  shows "sy_errors r' = sy_errors r"
  using assms
proof (induction files arbitrary: r s fs)
  case (Cons f files)
  obtain ok s1 fs1 where rf: "restore_file (\<lambda>_. R2Ok) (\<lambda>_. True) f s fs = (ok, s1, fs1)" by (metis surj_pair)
  have "ok \<and> r2_objects (so_r2 s1) = r2_objects (so_r2 s)"
    using rf Cons.prems(2) by (auto simp: restore_file_def row_ok_def r2_download_def split: option.splits)
  with rf Cons show ?case by simp
qed simp

text \<open>C23: Without failures of R2 and of the file system a save succeeds when the files fit, and so does the
  restore after it, as long as no two large files of the workspace have had the same content.\<close>

theorem sync_without_failures_succeeds:
  assumes int: "integrity sha B s" and d: "digests sha B" and q: "steady files" and B: "\<forall>f \<in> set files. the (cf_read f) \<in> B"
    and fit: "sum_list (map (\<lambda>f. the (cf_size f)) (filter (keeps cfg) files)) \<le> sc_max_workspace_size cfg"
    and old: "\<forall>w. workspace_id user chat s = Some w \<or> workspace_id user chat s = None \<and> w = string_of_nat (so_next s) \<longrightarrow>
       no_duplicates w s \<and> objects_present w s"
    and run: "save_workspace cfg (\<lambda>_. R2Ok) sha mime user chat (Some files) s = (r1, s1)"
    and restore: "restore_workspace (\<lambda>_. R2Ok) (\<lambda>_. True) user chat s1 (\<lambda>_. None) = (r2, s2, fs)"
  shows "sy_success r1 \<and> sy_success r2"
proof -
  obtain w sa where g: "get_or_create_workspace user chat s = (w, sa)" by fastforce
  note gspec = get_or_create_workspace_spec [OF g]
  have "no_duplicates (wr_id w) s \<and> objects_present (wr_id w) s"
    using old g by (auto simp: get_or_create_workspace_def Let_def split: option.splits)
  then have pre: "no_duplicates (wr_id w) s" "objects_present (wr_id w) s" by blast+
  define sb where "sb = update_sync_state (wr_id w) ''syncing'' ''save'' 0 0 None (get_or_create_sync_state (wr_id w) sa)"
  have same: "so_files sb = so_files s" "so_r2 sb = so_r2 s" using gspec by (simp_all add: sb_def)
  have intb: "integrity sha B sb" using gspec by (intro integrity_cong [OF _ _ _ int]) (simp_all add: sb_def)
  have preb: "no_duplicates (wr_id w) sb" "objects_present (wr_id w) sb"
    using pre by (simp_all only: no_duplicates_def objects_present_def same)
  have "snd (scan_files cfg sha mime files 0) = ScanDone" using scan_steady [OF q, of cfg sha mime 0] fit by simp
  then obtain infos where sc: "scan_files cfg sha mime files 0 = (infos, ScanDone)" by (cases "scan_files cfg sha mime files 0") simp
  have infos: "infos = map (info_of sha mime) (filter (keeps cfg) files)"
    using scan_steady [OF q, of cfg sha mime 0] sc by simp
  let ?ex = "get_workspace_files (wr_id w) sb"
  obtain r3 s3 where del: "delete_missing (\<lambda>_. R2Ok) (fi_path ` set infos) ?ex (nothing_synced []) sb = (r3, s3)" by fastforce
  obtain r4 s4 where sv: "save_files cfg (\<lambda>_. R2Ok) (read_container files) (wr_id w) (stored_hashes ?ex) infos r3 s3 = (r4, s4)" by fastforce
  note ex = get_workspace_files_mem [OF _, of sb "wr_id w"]
  have u: "keys_unique (so_files sb)" using intb by (simp add: integrity_def)
  have sub: "set ?ex \<subseteq> {f \<in> set (so_files sb). wf_workspace f = wr_id w}" "distinct (map wf_id ?ex)"
    using get_workspace_files_mem [OF u] by auto
  have int3: "integrity sha B s3" using delete_missing_spec [OF del intb sub] by simp
  have e3: "sy_errors r3 = []" "objects_present (wr_id w) s3"
    using delete_missing_present [OF del intb d sub preb] by (simp_all add: nothing_synced_def)
  have "\<forall>i \<in> set infos. sound sha B (read_container files) i"
  proof
    fix i assume "i \<in> set infos"
    then obtain f where f: "f \<in> set files" "i = info_of sha mime f" by (auto simp: infos)
    then obtain b where "cf_read f = Some b" using q by (auto simp: steady_def)
    with f B show "sound sha B (read_container files) i"
      using read_container_file [OF q f(1)] by (force simp: sound_def info_of_def)
  qed
  from save_files_present [OF sv int3 d this e3(2)] e3(1) have e4: "sy_errors r4 = []" "objects_present (wr_id w) s4" by simp_all
  have res: "r1 = r4" "so_files s1 = so_files s4" "so_r2 s1 = so_r2 s4"
    using run g sc del sv by (simp_all add: save_workspace_def Let_def sb_def [symmetric]) auto
  then have ok1: "sy_success r1" using e4(1) by (simp add: sy_success_def)
  from save_workspace_spec [OF int d q B run ok1] have int1: "integrity sha B s1" by simp
  have "so_workspaces s4 = so_workspaces sa"
    using save_files_workspaces [OF sv] delete_missing_workspaces [OF del] by (simp add: sb_def)
  moreover have "workspace_id user chat s1 = workspace_id user chat s4"
    using run g sc del sv workspace_id_same [of s1 "update_workspace_stats (wr_id w) s4"]
    by (auto simp: save_workspace_def Let_def sb_def [symmetric])
  ultimately have "workspace_id user chat s1 = Some (wr_id w)" using workspace_id_same [of s4 sa] gspec by simp
  then obtain row where row: "get_workspace user chat s1 = Some row" "wr_id row = wr_id w" by auto
  define s' where "s' = update_sync_state (wr_id w) ''syncing'' ''restore'' 0 0 None (get_or_create_sync_state (wr_id w) s1)"
  have int': "integrity sha B s'" by (rule integrity_cong [OF _ _ _ int1]) (simp_all add: s'_def)
  have pres': "objects_present (wr_id w) s'" using e4(2) res by (simp add: objects_present_def s'_def)
  obtain r s5 fs5 where rf: "restore_files (\<lambda>_. R2Ok) (\<lambda>_. True) (get_workspace_files (wr_id w) s') (nothing_synced []) s' (\<lambda>_. None) = (r, s5, fs5)"
    by (metis surj_pair)
  have "keys_unique (so_files s')" using int' by (simp add: integrity_def)
  with get_workspace_files_mem(1) have "\<forall>f \<in> set (get_workspace_files (wr_id w) s'). row_ok sha B f \<and> wf_workspace f = wr_id w
      \<and> (wf_storage_type f = STORAGE_R2 \<longrightarrow> r2_objects (so_r2 s') (sync_key (wr_id w) (wf_sha256_hash f)) \<noteq> None)"
    using int' pres' by (auto simp: integrity_def objects_present_def)
  from restore_files_succeed [OF rf this] have "sy_errors r = []" by (simp add: nothing_synced_def)
  moreover have "r2 = r" using restore rf row by (simp add: restore_workspace_def s'_def [symmetric] Let_def)
  ultimately show ?thesis using ok1 by (simp add: sy_success_def)
qed

section \<open>Examples\<close>

definition demo_sync :: sync_config where
  "demo_sync = \<lparr>sc_inline_threshold = 1, sc_max_file_size = 10, sc_max_workspace_size = 5, sc_exclude_patterns = [''*.log''], sc_bucket = ''b''\<rparr>"

definition steady_file :: "string \<Rightarrow> bytes \<Rightarrow> container_file" where
  "steady_file name b = \<lparr>cf_parts = [name], cf_size = Some (length b), cf_hashed = Some b, cf_read = Some b\<rparr>"

definition sync_digest :: "bytes \<Rightarrow> string" where
  "sync_digest b = replicate (length b) CHR ''a''"

definition empty_store :: sync_store where
  "empty_store = \<lparr>so_workspaces = [], so_files = [], so_syncs = [], so_r2 = \<lparr>r2_objects = \<lambda>_. None, r2_calls = 0\<rparr>, so_next = 0, so_now = 0\<rparr>"

abbreviation demo_save :: "container_file list option \<Rightarrow> sync_store \<Rightarrow> sync_result \<times> sync_store" where
  "demo_save \<equiv> save_workspace demo_sync (\<lambda>_. R2Ok) sync_digest (\<lambda>_. None) ''u'' ''c''"

abbreviation demo_restore :: "sync_store \<Rightarrow> sync_result \<times> sync_store \<times> (string \<rightharpoonup> bytes)" where
  "demo_restore s \<equiv> restore_workspace (\<lambda>_. R2Ok) (\<lambda>_. True) ''u'' ''c'' s (\<lambda>_. None)"

lemma demo_file_fields [simp]:
  "cf_path (steady_file n b) = n" "cf_parts (steady_file n b) = [n]" "cf_size (steady_file n b) = Some (length b)"
  "cf_hashed (steady_file n b) = Some b" "cf_read (steady_file n b) = Some b"
  by (simp_all add: cf_path_def steady_file_def)

lemma demo_sync_fields [simp]:
  "sc_inline_threshold demo_sync = 1" "sc_max_file_size demo_sync = 10" "sc_max_workspace_size demo_sync = 5"
  "sc_exclude_patterns demo_sync = [''*.log'']" "sc_bucket demo_sync = ''b''"
  by (simp_all add: demo_sync_def)

definition demo_files :: "container_file list" where
  "demo_files = [steady_file ''a'' [1, 2], steady_file ''b'' [3]]"

lemma demo_integrity: "integrity sync_digest {[1, 2], [3]} empty_store" "digests sync_digest {[1, 2], [3]}"
  "steady demo_files" "\<forall>f \<in> set demo_files. the (cf_read f) \<in> {[1, 2], [3]}"
  by (auto simp: integrity_def empty_store_def keys_unique_def objects_ok_def digests_def inj_on_def sync_digest_def steady_def demo_files_def)

lemma demo_snapshot: "snapshot demo_sync demo_files = [''a'' \<mapsto> [1, 2], ''b'' \<mapsto> [3]]"
proof -
  have "keeps demo_sync (steady_file ''a'' [1, 2])" "keeps demo_sync (steady_file ''b'' [3])"
    by (simp_all add: keeps_def should_exclude_def starts_with_def)
  then show ?thesis by (auto simp: snapshot_def demo_files_def fun_eq_iff)
qed

lemma sync_without_failures_succeeds_witness:
  "sy_success (fst (demo_save (Some demo_files) empty_store)) \<and> sy_success (fst (demo_restore (snd (demo_save (Some demo_files) empty_store))))"
proof -
  obtain r1 s1 where save: "demo_save (Some demo_files) empty_store = (r1, s1)" by fastforce
  obtain r2 s2 fs where restore: "demo_restore s1 = (r2, s2, fs)" by (metis surj_pair)
  have "keeps demo_sync (steady_file ''a'' [1, 2])" "keeps demo_sync (steady_file ''b'' [3])"
    by (simp_all add: keeps_def should_exclude_def starts_with_def)
  then have fit: "sum_list (map (\<lambda>f. the (cf_size f)) (filter (keeps demo_sync) demo_files)) \<le> sc_max_workspace_size demo_sync"
    by (simp add: demo_files_def)
  have "\<forall>w. workspace_id ''u'' ''c'' empty_store = Some w \<or> workspace_id ''u'' ''c'' empty_store = None \<and> w = string_of_nat (so_next empty_store) \<longrightarrow>
      no_duplicates w empty_store \<and> objects_present w empty_store"
    by (simp add: no_duplicates_def objects_present_def empty_store_def)
  from sync_without_failures_succeeds [OF demo_integrity fit this save restore] save restore show ?thesis by simp
qed

lemma demo_succeeds:
  "sy_success (fst (demo_save (Some demo_files) empty_store))"
  "sy_success (fst (demo_restore (snd (demo_save (Some demo_files) empty_store))))"
  by code_simp+


section \<open>What is lost\<close>

text \<open>Two large files with the same content share one object.  When one of them is deleted the object goes,
  and the other, unchanged and therefore skipped, can no longer be restored.\<close>

lemma deleting_a_duplicate_loses_the_original:
  "sy_success (fst (demo_save (Some [steady_file ''a'' [1, 2], steady_file ''b'' [1, 2]]) empty_store))"
  "sy_success (fst (demo_save (Some [steady_file ''a'' [1, 2]]) (snd (demo_save (Some [steady_file ''a'' [1, 2], steady_file ''b'' [1, 2]]) empty_store))))"
  "snd (snd (demo_restore (snd (demo_save (Some [steady_file ''a'' [1, 2]]) (snd (demo_save (Some [steady_file ''a'' [1, 2], steady_file ''b'' [1, 2]]) empty_store)))))) ''a'' = None"
  by code_simp+

text \<open>The scan stops at the size limit, and the rows of the files after it count as gone.\<close>

lemma size_limit_deletes_what_was_not_scanned:
  "map wf_path (so_files (snd (demo_save (Some [steady_file ''b'' [1, 2, 3, 4], steady_file ''a'' [1, 2]]) (snd (demo_save (Some demo_files) empty_store))))) = [''b'']"
  by code_simp

text \<open>A directory that does not exist is an empty one: every stored file is deleted.\<close>

lemma missing_directory_deletes_everything:
  assumes "integrity sha B s" and "digests sha B"
    and "save_workspace cfg net sha mime user chat None s = (r, s')" and "sy_success r"
  shows "\<exists>w. workspace_id user chat s' = Some w \<and> (\<forall>f \<in> set (so_files s'). wf_workspace f \<noteq> w)"
proof -
  have "save_workspace cfg net sha mime user chat (Some []) s = (r, s')" using assms(3) by (simp add: save_workspace_def)
  from save_workspace_spec [OF assms(1,2) _ _ this assms(4)] obtain w where w: "workspace_id user chat s' = Some w"
    "integrity sha B s'" "hash_at w s' = (\<lambda>p. map_option sha (snapshot cfg [] p))" by (auto simp: steady_def)
  then have none: "hash_at w s' p = None" for p by (simp add: snapshot_def)
  have "wf_workspace f \<noteq> w" if "f \<in> set (so_files s')" for f
    using hash_at_Some [of s' w "wf_path f" "wf_sha256_hash f"] none w(2) that by (auto simp: integrity_def)
  with w(1) show ?thesis by blast
qed

text \<open>An emptied file is not kept, so its last contents are deleted too.\<close>

lemma emptied_file_is_dropped:
  assumes "steady files" and "f \<in> set files" and "cf_size f = Some 0"
  shows "snapshot cfg files (cf_path f) = None"
proof -
  have "g = f" if "g \<in> set files" "cf_path g = cf_path f" for g
    using assms(1,2) that by (auto simp: steady_def distinct_map dest: inj_onD)
  then have "cf_path f \<notin> cf_path ` set (filter (keeps cfg) files)" using assms(3) by (auto simp: keeps_def)
  then show ?thesis by (auto simp: snapshot_def map_of_eq_None_iff)
qed

text \<open>A pattern with a star is a suffix of the whole path: it never excludes a directory.\<close>

lemma star_pattern_misses_directories:
  "\<not> should_exclude DEFAULT_EXCLUDE_PATTERNS [''app.egg-info'', ''PKG-INFO'']"
  by code_simp

text \<open>A file of exactly the threshold is kept inline.\<close>

lemma threshold_is_inline: "determine_storage_type cfg (inline_threshold cfg) = STORAGE_INLINE"
  by (simp add: determine_storage_type_def)

end
