(* ===== verification/Reasoning_Filter.thy ===== *)
theory Reasoning_Filter
  imports Py_Text Usage_Models "HOL-Library.Sublist"
begin

text \<open>
  The filter that keeps the system prompt out of the reasoning shown to a user
  (\<^verbatim>\<open>src/core/llm/reasoning_filter.py\<close>).  The prompt's word n-grams are its fingerprints; the
  streamed reasoning passes through a window of words in which every run that matches a fingerprint
  is replaced by a redaction text.

  The output is modelled as pieces, a kept word (its text and its normalised form) or a redaction,
  and \<open>shown\<close> renders them as the code joins them.  With a smallest n-gram of zero words the search
  loop of the code may never end, so the operations return an option and \<open>None\<close> is not returning.
\<close>

section \<open>Configuration and text\<close>

record reasoning_config =
  rc_min_ngram_size :: nat
  rc_max_ngram_size :: nat
  rc_buffer_word_count :: nat
  rc_redaction_text :: string
  rc_enabled :: bool
  rc_excluded_section_ids :: "string list"

definition default_reasoning_config :: reasoning_config where
  "default_reasoning_config = \<lparr>rc_min_ngram_size = 4, rc_max_ngram_size = 8, rc_buffer_word_count = 12,
     rc_redaction_text = ''[...]'', rc_enabled = True, rc_excluded_section_ids = [''language'', ''datetime'']\<rparr>"

definition markdown_char :: "char \<Rightarrow> bool" where
  "markdown_char c \<longleftrightarrow> c \<in> set ''#*_[](){}|>`~''"

text \<open>\<^verbatim>\<open>re.sub(r'\s+', ' ', s)\<close>; the flag says that the last character read was white.\<close>

fun collapse_space :: "bool \<Rightarrow> string \<Rightarrow> string" where
  "collapse_space after [] = []"
| "collapse_space after (c # s) =
     (if py_space c then (if after then [] else '' '') @ collapse_space True s
      else c # collapse_space False s)"

definition normalize_text :: "string \<Rightarrow> string" where
  "normalize_text text = strip (collapse_space False
     (map (\<lambda>c. if markdown_char c then CHR '' '' else c) (lower text)))"

text \<open>\<^verbatim>\<open>s.split()\<close>, with the word being read.\<close>

fun split_words :: "string \<Rightarrow> string \<Rightarrow> string list" where
  "split_words word [] = (if word = [] then [] else [word])"
| "split_words word (c # s) =
     (if py_space c then (if word = [] then [] else [word]) @ split_words [] s
      else split_words (word @ [c]) s)"

text \<open>\<^verbatim>\<open>s.split('\n\n')\<close>: the flagged accumulator is the section being read.\<close>

fun split_paragraphs :: "string \<Rightarrow> string \<Rightarrow> string list" where
  "split_paragraphs part [] = [part]"
| "split_paragraphs part [c] = [part @ [c]]"
| "split_paragraphs part (c # d # s) =
     (if c = CHR 0x0A \<and> d = CHR 0x0A then part # split_paragraphs [] s
      else split_paragraphs (part @ [c]) (d # s))"

section \<open>Fingerprints\<close>

definition ngram_at :: "string list \<Rightarrow> nat \<Rightarrow> nat \<Rightarrow> string" where
  "ngram_at words i n = join_with '' '' (take n (drop i words))"

definition extract_ngrams :: "string list \<Rightarrow> nat \<Rightarrow> nat \<Rightarrow> string set" where
  "extract_ngrams words min_n max_n =
     set (concat (map (\<lambda>n. map (\<lambda>i. ngram_at words i n) [0..<Suc (length words) - n]) [min_n..<Suc max_n]))"

record reasoning_filter =
  rf_config :: reasoning_config
  rf_fingerprints :: "string set"
  rf_buffer :: "(string \<times> string) list"
  rf_partial_chunk :: string

definition section_fingerprints :: "reasoning_config \<Rightarrow> string \<Rightarrow> string set" where
  "section_fingerprints cfg content = (let words = split_words [] (normalize_text content)
     in if length words < rc_min_ngram_size cfg then {}
        else extract_ngrams words (rc_min_ngram_size cfg) (rc_max_ngram_size cfg))"

definition build_fingerprints :: "reasoning_config \<Rightarrow> string \<Rightarrow> string set" where
  "build_fingerprints cfg system_prompt = \<Union> (set (map (section_fingerprints cfg) (split_paragraphs [] system_prompt)))"

definition new_filter :: "reasoning_config \<Rightarrow> string set \<Rightarrow> reasoning_filter" where
  "new_filter cfg fingerprints = \<lparr>rf_config = cfg, rf_fingerprints = fingerprints, rf_buffer = [], rf_partial_chunk = []\<rparr>"

definition reasoning_filter_of :: "string \<Rightarrow> reasoning_config option \<Rightarrow> reasoning_filter" where
  "reasoning_filter_of system_prompt config = (let cfg = the_default default_reasoning_config config
     in new_filter cfg (if rc_enabled cfg \<and> system_prompt \<noteq> [] then build_fingerprints cfg system_prompt else {}))"

text \<open>A prompt section is its id and its content.\<close>

definition from_prompt_sections :: "(string \<times> string) list \<Rightarrow> reasoning_config option \<Rightarrow> reasoning_filter" where
  "from_prompt_sections sections config = (let cfg = the_default default_reasoning_config config
     in new_filter cfg (if \<not> rc_enabled cfg then {}
          else \<Union> (set (map (\<lambda>(i, content). if i \<in> set (rc_excluded_section_ids cfg) \<or> content = [] then {}
                 else section_fingerprints cfg content) sections))))"

section \<open>The search\<close>

definition windows :: "reasoning_config \<Rightarrow> nat \<Rightarrow> (nat \<times> nat) list" where
  "windows cfg len = concat (map (\<lambda>n. map (\<lambda>i. (i, n)) [0..<Suc len - n])
     (rev [rc_min_ngram_size cfg..<Suc (min (rc_max_ngram_size cfg) len)]))"

definition check_ngrams_in_buffer :: "reasoning_filter \<Rightarrow> (string \<times> string) list \<Rightarrow> (nat \<times> nat) option" where
  "check_ngrams_in_buffer f buffer_words = (let normalized_words = map snd buffer_words
     in map_option (\<lambda>(i, n). (i, i + n))
          (List.find (\<lambda>(i, n). ngram_at normalized_words i n \<in> rf_fingerprints f)
             (windows (rf_config f) (length normalized_words))))"

section \<open>A chunk\<close>

datatype piece = Kept "string \<times> string" | Redacted

fun piece_text :: "reasoning_config \<Rightarrow> piece \<Rightarrow> string" where
  "piece_text cfg (Kept w) = fst w"
| "piece_text cfg Redacted = rc_redaction_text cfg"

definition shown :: "reasoning_config \<Rightarrow> piece list \<Rightarrow> string" where
  "shown cfg out = concat (map (piece_text cfg) out)"

definition isspace :: "string \<Rightarrow> bool" where
  "isspace s \<longleftrightarrow> s \<noteq> [] \<and> list_all py_space s"

text \<open>\<^verbatim>\<open>re.split(r'(\s+)', s)\<close>: words and the white space between them, alternating.\<close>

function re_split_space :: "string \<Rightarrow> string list" where
  "re_split_space s = (let word = takeWhile (\<lambda>c. \<not> py_space c) s;
     rest = dropWhile (\<lambda>c. \<not> py_space c) s
     in if rest = [] then [word]
        else word # takeWhile py_space rest # re_split_space (dropWhile py_space rest))"
  by pat_completeness auto

lemma dropWhile_shorter: "dropWhile (\<lambda>c. \<not> P c) s \<noteq> [] \<Longrightarrow> length (dropWhile P (dropWhile (\<lambda>c. \<not> P c) s)) < length s"
proof -
  assume a: "dropWhile (\<lambda>c. \<not> P c) s \<noteq> []"
  then obtain c r where c: "dropWhile (\<lambda>c. \<not> P c) s = c # r" by (cases "dropWhile (\<lambda>c. \<not> P c) s") simp_all
  with hd_dropWhile [OF a] have "P c" by simp
  then have "dropWhile P (dropWhile (\<lambda>c. \<not> P c) s) = dropWhile P r" by (simp add: c)
  moreover have "length (dropWhile P r) \<le> length r" by (rule length_dropWhile_le)
  moreover have "Suc (length r) \<le> length s" using c length_dropWhile_le [of "\<lambda>c. \<not> P c" s] by simp
  ultimately show ?thesis by simp
qed

termination re_split_space
  by (relation "measure length") (auto intro: dropWhile_shorter)

declare re_split_space.simps [simp del]

text \<open>The loop over the tokens: the words completed and the word still held.  \<open>open_end\<close> says that
  the text does not end with white space.\<close>

fun scan_tokens :: "bool \<Rightarrow> string list \<Rightarrow> (string \<times> string) list \<times> string" where
  "scan_tokens open_end [] = ([], [])"
| "scan_tokens open_end (token # ts) = (let (done_words, held) = scan_tokens open_end ts
     in if token \<noteq> [] \<and> \<not> isspace token then
          (if ts = [] \<and> open_end then (done_words, token)
           else let trailing = (case ts of [] \<Rightarrow> [] | t # _ \<Rightarrow> if isspace t then t else []);
                    normalized = normalize_text token
                in (if normalized = [] then done_words else (token @ trailing, normalized) # done_words, held))
        else (done_words, held))"

definition scan_text :: "string \<Rightarrow> (string \<times> string) list \<times> string" where
  "scan_text text = scan_tokens (text \<noteq> [] \<and> \<not> py_space (last text)) (re_split_space text)"

text \<open>The loop that redacts every match, from the buffer to the pieces emitted and the buffer left.\<close>

partial_function (option) redact_matches ::
    "reasoning_filter \<Rightarrow> (string \<times> string) list \<Rightarrow> (piece list \<times> (string \<times> string) list) option" where
  "redact_matches f buffer = (case check_ngrams_in_buffer f buffer of
      None \<Rightarrow> Some ([], buffer)
    | Some (start, stop) \<Rightarrow> Option.bind (redact_matches f (drop stop buffer))
        (\<lambda>(out, rest). Some (map Kept (take start buffer) @ Redacted # out, rest)))"

declare redact_matches.simps [code]

definition active :: "reasoning_filter \<Rightarrow> bool" where
  "active f \<longleftrightarrow> rc_enabled (rf_config f) \<and> rf_fingerprints f \<noteq> {}"

definition filter_pieces :: "string \<Rightarrow> reasoning_filter \<Rightarrow> (piece list \<times> reasoning_filter) option" where
  "filter_pieces chunk f = (let (words, held) = scan_text (rf_partial_chunk f @ chunk)
     in Option.bind (redact_matches f (rf_buffer f @ words))
       (\<lambda>(out, buffer). let emit_count = length buffer - rc_buffer_word_count (rf_config f)
          in Some (out @ map Kept (take emit_count buffer),
                   f\<lparr>rf_buffer := drop emit_count buffer, rf_partial_chunk := held\<rparr>)))"

definition filter_chunk :: "string \<Rightarrow> reasoning_filter \<Rightarrow> (string \<times> reasoning_filter) option" where
  "filter_chunk chunk f = (if \<not> active f then Some (chunk, f)
     else map_option (\<lambda>(out, f'). (shown (rf_config f) out, f')) (filter_pieces chunk f))"

definition flush_pieces :: "reasoning_filter \<Rightarrow> (piece list \<times> reasoning_filter) option" where
  "flush_pieces f = (let normalized = normalize_text (rf_partial_chunk f);
       buffer = rf_buffer f @ (if rf_partial_chunk f \<noteq> [] \<and> normalized \<noteq> [] then [(rf_partial_chunk f, normalized)] else [])
     in map_option (\<lambda>(out, rest). (out @ map Kept rest, f\<lparr>rf_buffer := [], rf_partial_chunk := []\<rparr>))
          (redact_matches f buffer))"

definition flush_filter :: "reasoning_filter \<Rightarrow> (string \<times> reasoning_filter) option" where
  "flush_filter f = (if \<not> active f then Some (rf_partial_chunk f, f\<lparr>rf_partial_chunk := [], rf_buffer := []\<rparr>)
     else map_option (\<lambda>(out, f'). (shown (rf_config f) out, f')) (flush_pieces f))"

definition filter_text :: "string \<Rightarrow> reasoning_filter \<Rightarrow> (string \<times> reasoning_filter) option" where
  "filter_text text f = (if \<not> active f \<or> text = [] then Some (text, f)
     else Option.bind (filter_chunk text (f\<lparr>rf_buffer := [], rf_partial_chunk := []\<rparr>))
       (\<lambda>(a, f1). map_option (\<lambda>(b, f2). (a @ b, f2\<lparr>rf_buffer := rf_buffer f, rf_partial_chunk := rf_partial_chunk f\<rparr>))
          (flush_filter f1)))"

section \<open>A stream\<close>

text \<open>The calls a streamed answer makes: one \<open>filter_chunk\<close> per reasoning delta, then \<open>flush\<close>.\<close>

primrec stream_pieces :: "string list \<Rightarrow> reasoning_filter \<Rightarrow> (piece list \<times> reasoning_filter) option" where
  "stream_pieces [] f = flush_pieces f"
| "stream_pieces (chunk # chunks) f = Option.bind (filter_pieces chunk f)
     (\<lambda>(out, f'). map_option (\<lambda>(outs, f''). (out @ outs, f'')) (stream_pieces chunks f'))"

primrec stream_filter :: "string list \<Rightarrow> reasoning_filter \<Rightarrow> (string \<times> reasoning_filter) option" where
  "stream_filter [] f = flush_filter f"
| "stream_filter (chunk # chunks) f = Option.bind (filter_chunk chunk f)
     (\<lambda>(a, f'). map_option (\<lambda>(b, f''). (a @ b, f'')) (stream_filter chunks f'))"

end
