(* ===== verification/Think_Tags.thy ===== *)
theory Think_Tags
  imports Py_Text
begin

text \<open>
  The \<^verbatim>\<open><think>\<close> tags in a streamed answer (the buffer loop of
  \<^verbatim>\<open>OpenRouterClient.complete_stream\<close> in \<^verbatim>\<open>src/core/llm/client.py\<close>).  Content is kept in a
  buffer so that a tag cut by a chunk boundary is still seen; what lies inside a block is reasoning,
  what lies outside is the answer.
\<close>

section \<open>The buffer\<close>

definition LOOKAHEAD :: nat where "LOOKAHEAD = 8"

definition open_tag :: string where "open_tag = ''<think>''"
definition close_tag :: string where "close_tag = ''</think>''"

text \<open>\<^verbatim>\<open>buffer.index(tag)\<close>: what stands before the first tag and what follows it.\<close>

fun cut_at :: "string \<Rightarrow> string \<Rightarrow> (string \<times> string) option" where
  "cut_at tag s = (if starts_with tag s then Some ([], drop (length tag) s)
     else case s of [] \<Rightarrow> None | c # cs \<Rightarrow> map_option (apfst ((#) c)) (cut_at tag cs))"

declare cut_at.simps [simp del]

datatype fragment = Outside string | Inside string

definition fragment_of :: "bool \<Rightarrow> string \<Rightarrow> fragment list" where
  "fragment_of inside s = (if s = [] then [] else [if inside then Inside s else Outside s])"

definition tag_for :: "bool \<Rightarrow> string" where
  "tag_for inside = (if inside then close_tag else open_tag)"

lemma cut_at_append: "cut_at tag s = Some (front, after) \<Longrightarrow> s = front @ tag @ after"
proof (induction s arbitrary: front)
  case Nil then show ?case by (auto simp: cut_at.simps [of tag "[]"] starts_with_def split: if_splits)
next
  case (Cons c cs)
  show ?case
  proof (cases "starts_with tag (c # cs)")
    case True
    with Cons.prems show ?thesis by (auto simp: cut_at.simps [of tag "c # cs"] starts_with_def) (metis append_take_drop_id)
  next
    case False
    with Cons show ?thesis by (auto simp: cut_at.simps [of tag "c # cs"] apfst_def)
  qed
qed

lemma tag_for_nonempty [simp]: "tag_for inside \<noteq> []" "[] \<noteq> tag_for inside"
  by (simp_all add: tag_for_def open_tag_def close_tag_def)

lemma tag_for_length: "length (tag_for inside) \<le> LOOKAHEAD"
  by (simp add: tag_for_def open_tag_def close_tag_def LOOKAHEAD_def)

text \<open>The loop over the buffer: the fragments it emits, whether a block is open, the buffer it leaves.\<close>

function cut_buffer :: "bool \<Rightarrow> string \<Rightarrow> fragment list \<times> bool \<times> string" where
  "cut_buffer inside buffer =
     (if buffer = [] then ([], inside, [])
      else case cut_at (tag_for inside) buffer of
        Some (front, after) \<Rightarrow> apfst ((@) (fragment_of inside front)) (cut_buffer (\<not> inside) after)
      | None \<Rightarrow>
          if LOOKAHEAD < length buffer
          then (fragment_of inside (take (length buffer - LOOKAHEAD) buffer), inside, drop (length buffer - LOOKAHEAD) buffer)
          else ([], inside, buffer))"
  by pat_completeness auto

termination cut_buffer
  by (relation "measure (length \<circ> snd)") (auto dest!: cut_at_append)

declare cut_buffer.simps [simp del]

text \<open>With reasoning switched off the tags are not read.\<close>

definition cut_plain :: "string \<Rightarrow> fragment list \<times> string" where
  "cut_plain buffer = (if LOOKAHEAD < length buffer
     then ([Outside (take (length buffer - LOOKAHEAD) buffer)], drop (length buffer - LOOKAHEAD) buffer)
     else ([], buffer))"

section \<open>A stream of content\<close>

text \<open>The content deltas of a stream, then the flush at its end.\<close>

fun cut_stream :: "bool \<Rightarrow> string \<Rightarrow> string list \<Rightarrow> fragment list" where
  "cut_stream inside buffer [] = fragment_of inside buffer"
| "cut_stream inside buffer (content # deltas) =
     (let (out, inside', buffer') = cut_buffer inside (buffer @ content) in out @ cut_stream inside' buffer' deltas)"

text \<open>The answer and the reasoning of a stream of fragments.\<close>

fun outside_text :: "fragment list \<Rightarrow> string" where
  "outside_text [] = []"
| "outside_text (Outside s # fs) = s @ outside_text fs"
| "outside_text (Inside s # fs) = outside_text fs"

fun inside_text :: "fragment list \<Rightarrow> string" where
  "inside_text [] = []"
| "inside_text (Outside s # fs) = inside_text fs"
| "inside_text (Inside s # fs) = s @ inside_text fs"

text \<open>The reference: the tags of the whole answer, read at once.\<close>

function read_tags :: "bool \<Rightarrow> string \<Rightarrow> string \<times> string" where
  "read_tags inside s = (case cut_at (tag_for inside) s of
      None \<Rightarrow> if inside then ([], s) else (s, [])
    | Some (front, after) \<Rightarrow> (let (answer, reasoning) = read_tags (\<not> inside) after
        in if inside then (answer, front @ reasoning) else (front @ answer, reasoning)))"
  by pat_completeness auto

termination read_tags
  by (relation "measure (length \<circ> snd)") (auto dest!: cut_at_append)

declare read_tags.simps [simp del]

lemma outside_text_append [simp]: "outside_text (xs @ ys) = outside_text xs @ outside_text ys"
  by (induction xs rule: outside_text.induct) simp_all

lemma inside_text_append [simp]: "inside_text (xs @ ys) = inside_text xs @ inside_text ys"
  by (induction xs rule: inside_text.induct) simp_all

lemma fragment_text [simp]:
  "outside_text (fragment_of inside s) = (if inside then [] else s)"
  "inside_text (fragment_of inside s) = (if inside then s else [])"
  by (simp_all add: fragment_of_def)

section \<open>Where the first tag is\<close>

lemma cut_at_Some_iff:
  "cut_at tag s = Some (front, after) \<longleftrightarrow>
     s = front @ tag @ after \<and> (\<forall>i < length front. \<not> starts_with tag (drop i s))"
proof (induction s arbitrary: front)
  case Nil
  show ?case by (auto simp: cut_at.simps [of tag "[]"] starts_with_def)
next
  case (Cons c cs)
  show ?case
  proof (cases "starts_with tag (c # cs)")
    case True
    then have split: "c # cs = tag @ drop (length tag) (c # cs)" by (metis append_take_drop_id starts_with_def)
    have "front = []" if "\<forall>i < length front. \<not> starts_with tag (drop i (c # cs))"
      using that True by (metis drop0 length_greater_0_conv)
    with True split show ?thesis by (auto simp: cut_at.simps [of tag "c # cs"])
  next
    case False
    then have neq: "c # cs \<noteq> tag @ after" by (auto simp: starts_with_def)
    have shift: "(\<forall>i < Suc n. \<not> starts_with tag (drop i (c # cs))) \<longleftrightarrow> (\<forall>i < n. \<not> starts_with tag (drop i cs))" for n
      using False by (auto simp: less_Suc_eq_0_disj)
    show ?thesis
    proof (cases front)
      case Nil with False neq show ?thesis by (auto simp: cut_at.simps [of tag "c # cs"] apfst_def)
    next
      case (Cons b bs)
      with False show ?thesis
        using Cons.IH [of bs] shift [of "length bs"] by (auto simp: cut_at.simps [of tag "c # cs"] apfst_def)
    qed
  qed
qed

lemma cut_at_None_iff: "cut_at tag s = None \<longleftrightarrow> (\<forall>i \<le> length s. \<not> starts_with tag (drop i s))"
proof (induction s)
  case Nil show ?case by (simp add: cut_at.simps [of tag "[]"])
next
  case (Cons c cs)
  have "(\<forall>i \<le> Suc (length cs). \<not> starts_with tag (drop i (c # cs))) \<longleftrightarrow>
      \<not> starts_with tag (c # cs) \<and> (\<forall>i \<le> length cs. \<not> starts_with tag (drop i cs))"
    by (auto simp: All_less_Suc2 less_Suc_eq_le [symmetric] simp del: less_Suc_eq_le)
  with Cons show ?case by (simp add: cut_at.simps [of tag "c # cs"])
qed

text \<open>A tag that fits in what was read is found there or not, whatever follows.\<close>

lemma starts_within:
  "i + length tag \<le> length s \<Longrightarrow> starts_with tag (drop i (s @ rest)) \<longleftrightarrow> starts_with tag (drop i s)"
  by (simp add: starts_with_def)

lemma cut_at_more:
  assumes "cut_at tag s = Some (front, after)"
  shows "cut_at tag (s @ rest) = Some (front, after @ rest)"
proof -
  have s: "s = front @ tag @ after" and front: "\<forall>i < length front. \<not> starts_with tag (drop i s)"
    using assms unfolding cut_at_Some_iff by blast+
  have "\<not> starts_with tag (drop i (s @ rest))" if "i < length front" for i
  proof -
    have fits: "i + length tag \<le> length s" using that by (simp add: s)
    show ?thesis unfolding starts_within [OF fits] using front that by blast
  qed
  moreover have "s @ rest = front @ tag @ after @ rest" by (simp add: s)
  ultimately show ?thesis unfolding cut_at_Some_iff by blast
qed

text \<open>Text in which no tag begins passes in front of the reading.\<close>

lemma read_tags_prefix:
  assumes "\<forall>i < length p. \<not> starts_with (tag_for inside) (drop i (p @ t))"
  shows "read_tags inside (p @ t) = (let (answer, reasoning) = read_tags inside t
    in if inside then (answer, p @ reasoning) else (p @ answer, reasoning))"
proof (cases "cut_at (tag_for inside) t")
  case None
  have "\<not> starts_with (tag_for inside) (drop i (p @ t))" if "i \<le> length (p @ t)" for i
  proof (cases "i < length p")
    case False
    then have "drop i (p @ t) = drop (i - length p) t" by simp
    with None that False show ?thesis by (simp add: cut_at_None_iff)
  qed (use assms in simp)
  then have "cut_at (tag_for inside) (p @ t) = None" by (simp only: cut_at_None_iff) blast
  with None show ?thesis by (simp add: read_tags.simps [of inside "p @ t"] read_tags.simps [of inside t])
next
  case (Some r)
  then obtain front after where r: "cut_at (tag_for inside) t = Some (front, after)" by (cases r) simp
  have "\<not> starts_with (tag_for inside) (drop i (p @ t))" if "i < length (p @ front)" for i
  proof (cases "i < length p")
    case False
    then have "drop i (p @ t) = drop (i - length p) t" by simp
    moreover have "i - length p < length front" using that False by simp
    ultimately show ?thesis using r unfolding cut_at_Some_iff by metis
  qed (use assms in simp)
  moreover have "p @ t = (p @ front) @ tag_for inside @ after" using r by (simp add: cut_at_Some_iff)
  ultimately have "cut_at (tag_for inside) (p @ t) = Some (p @ front, after)" by (simp only: cut_at_Some_iff) blast
  with r show ?thesis
    by (simp add: read_tags.simps [of inside "p @ t"] read_tags.simps [of inside t] Let_def split: prod.splits)
qed

definition in_front :: "fragment list \<Rightarrow> string \<times> string \<Rightarrow> string \<times> string" where
  "in_front out r = (outside_text out @ fst r, inside_text out @ snd r)"

lemma in_front_append: "in_front (xs @ ys) r = in_front xs (in_front ys r)"
  by (simp add: in_front_def)

lemma cut_buffer_reads:
  "cut_buffer inside buffer = (out, inside', buffer') \<Longrightarrow>
     read_tags inside (buffer @ rest) = in_front out (read_tags inside' (buffer' @ rest))"
proof (induction inside buffer arbitrary: out inside' buffer' rule: cut_buffer.induct)
  case (1 inside buffer)
  show ?case
  proof (cases "buffer = []")
    case True
    with 1(2) show ?thesis by (simp add: cut_buffer.simps in_front_def)
  next
    case ne: False
    show ?thesis
    proof (cases "cut_at (tag_for inside) buffer")
      case (Some r)
      then obtain front after where r: "cut_at (tag_for inside) buffer = Some (front, after)" by (cases r) simp
      obtain out1 in1 b1 where d: "cut_buffer (\<not> inside) after = (out1, in1, b1)" by (cases "cut_buffer (\<not> inside) after") auto
      from 1(2) ne r d have res: "out = fragment_of inside front @ out1" "inside' = in1" "buffer' = b1"
        by (auto simp: cut_buffer.simps [of inside buffer] apfst_def)
      have "read_tags (\<not> inside) (after @ rest) = in_front out1 (read_tags in1 (b1 @ rest))"
        using 1(1) [OF ne r refl d] .
      then show ?thesis
        by (simp add: read_tags.simps [of inside "buffer @ rest"] cut_at_more [OF r] res in_front_append)
          (simp add: in_front_def split: prod.splits)
    next
      case None
      let ?k = "length buffer - LOOKAHEAD"
      show ?thesis
      proof (cases "LOOKAHEAD < length buffer")
        case True
        with 1(2) ne None have res: "out = fragment_of inside (take ?k buffer)" "inside' = inside" "buffer' = drop ?k buffer"
          by (auto simp: cut_buffer.simps [of inside buffer])
        have "\<not> starts_with (tag_for inside) (drop i (buffer @ rest))" if "i < ?k" for i
        proof -
          have fits: "i + length (tag_for inside) \<le> length buffer" using that tag_for_length [of inside] by linarith
          with None show ?thesis by (simp only: starts_within [OF fits]) (simp add: cut_at_None_iff)
        qed
        then have "read_tags inside (take ?k buffer @ drop ?k buffer @ rest) =
          (let (answer, reasoning) = read_tags inside (drop ?k buffer @ rest)
           in if inside then (answer, take ?k buffer @ reasoning) else (take ?k buffer @ answer, reasoning))"
          by (intro read_tags_prefix) (simp add: append.assoc [symmetric] del: append.assoc)
        then show ?thesis by (simp add: res in_front_def append.assoc [symmetric] del: append.assoc split: prod.splits)
      next
        case False
        with 1(2) ne None show ?thesis by (auto simp: cut_buffer.simps [of inside buffer] in_front_def)
      qed
    qed
  qed
qed

text \<open>The state between two deltas: no whole tag is left in the buffer.\<close>

definition no_tag :: "bool \<Rightarrow> string \<Rightarrow> bool" where
  "no_tag inside buffer \<longleftrightarrow> cut_at (tag_for inside) buffer = None"

lemma no_tag_drop: "no_tag inside s \<Longrightarrow> no_tag inside (drop k s)"
proof -
  assume none: "no_tag inside s"
  have "\<not> starts_with (tag_for inside) (drop i (drop k s))" if "i \<le> length (drop k s)" for i
  proof (cases "k \<le> length s")
    case True
    with that have "i + k \<le> length s" by simp
    with none show ?thesis by (simp add: no_tag_def cut_at_None_iff add.commute)
  next
    case False
    then show ?thesis by (simp add: starts_with_def)
  qed
  then show ?thesis by (simp add: no_tag_def cut_at_None_iff)
qed

lemma cut_buffer_no_tag: "cut_buffer inside buffer = (out, inside', buffer') \<Longrightarrow> no_tag inside' buffer'"
proof (induction inside buffer arbitrary: out inside' buffer' rule: cut_buffer.induct)
  case (1 inside buffer)
  show ?case
  proof (cases "cut_at (tag_for inside) buffer")
    case None
    with 1(2) no_tag_drop [of inside buffer] show ?thesis
      by (auto simp: cut_buffer.simps [of inside buffer] no_tag_def split: if_splits)
  next
    case (Some r)
    then have "buffer \<noteq> []" by (auto simp: cut_at.simps [of _ "[]"] starts_with_def split: if_splits)
    moreover obtain front after where r: "r = (front, after)" by fastforce
    moreover obtain out1 in1 b1 where "cut_buffer (\<not> inside) after = (out1, in1, b1)" by (cases "cut_buffer (\<not> inside) after") auto
    ultimately show ?thesis using 1 Some by (simp add: cut_buffer.simps [of inside buffer])
  qed
qed

lemma cut_stream_reads:
  assumes "no_tag inside buffer"
  shows "(outside_text (cut_stream inside buffer deltas), inside_text (cut_stream inside buffer deltas))
    = read_tags inside (buffer @ concat deltas)"
  using assms
proof (induction deltas arbitrary: inside buffer)
  case Nil
  then show ?case by (simp add: no_tag_def read_tags.simps [of inside buffer])
next
  case (Cons content deltas)
  obtain out in1 b1 where d: "cut_buffer inside (buffer @ content) = (out, in1, b1)" by (cases "cut_buffer inside (buffer @ content)") auto
  from cut_buffer_reads [OF d, of "concat deltas"] Cons.IH [OF cut_buffer_no_tag [OF d]] d show ?case
    by (simp add: in_front_def) (metis fst_conv snd_conv)
qed

text \<open>The answer and the reasoning taken out of streamed content do not depend on how it was cut into
  deltas: they are those of the whole text, read at once.\<close>

theorem tags_survive_chunking:
  "(outside_text (cut_stream False [] deltas), inside_text (cut_stream False [] deltas)) = read_tags False (concat deltas)"
proof -
  have "no_tag False []" by (simp add: no_tag_def tag_for_def open_tag_def cut_at.simps [of _ "[]"] starts_with_def)
  from cut_stream_reads [OF this, of deltas] show ?thesis by simp
qed

lemma tags_example:
  "read_tags False ''a<think>b</think>c'' = (''ac'', ''b'')"
  "cut_stream False [] [''a<thi'', ''nk>b</'', ''think>c''] = [Outside ''a'', Inside ''b'', Outside ''c'']"
  by code_simp+

end
