(* ===== verification/Error_Messages.thy ===== *)
theory Error_Messages
  imports Key_Resolution
begin

text \<open>
  The messages shown for an exception (\<^verbatim>\<open>src/core/llm/error_messages.py\<close>): the machine code of
  an error the user can resolve, and the friendly text of every other.  An exception is read as its
  text and whether it is a \<^verbatim>\<open>NoAPIKeyError\<close>; texts are ASCII.
\<close>

section \<open>Error codes\<close>

record raised_error =
  xe_no_api_key :: bool
  xe_text :: string

definition ERROR_CODE_NO_API_KEY :: string where "ERROR_CODE_NO_API_KEY = ''no_api_key''"
definition ERROR_CODE_INVALID_API_KEY :: string where "ERROR_CODE_INVALID_API_KEY = ''invalid_api_key''"
definition ERROR_CODE_INSUFFICIENT_CREDITS :: string where "ERROR_CODE_INSUFFICIENT_CREDITS = ''insufficient_credits''"

definition ACTIONABLE_MESSAGES :: "(string \<times> string) list" where
  "ACTIONABLE_MESSAGES = [
     (ERROR_CODE_NO_API_KEY, ''You need an API key to use this model. Add a provider key or an OpenRouter key in Settings.''),
     (ERROR_CODE_INVALID_API_KEY, ''Your API key was rejected by the provider. Check it in Settings, or remove it to use a different key.''),
     (ERROR_CODE_INSUFFICIENT_CREDITS, ''Your API key has run out of credits. Top up with your provider, or switch keys in Settings.'')]"

definition mentions :: "string list \<Rightarrow> string \<Rightarrow> bool" where
  "mentions ps s \<longleftrightarrow> list_ex (\<lambda>p. contains p s) ps"

definition key_context :: "string \<Rightarrow> bool" where
  "key_context error_str \<longleftrightarrow> mentions [''api key'', ''openrouter'', ''api.openai.com'', ''api.anthropic.com'',
     ''generativelanguage.googleapis.com'', ''api.mistral.ai'', ''api.deepseek.com'', ''api.x.ai'', ''chat/completions''] error_str"

definition get_error_code :: "raised_error \<Rightarrow> string option" where
  "get_error_code e =
     (if xe_no_api_key e then Some ERROR_CODE_NO_API_KEY
      else let error_str = lower (xe_text e) in
        if mentions [''no openrouter api key available'', ''no api key available''] error_str then Some ERROR_CODE_NO_API_KEY
        else if key_context error_str \<and> mentions [''401'', ''unauthorized'', ''invalid_api_key''] error_str
          then Some ERROR_CODE_INVALID_API_KEY
        else if key_context error_str \<and> mentions [''402'', ''insufficient credits'', ''insufficient_quota'', ''payment required''] error_str
          then Some ERROR_CODE_INSUFFICIENT_CREDITS
        else None)"

definition actionable_message :: "string \<Rightarrow> string" where
  "actionable_message code = the_default [] (map_of ACTIONABLE_MESSAGES code)"

section \<open>Friendly messages\<close>

definition capital_char :: "char \<Rightarrow> char" where
  "capital_char c = (if 97 \<le> (of_char c :: nat) \<and> (of_char c :: nat) \<le> 122 then char_of ((of_char c :: nat) - 32) else c)"

definition islower_char :: "char \<Rightarrow> bool" where
  "islower_char c \<longleftrightarrow> 97 \<le> (of_char c :: nat) \<and> (of_char c :: nat) \<le> 122"

text \<open>\<^verbatim>\<open>str.capitalize()\<close>: the first character upper, the others lower.\<close>

definition capitalize :: "string \<Rightarrow> string" where
  "capitalize s = (case s of [] \<Rightarrow> [] | c # cs \<Rightarrow> capital_char c # lower cs)"

definition service_message :: "string \<Rightarrow> string" where
  "service_message error_str =
     (if contains ''400'' error_str then ''Unable to process your request. Please try again.''
      else if mentions [''401'', ''unauthorized''] error_str then ''Authentication error. Please check your settings.''
      else if contains ''429'' error_str then ''Too many requests. Please wait a moment and try again.''
      else ''The AI service encountered an error. Please try again.'')"

text \<open>The tests in the order of the code, each with its message.\<close>

definition FRIENDLY_RULES :: "(string list \<times> string) list" where
  "FRIENDLY_RULES = [
     ([''429'', ''rate limit'', ''too many requests''], ''Too many requests. Please wait a moment and try again.''),
     ([''400'', ''bad request''], ''Unable to process your request. Please try again.''),
     ([''404'', ''not found''], ''The AI service is temporarily unavailable. Please try again.''),
     ([''500'', ''server error'', ''internal server''], ''The AI service encountered an error. Please try again later.''),
     ([''502'', ''bad gateway''], ''The AI service is temporarily unavailable. Please try again.''),
     ([''503'', ''service unavailable''], ''The AI service is temporarily unavailable. Please try again later.''),
     ([''timeout'', ''timed out''], ''The request took too long. Please try again.''),
     ([''connection'', ''refused''], ''Unable to connect to the AI service. Please try again.''),
     ([''unauthorized'', ''401''], ''Please sign in to continue.''),
     ([''forbidden'', ''403''], ''You don't have permission to perform this action.''),
     ([''model not found'', ''model unavailable''], ''This model is currently unavailable. Please try a different model.''),
     ([''context'', ''token limit'', ''too long''], ''Your message is too long. Please shorten it and try again.'')]"

definition quota_message :: "string \<Rightarrow> string" where
  "quota_message error_str =
     (if contains ''session'' error_str \<and> mentions [''limit'', ''exceeded''] error_str
        then ''Session limit reached. Please try again later.''
      else if contains ''weekly'' error_str \<and> mentions [''limit'', ''exceeded''] error_str
        then ''Weekly limit reached. Please try again later.''
      else if mentions [''quota'', ''usage limit''] error_str then ''Usage limit reached. Please try again later.''
      else ''Unable to process your request. Please try again.'')"

definition get_user_friendly_error :: "raised_error \<Rightarrow> string" where
  "get_user_friendly_error e = (case get_error_code e of
      Some code \<Rightarrow> actionable_message code
    | None \<Rightarrow>
        let error_str = lower (xe_text e) in
        if mentions [''openrouter'', ''api/v1/chat/completions''] error_str then service_message error_str
        else case List.find (\<lambda>(ps, _). mentions ps error_str) FRIENDLY_RULES of
            Some (_, message) \<Rightarrow> message
          | None \<Rightarrow>
              if contains ''resets'' error_str
              then if islower_char (hd (xe_text e)) then capitalize (strip (xe_text e)) else strip (xe_text e)
              else quota_message error_str)"

definition llm_error_payload :: "raised_error \<Rightarrow> string \<times> string option" where
  "llm_error_payload e = (case get_error_code e of
      Some code \<Rightarrow> (actionable_message code, Some code)
    | None \<Rightarrow> (get_user_friendly_error e, None))"

definition sanitize_error_for_api :: "raised_error \<Rightarrow> string \<times> string option" where
  "sanitize_error_for_api = llm_error_payload"

section \<open>What a user may read\<close>

text \<open>Every message of the module that is not taken from the exception.\<close>

definition FIXED_MESSAGES :: "string list" where
  "FIXED_MESSAGES = map snd ACTIONABLE_MESSAGES @ map snd FRIENDLY_RULES @
     [''Authentication error. Please check your settings.'', ''The AI service encountered an error. Please try again.'',
      ''Session limit reached. Please try again later.'', ''Weekly limit reached. Please try again later.'',
      ''Usage limit reached. Please try again later.'', ''Unable to process your request. Please try again.'']"

lemma actionable_fixed: "get_error_code e = Some code \<Longrightarrow> actionable_message code \<in> set (map snd ACTIONABLE_MESSAGES)"
  by (auto simp: get_error_code_def actionable_message_def ACTIONABLE_MESSAGES_def ERROR_CODE_NO_API_KEY_def
    ERROR_CODE_INVALID_API_KEY_def ERROR_CODE_INSUFFICIENT_CREDITS_def Let_def split: if_splits)

lemma service_fixed: "service_message s \<in> set FIXED_MESSAGES"
  by (simp add: service_message_def FIXED_MESSAGES_def FRIENDLY_RULES_def)

lemma quota_fixed: "quota_message s \<in> set FIXED_MESSAGES"
  by (simp add: quota_message_def FIXED_MESSAGES_def)

lemma rule_fixed: "List.find P FRIENDLY_RULES = Some (ps, message) \<Longrightarrow> message \<in> set FIXED_MESSAGES"
proof -
  assume "List.find P FRIENDLY_RULES = Some (ps, message)"
  then have "(ps, message) \<in> set FRIENDLY_RULES" by (auto simp: find_Some_iff intro: nth_mem)
  then show ?thesis unfolding FIXED_MESSAGES_def by force
qed

lemma lower_capital_char: "lower_char (capital_char c) = lower_char c"
proof (cases "97 \<le> (of_char c :: nat) \<and> (of_char c :: nat) \<le> 122")
  case True
  then have lt: "(of_char c - 32 :: nat) < 256" and restored: "(of_char c - 32 :: nat) + 32 = of_char c" 
    and range: "65 \<le> (of_char c - 32 :: nat)" "(of_char c - 32 :: nat) \<le> 90" by linarith+
  then have "(of_char c - 32 :: nat) mod 256 = of_char c - 32" using mod_less [OF lt] by simp
  with True restored range show ?thesis by (simp add: lower_char_def capital_char_def)
qed (auto simp: capital_char_def)

lemma lower_char_idem: "lower_char (lower_char c) = lower_char c"
  by (simp add: lower_char_def)

lemma lower_capitalize: "lower (capitalize s) = lower s"
  by (cases s) (simp_all add: capitalize_def lower_def lower_capital_char lower_char_idem)


text \<open>What the last case lets through, and what \<^verbatim>\<open>capitalize\<close> does to the rest of it.\<close>

lemma reset_text_passes:
  "get_user_friendly_error \<lparr>xe_no_api_key = False, xe_text = ''upstream resets key sk-Secret''\<rparr> = ''Upstream resets key sk-secret''"
  "get_user_friendly_error \<lparr>xe_no_api_key = False, xe_text = ''weekly limit reached. Resets Monday at 5 PM''\<rparr>
     = ''Weekly limit reached. resets monday at 5 pm''"
  by code_simp+

text \<open>The numbers of a message are read as status codes.\<close>

lemma token_count_is_read_as_status:
  "get_user_friendly_error \<lparr>xe_no_api_key = False, xe_text = ''prompt too long: 140000 tokens''\<rparr>
     = ''Unable to process your request. Please try again.''"
  "get_user_friendly_error \<lparr>xe_no_api_key = False, xe_text = ''prompt too long: 130000 tokens''\<rparr>
     = ''Your message is too long. Please shorten it and try again.''"
  by code_simp+

end
