(* ===== verification/Chat_Stream.thy ===== *)
theory Chat_Stream
  imports Reasoning_Filter Think_Tags Error_Messages Agent_Ledger
begin

text \<open>
  The stream of a direct completion, \<^verbatim>\<open>OpenRouterClient.complete_stream\<close> of
  \<^verbatim>\<open>src/core/llm/client.py\<close>: the lines of the provider's answer become the events of the chat, and
  the last of them bills the usage.

  The generator is a sequence of steps on a record of its local variables; what it has yielded is
  kept in order.  A step that raises something the code does not catch gives \<open>False\<close> with the state at
  that point.  A provider's chunk is JSON and every access is the code's own, so a field of the
  wrong type raises here where it raises there; the texts of reasoning are strings, and the token
  counts whole numbers.
\<close>

section \<open>Events and state\<close>

record done_data =
  dn_prompt_tokens :: int
  dn_completion_tokens :: int
  dn_total_tokens :: json
  dn_cost :: usd
  dn_prompt_cost :: usd
  dn_completion_cost :: usd
  dn_model :: json
  dn_finish_reason :: json
  dn_generation_id :: json
  dn_reasoning_content :: "string option"
  dn_tool_calls :: "json list"
  dn_images :: "json list"

datatype chat_event =
    ChatGenerationId json
  | ChatContent string
  | ChatReasoning string
  | ChatImage json
  | ChatError string string
  | ChatFailure string "string option"
  | ChatDone done_data

record tool_slot =
  ts_id :: json
  ts_name :: json
  ts_arguments :: json

definition empty_slot :: tool_slot where
  "empty_slot = \<lparr>ts_id = JNull, ts_name = JNull, ts_arguments = JStr []\<rparr>"

definition slot_json :: "tool_slot \<Rightarrow> json" where
  "slot_json t = JObj [(''id'', ts_id t), (''type'', JStr ''function''),
     (''function'', JObj [(''name'', ts_name t), (''arguments'', ts_arguments t)])]"

record chat_stream =
  cs_content :: "string list"
  cs_reasoning :: "string list"
  cs_filtered :: "string list"
  cs_tool_calls :: "tool_slot list"
  cs_images :: "json list"
  cs_usage :: "(json \<times> json \<times> json) option"
  cs_model_used :: json
  cs_finish_reason :: json
  cs_reasoning_final :: json
  cs_generation_id :: json
  cs_buffer :: string
  cs_in_think :: bool
  cs_filter :: "reasoning_filter option"
  cs_out :: "chat_event list"
  cs_billed :: "billable_operation list"
  cs_billing :: retry_state

text \<open>What the client and the request fix for the stream.\<close>

record stream_request =
  sq_model :: string
  sq_enable_reasoning :: bool
  sq_is_openrouter :: bool
  sq_user :: "uid option"
  sq_request_source :: string
  sq_billing_origin :: string

definition start_stream :: "stream_request \<Rightarrow> reasoning_filter option \<Rightarrow> retry_state \<Rightarrow> chat_stream" where
  "start_stream rq filt st = \<lparr>cs_content = [], cs_reasoning = [], cs_filtered = [], cs_tool_calls = [],
     cs_images = [], cs_usage = None, cs_model_used = JStr (sq_model rq), cs_finish_reason = JNull,
     cs_reasoning_final = JNull, cs_generation_id = JNull, cs_buffer = [], cs_in_think = False,
     cs_filter = filt, cs_out = [], cs_billed = [], cs_billing = st\<rparr>"

section \<open>Steps\<close>

type_synonym chat_step = "chat_stream \<Rightarrow> bool \<times> chat_stream"

definition goes_on :: chat_step where "goes_on s = (True, s)"
definition raises :: chat_step where "raises s = (False, s)"

definition and_then :: "chat_step \<Rightarrow> chat_step \<Rightarrow> chat_step" where
  "and_then f g s = (case f s of (True, s') \<Rightarrow> g s' | (False, s') \<Rightarrow> (False, s'))"

fun each :: "('a \<Rightarrow> chat_step) \<Rightarrow> 'a list \<Rightarrow> chat_step" where
  "each f [] = goes_on"
| "each f (x # xs) = and_then (f x) (each f xs)"

fun in_order :: "chat_step list \<Rightarrow> chat_step" where
  "in_order [] = goes_on"
| "in_order (f # fs) = and_then f (in_order fs)"

definition yields :: "chat_event \<Rightarrow> chat_step" where
  "yields e s = (True, s\<lparr>cs_out := cs_out s @ [e]\<rparr>)"

definition updates :: "(chat_stream \<Rightarrow> chat_stream) \<Rightarrow> chat_step" where
  "updates f s = (True, f s)"

text \<open>A value that may raise, for the step that uses it.\<close>

definition given :: "'a option \<Rightarrow> ('a \<Rightarrow> chat_step) \<Rightarrow> chat_step" where
  "given r f = (case r of None \<Rightarrow> raises | Some x \<Rightarrow> f x)"

section \<open>Python's access to JSON\<close>

text \<open>\<^verbatim>\<open>x.get(k, d)\<close>, \<^verbatim>\<open>k in x\<close>, \<^verbatim>\<open>x[k]\<close>, the elements of \<^verbatim>\<open>for y in x\<close>; \<open>None\<close> where they raise.\<close>

definition get_or :: "json \<Rightarrow> string \<Rightarrow> json \<Rightarrow> json option" where
  "get_or x k d = (case x of JObj kvs \<Rightarrow> Some (the_default d (map_of kvs k)) | _ \<Rightarrow> None)"

definition has_key :: "string \<Rightarrow> json \<Rightarrow> bool option" where
  "has_key k x = (case x of
      JObj kvs \<Rightarrow> Some (k \<in> fst ` set kvs)
    | JList xs \<Rightarrow> Some (JStr k \<in> set xs)
    | JStr s \<Rightarrow> Some (contains k s)
    | _ \<Rightarrow> None)"

definition dict_at :: "json \<Rightarrow> string \<Rightarrow> json option" where
  "dict_at x k = (case x of JObj kvs \<Rightarrow> map_of kvs k | _ \<Rightarrow> None)"

definition iterate :: "json \<Rightarrow> json list option" where
  "iterate x = (case x of
      JList xs \<Rightarrow> Some xs
    | JObj kvs \<Rightarrow> Some (map (JStr \<circ> fst) kvs)
    | JStr s \<Rightarrow> Some (map (\<lambda>c. JStr [c]) s)
    | _ \<Rightarrow> None)"

text \<open>\<^verbatim>\<open>x + y\<close>, of booleans apart.\<close>

definition json_add :: "json \<Rightarrow> json \<Rightarrow> json option" where
  "json_add x y = (case (x, y) of
      (JStr a, JStr b) \<Rightarrow> Some (JStr (a @ b))
    | (JList a, JList b) \<Rightarrow> Some (JList (a @ b))
    | (JNum a, JNum b) \<Rightarrow> Some (JNum (a + b))
    | _ \<Rightarrow> None)"

text \<open>A list index: the position it reads in a list of \<open>n\<close> entries.\<close>

definition list_index :: "json \<Rightarrow> int option" where
  "list_index x = (case x of
      JNum q \<Rightarrow> if q \<in> \<int> then Some \<lfloor>q\<rfloor> else None
    | JBool b \<Rightarrow> Some (if b then 1 else 0)
    | _ \<Rightarrow> None)"

section \<open>Reasoning\<close>

text \<open>The reasoning goes through the filter, where there is one, on its way out.\<close>

definition show_reasoning :: "string \<Rightarrow> chat_step" where
  "show_reasoning text = (if text = [] then goes_on
     else and_then (updates (\<lambda>s. s\<lparr>cs_filtered := cs_filtered s @ [text]\<rparr>)) (yields (ChatReasoning text)))"

definition through_filter :: "string \<Rightarrow> chat_step" where
  "through_filter text s = (case cs_filter s of
      None \<Rightarrow> show_reasoning text s
    | Some f \<Rightarrow> (case filter_chunk text f of
        None \<Rightarrow> (False, s)
      | Some (safe, f') \<Rightarrow> show_reasoning safe (s\<lparr>cs_filter := Some f'\<rparr>)))"

definition take_reasoning :: "string \<Rightarrow> chat_step" where
  "take_reasoning text = and_then (updates (\<lambda>s. s\<lparr>cs_reasoning := cs_reasoning s @ [text]\<rparr>)) (through_filter text)"

definition reasoning_value :: "json \<Rightarrow> chat_step" where
  "reasoning_value v = (if \<not> truthy v then goes_on else given (jstr v) take_reasoning)"

definition reasoning_detail :: "json \<Rightarrow> chat_step" where
  "reasoning_detail detail = given (get_or detail ''type'' (JStr [])) (\<lambda>type.
     if type = JStr ''reasoning.text'' then given (get_or detail ''text'' (JStr [])) reasoning_value
     else if type = JStr ''reasoning.summary'' then given (get_or detail ''summary'' (JStr [])) reasoning_value
     else goes_on)"

definition delta_reasoning :: "stream_request \<Rightarrow> json \<Rightarrow> chat_step" where
  "delta_reasoning rq delta =
     (if \<not> sq_enable_reasoning rq then goes_on
      else given (has_key ''reasoning_details'' delta) (\<lambda>present.
        if present
        then given (get_or delta ''reasoning_details'' (JList [])) (\<lambda>details.
               case details of JList xs \<Rightarrow> each reasoning_detail xs | _ \<Rightarrow> goes_on)
        else given (get_or delta ''reasoning'' (JStr [])) reasoning_value))"

section \<open>Tool calls\<close>

fun put_at :: "'a list \<Rightarrow> int \<Rightarrow> ('a \<Rightarrow> 'a option) \<Rightarrow> 'a list option" where
  "put_at xs i f = (let n = int (length xs); j = (if i < 0 then i + n else i)
     in if j < 0 \<or> n \<le> j then None else map_option (\<lambda>x. xs[nat j := x]) (f (xs ! nat j)))"

definition slots_for :: "int \<Rightarrow> tool_slot list \<Rightarrow> tool_slot list" where
  "slots_for i slots = slots @ replicate (nat (i + 1 - int (length slots))) empty_slot"

definition join_arguments :: "json \<Rightarrow> json \<Rightarrow> json option" where
  "join_arguments current incoming =
     (if current \<in> {JStr [], JStr ''{}''} then Some incoming
      else if incoming = JStr ''{}'' then Some current
      else json_add current incoming)"

definition function_fields :: "json \<Rightarrow> tool_slot \<Rightarrow> tool_slot option" where
  "function_fields func slot =
     Option.bind (has_key ''name'' func) (\<lambda>named.
     Option.bind (if named then map_option (\<lambda>v. slot\<lparr>ts_name := v\<rparr>) (dict_at func ''name'') else Some slot) (\<lambda>slot.
     Option.bind (has_key ''arguments'' func) (\<lambda>has_args.
     if has_args
     then Option.bind (dict_at func ''arguments'') (\<lambda>new.
            map_option (\<lambda>a. slot\<lparr>ts_arguments := a\<rparr>) (join_arguments (ts_arguments slot) new))
     else Some slot)))"

text \<open>The fields a fragment changes one after the other; a fragment that raises half-way ends the stream.\<close>

definition tool_fragment :: "json \<Rightarrow> tool_slot list \<Rightarrow> tool_slot list option" where
  "tool_fragment fragment slots =
     Option.bind (get_or fragment ''index'' (JNum 0)) (\<lambda>index.
     Option.bind (list_index index) (\<lambda>i.
     Option.bind (has_key ''id'' fragment) (\<lambda>has_id.
     Option.bind (has_key ''function'' fragment) (\<lambda>has_func.
     if \<not> has_id \<and> \<not> has_func then Some (slots_for i slots)
     else put_at (slots_for i slots) i (\<lambda>slot.
       Option.bind (if has_id then map_option (\<lambda>v. slot\<lparr>ts_id := v\<rparr>) (dict_at fragment ''id'') else Some slot)
         (\<lambda>slot. if has_func then Option.bind (dict_at fragment ''function'') (\<lambda>func. function_fields func slot)
                 else Some slot))))))"

definition delta_tool_calls :: "json \<Rightarrow> chat_step" where
  "delta_tool_calls delta = given (has_key ''tool_calls'' delta) (\<lambda>present.
     if \<not> present then goes_on
     else given (Option.bind (dict_at delta ''tool_calls'') iterate)
       (each (\<lambda>fragment s. case tool_fragment fragment (cs_tool_calls s) of
          None \<Rightarrow> (False, s) | Some slots \<Rightarrow> (True, s\<lparr>cs_tool_calls := slots\<rparr>))))"

section \<open>Images\<close>

text \<open>The address of an image: \<open>None\<close> raises, \<open>Some None\<close> is a dict of an unknown shape.\<close>

definition image_address :: "json \<Rightarrow> json option option" where
  "image_address img =
     (if \<not> is_dict img then Some (Some img)
      else Option.bind (has_key ''image_url'' img) (\<lambda>nested.
        Option.bind (if nested then Option.bind (dict_at img ''image_url'') (has_key ''url'') else Some False) (\<lambda>url_inside.
        if url_inside then map_option Some (Option.bind (dict_at img ''image_url'') (\<lambda>u. dict_at u ''url''))
        else Option.bind (has_key ''url'' img) (\<lambda>direct.
          if direct then map_option Some (dict_at img ''url'') else Some None))))"

text \<open>The log line slices the address.\<close>

definition sliceable :: "json \<Rightarrow> bool" where
  "sliceable x = (case x of JStr _ \<Rightarrow> True | JList _ \<Rightarrow> True | _ \<Rightarrow> False)"

definition take_image :: "json \<Rightarrow> chat_step" where
  "take_image img = given (image_address img) (\<lambda>address s. case address of
      None \<Rightarrow> (True, s)
    | Some url \<Rightarrow>
        if \<not> truthy url \<or> url \<in> set (cs_images s) then (True, s)
        else if sliceable url then yields (ChatImage url) (s\<lparr>cs_images := cs_images s @ [url]\<rparr>)
        else (False, s))"

definition take_images :: "json \<Rightarrow> chat_step" where
  "take_images images = (if \<not> truthy images then goes_on else given (iterate images) (each take_image))"

definition message_images :: "json \<Rightarrow> chat_step" where
  "message_images choice = given (get_or choice ''message'' (JObj [])) (\<lambda>message.
     if \<not> truthy message then goes_on
     else given (get_or message ''images'' (JList [])) take_images)"

section \<open>Content\<close>

definition show_content :: "string \<Rightarrow> chat_step" where
  "show_content text = and_then (updates (\<lambda>s. s\<lparr>cs_content := cs_content s @ [text]\<rparr>)) (yields (ChatContent text))"

definition show_fragment :: "fragment \<Rightarrow> chat_step" where
  "show_fragment fr = (case fr of Outside text \<Rightarrow> show_content text | Inside text \<Rightarrow> take_reasoning text)"

text \<open>The buffer loop, its fragments shown as they are cut.\<close>

definition take_content :: "stream_request \<Rightarrow> json \<Rightarrow> chat_step" where
  "take_content rq content s =
     (if \<not> truthy content then (True, s)
      else case content of
        JStr text \<Rightarrow>
          (if sq_enable_reasoning rq
           then let (out, inside, buffer) = cut_buffer (cs_in_think s) (cs_buffer s @ text)
                in each show_fragment out (s\<lparr>cs_in_think := inside, cs_buffer := buffer\<rparr>)
           else let (out, buffer) = cut_plain (cs_buffer s @ text)
                in each show_fragment out (s\<lparr>cs_buffer := buffer\<rparr>))
      | _ \<Rightarrow> (False, s))"

section \<open>A chunk\<close>

definition take_choice :: "stream_request \<Rightarrow> json \<Rightarrow> chat_step" where
  "take_choice rq choice =
     given (get_or choice ''delta'' (JObj [])) (\<lambda>delta.
     given (get_or delta ''content'' (JStr [])) (\<lambda>content.
     in_order
       [delta_tool_calls delta,
        delta_reasoning rq delta,
        given (get_or delta ''images'' (JList [])) take_images,
        message_images choice,
        given (get_or choice ''finish_reason'' JNull) (\<lambda>reason.
          if truthy reason then updates (\<lambda>s. s\<lparr>cs_finish_reason := reason\<rparr>) else goes_on),
        take_content rq content]))"

text \<open>\<^verbatim>\<open>"choices" in chunk and len(chunk["choices"]) > 0\<close>, then \<^verbatim>\<open>chunk["choices"][0]\<close>.\<close>

definition take_choices :: "stream_request \<Rightarrow> json \<Rightarrow> chat_step" where
  "take_choices rq chunk = given (has_key ''choices'' chunk) (\<lambda>present.
     if \<not> present then goes_on
     else given (dict_at chunk ''choices'') (\<lambda>choices. case choices of
         JList (choice # _) \<Rightarrow> take_choice rq choice
       | JList [] \<Rightarrow> goes_on
       | JStr [] \<Rightarrow> goes_on
       | JObj [] \<Rightarrow> goes_on
       | _ \<Rightarrow> raises))"

definition take_generation_id :: "json \<Rightarrow> chat_step" where
  "take_generation_id chunk s =
     (if truthy (cs_generation_id s) then (True, s)
      else given (get_or chunk ''id'' JNull) (\<lambda>i.
        if truthy i then and_then (updates (\<lambda>s. s\<lparr>cs_generation_id := i\<rparr>)) (yields (ChatGenerationId i)) else goes_on) s)"

definition take_model :: "stream_request \<Rightarrow> json \<Rightarrow> chat_step" where
  "take_model rq chunk = given (get_or chunk ''model'' JNull) (\<lambda>model.
     if truthy model \<and> sq_is_openrouter rq then updates (\<lambda>s. s\<lparr>cs_model_used := model\<rparr>) else goes_on)"

definition take_usage :: "json \<Rightarrow> chat_step" where
  "take_usage chunk = given (get_or chunk ''usage'' JNull) (\<lambda>usage.
     if \<not> truthy usage then goes_on
     else given (get_or usage ''prompt_tokens'' (JNum 0)) (\<lambda>p.
       given (get_or usage ''completion_tokens'' (JNum 0)) (\<lambda>c.
       given (get_or usage ''total_tokens'' (JNum 0)) (\<lambda>t.
         updates (\<lambda>s. s\<lparr>cs_usage := Some (p, c, t)\<rparr>)))))"

text \<open>Some models repeat the whole reasoning in the last chunk.\<close>

definition show_final_reasoning :: "json \<Rightarrow> chat_step" where
  "show_final_reasoning v = given (jstr v) (\<lambda>text s. case cs_filter s of
      None \<Rightarrow> yields (ChatReasoning text) s
    | Some f \<Rightarrow> (case filter_text text f of
        None \<Rightarrow> (False, s)
      | Some (safe, f') \<Rightarrow> show_reasoning safe (s\<lparr>cs_filter := Some f'\<rparr>)))"

definition take_final_reasoning :: "json \<Rightarrow> chat_step" where
  "take_final_reasoning chunk = given (has_key ''reasoning_content'' chunk) (\<lambda>present.
     if \<not> present then goes_on
     else given (dict_at chunk ''reasoning_content'') (\<lambda>v s.
       let s = s\<lparr>cs_reasoning_final := v\<rparr>
       in if truthy v \<and> cs_reasoning s = [] then show_final_reasoning v s else (True, s)))"

definition take_chunk :: "stream_request \<Rightarrow> json \<Rightarrow> chat_step" where
  "take_chunk rq chunk = in_order
     [take_generation_id chunk, take_model rq chunk, take_choices rq chunk, take_usage chunk, take_final_reasoning chunk]"

section \<open>The end of the stream\<close>

definition flush_content :: "stream_request \<Rightarrow> chat_step" where
  "flush_content rq s =
     (if cs_buffer s = [] then (True, s)
      else and_then
        (if sq_enable_reasoning rq \<and> cs_in_think s then take_reasoning (cs_buffer s) else show_content (cs_buffer s))
        (updates (\<lambda>s. s\<lparr>cs_buffer := []\<rparr>)) s)"

definition flush_reasoning :: chat_step where
  "flush_reasoning s = (case cs_filter s of
      None \<Rightarrow> (True, s)
    | Some f \<Rightarrow> (case flush_filter f of
        None \<Rightarrow> (False, s)
      | Some (safe, f') \<Rightarrow> show_reasoning safe (s\<lparr>cs_filter := Some f'\<rparr>)))"

definition empty_stream :: "chat_stream \<Rightarrow> bool" where
  "empty_stream s \<longleftrightarrow> cs_content s = [] \<and> cs_images s = []"

definition called_tools :: "chat_stream \<Rightarrow> bool" where
  "called_tools s \<longleftrightarrow> cs_finish_reason s = JStr ''tool_calls'' \<and> cs_tool_calls s \<noteq> []"

text \<open>The suggestions after the first sentence of a detail are fixed text and left out.\<close>

definition model_name :: "json \<Rightarrow> string" where
  "model_name model = (case model of JStr m \<Rightarrow> m | j \<Rightarrow> dumps j)"

definition empty_error :: "chat_stream \<Rightarrow> chat_event" where
  "empty_error s =
     (if cs_finish_reason s = JStr ''length''
      then ChatError ''Token limit reached before content generation''
             (''The model '' @ [CHR 0x27] @ model_name (cs_model_used s) @ [CHR 0x27] @ '' reached its token limit without generating any content.'')
      else ChatError ''Model returned no response''
             (''The model '' @ [CHR 0x27] @ model_name (cs_model_used s) @ [CHR 0x27] @ '' completed the request but returned no content.''))"

definition map_request_source_to_feature :: "string \<Rightarrow> feature_type" where
  "map_request_source_to_feature source = the_default OTHER (map_of
     [(''chat'', CHAT), (''chat_stream'', CHAT), (''chat_fallback'', CHAT), (''voice_room'', VOICE_ROOM),
      (''voice_room_generation'', VOICE_ROOM), (''code_session'', FEATURE_CODE_SESSION), (''scout'', FEATURE_CODE_SESSION),
      (''summarizer'', FEATURE_CODE_SESSION), (''orchestrator'', FEATURE_CODE_SESSION),
      (''history_pruner'', FEATURE_CODE_SESSION), (''agent_generation'', FEATURE_CODE_SESSION), (''search'', SEARCH),
      (''consigliere'', CONSIGLIERE), (''ai_analyzer'', CONSIGLIERE), (''mcp_discovery'', OTHER), (''unknown'', OTHER)] source)"

definition stream_operation :: "stream_request \<Rightarrow> string \<Rightarrow> int \<Rightarrow> int \<Rightarrow> usd \<Rightarrow> string \<Rightarrow> Quota_Service.world \<Rightarrow> billable_operation" where
  "stream_operation rq model prompt completion cost request_id w =
     \<lparr>op_service = OPENROUTER, op_feature = map_request_source_to_feature (sq_request_source rq), op_model_id = model,
      op_prompt_tokens = prompt, op_completion_tokens = completion, op_character_count = 0, op_audio_seconds = 0,
      op_request_count = 1, op_cost_usd = cost, op_request_id = request_id, op_session_id = [], op_extra_data = [],
      op_timestamp = clock w, op_billing_origin = BILLING_ORIGIN_PLATFORM\<rparr>"

text \<open>\<^verbatim>\<open>_log_usage\<close>: one operation, recorded for the user of the client if it has one.  What
  \<^verbatim>\<open>record_usage\<close> raises ends the stream.\<close>

definition log_usage :: "(usd \<Rightarrow> usd option) \<Rightarrow> catalog \<Rightarrow> stream_request \<Rightarrow> string \<Rightarrow> int \<Rightarrow> int \<Rightarrow> usd \<Rightarrow> string \<Rightarrow> chat_step" where
  "log_usage q catalog rq model prompt completion cost request_id s = (case sq_user rq of
      None \<Rightarrow> (True, s)
    | Some u \<Rightarrow>
        let op = stream_operation rq model prompt completion cost request_id (base (cs_billing s))
        in case record_usage q catalog u op (Some (sq_billing_origin rq)) (cs_billing s) of
             (r, _, st) \<Rightarrow> (case r of Inl _ \<Rightarrow> False | Inr _ \<Rightarrow> True,
                            s\<lparr>cs_billed := cs_billed s @ [op], cs_billing := st\<rparr>))"

definition completion_event :: "int \<Rightarrow> int \<Rightarrow> json \<Rightarrow> usd \<Rightarrow> usd \<Rightarrow> usd \<Rightarrow> json \<Rightarrow> string option \<Rightarrow> chat_stream \<Rightarrow> chat_event" where
  "completion_event prompt completion tokens whole p c reason reasoning s = ChatDone
     \<lparr>dn_prompt_tokens = prompt, dn_completion_tokens = completion, dn_total_tokens = tokens, dn_cost = whole,
      dn_prompt_cost = p, dn_completion_cost = c, dn_model = cs_model_used s, dn_finish_reason = reason,
      dn_generation_id = cs_generation_id s, dn_reasoning_content = reasoning,
      dn_tool_calls = map slot_json (cs_tool_calls s), dn_images = cs_images s\<rparr>"

text \<open>The reasoning of the last event.  Where nothing was shown and the model repeated its reasoning, the
  filter reads it in one pass, or, in a stream without usage, a second filter is built with an
  argument the class does not have, which raises.\<close>

definition done_reasoning :: "bool \<Rightarrow> chat_stream \<Rightarrow> string option option" where
  "done_reasoning with_usage s =
     (if cs_filtered s \<noteq> [] then Some (Some (concat (cs_filtered s)))
      else if \<not> truthy (cs_reasoning_final s) then Some None
      else Option.bind (jstr (cs_reasoning_final s)) (\<lambda>text. case cs_filter s of
          None \<Rightarrow> Some (Some text)
        | Some f \<Rightarrow> if with_usage then map_option (Some \<circ> fst) (filter_text text f) else None))"

definition bill_and_finish :: "(usd \<Rightarrow> usd option) \<Rightarrow> catalog \<Rightarrow> stream_request \<Rightarrow> json \<Rightarrow> json \<Rightarrow> json \<Rightarrow> chat_step" where
  "bill_and_finish q catalog rq p c tokens = given (jint p) (\<lambda>prompt. given (jint c) (\<lambda>completion s.
     given (jstr (cs_model_used s)) (\<lambda>model s.
       case estimate_cost_detailed catalog model prompt completion (base (cs_billing s)) of
         (Inl _, w) \<Rightarrow> (False, s\<lparr>cs_billing := (cs_billing s)\<lparr>base := w\<rparr>\<rparr>)
       | (Inr (prompt_cost, completion_cost, whole), w) \<Rightarrow>
           and_then (log_usage q catalog rq model prompt completion whole (the_default [] (jstr (cs_generation_id s))))
             (\<lambda>s. given (done_reasoning True s) (\<lambda>reasoning.
                yields (completion_event prompt completion tokens whole prompt_cost completion_cost (cs_finish_reason s) reasoning s)) s)
             (s\<lparr>cs_billing := (cs_billing s)\<lparr>base := w\<rparr>\<rparr>)) s))"

text \<open>A stream without usage ends with an event of no tokens and no cost, and bills nothing.\<close>

definition finish_unbilled :: chat_step where
  "finish_unbilled s = given (done_reasoning False s) (\<lambda>reasoning.
     yields (completion_event 0 0 (JNum 0) 0 0 0
       (if truthy (cs_finish_reason s) then cs_finish_reason s else JStr ''unknown'') reasoning s)) s"

definition finish_stream :: "(usd \<Rightarrow> usd option) \<Rightarrow> catalog \<Rightarrow> stream_request \<Rightarrow> chat_step" where
  "finish_stream q catalog rq = in_order [flush_content rq, flush_reasoning,
     (\<lambda>s. if empty_stream s \<and> \<not> called_tools s then yields (empty_error s) s
          else case cs_usage s of
              None \<Rightarrow> finish_unbilled s
            | Some (p, c, t) \<Rightarrow> bill_and_finish q catalog rq p c t s)]"

section \<open>The lines of the answer\<close>

text \<open>What follows \<^verbatim>\<open>data: \<close>; comments, blank lines and other fields are skipped.\<close>

definition line_data :: "string \<Rightarrow> string option" where
  "line_data line = (if line = [] \<or> starts_with '':'' line then None else strip_prefix ''data: '' line)"

text \<open>\<open>dropped\<close> is the exception the connection ends with, if it does.\<close>

fun read_lines :: "(usd \<Rightarrow> usd option) \<Rightarrow> catalog \<Rightarrow> stream_request \<Rightarrow> raised_error option \<Rightarrow> string list \<Rightarrow> chat_step" where
  "read_lines q catalog rq dropped [] s = (case dropped of
      None \<Rightarrow> (True, s)
    | Some e \<Rightarrow> (case llm_error_payload e of (message, code) \<Rightarrow> yields (ChatFailure message code) s))"
| "read_lines q catalog rq dropped (line # lines) s = (case line_data line of
      None \<Rightarrow> read_lines q catalog rq dropped lines s
    | Some data \<Rightarrow>
        if strip data = ''[DONE]'' then finish_stream q catalog rq s
        else (case loads data of
            None \<Rightarrow> read_lines q catalog rq dropped lines s
          | Some chunk \<Rightarrow> and_then (take_chunk rq chunk) (read_lines q catalog rq dropped lines) s))"

end
