(* ===== verification/Reasoning_Properties.thy ===== *)
theory Reasoning_Properties
  imports Reasoning_Filter
begin

text \<open>
  What the reasoning filter promises.  The lemmas follow the words of a stream: the pieces emitted
  so far, and the buffer behind them, contain no run of kept words that is a fingerprint.
\<close>

section \<open>The search is greedy\<close>

lemma in_windows:
  "(i, n) \<in> set (windows cfg len) \<longleftrightarrow> rc_min_ngram_size cfg \<le> n \<and> n \<le> rc_max_ngram_size cfg \<and> i + n \<le> len"
  by (auto simp: windows_def)

definition tried_before :: "nat \<times> nat \<Rightarrow> nat \<times> nat \<Rightarrow> bool" where
  "tried_before x y \<longleftrightarrow> snd y < snd x \<or> snd y = snd x \<and> fst x < fst y"

lemma sorted_concat_rows:
  assumes "sorted_wrt (\<lambda>a b. b < a) ns"
  shows "sorted_wrt tried_before (concat (map (\<lambda>n. map (\<lambda>i. (i, n)) [0..<k n]) ns))"
  using assms
proof (induction ns)
  case (Cons n ns)
  have "sorted_wrt tried_before (map (\<lambda>i. (i, n)) [0..<k n])"
    by (simp add: sorted_wrt_map tried_before_def)
  moreover have "tried_before x y" if "x \<in> set (map (\<lambda>i. (i, n)) [0..<k n])"
      "y \<in> set (concat (map (\<lambda>n. map (\<lambda>i. (i, n)) [0..<k n]) ns))" for x y
    using that Cons.prems by (auto simp: tried_before_def)
  ultimately show ?case using Cons by (simp add: sorted_wrt_append)
qed simp

lemma windows_sorted: "sorted_wrt tried_before (windows cfg len)"
  unfolding windows_def by (intro sorted_concat_rows) (simp only: sorted_wrt_rev sorted_wrt_upt)

lemma found_in_order:
  assumes "List.find P xs = Some x" and "sorted_wrt R xs"
  shows "x \<in> set xs \<and> P x \<and> (\<forall>y \<in> set xs. P y \<longrightarrow> y = x \<or> R x y)"
proof -
  from assms(1) obtain k where k: "k < length xs" "P (xs ! k)" "x = xs ! k" "\<forall>j<k. \<not> P (xs ! j)"
    by (auto simp: find_Some_iff)
  have "y = x \<or> R x y" if y: "y \<in> set xs" "P y" for y
  proof -
    from y obtain j where j: "j < length xs" "xs ! j = y" by (auto simp: in_set_conv_nth)
    with k y have "k = j \<or> k < j" by (metis nat_neq_iff)
    then show ?thesis using k j sorted_wrt_nth_less [OF assms(2)] by auto
  qed
  with k show ?thesis by auto
qed

lemma check_Some:
  assumes "check_ngrams_in_buffer f buffer = Some (s, e)"
  obtains n where "e = s + n" "rc_min_ngram_size (rf_config f) \<le> n" "n \<le> rc_max_ngram_size (rf_config f)"
    "s + n \<le> length buffer"
    "\<And>i m. \<lbrakk>rc_min_ngram_size (rf_config f) \<le> m; m \<le> rc_max_ngram_size (rf_config f); i + m \<le> length buffer;
       ngram_at (map snd buffer) i m \<in> rf_fingerprints f\<rbrakk> \<Longrightarrow> m < n \<or> m = n \<and> s \<le> i"
proof -
  from assms obtain n where n: "e = s + n" and find: "List.find (\<lambda>(i, n). ngram_at (map snd buffer) i n \<in> rf_fingerprints f)
      (windows (rf_config f) (length buffer)) = Some (s, n)"
    by (auto simp: check_ngrams_in_buffer_def Let_def)
  note first = found_in_order [OF find windows_sorted]
  show ?thesis
  proof
    show "e = s + n" by (fact n)
    show "rc_min_ngram_size (rf_config f) \<le> n" "n \<le> rc_max_ngram_size (rf_config f)" "s + n \<le> length buffer"
      using first by (simp_all add: in_windows)
    show "m < n \<or> m = n \<and> s \<le> i"
      if "rc_min_ngram_size (rf_config f) \<le> m" "m \<le> rc_max_ngram_size (rf_config f)" "i + m \<le> length buffer"
        "ngram_at (map snd buffer) i m \<in> rf_fingerprints f" for i m
    proof -
      have "(i, m) \<in> set (windows (rf_config f) (length buffer))" using that by (simp add: in_windows)
      with first that(4) have "(i, m) = (s, n) \<or> tried_before (s, n) (i, m)" by blast
      then show ?thesis by (auto simp: tried_before_def)
    qed
  qed
qed

section \<open>Runs of kept words\<close>

definition hidden :: "nat set \<Rightarrow> string set \<Rightarrow> (string \<times> string) list \<Rightarrow> bool" where
  "hidden N fp buf \<longleftrightarrow> (\<forall>i n. n \<in> N \<and> i + n \<le> length buf \<longrightarrow> ngram_at (map snd buf) i n \<notin> fp)"

definition safe :: "nat set \<Rightarrow> string set \<Rightarrow> piece list \<Rightarrow> bool" where
  "safe N fp out \<longleftrightarrow> (\<forall>i n ys. n \<in> N \<and> i + n \<le> length out \<and> take n (drop i out) = map Kept ys
     \<longrightarrow> join_with '' '' (map snd ys) \<notin> fp)"

text \<open>The runs that begin among the emitted pieces are safe.\<close>

definition pending :: "nat set \<Rightarrow> string set \<Rightarrow> piece list \<Rightarrow> (string \<times> string) list \<Rightarrow> bool" where
  "pending N fp out buf \<longleftrightarrow> (\<forall>i n ys. n \<in> N \<and> i < length out \<and> i + n \<le> length out + length buf
     \<and> take n (drop i (out @ map Kept buf)) = map Kept ys \<longrightarrow> join_with '' '' (map snd ys) \<notin> fp)"

lemma map_Kept_eq [simp]: "map Kept xs = map Kept ys \<longleftrightarrow> xs = ys"
  by (simp add: inj_map_eq_map inj_def)

lemma window_prefix: "i + n \<le> length xs \<Longrightarrow> take n (drop i (xs @ ys)) = take n (drop i xs)"
  by simp

lemma window_suffix: "length xs \<le> i \<Longrightarrow> take n (drop i (xs @ ys)) = take n (drop (i - length xs) ys)"
  by simp

lemma ngram_at_join: "ngram_at (map snd buf) i n = join_with '' '' (map snd (take n (drop i buf)))"
  by (simp add: ngram_at_def take_map drop_map)

lemma kept_window: "take n (drop i (map Kept buf)) = map Kept ys \<longleftrightarrow> take n (drop i buf) = ys"
  by (simp add: take_map drop_map)

lemma hidden_iff:
  "hidden N fp buf \<longleftrightarrow> (\<forall>i n. n \<in> N \<and> i + n \<le> length buf \<longrightarrow> join_with '' '' (map snd (take n (drop i buf))) \<notin> fp)"
  by (simp add: hidden_def ngram_at_join)

lemma hidden_prefix: "hidden N fp (a @ b) \<Longrightarrow> hidden N fp a"
  unfolding hidden_iff by (metis (no_types, lifting) length_append trans_le_add1 window_prefix)

lemma hidden_take: "hidden N fp buf \<Longrightarrow> hidden N fp (take k buf)"
  by (rule hidden_prefix [of N fp "take k buf" "drop k buf"]) simp

lemma hidden_suffix:
  assumes "hidden N fp (a @ b)"
  shows "hidden N fp b"
  unfolding hidden_iff
proof (intro allI impI, elim conjE)
  fix i n assume "n \<in> N" "i + n \<le> length b"
  with assms show "join_with '' '' (map snd (take n (drop i b))) \<notin> fp"
    using window_suffix [of a "length a + i" n b] unfolding hidden_iff
    by (metis add_diff_cancel_left' add.assoc le_add1 length_append nat_add_left_cancel_le)
qed

lemma hidden_mono: "hidden N fp buf \<Longrightarrow> M \<subseteq> N \<Longrightarrow> hidden M fp buf"
  by (auto simp: hidden_def)

lemma hidden_check_None:
  "check_ngrams_in_buffer f buffer = None \<longleftrightarrow>
     hidden {rc_min_ngram_size (rf_config f)..rc_max_ngram_size (rf_config f)} (rf_fingerprints f) buffer"
  by (auto simp: check_ngrams_in_buffer_def hidden_def find_None_iff in_windows Let_def)

lemma safe_of_pending:
  assumes "pending N fp out buf" and "hidden N fp buf"
  shows "safe N fp (out @ map Kept buf)"
  unfolding safe_def
proof (intro allI impI, elim conjE)
  fix i n ys assume n: "n \<in> N" and len: "i + n \<le> length (out @ map Kept buf)"
    and ys: "take n (drop i (out @ map Kept buf)) = map Kept ys"
  show "join_with '' '' (map snd ys) \<notin> fp"
  proof (cases "i < length out")
    case True with assms(1) n len ys show ?thesis unfolding pending_def by fastforce
  next
    case False
    with ys have "take n (drop (i - length out) buf) = ys" by (simp add: window_suffix kept_window)
    with assms(2) n len False show ?thesis unfolding hidden_def ngram_at_join by fastforce
  qed
qed

lemma pending_of_safe: "safe N fp (out @ map Kept buf) \<Longrightarrow> pending N fp out buf"
  by (auto simp: safe_def pending_def)

lemma hidden_of_safe:
  assumes "safe N fp (out @ map Kept buf)"
  shows "hidden N fp buf"
  unfolding hidden_def ngram_at_join
proof (intro allI impI, elim conjE)
  fix i n assume "n \<in> N" "i + n \<le> length buf"
  then show "join_with '' '' (map snd (take n (drop i buf))) \<notin> fp"
    using spec [OF spec [OF spec [OF assms [unfolded safe_def], of "length out + i"], of n], of "take n (drop i buf)"]
    by (simp add: kept_window)
qed

section \<open>One chunk\<close>

text \<open>New words behind a buffer that is long enough, or behind a redaction, complete no run that
  begins among the emitted words.\<close>

definition seam :: "nat \<Rightarrow> piece list \<Rightarrow> (string \<times> string) list \<Rightarrow> bool" where
  "seam k out buf \<longleftrightarrow> out = [] \<or> last out = Redacted \<or> k \<le> Suc (length buf)"

lemma redacted_not_kept:
  assumes "take n (drop i xs) = map Kept ys" and "i \<le> p" "p < i + n" "p < length xs"
  shows "xs ! p \<noteq> Redacted"
proof -
  have "p - i < n" "i + (p - i) = p" "i \<le> length xs" using assms by linarith+
  then have "take n (drop i xs) ! (p - i) = xs ! p" by simp
  moreover {
    have "length ys = min n (length xs - i)" using arg_cong [OF assms(1), of length] by simp
    moreover have "p - i < length xs - i" using assms by linarith
    ultimately have "p - i < length ys" using \<open>p - i < n\<close> by simp }
  ultimately show ?thesis using assms(1) by (metis nth_map piece.distinct(1))
qed

lemma pending_more:
  assumes pend: "pending N fp out buf" and seam: "seam k out buf" and N: "\<forall>n \<in> N. n \<le> k"
  shows "pending N fp out (buf @ ws)"
  unfolding pending_def
proof (intro allI impI, elim conjE)
  fix i n ys assume n: "n \<in> N" and i: "i < length out" and len: "i + n \<le> length out + length (buf @ ws)"
    and ys: "take n (drop i (out @ map Kept (buf @ ws))) = map Kept ys"
  show "join_with '' '' (map snd ys) \<notin> fp"
  proof (cases "i + n \<le> length out + length buf")
    case True
    with ys have "take n (drop i (out @ map Kept buf)) = map Kept ys"
      using window_prefix [of i n "out @ map Kept buf" "map Kept ws"] by simp
    with pend n i True show ?thesis unfolding pending_def by blast
  next
    case False
    with N n i have "\<not> k \<le> Suc (length buf)" by fastforce
    with seam i have "last out = Redacted" by (auto simp: seam_def)
    then have "(out @ map Kept (buf @ ws)) ! (length out - 1) = Redacted"
      using i by (cases out rule: rev_cases) (simp_all add: nth_append)
    moreover have "i \<le> length out - 1" "length out - 1 < i + n" "length out - 1 < length (out @ map Kept (buf @ ws))"
      using i False by simp_all
    ultimately show ?thesis using redacted_not_kept [OF ys] by blast
  qed
qed

lemma pending_redact:
  assumes pend: "pending N fp out buf" and hid: "hidden N fp (take s buf)" and pos: "0 \<notin> N" and le: "s \<le> length buf"
  shows "pending N fp (out @ map Kept (take s buf) @ [Redacted]) (drop e buf)"
  unfolding pending_def
proof (intro allI impI, elim conjE)
  let ?out = "out @ map Kept (take s buf) @ [Redacted]"
  let ?p = "length out + s"
  fix i n ys assume n: "n \<in> N" and i: "i < length ?out" and len: "i + n \<le> length ?out + length (drop e buf)"
    and ys: "take n (drop i (?out @ map Kept (drop e buf))) = map Kept ys"
  have "(?out @ map Kept (drop e buf)) ! ?p = Redacted" using le by (simp add: nth_append)
  moreover have "i \<le> ?p" "?p < length (?out @ map Kept (drop e buf))" using i le by simp_all
  ultimately have in_prefix: "i + n \<le> ?p" using redacted_not_kept [OF ys] by (meson not_less)
  have "safe N fp (out @ map Kept (take s buf))"
  proof (rule safe_of_pending [OF _ hid])
    show "pending N fp out (take s buf)"
      unfolding pending_def
    proof (intro allI impI, elim conjE)
      fix i n ys assume "n \<in> N" "i < length out" "i + n \<le> length out + length (take s buf)"
        and "take n (drop i (out @ map Kept (take s buf))) = map Kept ys"
      moreover have "take n (drop i (out @ map Kept buf)) = take n (drop i (out @ map Kept (take s buf)))"
        using \<open>i + n \<le> _\<close> window_prefix [of i n "out @ map Kept (take s buf)" "map Kept (drop s buf)"] le
        by (metis append.assoc append_take_drop_id length_append length_map map_append)
      ultimately show "join_with '' '' (map snd ys) \<notin> fp"
        using spec [OF spec [OF spec [OF pend [unfolded pending_def], of i], of n], of ys] le by simp
    qed
  qed
  moreover have "take n (drop i (out @ map Kept (take s buf))) = map Kept ys"
    using ys window_prefix [of i n "out @ map Kept (take s buf)" "Redacted # map Kept (drop e buf)"] in_prefix le by simp
  ultimately show "join_with '' '' (map snd ys) \<notin> fp" using n in_prefix le unfolding safe_def by simp
qed

text \<open>What a match must leave in front of it: a buffer prefix without fingerprints.\<close>

definition clean_prefixes :: "nat set \<Rightarrow> reasoning_filter \<Rightarrow> (string \<times> string) list \<Rightarrow> bool" where
  "clean_prefixes N f buf \<longleftrightarrow> (\<forall>k s e. check_ngrams_in_buffer f (drop k buf) = Some (s, e)
     \<longrightarrow> hidden N (rf_fingerprints f) (take s (drop k buf)))"

lemma clean_prefixes_drop: "clean_prefixes N f buf \<Longrightarrow> clean_prefixes N f (drop e buf)"
  by (simp add: clean_prefixes_def)

definition usable :: "reasoning_config \<Rightarrow> bool" where
  "usable cfg \<longleftrightarrow> 1 \<le> rc_min_ngram_size cfg \<and> rc_min_ngram_size cfg \<le> rc_max_ngram_size cfg
     \<and> rc_max_ngram_size cfg \<le> Suc (rc_buffer_word_count cfg)"

abbreviation sizes :: "reasoning_filter \<Rightarrow> nat set" where
  "sizes f \<equiv> {rc_min_ngram_size (rf_config f)..rc_max_ngram_size (rf_config f)}"

lemma redact_matches_spec:
  assumes "1 \<le> rc_min_ngram_size (rf_config f)"
    and "pending N (rf_fingerprints f) out buf" and "clean_prefixes N f buf" and "0 \<notin> N"
  shows "\<exists>out' rest. redact_matches f buf = Some (out', rest)
    \<and> pending N (rf_fingerprints f) (out @ out') rest \<and> hidden (sizes f) (rf_fingerprints f) rest
    \<and> (if out' = [] then rest = buf else last out' = Redacted)"
  using assms(2,3)
proof (induction "length buf" arbitrary: out buf rule: less_induct)
  case less
  show ?case
  proof (cases "check_ngrams_in_buffer f buf")
    case None
    then have "redact_matches f buf = Some ([], buf)" by (subst redact_matches.simps) simp
    with None less.prems show ?thesis by (auto simp: hidden_check_None)
  next
    case (Some se)
    then obtain s e where se: "check_ngrams_in_buffer f buf = Some (s, e)" by (cases se) simp
    then have le: "s < e" "e \<le> length buf" using assms(1) by (auto elim!: check_Some)
    have "hidden N (rf_fingerprints f) (take s buf)"
      using less.prems(2) se unfolding clean_prefixes_def by (metis drop0)
    then have "pending N (rf_fingerprints f) (out @ map Kept (take s buf) @ [Redacted]) (drop e buf)"
      using pending_redact [OF less.prems(1) _ assms(4)] le by simp
    moreover have "length (drop e buf) < length buf" using le by simp
    ultimately obtain out' rest where
      "redact_matches f (drop e buf) = Some (out', rest)"
      "pending N (rf_fingerprints f) ((out @ map Kept (take s buf) @ [Redacted]) @ out') rest"
      "hidden (sizes f) (rf_fingerprints f) rest" "if out' = [] then rest = drop e buf else last out' = Redacted"
      using less.hyps [OF _ _ clean_prefixes_drop [OF less.prems(2)]] by blast
    then show ?thesis using se by (subst redact_matches.simps) (auto split: if_splits)
  qed
qed

text \<open>The state of a stream between two chunks, after the pieces \<open>out\<close> were emitted.\<close>

definition settled :: "nat set \<Rightarrow> piece list \<Rightarrow> reasoning_filter \<Rightarrow> bool" where
  "settled N out f \<longleftrightarrow> safe N (rf_fingerprints f) (out @ map Kept (rf_buffer f))
     \<and> seam (rc_max_ngram_size (rf_config f)) out (rf_buffer f)"

definition sized :: "nat set \<Rightarrow> reasoning_filter \<Rightarrow> bool" where
  "sized N f \<longleftrightarrow> N \<subseteq> sizes f"

lemma take_in_words:
  assumes "settled N out f" and "usable (rf_config f)" and "sized N f"
    and "clean_prefixes N f (rf_buffer f @ words)"
  shows "\<exists>out' rest. redact_matches f (rf_buffer f @ words) = Some (out', rest)
    \<and> safe N (rf_fingerprints f) (out @ out' @ map Kept rest)
    \<and> (if out' = [] then rest = rf_buffer f @ words else last out' = Redacted)"
proof -
  have N: "\<forall>n \<in> N. n \<le> rc_max_ngram_size (rf_config f)" "0 \<notin> N" and min: "1 \<le> rc_min_ngram_size (rf_config f)"
    using assms(2,3) by (auto simp: sized_def usable_def)
  have "pending N (rf_fingerprints f) out (rf_buffer f @ words)"
    using assms(1) N(1) unfolding settled_def by (blast intro: pending_more pending_of_safe)
  from redact_matches_spec [OF min this assms(4) N(2)] obtain out' rest where
    r: "redact_matches f (rf_buffer f @ words) = Some (out', rest)"
      "pending N (rf_fingerprints f) (out @ out') rest" "hidden (sizes f) (rf_fingerprints f) rest"
      "if out' = [] then rest = rf_buffer f @ words else last out' = Redacted" by blast
  have "safe N (rf_fingerprints f) ((out @ out') @ map Kept rest)"
    using r(2) hidden_mono [OF r(3)] assms(3) by (intro safe_of_pending) (simp_all add: sized_def)
  with r show ?thesis by auto
qed

lemma filter_pieces_settled:
  assumes "settled N out f" and "usable (rf_config f)" and "sized N f"
    and "clean_prefixes N f (rf_buffer f @ fst (scan_text (rf_partial_chunk f @ chunk)))"
  shows "\<exists>out' f'. filter_pieces chunk f = Some (out', f') \<and> settled N (out @ out') f'
    \<and> rf_config f' = rf_config f \<and> rf_fingerprints f' = rf_fingerprints f
    \<and> rf_partial_chunk f' = snd (scan_text (rf_partial_chunk f @ chunk))"
proof -
  obtain words held where sc: "scan_text (rf_partial_chunk f @ chunk) = (words, held)" by fastforce
  from take_in_words [OF assms(1-3), of words] assms(4) sc obtain out' rest where
    r: "redact_matches f (rf_buffer f @ words) = Some (out', rest)"
      "safe N (rf_fingerprints f) (out @ out' @ map Kept rest)"
      "if out' = [] then rest = rf_buffer f @ words else last out' = Redacted" by auto
  let ?k = "length rest - rc_buffer_word_count (rf_config f)"
  have "seam (rc_max_ngram_size (rf_config f)) (out @ out' @ map Kept (take ?k rest)) (drop ?k rest)"
  proof (cases "?k = 0")
    case True with r(3) assms(1) show ?thesis by (auto simp: seam_def settled_def split: if_splits)
  next
    case False with assms(2) show ?thesis by (auto simp: seam_def usable_def)
  qed
  moreover have "map Kept (take ?k rest) @ map Kept (drop ?k rest) = map Kept rest"
    by (metis append_take_drop_id map_append)
  ultimately show ?thesis using r(1,2) sc by (simp add: filter_pieces_def Let_def settled_def)
qed

lemma flush_pieces_settled:
  assumes "settled N out f" and "usable (rf_config f)" and "sized N f"
    and "\<And>w. clean_prefixes N f (rf_buffer f @ (if w = [] then [] else [(rf_partial_chunk f, w)]))"
  shows "\<exists>out' f'. flush_pieces f = Some (out', f') \<and> safe N (rf_fingerprints f) (out @ out')"
proof -
  define words where "words = (if rf_partial_chunk f \<noteq> [] \<and> normalize_text (rf_partial_chunk f) \<noteq> []
    then [(rf_partial_chunk f, normalize_text (rf_partial_chunk f))] else [])"
  have "clean_prefixes N f (rf_buffer f @ words)"
    using assms(4) [of "normalize_text (rf_partial_chunk f)"] assms(4) [of "[]"] by (simp add: words_def split: if_splits)
  from take_in_words [OF assms(1-3) this] show ?thesis
    by (auto simp: flush_pieces_def Let_def words_def [symmetric])
qed

section \<open>A stream\<close>

lemma longest_prefixes:
  assumes "usable (rf_config f)"
  shows "clean_prefixes {rc_max_ngram_size (rf_config f)} f buf"
  unfolding clean_prefixes_def hidden_def
proof (intro allI impI, elim conjE, rule notI)
  fix k s e i n
  assume c: "check_ngrams_in_buffer f (drop k buf) = Some (s, e)" and n: "n \<in> {rc_max_ngram_size (rf_config f)}"
    and len: "i + n \<le> length (take s (drop k buf))"
    and bad: "ngram_at (map snd (take s (drop k buf))) i n \<in> rf_fingerprints f"
  from c obtain m where m: "m \<le> rc_max_ngram_size (rf_config f)"
    "\<And>i l. \<lbrakk>rc_min_ngram_size (rf_config f) \<le> l; l \<le> rc_max_ngram_size (rf_config f); i + l \<le> length (drop k buf);
       ngram_at (map snd (drop k buf)) i l \<in> rf_fingerprints f\<rbrakk> \<Longrightarrow> l < m \<or> l = m \<and> s \<le> i"
    by (rule check_Some) blast
  have "take n (drop i (take s (drop k buf))) = take n (drop i (drop k buf))"
    by (metis append_take_drop_id len window_prefix)
  with bad have "ngram_at (map snd (drop k buf)) i n \<in> rf_fingerprints f" by (simp only: ngram_at_join)
  moreover have "i + n \<le> length (drop k buf)" using len by simp
  ultimately have "n < m \<or> n = m \<and> s \<le> i" using n assms by (intro m(2)) (auto simp: usable_def)
  with m(1) n len assms show False by (auto simp: usable_def)
qed

lemma single_word_prefixes:
  assumes "usable (rf_config f)" and "hidden (sizes f) (rf_fingerprints f) buf" and "length ws \<le> 1"
  shows "clean_prefixes (sizes f) f (buf @ ws)"
  unfolding clean_prefixes_def
proof (intro allI impI)
  fix k s e assume c: "check_ngrams_in_buffer f (drop k (buf @ ws)) = Some (s, e)"
  then have se: "s < e" "e \<le> length (drop k (buf @ ws))" using assms(1) by (auto elim!: check_Some simp: usable_def)
  have hid: "hidden (sizes f) (rf_fingerprints f) (drop k buf)"
    using assms(2) by (metis append_take_drop_id hidden_suffix)
  have "s \<le> length (drop k buf)" using se assms(3) by simp
  then have eq: "take s (drop k (buf @ ws)) = take s (drop k buf)" by simp
  show "hidden (sizes f) (rf_fingerprints f) (take s (drop k (buf @ ws)))" unfolding eq by (rule hidden_take [OF hid])
qed

lemma settled_start: "rf_buffer f = [] \<Longrightarrow> usable (rf_config f) \<Longrightarrow> sized N f \<Longrightarrow> settled N [] f"
  by (auto simp: settled_def safe_def seam_def sized_def usable_def)

lemma stream_longest:
  assumes "settled N out f" and "usable (rf_config f)" and "N = {rc_max_ngram_size (rf_config f)}"
  shows "\<exists>out' f'. stream_pieces chunks f = Some (out', f') \<and> safe N (rf_fingerprints f) (out @ out')"
  using assms
proof (induction chunks arbitrary: out f)
  case Nil
  then have "sized N f" by (simp add: sized_def usable_def)
  from flush_pieces_settled [OF Nil(1,2) this] Nil longest_prefixes show ?case by (simp)
next
  case (Cons chunk chunks)
  then have N: "sized N f" by (simp add: sized_def usable_def)
  from filter_pieces_settled [OF Cons.prems(1,2) N, of chunk] Cons.prems longest_prefixes
  obtain out1 f1 where f1: "filter_pieces chunk f = Some (out1, f1)" "settled N (out @ out1) f1"
    "rf_config f1 = rf_config f" "rf_fingerprints f1 = rf_fingerprints f" by metis
  with Cons.IH [of "out @ out1" f1] Cons.prems show ?case by fastforce
qed

section \<open>Chunks that complete one word\<close>

text \<open>A chunk with at most one run of white space.\<close>

definition one_gap :: "string \<Rightarrow> bool" where
  "one_gap chunk \<longleftrightarrow> length (re_split_space chunk) \<le> 3"

definition no_space :: "string \<Rightarrow> bool" where
  "no_space s \<longleftrightarrow> list_all (\<lambda>c. \<not> py_space c) s"

lemma no_space_split: "no_space s \<Longrightarrow> re_split_space s = [s]"
  by (subst re_split_space.simps) (simp add: no_space_def list_all_iff)

lemma split_cases:
  obtains "no_space s" "re_split_space s = [s]"
  | w g r where "s = w @ g @ r" "no_space w" "isspace g" "re_split_space s = w # g # re_split_space r"
      "r = [] \<or> \<not> py_space (hd r)"
proof -
  let ?w = "takeWhile (\<lambda>c. \<not> py_space c) s" and ?d = "dropWhile (\<lambda>c. \<not> py_space c) s"
  have s: "s = ?w @ ?d" and w: "no_space ?w"
    by (auto simp: no_space_def list_all_iff dest: set_takeWhileD)
  show ?thesis
  proof (cases "?d = []")
    case True
    with s w have "no_space s" by (metis append_Nil2)
    then show ?thesis by (rule that(1)) (rule no_space_split [OF \<open>no_space s\<close>])
  next
    case False
    with hd_dropWhile [OF False] have "takeWhile py_space ?d \<noteq> []" by (cases ?d) simp_all
    then have "isspace (takeWhile py_space ?d)" by (auto simp: isspace_def list_all_iff dest: set_takeWhileD)
    moreover have "s = ?w @ takeWhile py_space ?d @ dropWhile py_space ?d" by simp
    moreover have "re_split_space s = ?w # takeWhile py_space ?d # re_split_space (dropWhile py_space ?d)"
      using False by (subst re_split_space.simps) (simp add: Let_def)
    moreover have "dropWhile py_space ?d = [] \<or> \<not> py_space (hd (dropWhile py_space ?d))" using hd_dropWhile by blast
    ultimately show ?thesis using that(2) w by blast
  qed
qed

lemma split_nonempty [simp]: "re_split_space s \<noteq> []"
  by (cases s rule: split_cases) simp_all

lemma split_append_word:
  assumes "no_space p"
  shows "length (re_split_space (p @ s)) = length (re_split_space s)"
proof -
  have "takeWhile (\<lambda>c. \<not> py_space c) (p @ s) = p @ takeWhile (\<lambda>c. \<not> py_space c) s"
    "dropWhile (\<lambda>c. \<not> py_space c) (p @ s) = dropWhile (\<lambda>c. \<not> py_space c) s"
    using assms by (simp_all add: no_space_def list_all_iff)
  then show ?thesis by (simp add: re_split_space.simps [of "p @ s"] re_split_space.simps [of s] Let_def)
qed

lemma no_space_not_isspace: "no_space s \<Longrightarrow> \<not> isspace s"
  by (cases s) (auto simp: no_space_def isspace_def)

lemma scan_one_gap:
  assumes "one_gap s"
  shows "length (fst (scan_text s)) \<le> 1 \<and> no_space (snd (scan_text s))"
proof (cases s rule: split_cases)
  case 1
  then show ?thesis using no_space_not_isspace
    by (cases s rule: rev_cases) (auto simp: scan_text_def Let_def no_space_def)
next
  case (2 w g r)
  with assms have "length (re_split_space r) \<le> 1" by (simp add: one_gap_def)
  then have r: "no_space r" "re_split_space r = [r]" by (cases r rule: split_cases; auto)+
  have "last s = last r \<and> \<not> py_space (last r)" if "r \<noteq> []"
    using that r(1) by (simp add: 2 no_space_def list_all_iff)
  with 2 r no_space_not_isspace [OF r(1)] no_space_not_isspace [OF 2(2)] show ?thesis
    by (cases "r = []") (auto simp: scan_text_def Let_def no_space_def)
qed

lemma one_gap_held: "no_space p \<Longrightarrow> one_gap s \<Longrightarrow> one_gap (p @ s)"
  by (simp add: one_gap_def split_append_word)

lemma stream_word_by_word:
  assumes "settled (sizes f) out f" and "usable (rf_config f)" and "no_space (rf_partial_chunk f)"
    and "\<forall>chunk \<in> set chunks. one_gap chunk"
  shows "\<exists>out' f'. stream_pieces chunks f = Some (out', f') \<and> safe (sizes f) (rf_fingerprints f) (out @ out')"
  using assms
proof (induction chunks arbitrary: out f)
  case Nil
  have "clean_prefixes (sizes f) f (rf_buffer f @ (if w = [] then [] else [(rf_partial_chunk f, w)]))" for w
    using Nil(1,2) hidden_of_safe unfolding settled_def by (intro single_word_prefixes) auto
  from flush_pieces_settled [OF Nil(1,2) _ this] show ?case by (simp add: sized_def)
next
  case (Cons chunk chunks)
  have gap: "one_gap (rf_partial_chunk f @ chunk)" using Cons.prems one_gap_held by simp
  have "clean_prefixes (sizes f) f (rf_buffer f @ fst (scan_text (rf_partial_chunk f @ chunk)))"
    using Cons.prems(1,2) hidden_of_safe scan_one_gap [OF gap] unfolding settled_def by (intro single_word_prefixes) auto
  from filter_pieces_settled [OF Cons.prems(1,2) _ this] obtain out1 f1 where
    f1: "filter_pieces chunk f = Some (out1, f1)" "settled (sizes f) (out @ out1) f1"
    "rf_config f1 = rf_config f" "rf_fingerprints f1 = rf_fingerprints f"
    "rf_partial_chunk f1 = snd (scan_text (rf_partial_chunk f @ chunk))" by (auto simp: sized_def)
  with Cons.IH [of f1 "out @ out1"] Cons.prems scan_one_gap [OF gap] show ?case by fastforce
qed

section \<open>What a reader of the stream sees\<close>

lemma filter_pieces_frame:
  "filter_pieces chunk f = Some (out, f') \<Longrightarrow> rf_config f' = rf_config f \<and> rf_fingerprints f' = rf_fingerprints f"
  by (auto simp: filter_pieces_def Let_def split: prod.splits bind_splits)

lemma stream_filter_pieces:
  "active f \<Longrightarrow> stream_filter chunks f = map_option (\<lambda>(out, f'). (shown (rf_config f) out, f')) (stream_pieces chunks f)"
proof (induction chunks arbitrary: f)
  case Nil then show ?case by (simp add: flush_filter_def)
next
  case (Cons chunk chunks)
  show ?case
  proof (cases "filter_pieces chunk f")
    case None then show ?thesis using Cons.prems by (simp add: filter_chunk_def)
  next
    case (Some r)
    obtain out f1 where r: "r = (out, f1)" by fastforce
    with Some filter_pieces_frame have "rf_config f1 = rf_config f" "active f1" using Cons.prems by (auto simp: active_def)
    with Some r Cons show ?thesis by (cases "stream_pieces chunks f1") (auto simp: filter_chunk_def shown_def)
  qed
qed

lemma window_fingerprint:
  assumes "part \<in> set (split_paragraphs [] prompt)" and "words = split_words [] (normalize_text part)"
    and "rc_min_ngram_size cfg \<le> n" "n \<le> rc_max_ngram_size cfg" "j + n \<le> length words"
  shows "ngram_at words j n \<in> build_fingerprints cfg prompt"
proof -
  have "ngram_at words j n \<in> extract_ngrams words (rc_min_ngram_size cfg) (rc_max_ngram_size cfg)"
    using assms(3-5) by (auto simp: extract_ngrams_def simp del: upt_Suc intro!: bexI [of _ n])
  moreover have "\<not> length words < rc_min_ngram_size cfg" using assms(3,5) by simp
  ultimately have "ngram_at words j n \<in> section_fingerprints cfg part"
    using assms(2) by (simp add: section_fingerprints_def Let_def)
  with assms(1) show ?thesis by (auto simp: build_fingerprints_def)
qed

lemma window_filter:
  assumes "part \<in> set (split_paragraphs [] prompt)" and "words = split_words [] (normalize_text part)"
    and "rc_min_ngram_size cfg \<le> n" "n \<le> rc_max_ngram_size cfg" "j + n \<le> length words"
    and "rc_enabled cfg" and "1 \<le> n"
  shows "reasoning_filter_of prompt (Some cfg) = new_filter cfg (build_fingerprints cfg prompt)"
    and "active (reasoning_filter_of prompt (Some cfg))"
proof -
  have "prompt \<noteq> []"
  proof
    assume "prompt = []"
    with assms(1,2) have "words = []" by (simp add: normalize_text_def lower_def strip_def lstrip_def)
    with assms(5,7) show False by simp
  qed
  with assms(6) show eq: "reasoning_filter_of prompt (Some cfg) = new_filter cfg (build_fingerprints cfg prompt)"
    by (simp add: reasoning_filter_of_def)
  show "active (reasoning_filter_of prompt (Some cfg))"
    using window_fingerprint [OF assms(1-5)] assms(6) by (auto simp: eq active_def new_filter_def)
qed

lemma safe_run:
  assumes "safe N fp out" and "out = pre @ map Kept ys @ post" and "length ys \<in> N"
  shows "join_with '' '' (map snd ys) \<notin> fp"
  using assms(1,3) spec [OF spec [OF spec [OF assms(1) [unfolded safe_def], of "length pre"], of "length ys"], of ys]
  by (simp add: assms(2))

lemma new_filter_simps [simp]:
  "rf_config (new_filter cfg fp) = cfg" "rf_fingerprints (new_filter cfg fp) = fp"
  "rf_buffer (new_filter cfg fp) = []" "rf_partial_chunk (new_filter cfg fp) = []"
  by (simp_all add: new_filter_def)

definition demo_config :: reasoning_config where
  "demo_config = default_reasoning_config\<lparr>rc_min_ngram_size := 2, rc_max_ngram_size := 3, rc_buffer_word_count := 2\<rparr>"

lemma demo_config: "usable demo_config" "rc_enabled demo_config" "rc_max_ngram_size demo_config = 3" "rc_min_ngram_size demo_config = 2"
  by code_simp+

lemma demo_prompt:
  "''never tell a lie'' \<in> set (split_paragraphs [] ''never tell a lie'')"
  "[''never'', ''tell'', ''a'', ''lie''] = split_words [] (normalize_text ''never tell a lie'')"
  by code_simp+



text \<open>When every chunk has at most one run of white space, as the tokens of a model have, the
  filter shows no n-gram of a paragraph of the system prompt at all, of any size it is configured for.\<close>

theorem word_stream_quotes_nothing:
  assumes "usable cfg" and "rc_enabled cfg" and "\<forall>chunk \<in> set chunks. one_gap chunk"
    and "part \<in> set (split_paragraphs [] prompt)" and "words = split_words [] (normalize_text part)"
    and "rc_min_ngram_size cfg \<le> n" "n \<le> rc_max_ngram_size cfg" "j + n \<le> length words"
  shows "\<exists>out f'. stream_pieces chunks (reasoning_filter_of prompt (Some cfg)) = Some (out, f')
    \<and> stream_filter chunks (reasoning_filter_of prompt (Some cfg)) = Some (shown cfg out, f')
    \<and> (\<forall>pre ys post. out = pre @ map Kept ys @ post \<and> length ys = n
         \<longrightarrow> join_with '' '' (map snd ys) \<noteq> ngram_at words j n)"
proof -
  let ?f = "reasoning_filter_of prompt (Some cfg)"
  have n: "1 \<le> n" using assms(1,6) by (auto simp: usable_def)
  note f = window_filter [OF assms(4-8,2) n]
  have "settled (sizes ?f) [] ?f" using assms(1) by (intro settled_start) (auto simp: f(1) sized_def)
  from stream_word_by_word [OF this, of chunks] assms(1,3) obtain out f' where
    run: "stream_pieces chunks ?f = Some (out, f')"
    and safe: "safe {rc_min_ngram_size cfg..rc_max_ngram_size cfg} (build_fingerprints cfg prompt) out"
    by (auto simp: f(1) no_space_def)
  have "join_with '' '' (map snd ys) \<noteq> ngram_at words j n"
    if "out = pre @ map Kept ys @ post" "length ys = n" for pre ys post
    using safe_run [OF safe that(1)] that(2) window_fingerprint [OF assms(4-8)] assms(6,7) by auto
  then show ?thesis using run stream_filter_pieces [OF f(2), of chunks] by (auto simp: f(1))
qed

lemma word_stream_quotes_nothing_witness:
  "\<exists>out f'. stream_pieces [''we'', '' never'', '' tell'', '' us''] (reasoning_filter_of ''never tell a lie'' (Some demo_config)) = Some (out, f')
    \<and> stream_filter [''we'', '' never'', '' tell'', '' us''] (reasoning_filter_of ''never tell a lie'' (Some demo_config))
        = Some (shown demo_config out, f')
    \<and> (\<forall>pre ys post. out = pre @ map Kept ys @ post \<and> length ys = 2
         \<longrightarrow> join_with '' '' (map snd ys) \<noteq> ngram_at [''never'', ''tell'', ''a'', ''lie''] 0 2)"
proof -
  have gaps: "\<forall>chunk \<in> set [''we'', '' never'', '' tell'', '' us'']. one_gap chunk" by code_simp
  have n: "rc_min_ngram_size demo_config \<le> 2" "2 \<le> rc_max_ngram_size demo_config"
    "0 + 2 \<le> length [''never'', ''tell'', ''a'', ''lie'']" by (simp_all add: demo_config)
  show ?thesis by (rule word_stream_quotes_nothing [OF demo_config(1,2) gaps demo_prompt n])
qed

section \<open>Unquoted text\<close>

text \<open>Text that starts with a word and whose words are not all markup.\<close>

definition plain :: "string \<Rightarrow> bool" where
  "plain s \<longleftrightarrow> (s = [] \<or> \<not> py_space (hd s))
     \<and> (\<forall>t \<in> set (re_split_space s). t \<noteq> [] \<and> \<not> isspace t \<longrightarrow> normalize_text t \<noteq> [])"

lemma scan_keeps_text: "plain s \<Longrightarrow> concat (map fst (fst (scan_text s))) @ snd (scan_text s) = s"
proof (induction "length s" arbitrary: s rule: less_induct)
  case less
  show ?case
  proof (cases s rule: split_cases)
    case 1
    with no_space_not_isspace show ?thesis
      by (cases s rule: rev_cases) (auto simp: scan_text_def Let_def no_space_def)
  next
    case (2 w g r)
    have w: "w \<noteq> []" "\<not> isspace w" using less.prems 2 no_space_not_isspace
      by (cases w; cases g; auto simp: plain_def isspace_def)+
    have g: "g \<noteq> []" "py_space (last g)" using 2(3) by (auto simp: isspace_def list_all_iff)
    have norm: "normalize_text w \<noteq> []" using less.prems 2(4) w by (auto simp: plain_def)
    have ends: "(s \<noteq> [] \<and> \<not> py_space (last s)) = (r \<noteq> [] \<and> \<not> py_space (last r))"
      using g w by (cases "r = []") (simp_all add: 2(1))
    have "plain r" using less.prems 2(4,5) by (auto simp: plain_def)
    moreover have "length r < length s" using w by (simp add: 2(1))
    ultimately have "concat (map fst (fst (scan_text r))) @ snd (scan_text r) = r" using less.hyps by blast
    with w g norm 2(1,3,4) ends show ?thesis
      by (auto simp: scan_text_def Let_def split: prod.splits list.splits)
  qed
qed

lemma held_token: "snd (scan_tokens open_end ts) = t \<Longrightarrow> t = [] \<or> t \<in> set ts \<and> \<not> isspace t"
  by (induction ts arbitrary: t) (auto simp: Let_def split: prod.splits if_splits)

lemma redact_nothing:
  assumes "hidden (sizes f) (rf_fingerprints f) buffer" and "rf_config g = rf_config f" "rf_fingerprints g = rf_fingerprints f"
  shows "redact_matches g buffer = Some ([], buffer)"
proof -
  have "check_ngrams_in_buffer g buffer = None" using assms by (simp add: hidden_check_None)
  then show ?thesis by (subst redact_matches.simps) simp
qed

lemma shown_Kept [simp]: "shown cfg (map Kept ws) = concat (map fst ws)"
  by (induction ws) (simp_all add: shown_def)

text \<open>Plain text in which no run of words is a fingerprint passes the filter unchanged.\<close>

theorem unquoted_text_passes:
  assumes "plain text" and "scan_text text = (words, held)"
    and "hidden (sizes f) (rf_fingerprints f) (words @ (if held = [] then [] else [(held, normalize_text held)]))"
  shows "filter_text text f = Some (text, f)"
proof (cases "active f \<and> text \<noteq> []")
  case False then show ?thesis by (auto simp: filter_text_def)
next
  case True
  define h where "h = (if held = [] then [] else [(held, normalize_text held)])"
  define k where "k = length words - rc_buffer_word_count (rf_config f)"
  define f1 where "f1 = f\<lparr>rf_buffer := drop k words, rf_partial_chunk := held\<rparr>"
  have whole: "hidden (sizes f) (rf_fingerprints f) (take k words @ drop k words @ h)"
    using assms(3) unfolding h_def append.assoc [symmetric] append_take_drop_id .
  have "redact_matches (f\<lparr>rf_buffer := [], rf_partial_chunk := []\<rparr>) words = Some ([], words)"
    using hidden_prefix [OF assms(3)] by (rule redact_nothing) simp_all
  then have chunk: "filter_chunk text (f\<lparr>rf_buffer := [], rf_partial_chunk := []\<rparr>) = Some (concat (map fst (take k words)), f1)"
    using True assms(2) by (simp add: filter_chunk_def filter_pieces_def active_def Let_def k_def f1_def)
  have "held = [] \<or> normalize_text held \<noteq> []"
    using held_token [of "text \<noteq> [] \<and> \<not> py_space (last text)" "re_split_space text" held] assms(1,2)
    by (auto simp: scan_text_def plain_def)
  moreover have "redact_matches f1 (drop k words @ h) = Some ([], drop k words @ h)"
    using hidden_suffix [OF whole] by (rule redact_nothing) (simp_all add: f1_def)
  ultimately have "flush_filter f1 = Some (concat (map fst (drop k words @ h)), f1\<lparr>rf_buffer := [], rf_partial_chunk := []\<rparr>)"
    using True shown_Kept [of "rf_config f" "drop k words @ h"]
    by (auto simp: flush_filter_def flush_pieces_def active_def Let_def f1_def h_def)
  moreover have "concat (map fst (take k words @ drop k words @ h)) = text"
    unfolding append.assoc [symmetric] append_take_drop_id using scan_keeps_text [OF assms(1)] assms(2)
    by (auto simp: h_def)
  then have "concat (map fst (take k words)) @ concat (map fst (drop k words @ h)) = text"
    by (simp only: map_append concat_append)
  ultimately show ?thesis using True chunk by (simp add: filter_text_def f1_def)
qed

lemma unquoted_text_passes_witness:
  "filter_text ''tell us a  tale '' (reasoning_filter_of ''never tell a lie'' (Some demo_config))
     = Some (''tell us a  tale '', reasoning_filter_of ''never tell a lie'' (Some demo_config))"
proof (rule unquoted_text_passes)
  show "plain ''tell us a  tale ''" by code_simp
  show "scan_text ''tell us a  tale '' = ([(''tell '', ''tell''), (''us '', ''us''), (''a  '', ''a''), (''tale '', ''tale'')], [])"
    by code_simp
  show "hidden (sizes (reasoning_filter_of ''never tell a lie'' (Some demo_config)))
    (rf_fingerprints (reasoning_filter_of ''never tell a lie'' (Some demo_config)))
    ([(''tell '', ''tell''), (''us '', ''us''), (''a  '', ''a''), (''tale '', ''tale'')] @ (if [] = [] then [] else [([], normalize_text [])]))"
    unfolding hidden_check_None [symmetric] by code_simp
qed

section \<open>Limits of the search\<close>

text \<open>The longest match is taken first, wherever it lies in the buffer, and the words in front of it
  are emitted without another look: a shorter fingerprint there is shown.\<close>

lemma longer_match_uncovers_shorter:
  "map_option fst (filter_text ''a b c d e f g h i'' (reasoning_filter_of ''a b c d'' None)) = Some ''[...]e f g h i''"
  "map_option fst (filter_text ''a b c d e f g h i j'' (reasoning_filter_of (''a b c d'' @ [CHR 0x0A, CHR 0x0A] @ ''e f g h i'') None))
     = Some ''a b c d [...]j''"
  by code_simp+

text \<open>A token of markup only has no normalised form; it is dropped from the text shown.\<close>

lemma markup_is_dropped:
  "map_option fst (filter_text ''1. ** bold ## end'' (reasoning_filter_of ''a b c d'' None)) = Some ''1. bold end''"
  by code_simp

text \<open>White space in front of the first word of a chunk is dropped too.\<close>

lemma leading_space_is_dropped:
  "map_option fst (stream_filter [''one '', '' two'', [CHR 0x0A], ''three''] (reasoning_filter_of ''a b c d'' None))
     = Some (''one two'' @ [CHR 0x0A] @ ''three'')"
  by code_simp

text \<open>Words joined by markup are one entry of the buffer, which no run of entries matches.\<close>

lemma joined_words_pass:
  "map_option fst (filter_text ''a*b d'' (reasoning_filter_of ''x a b c'' (Some demo_config))) = Some ''a*b d''"
  "map_option fst (filter_text ''a b d'' (reasoning_filter_of ''x a b c'' (Some demo_config))) = Some ''[...]d''"
  by code_simp+

text \<open>With n-grams of no words the search never ends.\<close>

lemma empty_ngram_matches:
  assumes "rc_min_ngram_size (rf_config f) = 0" and "[] \<in> rf_fingerprints f"
  shows "check_ngrams_in_buffer f buffer \<noteq> None"
proof
  assume "check_ngrams_in_buffer f buffer = None"
  then have "ngram_at (map snd buffer) 0 0 \<notin> rf_fingerprints f" using assms(1) by (simp add: hidden_check_None hidden_def)
  with assms(2) show False by (simp add: ngram_at_def)
qed

lemma empty_ngram_never_returns:
  assumes "rc_min_ngram_size (rf_config f) = 0" and "[] \<in> rf_fingerprints f"
  shows "redact_matches f buffer = None"
proof (rule ccontr)
  assume "redact_matches f buffer \<noteq> None"
  then obtain r where "redact_matches f buffer = Some r" by blast
  then have "\<not> (rc_min_ngram_size (rf_config f) = 0 \<and> [] \<in> rf_fingerprints f)"
  proof (rule redact_matches.raw_induct [rotated])
    fix rec g b r
    assume IH: "\<And>g b r. rec g b = Some r \<Longrightarrow> \<not> (rc_min_ngram_size (rf_config g) = 0 \<and> [] \<in> rf_fingerprints g)"
      and step: "(case check_ngrams_in_buffer g b of None \<Rightarrow> Some ([], b)
        | Some (start, stop) \<Rightarrow> Option.bind (rec g (drop stop b)) (\<lambda>(out, rest). Some (map Kept (take start b) @ Redacted # out, rest)))
        = Some r"
    show "\<not> (rc_min_ngram_size (rf_config g) = 0 \<and> [] \<in> rf_fingerprints g)"
    proof
      assume g: "rc_min_ngram_size (rf_config g) = 0 \<and> [] \<in> rf_fingerprints g"
      with empty_ngram_matches [of g b] obtain s e where "check_ngrams_in_buffer g b = Some (s, e)" by auto
      with step obtain r' where "rec g (drop e b) = Some r'" by (auto split: bind_splits)
      with IH g show False by blast
    qed
  qed
  with assms show False by blast
qed

end
