(* ===== verification/Chat_Stream_Properties.thy ===== *)
theory Chat_Stream_Properties
  imports Chat_Stream Reasoning_Properties Recording_Properties
begin

text \<open>
  What the stream of a direct completion promises: the last event repeats what was shown, it bills
  at most one operation and bills what it reports, the answer is the text of the deltas outside the
  reasoning blocks however they were cut, and the reasoning shown is the filtered reasoning.
\<close>

definition is_done :: "string \<Rightarrow> bool" where
  "is_done line \<longleftrightarrow> (case line_data line of None \<Rightarrow> False | Some data \<Rightarrow> strip data = ''[DONE]'')"

section \<open>A demonstration stream\<close>

definition demo_chunk :: "string \<Rightarrow> (string \<times> json) list \<Rightarrow> json" where
  "demo_chunk content extra = JObj ((''choices'', JList [JObj [(''delta'', JObj [(''content'', JStr content)])]]) # extra)"

definition demo_chunks :: "string list" where
  "demo_chunks = [
     ''data: '' @ dumps (demo_chunk ''Hi<think>tell a'' [(''id'', JStr ''g'')]),
     ''data: '' @ dumps (demo_chunk '' lie to</think>ok'' [(''usage'', JObj [(''prompt_tokens'', JNum 10), (''completion_tokens'', JNum 5)])])]"

definition demo_lines :: "string list" where
  "demo_lines = demo_chunks @ [''data: [DONE]'']"

definition demo_stream_request :: stream_request where
  "demo_stream_request = \<lparr>sq_model = ''m'', sq_enable_reasoning = True, sq_is_openrouter = True, sq_user = Some ''ann'',
     sq_request_source = ''chat'', sq_billing_origin = BILLING_ORIGIN_PLATFORM\<rparr>"

definition demo_catalog :: catalog where "demo_catalog m = Inr (Some (Some 1, Some 2))"

definition demo_filter :: reasoning_filter where
  "demo_filter = new_filter demo_config {''tell a''}"

definition demo_stream :: "string list \<Rightarrow> bool \<times> chat_stream" where
  "demo_stream lines = read_lines Some demo_catalog demo_stream_request None lines
     (start_stream demo_stream_request (Some demo_filter) (demo_state demo_world))"

text \<open>The run, read once: what was yielded is a generation id, content, a redaction, content, the rest of
  the reasoning and the last event.\<close>

definition event_text :: "chat_event \<Rightarrow> bool \<times> string" where
  "event_text e = (case e of ChatContent t \<Rightarrow> (True, t) | ChatReasoning t \<Rightarrow> (False, t) | ChatDone d \<Rightarrow> (True, ''done'') | _ \<Rightarrow> (True, []))"

lemma demo_stream_run:
  "(case demo_stream demo_lines of (ok, s) \<Rightarrow>
      (ok, map event_text (cs_out s), map op_cost_usd (cs_billed s), cs_reasoning s, cs_filter s = None))
   = (True, [(True, []), (True, ''Hi''), (False, ''[...]''), (True, ''ok''), (False, ''lie to''), (True, ''done'')], [1 / 50],
      [''tell a lie to''], False)"
  by code_simp

definition demo_end :: chat_stream where "demo_end = snd (demo_stream demo_lines)"

lemma demo_end:
  "read_lines Some demo_catalog demo_stream_request None demo_lines
     (start_stream demo_stream_request (Some demo_filter) (demo_state demo_world)) = (True, demo_end)"
  "map event_text (cs_out demo_end) = [(True, []), (True, ''Hi''), (False, ''[...]''), (True, ''ok''), (False, ''lie to''), (True, ''done'')]"
  "map op_cost_usd (cs_billed demo_end) = [1 / 50]" "cs_reasoning demo_end = [''tell a lie to'']" "cs_filter demo_end \<noteq> None"
  using demo_stream_run by (simp_all add: demo_end_def demo_stream_def split: prod.splits)

lemma demo_is_done: "list_ex is_done demo_lines"
  by (simp add: demo_lines_def is_done_def line_data_def starts_with_def strip_prefix_def strip_def lstrip_def py_space_def)

section \<open>Steps that keep a property\<close>

named_theorems preserves_intros "steps that keep a property of the stream"

definition preserves :: "(chat_stream \<Rightarrow> bool) \<Rightarrow> chat_step \<Rightarrow> bool" where
  "preserves P f \<longleftrightarrow> (\<forall>s. P s \<longrightarrow> P (snd (f s)))"

lemma preservesD: "preserves P f \<Longrightarrow> f s = (ok, s') \<Longrightarrow> P s \<Longrightarrow> P s'"
  unfolding preserves_def by (metis snd_conv)

lemma preserves_goes_on [preserves_intros]: "preserves P goes_on"
  by (simp add: preserves_def goes_on_def)

lemma preserves_raises [preserves_intros]: "preserves P raises"
  by (simp add: preserves_def raises_def)

lemma preserves_and_then [preserves_intros]: "preserves P f \<Longrightarrow> preserves P g \<Longrightarrow> preserves P (and_then f g)"
  unfolding preserves_def and_then_def by (auto split: prod.split bool.split)

lemma preserves_each [preserves_intros]: "(\<And>x. x \<in> set xs \<Longrightarrow> preserves P (f x)) \<Longrightarrow> preserves P (each f xs)"
  by (induction xs) (auto intro: preserves_intros)

lemma preserves_in_order [preserves_intros]: "(\<And>f. f \<in> set fs \<Longrightarrow> preserves P f) \<Longrightarrow> preserves P (in_order fs)"
  by (induction fs) (auto intro: preserves_intros)

lemma preserves_given [preserves_intros]: "(\<And>x. preserves P (f x)) \<Longrightarrow> preserves P (given r f)"
  by (cases r) (auto simp: given_def intro: preserves_intros)

lemma preserves_updates: "(\<And>s. P s \<Longrightarrow> P (f s)) \<Longrightarrow> preserves P (updates f)"
  by (simp add: preserves_def updates_def)

lemma preserves_yields: "(\<And>s. P s \<Longrightarrow> P (s\<lparr>cs_out := cs_out s @ [e]\<rparr>)) \<Longrightarrow> preserves P (yields e)"
  by (simp add: preserves_def yields_def)

lemma preserves_if [preserves_intros]: "(b \<Longrightarrow> preserves P f) \<Longrightarrow> (\<not> b \<Longrightarrow> preserves P g) \<Longrightarrow> preserves P (if b then f else g)"
  by simp

lemma and_then_True: "and_then f g s = (True, s') \<longleftrightarrow> (\<exists>s1. f s = (True, s1) \<and> g s1 = (True, s'))"
  by (auto simp: and_then_def split: prod.splits bool.splits)

section \<open>Invariants of a stream\<close>

text \<open>
  What an invariant of the stream has to say about the single updates for the steps to keep it: first
  those that leave the answer alone, then all of them.
\<close>

locale side_steps =
  fixes P :: "chat_stream \<Rightarrow> bool"
  assumes tool_calls: "P s \<Longrightarrow> P (s\<lparr>cs_tool_calls := calls\<rparr>)"
    and image: "P s \<Longrightarrow> P (s\<lparr>cs_images := cs_images s @ [url], cs_out := cs_out s @ [ChatImage url]\<rparr>)"
    and finish_reason: "P s \<Longrightarrow> P (s\<lparr>cs_finish_reason := v\<rparr>)"
    and model_used: "P s \<Longrightarrow> P (s\<lparr>cs_model_used := v\<rparr>)"
    and usage: "P s \<Longrightarrow> P (s\<lparr>cs_usage := u\<rparr>)"
    and reasoning_final: "P s \<Longrightarrow> P (s\<lparr>cs_reasoning_final := v\<rparr>)"
    and generation_id: "P s \<Longrightarrow> \<not> truthy (cs_generation_id s) \<Longrightarrow> truthy v \<Longrightarrow>
      P (s\<lparr>cs_generation_id := v, cs_out := cs_out s @ [ChatGenerationId v]\<rparr>)"
    and reasoning: "P s \<Longrightarrow> P (snd (take_reasoning text s))"
    and final_reasoning: "P s \<Longrightarrow> cs_reasoning s = [] \<Longrightarrow> P (snd (show_final_reasoning w s))"
begin

lemma preserves_take_reasoning: "preserves P (take_reasoning text)"
  by (simp add: preserves_def reasoning)

lemma preserves_delta_reasoning: "preserves P (delta_reasoning rq delta)"
proof -
  have "preserves P (reasoning_value v)" for v
    unfolding reasoning_value_def by (intro preserves_intros preserves_take_reasoning)
  then have "preserves P (reasoning_detail detail)" "preserves P (reasoning_value v)" for detail v
    unfolding reasoning_detail_def by (auto intro!: preserves_intros)
  then show ?thesis unfolding delta_reasoning_def by (auto intro!: preserves_intros split: json.split)
qed

lemma preserves_delta_tool_calls: "preserves P (delta_tool_calls delta)"
proof -
  have "preserves P (\<lambda>s. case tool_fragment fragment (cs_tool_calls s) of
      None \<Rightarrow> (False, s) | Some slots \<Rightarrow> (True, s\<lparr>cs_tool_calls := slots\<rparr>))" for fragment
    by (auto simp: preserves_def tool_calls split: option.split)
  then show ?thesis unfolding delta_tool_calls_def by (intro preserves_intros)
qed

lemma preserves_take_images: "preserves P (take_images images)"
proof -
  have "preserves P (take_image img)" for img
    unfolding take_image_def
    by (intro preserves_given) (auto simp: preserves_def yields_def image split: option.split)
  then show ?thesis unfolding take_images_def by (intro preserves_intros)
qed

lemma preserves_message_images: "preserves P (message_images choice)"
  unfolding message_images_def by (intro preserves_intros preserves_take_images)

lemma preserves_take_generation_id: "preserves P (take_generation_id chunk)"
proof -
  have "P (snd (given (get_or chunk ''id'' JNull) (\<lambda>i. if truthy i
      then and_then (updates (\<lambda>s. s\<lparr>cs_generation_id := i\<rparr>)) (yields (ChatGenerationId i)) else goes_on) s))"
    if "P s" "\<not> truthy (cs_generation_id s)" for s
    using that generation_id [OF that]
    by (cases "get_or chunk ''id'' JNull")
      (auto simp: given_def raises_def goes_on_def and_then_def updates_def yields_def)
  then show ?thesis by (simp add: preserves_def take_generation_id_def)
qed

lemma preserves_finish_reason:
  "preserves P (given (get_or choice ''finish_reason'' JNull) (\<lambda>reason.
     if truthy reason then updates (\<lambda>s. s\<lparr>cs_finish_reason := reason\<rparr>) else goes_on))"
  by (intro preserves_intros preserves_updates finish_reason)

lemma preserves_take_model: "preserves P (take_model rq chunk)"
  unfolding take_model_def by (intro preserves_intros preserves_updates model_used)

lemma preserves_take_usage: "preserves P (take_usage chunk)"
  unfolding take_usage_def by (intro preserves_intros preserves_updates usage)

lemma preserves_take_final_reasoning: "preserves P (take_final_reasoning chunk)"
  unfolding take_final_reasoning_def
proof (intro preserves_given preserves_if preserves_goes_on)
  fix v
  show "preserves P (\<lambda>s. let s = s\<lparr>cs_reasoning_final := v\<rparr>
      in if truthy v \<and> cs_reasoning s = [] then show_final_reasoning v s else (True, s))"
    using reasoning_final final_reasoning by (simp add: preserves_def Let_def)
qed

lemmas preserves_side_steps = preserves_delta_reasoning preserves_delta_tool_calls preserves_take_images preserves_message_images
  preserves_take_generation_id preserves_finish_reason preserves_take_model preserves_take_usage preserves_take_final_reasoning

end

locale stream_invariant = side_steps +
  assumes content: "P s \<Longrightarrow> P (snd (show_content text s))"
    and buffer: "P s \<Longrightarrow> P (s\<lparr>cs_in_think := inside, cs_buffer := b\<rparr>)"
begin

lemma buffer_only: "P s \<Longrightarrow> P (s\<lparr>cs_buffer := b\<rparr>)"
  using buffer [of s b "cs_in_think s"] by simp

lemma preserves_show_content: "preserves P (show_content text)"
  by (simp add: preserves_def content)

lemma preserves_take_content: "preserves P (take_content rq v)"
proof -
  have "preserves P (show_fragment fr)" for fr
    unfolding show_fragment_def by (cases fr) (simp_all add: preserves_show_content preserves_take_reasoning)
  then have "preserves P (each show_fragment frs)" for frs by (intro preserves_intros)
  then have "P s \<Longrightarrow> P (snd (each show_fragment frs s))" for frs s by (simp add: preserves_def)
  then show ?thesis using buffer buffer_only
    by (auto simp: preserves_def take_content_def split: json.split prod.split)
qed

lemma preserves_take_chunk: "preserves P (take_chunk rq chunk)"
proof -
  have "preserves P (take_choice rq choice)" for choice
    unfolding take_choice_def
    by (intro preserves_given preserves_in_order) (auto intro: preserves_side_steps preserves_take_content preserves_intros)
  then have "preserves P (take_choices rq chunk)"
    unfolding take_choices_def
    by (intro preserves_given preserves_if preserves_goes_on) (auto intro: preserves_intros split: json.split list.split)
  then show ?thesis
    unfolding take_chunk_def by (intro preserves_in_order) (auto intro: preserves_side_steps)
qed

lemma preserves_flush_content: "preserves P (flush_content rq)"
proof -
  have "preserves P (and_then (if inside then take_reasoning b else show_content b) (updates (\<lambda>s. s\<lparr>cs_buffer := []\<rparr>)))" for inside b
    by (intro preserves_intros preserves_updates preserves_take_reasoning preserves_show_content buffer_only)
  then show ?thesis by (simp add: preserves_def flush_content_def)
qed

end

section \<open>What was told\<close>

definition contents :: "chat_event list \<Rightarrow> string list" where
  "contents out = List.map_filter (\<lambda>e. case e of ChatContent t \<Rightarrow> Some t | _ \<Rightarrow> None) out"

definition reasonings :: "chat_event list \<Rightarrow> string list" where
  "reasonings out = List.map_filter (\<lambda>e. case e of ChatReasoning t \<Rightarrow> Some t | _ \<Rightarrow> None) out"

definition images_shown :: "chat_event list \<Rightarrow> json list" where
  "images_shown out = List.map_filter (\<lambda>e. case e of ChatImage i \<Rightarrow> Some i | _ \<Rightarrow> None) out"

definition generation_ids :: "chat_event list \<Rightarrow> json list" where
  "generation_ids out = List.map_filter (\<lambda>e. case e of ChatGenerationId i \<Rightarrow> Some i | _ \<Rightarrow> None) out"

lemmas told_defs = contents_def reasonings_def images_shown_def generation_ids_def

lemma told_append [simp]:
  "contents (a @ b) = contents a @ contents b" "reasonings (a @ b) = reasonings a @ reasonings b"
  "images_shown (a @ b) = images_shown a @ images_shown b" "generation_ids (a @ b) = generation_ids a @ generation_ids b"
  by (simp_all add: told_defs List.map_filter_def)

lemma told_Nil [simp]: "contents [] = []" "reasonings [] = []" "images_shown [] = []" "generation_ids [] = []"
  by (simp_all add: told_defs List.map_filter_def)

lemma told_single [simp]:
  "contents [e] = (case e of ChatContent t \<Rightarrow> [t] | _ \<Rightarrow> [])"
  "reasonings [e] = (case e of ChatReasoning t \<Rightarrow> [t] | _ \<Rightarrow> [])"
  "images_shown [e] = (case e of ChatImage i \<Rightarrow> [i] | _ \<Rightarrow> [])"
  "generation_ids [e] = (case e of ChatGenerationId i \<Rightarrow> [i] | _ \<Rightarrow> [])"
  by (simp_all add: told_defs List.map_filter_def split: chat_event.split)

definition closing :: "chat_event \<Rightarrow> bool" where
  "closing e = (case e of ChatDone _ \<Rightarrow> True | ChatError _ _ \<Rightarrow> True | ChatFailure _ _ \<Rightarrow> True | _ \<Rightarrow> False)"

text \<open>Nothing was billed: prices may have been cached.\<close>

definition unbilled :: "retry_state \<Rightarrow> retry_state \<Rightarrow> bool" where
  "unbilled st st' \<longleftrightarrow> priced (base st) (base st') \<and> st' = st\<lparr>base := base st'\<rparr>"

definition told :: "retry_state \<Rightarrow> chat_stream \<Rightarrow> bool" where
  "told st s \<longleftrightarrow> contents (cs_out s) = cs_content s
     \<and> (cs_filter s \<noteq> None \<longrightarrow> reasonings (cs_out s) = cs_filtered s)
     \<and> images_shown (cs_out s) = cs_images s
     \<and> generation_ids (cs_out s) = (if truthy (cs_generation_id s) then [cs_generation_id s] else [])
     \<and> \<not> list_ex closing (cs_out s) \<and> cs_billed s = [] \<and> unbilled st (cs_billing s)"

lemma through_filter_cases:
  "through_filter text s = (case cs_filter s of
      None \<Rightarrow> show_reasoning text s
    | Some f \<Rightarrow> (case filter_chunk text f of None \<Rightarrow> (False, s) | Some (x, f') \<Rightarrow> show_reasoning x (s\<lparr>cs_filter := Some f'\<rparr>)))"
  by (simp add: through_filter_def)

lemma show_reasoning_eq:
  "show_reasoning text s = (True, if text = [] then s
     else s\<lparr>cs_filtered := cs_filtered s @ [text], cs_out := cs_out s @ [ChatReasoning text]\<rparr>)"
  by (simp add: show_reasoning_def goes_on_def and_then_def updates_def yields_def)

lemma show_content_eq:
  "show_content text s = (True, s\<lparr>cs_content := cs_content s @ [text], cs_out := cs_out s @ [ChatContent text]\<rparr>)"
  by (simp add: show_content_def and_then_def updates_def yields_def)

lemma take_reasoning_eq:
  "take_reasoning text s = through_filter text (s\<lparr>cs_reasoning := cs_reasoning s @ [text]\<rparr>)"
  by (simp add: take_reasoning_def and_then_def updates_def)

lemmas reasoning_eqs = take_reasoning_eq through_filter_cases show_reasoning_eq

lemma show_final_reasoning_eq:
  "show_final_reasoning v s = (case jstr v of
      None \<Rightarrow> (False, s)
    | Some text \<Rightarrow> (case cs_filter s of
        None \<Rightarrow> (True, s\<lparr>cs_out := cs_out s @ [ChatReasoning text]\<rparr>)
      | Some f \<Rightarrow> (case filter_text text f of None \<Rightarrow> (False, s) | Some (x, f') \<Rightarrow> show_reasoning x (s\<lparr>cs_filter := Some f'\<rparr>))))"
  by (simp add: show_final_reasoning_def given_def raises_def yields_def split: option.split)

interpretation told: stream_invariant "told st" for st
  by unfold_locales
    (auto simp: told_def closing_def reasoning_eqs show_content_eq show_final_reasoning_eq split: option.split prod.split)

lemma told_flush_reasoning: "told st s \<Longrightarrow> told st (snd (flush_reasoning s))"
  by (auto simp: told_def closing_def flush_reasoning_def show_reasoning_eq split: option.split prod.split)

lemma told_open: "told st s \<Longrightarrow> ChatDone d \<in> set (cs_out s) \<Longrightarrow> False"
  by (auto simp: told_def list_ex_iff closing_def)

lemma told_start: "told st (start_stream rq filt st)"
  by (simp add: told_def start_stream_def unbilled_def)

section \<open>The last event\<close>

text \<open>A closing event, against the state it is made in.\<close>

definition repeats :: "chat_stream \<Rightarrow> done_data \<Rightarrow> bool" where
  "repeats s d \<longleftrightarrow> dn_images d = cs_images s \<and> dn_generation_id d = cs_generation_id s
     \<and> dn_tool_calls d = map slot_json (cs_tool_calls s)
     \<and> (cs_content s \<noteq> [] \<or> cs_images s \<noteq> [] \<or> cs_tool_calls s \<noteq> [])
     \<and> (cs_filtered s \<noteq> [] \<longrightarrow> dn_reasoning_content d = Some (concat (cs_filtered s)))"

definition closes :: "chat_stream \<Rightarrow> chat_event \<Rightarrow> bool" where
  "closes s e \<longleftrightarrow> closing e \<and> (\<forall>d. e = ChatDone d \<longrightarrow> repeats s d)"

definition reports :: "done_data \<Rightarrow> billable_operation \<Rightarrow> bool" where
  "reports d op \<longleftrightarrow> dn_prompt_tokens d = op_prompt_tokens op \<and> dn_completion_tokens d = op_completion_tokens op
     \<and> dn_cost d = op_cost_usd op \<and> dn_model d = JStr (op_model_id op)
     \<and> op_request_id op = the_default [] (jstr (dn_generation_id d))"

text \<open>What the end of a stream leaves.\<close>

definition ended :: "(usd \<Rightarrow> usd option) \<Rightarrow> catalog \<Rightarrow> stream_request \<Rightarrow> retry_state \<Rightarrow> bool \<Rightarrow> chat_stream \<Rightarrow> bool" where
  "ended q catalog rq st ok s \<longleftrightarrow>
     told st s
     \<or> (\<exists>s1 e. told st s1 \<and> cs_filter s = cs_filter s1 \<and> cs_out s = cs_out s1 @ [e] \<and> closes s1 e \<and> ok
          \<and> cs_billed s = [] \<and> unbilled st (cs_billing s)
          \<and> (\<forall>d. e = ChatDone d \<longrightarrow> dn_cost d = 0 \<or> sq_user rq = None))
     \<or> (\<exists>s1 u op w. told st s1 \<and> cs_filter s = cs_filter s1 \<and> sq_user rq = Some u \<and> cs_billed s = [op]
          \<and> unbilled st (st\<lparr>base := w\<rparr>)
          \<and> cs_billing s = snd (snd (record_usage q catalog u op (Some (sq_billing_origin rq)) (st\<lparr>base := w\<rparr>)))
          \<and> (if ok then \<exists>d. cs_out s = cs_out s1 @ [ChatDone d] \<and> closes s1 (ChatDone d) \<and> reports d op
             else cs_out s = cs_out s1))"

lemma told_update:
  "told st s \<Longrightarrow> unbilled st b \<Longrightarrow> told st (s\<lparr>cs_billing := b\<rparr>)"
  by (simp add: told_def)

lemma ended_told: "told st s \<Longrightarrow> ended q catalog rq st ok s"
  by (simp add: ended_def)

lemma done_repeats:
  assumes "done_reasoning b s = Some reasoning" and "\<not> (empty_stream s \<and> \<not> called_tools s)"
    and "completion_event p c t whole pc cc reason reasoning s = ChatDone d"
  shows "repeats s d"
  using assms by (auto simp: completion_event_def repeats_def done_reasoning_def empty_stream_def called_tools_def)

lemma priced_trans: "priced w w1 \<Longrightarrow> priced w1 w2 \<Longrightarrow> priced w w2"
  by (simp add: priced_def)

lemma estimate_unbilled:
  assumes "unbilled st b" and "estimate_cost_detailed catalog model p c (base b) = (r, w)"
  shows "unbilled st (b\<lparr>base := w\<rparr>)"
proof -
  have "priced (base b) w"
    using assms(2) get_model_pricing_priced [of "base b" catalog model]
    by (auto simp: estimate_cost_detailed_def Let_def split: sum.splits prod.splits)
  with assms(1) show ?thesis unfolding unbilled_def
    by (metis priced_trans retry_state.select_convs(1) retry_state.surjective retry_state.update_convs(1))
qed

lemma finish_ended:
  assumes told: "told st s" and full: "\<not> (empty_stream s \<and> \<not> called_tools s)"
    and run: "given (done_reasoning b s) (\<lambda>reasoning. yields (completion_event pt ct t whole pc cc fr reasoning s)) s = (ok, s')"
    and free: "whole = 0 \<or> sq_user rq = None"
  shows "ended q catalog rq st ok s'"
proof (cases "done_reasoning b s")
  case None
  with told run show ?thesis by (simp add: given_def raises_def ended_told)
next
  case (Some reasoning)
  with run have "ok" "s' = s\<lparr>cs_out := cs_out s @ [completion_event pt ct t whole pc cc fr reasoning s]\<rparr>"
    by (auto simp: given_def yields_def)
  moreover have "closes s (completion_event pt ct t whole pc cc fr reasoning s)"
    using done_repeats [OF Some full] by (auto simp: closes_def closing_def completion_event_def)
  ultimately show ?thesis using told free unfolding ended_def
    by (intro disjI2 disjI1 exI [of _ s]) (auto simp: told_def completion_event_def)
qed

lemma bill_and_finish_ended:
  assumes told: "told st s" and full: "\<not> (empty_stream s \<and> \<not> called_tools s)"
    and run: "bill_and_finish q catalog rq p c t s = (ok, s')"
  shows "ended q catalog rq st ok s'"
proof (cases "jint p = None \<or> jint c = None \<or> jstr (cs_model_used s) = None")
  case True
  with run told show ?thesis by (auto simp: bill_and_finish_def given_def raises_def ended_told split: option.splits)
next
  case False
  then obtain pt ct model where args: "jint p = Some pt" "jint c = Some ct" "jstr (cs_model_used s) = Some model" by auto
  have model: "cs_model_used s = JStr model" using args(3) by (cases "cs_model_used s") simp_all
  obtain r w where est: "estimate_cost_detailed catalog model pt ct (base (cs_billing s)) = (r, w)" by fastforce
  have un: "unbilled st ((cs_billing s)\<lparr>base := w\<rparr>)" using told est by (intro estimate_unbilled) (simp_all add: told_def)
  let ?s = "s\<lparr>cs_billing := (cs_billing s)\<lparr>base := w\<rparr>\<rparr>"
  have told': "told st ?s" by (rule told_update [OF told un])
  have full': "\<not> (empty_stream ?s \<and> \<not> called_tools ?s)" using full by (simp add: empty_stream_def called_tools_def)
  show ?thesis
  proof (cases r)
    case (Inl e)
    with run args est told' show ?thesis by (simp add: bill_and_finish_def given_def ended_told)
  next
    case (Inr costs)
    obtain pc cc whole where costs: "costs = (pc, cc, whole)" by (cases costs)
    let ?gen = "the_default [] (jstr (cs_generation_id s))"
    have step: "and_then (log_usage q catalog rq model pt ct whole ?gen)
        (\<lambda>s. given (done_reasoning True s) (\<lambda>reasoning. yields (completion_event pt ct t whole pc cc (cs_finish_reason s) reasoning s)) s)
        ?s = (ok, s')"
      using run by (simp add: bill_and_finish_def args given_def est Inr costs)
    show ?thesis
    proof (cases "sq_user rq")
      case None
      with step have step: "given (done_reasoning True ?s) (\<lambda>reasoning.
          yields (completion_event pt ct t whole pc cc (cs_finish_reason ?s) reasoning ?s)) ?s = (ok, s')"
        by (simp add: log_usage_def and_then_def)
      from finish_ended [OF told' full' step None [THEN disjI2]] show ?thesis .
    next
      case (Some u)
      let ?op = "stream_operation rq model pt ct whole ?gen w"
      obtain rr op' st2 where rec: "record_usage q catalog u ?op (Some (sq_billing_origin rq)) (cs_billing ?s) = (rr, op', st2)"
        by (metis prod_cases3)
      let ?s2 = "?s\<lparr>cs_billed := [?op], cs_billing := st2\<rparr>"
      have same: "done_reasoning True ?s2 = done_reasoning True ?s"
        "completion_event pt ct t whole pc cc fr reasoning ?s2 = completion_event pt ct t whole pc cc fr reasoning ?s" for fr reasoning
        by (simp_all add: done_reasoning_def completion_event_def)
      have base: "(cs_billing s)\<lparr>base := w\<rparr> = st\<lparr>base := w\<rparr>" "unbilled st (st\<lparr>base := w\<rparr>)"
        using un told by (simp_all add: unbilled_def told_def)
      have bill: "cs_billing ?s2 = snd (snd (record_usage q catalog u ?op (Some (sq_billing_origin rq)) (st\<lparr>base := w\<rparr>)))"
        using rec base(1) by simp
      have log: "log_usage q catalog rq model pt ct whole ?gen ?s = (case rr of Inl _ \<Rightarrow> False | Inr _ \<Rightarrow> True, ?s2)"
        using rec Some told by (simp add: log_usage_def told_def)
      show ?thesis
      proof (cases "(\<exists>e. rr = Inl e) \<or> done_reasoning True ?s = None")
        case True
        then have "\<not> ok" "s' = ?s2" using step log same(1)
          by (cases rr; auto simp: and_then_def given_def raises_def)+
        then show ?thesis using told' Some base(2) bill unfolding ended_def
          by (intro disjI2 exI [of _ ?s] exI [of _ u] exI [of _ ?op] exI [of _ w]) simp
      next
        case False
        then obtain reasoning x where dr: "done_reasoning True ?s = Some reasoning" and rr: "rr = Inr x" by (cases rr) auto
        let ?e = "completion_event pt ct t whole pc cc (cs_finish_reason s) reasoning ?s"
        have "ok" and s': "s' = ?s2\<lparr>cs_out := cs_out s @ [?e]\<rparr>"
          using step log same dr rr by (auto simp: and_then_def given_def yields_def)
        moreover obtain d where d: "?e = ChatDone d" by (simp add: completion_event_def)
        moreover have "closes ?s ?e" using done_repeats [OF dr full'] by (auto simp: closes_def closing_def completion_event_def)
        moreover have "reports d ?op" using d model by (auto simp: reports_def completion_event_def stream_operation_def)
        ultimately show ?thesis using told' Some base(2) bill unfolding ended_def
          by (intro disjI2 exI [of _ ?s] exI [of _ u] exI [of _ ?op] exI [of _ w]) auto
      qed
    qed
  qed
qed

lemma finish_stream_ended:
  assumes told: "told st s" and run: "finish_stream q catalog rq s = (ok, s')"
  shows "ended q catalog rq st ok s'"
proof -
  obtain ok1 s1 where f1: "flush_content rq s = (ok1, s1)" by fastforce
  obtain ok2 s2 where f2: "flush_reasoning s1 = (ok2, s2)" by fastforce
  have t1: "told st s1" using told.preserves_flush_content f1 told by (rule preservesD)
  have t2: "told st s2" using told_flush_reasoning [OF t1] f2 by simp
  show ?thesis
  proof (cases "ok1 \<and> ok2")
    case False
    with run f1 f2 t1 t2 show ?thesis
      by (auto simp: finish_stream_def and_then_def ended_told split: if_splits bool.splits)
  next
    case True
    with run f1 f2 have last: "(if empty_stream s2 \<and> \<not> called_tools s2 then yields (empty_error s2) s2
        else case cs_usage s2 of None \<Rightarrow> finish_unbilled s2 | Some (p, c, t) \<Rightarrow> bill_and_finish q catalog rq p c t s2) = (ok, s')"
      by (auto simp: finish_stream_def and_then_def goes_on_def split: prod.splits bool.splits if_splits option.splits)
    show ?thesis
    proof (cases "empty_stream s2 \<and> \<not> called_tools s2")
      case True
      with last have "ok" "s' = s2\<lparr>cs_out := cs_out s2 @ [empty_error s2]\<rparr>" by (auto simp: yields_def)
      moreover have "closes s2 (empty_error s2)" "\<And>d. empty_error s2 \<noteq> ChatDone d"
        by (auto simp: closes_def closing_def empty_error_def)
      ultimately show ?thesis using t2 unfolding ended_def
        by (intro disjI2 disjI1 exI [of _ s2]) (auto simp: told_def)
    next
      case full: False
      show ?thesis
      proof (cases "cs_usage s2")
        case None
        with last full have "finish_unbilled s2 = (ok, s')" by auto
        from finish_ended [OF t2 full this [unfolded finish_unbilled_def]] show ?thesis by simp
      next
        case (Some u)
        obtain p c t where u: "u = (p, c, t)" by (cases u)
        with last full Some have "bill_and_finish q catalog rq p c t s2 = (ok, s')" by auto
        from bill_and_finish_ended [OF t2 full this] show ?thesis .
      qed
    qed
  qed
qed

lemma read_lines_ended:
  assumes "told st s" and "read_lines q catalog rq dropped lines s = (ok, s')"
  shows "ended q catalog rq st ok s' \<and> (cs_billed s' \<noteq> [] \<longrightarrow> list_ex is_done lines)"
  using assms
proof (induction lines arbitrary: s)
  case Nil
  show ?case
  proof (cases dropped)
    case None with Nil show ?thesis by (auto simp: ended_told told_def)
  next
    case (Some e)
    obtain message code where "llm_error_payload e = (message, code)" by fastforce
    with Nil Some have "ok" "s' = s\<lparr>cs_out := cs_out s @ [ChatFailure message code]\<rparr>" by (auto simp: yields_def)
    moreover have "closes s (ChatFailure message code)" by (simp add: closes_def closing_def)
    ultimately show ?thesis using Nil(1) unfolding ended_def
      by (intro conjI disjI2 disjI1 exI [of _ s]) (auto simp: told_def)
  qed
next
  case (Cons line lines)
  show ?case
  proof (cases "line_data line")
    case None with Cons show ?thesis by simp
  next
    case (Some data)
    show ?thesis
    proof (cases "strip data = ''[DONE]''")
      case True
      with Cons.prems Some have "finish_stream q catalog rq s = (ok, s')" by simp
      with finish_stream_ended [OF Cons.prems(1) this] Some True show ?thesis by (simp add: is_done_def)
    next
      case False
      show ?thesis
      proof (cases "loads data")
        case None with Cons False Some show ?thesis by simp
      next
        case chunk: (Some chunk)
        obtain ok1 s1 where c: "take_chunk rq chunk s = (ok1, s1)" by fastforce
        have t: "told st s1" using told.preserves_take_chunk c Cons.prems(1) by (rule preservesD)
        show ?thesis
        proof (cases ok1)
          case True
          with Cons.prems(2) Some False chunk c have "read_lines q catalog rq dropped lines s1 = (ok, s')"
            by (simp add: and_then_def)
          from Cons.IH [OF t this] show ?thesis by auto
        next
          case False
          with Cons.prems(2) Some \<open>strip data \<noteq> _\<close> chunk c have "s' = s1" by (simp add: and_then_def)
          with t show ?thesis by (auto simp: ended_told told_def)
        qed
      qed
    qed
  qed
qed


lemma demo_end_done: "\<exists>d. ChatDone d \<in> set (cs_out demo_end) \<and> reasonings (cs_out demo_end) \<noteq> []"
proof -
  from demo_end(2) obtain es e1 e2 where es: "cs_out demo_end = es @ [e1, e2]" "event_text e1 = (False, ''lie to'')" "event_text e2 = (True, ''done'')"
    by (auto simp: map_eq_Cons_conv)
  have "\<exists>t. e1 = ChatReasoning t" using es(2) by (cases e1) (auto simp: event_text_def)
  moreover have "(\<exists>d. e2 = ChatDone d) \<or> e2 = ChatContent ''done''" using es(3) by (cases e2) (auto simp: event_text_def)
  moreover have "closing e2"
    using read_lines_ended [OF told_start demo_end(1)] es demo_end(3) unfolding ended_def
    by (auto simp: told_def closes_def split: if_splits)
  moreover have "reasonings [e1, e2] = reasonings [e1] @ reasonings [e2]" using told_append(2) [of "[e1]" "[e2]"] by simp
  ultimately show ?thesis using es(1) by (auto simp: closing_def split: chat_event.splits)
qed


text \<open>C28: A direct completion bills at most one operation, only after the provider said it is done, and the
  user is charged through the billing service for exactly the tokens and the cost its last event
  reports.  Where nothing is billed the quota state is as before, and a success it reported cost
  nothing or had no user to bill.\<close>

theorem stream_bills_what_it_reports:
  assumes "read_lines q catalog rq dropped lines (start_stream rq filt st) = (ok, s)"
  shows "(cs_billed s = [] \<and> unbilled st (cs_billing s)
      \<and> (\<forall>d. ChatDone d \<in> set (cs_out s) \<longrightarrow> dn_cost d = 0 \<or> sq_user rq = None))
    \<or> (\<exists>u op w. sq_user rq = Some u \<and> cs_billed s = [op] \<and> list_ex is_done lines \<and> priced (base st) w
      \<and> cs_billing s = snd (snd (record_usage q catalog u op (Some (sq_billing_origin rq)) (st\<lparr>base := w\<rparr>)))
      \<and> (if ok then \<exists>d. last (cs_out s) = ChatDone d \<and> reports d op else \<forall>d. ChatDone d \<notin> set (cs_out s)))"
proof -
  from read_lines_ended [OF told_start assms] have "ended q catalog rq st ok s" and
    billed: "cs_billed s \<noteq> [] \<longrightarrow> list_ex is_done lines" by blast+
  then consider "told st s"
    | s1 e where "told st s1" "cs_out s = cs_out s1 @ [e]" "closes s1 e" "cs_billed s = []" "unbilled st (cs_billing s)"
        "\<forall>d. e = ChatDone d \<longrightarrow> dn_cost d = 0 \<or> sq_user rq = None"
    | s1 u op w where "told st s1" "sq_user rq = Some u" "cs_billed s = [op]" "unbilled st (st\<lparr>base := w\<rparr>)"
        "cs_billing s = snd (snd (record_usage q catalog u op (Some (sq_billing_origin rq)) (st\<lparr>base := w\<rparr>)))"
        "if ok then \<exists>d. cs_out s = cs_out s1 @ [ChatDone d] \<and> closes s1 (ChatDone d) \<and> reports d op
         else cs_out s = cs_out s1"
    unfolding ended_def by blast
  then show ?thesis
  proof cases
    case 1
    then show ?thesis using told_open [OF 1] by (auto simp: told_def)
  next
    case (2 s1 e)
    then show ?thesis using told_open [OF 2(1)] by auto
  next
    case (3 s1 u op w)
    then have "priced (base st) w" by (simp add: unbilled_def)
    with 3 billed told_open [OF 3(1)] show ?thesis by (intro disjI2) (auto split: if_splits)
  qed
qed

lemma stream_bills_what_it_reports_witness:
  "\<exists>op d. cs_billed demo_end = [op] \<and> op_cost_usd op = 1 / 50 \<and> last (cs_out demo_end) = ChatDone d \<and> reports d op"
  using stream_bills_what_it_reports [OF demo_end(1)] demo_end(3) by (auto split: if_splits)

text \<open>A stream that ends without \<^verbatim>\<open>[DONE]\<close> loses what its buffers hold and bills nothing, though the
  provider had reported the usage.\<close>

lemma unfinished_stream_is_free:
  "(case demo_stream demo_chunks of (ok, s) \<Rightarrow> (ok, contents (cs_out s), cs_buffer s, cs_billed s, cs_usage s))
   = (True, [''Hi''], ''ok'', [], Some (JNum 10, JNum 5, JNum 0))"
  by code_simp

text \<open>The filter is not flushed when a reasoning block closes: the reasoning it holds is shown after the
  answer that follows it.\<close>

lemma reasoning_lags_behind_the_answer:
  "map event_text (cs_out demo_end) =
     [(True, []), (True, ''Hi''), (False, ''[...]''), (True, ''ok''), (False, ''lie to''), (True, ''done'')]"
  by (rule demo_end)

text \<open>Without usage, and with a repeated reasoning that shows nothing, the last event is not reached.\<close>

lemma second_filter_raises:
  "fst (finish_stream Some demo_catalog demo_stream_request
     ((start_stream demo_stream_request (Some demo_filter) (demo_state demo_world))
        \<lparr>cs_content := [''all done''], cs_reasoning_final := JStr ''##''\<rparr>)) = False"
  by code_simp

section \<open>The reasoning shown is the filtered reasoning\<close>

primrec run_filter :: "string list \<Rightarrow> reasoning_filter \<Rightarrow> (string \<times> reasoning_filter) option" where
  "run_filter [] f = Some ([], f)"
| "run_filter (chunk # chunks) f = Option.bind (filter_chunk chunk f)
     (\<lambda>(a, f'). map_option (\<lambda>(b, f''). (a @ b, f'')) (run_filter chunks f'))"

lemma bind_pair_Some: "Option.bind r f = Some y \<longleftrightarrow> (\<exists>a b. r = Some (a, b) \<and> f (a, b) = Some y)"
  by (cases r) auto

lemma map_pair_Some: "map_option (\<lambda>(b, y). (a @ b, y)) r = Some (t, z) \<longleftrightarrow> (\<exists>b. r = Some (b, z) \<and> t = a @ b)"
  by (cases r) auto

lemma run_filter_snoc:
  "run_filter (chunks @ [chunk]) f = Some (t, f') \<longleftrightarrow>
     (\<exists>a b f1. run_filter chunks f = Some (a, f1) \<and> filter_chunk chunk f1 = Some (b, f') \<and> t = a @ b)"
proof (induction chunks arbitrary: f t)
  case Nil show ?case by (auto simp: bind_pair_Some)
next
  case (Cons c cs)
  show ?case by (simp add: bind_pair_Some map_pair_Some Cons.IH) (metis append.assoc)
qed

lemma stream_filter_run:
  "stream_filter chunks f = Some (t, f') \<longleftrightarrow>
     (\<exists>a b f1. run_filter chunks f = Some (a, f1) \<and> flush_filter f1 = Some (b, f') \<and> t = a @ b)"
proof (induction chunks arbitrary: f t)
  case Nil show ?case by auto
next
  case (Cons c cs)
  show ?case by (simp add: bind_pair_Some map_pair_Some Cons.IH) (metis append.assoc)
qed

text \<open>One pass over a whole text leaves the filter as it was.\<close>

lemma filter_text_frame: "filter_text text f = Some (x, f') \<Longrightarrow> f' = f"
proof -
  have flush: "rf_config g' = rf_config g \<and> rf_fingerprints g' = rf_fingerprints g" if "flush_filter g = Some (y, g')" for g g' y
    using that by (auto simp: flush_filter_def flush_pieces_def Let_def split: if_splits)
  have chunk: "rf_config g' = rf_config g \<and> rf_fingerprints g' = rf_fingerprints g" if "filter_chunk c g = Some (y, g')" for c g g' y
    using that filter_pieces_frame by (auto simp: filter_chunk_def split: if_splits)
  assume run: "filter_text text f = Some (x, f')"
  show "f' = f"
  proof (cases "\<not> active f \<or> text = []")
    case True with run show ?thesis by (simp add: filter_text_def)
  next
    case False
    with run obtain a f1 b f2 where f1: "filter_chunk text (f\<lparr>rf_buffer := [], rf_partial_chunk := []\<rparr>) = Some (a, f1)"
      and f2: "flush_filter f1 = Some (b, f2)" and f': "f' = f2\<lparr>rf_buffer := rf_buffer f, rf_partial_chunk := rf_partial_chunk f\<rparr>"
      by (auto simp: filter_text_def bind_pair_Some)
    from flush [OF f2] chunk [OF f1] f' show ?thesis by simp
  qed
qed

text \<open>\<open>F\<close> is the filter the stream started with; the texts in front are passes over a reasoning that was
  repeated whole before any other.\<close>

definition filtered_so_far :: "reasoning_filter \<Rightarrow> chat_stream \<Rightarrow> bool" where
  "filtered_so_far F s \<longleftrightarrow> (\<exists>f. cs_filter s = Some f \<and> (\<forall>t f'. run_filter (cs_reasoning s) F = Some (t, f') \<longrightarrow> f' = f
     \<and> (\<exists>whole. (\<forall>x \<in> set whole. \<exists>text. filter_text text F = Some (x, F))
          \<and> concat (reasonings (cs_out s)) = concat whole @ t)))"

lemma concat_reasonings [simp]: "concat (reasonings (a @ b)) = concat (reasonings a) @ concat (reasonings b)"
  by simp

lemma filtered_take_reasoning:
  assumes "filtered_so_far F s"
  shows "filtered_so_far F (snd (take_reasoning text s))"
proof -
  from assms obtain f where f: "cs_filter s = Some f" and run: "\<And>t f'. run_filter (cs_reasoning s) F = Some (t, f') \<Longrightarrow> f' = f
     \<and> (\<exists>whole. (\<forall>x \<in> set whole. \<exists>text. filter_text text F = Some (x, F)) \<and> concat (reasonings (cs_out s)) = concat whole @ t)"
    unfolding filtered_so_far_def by blast
  show ?thesis
  proof (cases "filter_chunk text f")
    case None
    then have "run_filter (cs_reasoning s @ [text]) F \<noteq> Some (t, f')" for t f'
      using run by (auto simp: run_filter_snoc)
    with f None show ?thesis by (auto simp: filtered_so_far_def reasoning_eqs)
  next
    case (Some r)
    then obtain x f1 where r: "filter_chunk text f = Some (x, f1)" by (cases r) simp
    have "f' = f1 \<and> (\<exists>whole. (\<forall>x \<in> set whole. \<exists>text. filter_text text F = Some (x, F))
        \<and> concat (reasonings (cs_out s)) @ x = concat whole @ t)"
      if "run_filter (cs_reasoning s @ [text]) F = Some (t, f')" for t f'
      using that run r by (auto simp: run_filter_snoc)
    with f r show ?thesis by (auto simp: filtered_so_far_def reasoning_eqs)
  qed
qed

lemma filtered_final:
  assumes "filtered_so_far F s" and "cs_reasoning s = []"
  shows "filtered_so_far F (snd (show_final_reasoning w s))"
proof -
  from assms obtain whole where f: "cs_filter s = Some F" and whole: "\<forall>x \<in> set whole. \<exists>text. filter_text text F = Some (x, F)"
    and out: "concat (reasonings (cs_out s)) = concat whole"
    by (auto simp: filtered_so_far_def)
  have "filtered_so_far F (snd (show_reasoning x (s\<lparr>cs_filter := Some F\<rparr>)))" if "filter_text msg F = Some (x, F)" for msg x
    unfolding filtered_so_far_def
  proof (intro exI conjI allI impI)
    show "cs_filter (snd (show_reasoning x (s\<lparr>cs_filter := Some F\<rparr>))) = Some F" by (simp add: show_reasoning_eq)
    fix t f' assume "run_filter (cs_reasoning (snd (show_reasoning x (s\<lparr>cs_filter := Some F\<rparr>)))) F = Some (t, f')"
    then have "t = []" "f' = F" using assms(2) by (simp_all add: show_reasoning_eq split: if_splits)
    then show "f' = F" and "concat (reasonings (cs_out (snd (show_reasoning x (s\<lparr>cs_filter := Some F\<rparr>))))) = concat (whole @ [x]) @ t"
      using out by (simp_all add: show_reasoning_eq)
    show "\<forall>x \<in> set (whole @ [x]). \<exists>text. filter_text text F = Some (x, F)" using whole that by auto
  qed
  moreover have "b = F" if "filter_text msg F = Some (a, b)" for msg a b using filter_text_frame [OF that] .
  ultimately show ?thesis using assms(1) f
    by (auto simp: show_final_reasoning_eq split: option.split prod.split) blast
qed

interpretation filtered: stream_invariant "filtered_so_far F" for F
proof unfold_locales
  fix s msg show "filtered_so_far F s \<Longrightarrow> filtered_so_far F (snd (take_reasoning msg s))" by (rule filtered_take_reasoning)
  fix w show "filtered_so_far F s \<Longrightarrow> cs_reasoning s = [] \<Longrightarrow> filtered_so_far F (snd (show_final_reasoning w s))"
    by (rule filtered_final)
qed (auto simp: filtered_so_far_def show_content_eq)

text \<open>With n-grams of at least one word the filter returns.\<close>

lemma redact_returns: "1 \<le> rc_min_ngram_size (rf_config f) \<Longrightarrow> \<exists>r. redact_matches f buffer = Some r"
  using redact_matches_spec [of f "{}" "[]" buffer] by (auto simp: pending_def clean_prefixes_def hidden_def)

lemma filter_chunk_returns:
  assumes "1 \<le> rc_min_ngram_size (rf_config f)"
  shows "\<exists>x f'. filter_chunk chunk f = Some (x, f') \<and> rf_config f' = rf_config f"
proof (cases "active f")
  case True
  obtain words held where w: "scan_text (rf_partial_chunk f @ chunk) = (words, held)" by fastforce
  from redact_returns [OF assms] obtain out rest where "redact_matches f (rf_buffer f @ words) = Some (out, rest)" by fast
  with True w show ?thesis by (simp add: filter_chunk_def filter_pieces_def Let_def)
qed (simp add: filter_chunk_def)

lemma run_filter_returns:
  "1 \<le> rc_min_ngram_size (rf_config f) \<Longrightarrow> \<exists>x f'. run_filter chunks f = Some (x, f') \<and> rf_config f' = rf_config f"
proof (induction chunks arbitrary: f)
  case (Cons c cs)
  from filter_chunk_returns [OF Cons.prems] obtain x f1 where f1: "filter_chunk c f = Some (x, f1)" "rf_config f1 = rf_config f" by blast
  with Cons.IH [of f1] Cons.prems obtain y f2 where "run_filter cs f1 = Some (y, f2)" "rf_config f2 = rf_config f" by auto
  with f1 show ?case by simp
qed simp

lemma flush_filter_returns:
  assumes "1 \<le> rc_min_ngram_size (rf_config f)"
  shows "\<exists>x f'. flush_filter f = Some (x, f')"
proof (cases "active f")
  case True
  then show ?thesis using redact_returns [OF assms] by (fastforce simp: flush_filter_def flush_pieces_def Let_def)
qed (simp add: flush_filter_def)

definition flushed :: "reasoning_filter \<Rightarrow> chat_stream \<Rightarrow> bool" where
  "flushed F s \<longleftrightarrow> (\<exists>whole t F'. stream_filter (cs_reasoning s) F = Some (t, F')
     \<and> (\<forall>x \<in> set whole. \<exists>text. filter_text text F = Some (x, F))
     \<and> concat (reasonings (cs_out s)) = concat whole @ t)"

lemma flush_reasoning_flushed:
  assumes "filtered_so_far F s" and "1 \<le> rc_min_ngram_size (rf_config F)"
  shows "flushed F (snd (flush_reasoning s))"
proof -
  from run_filter_returns [OF assms(2), of "cs_reasoning s"] obtain t f where
    run: "run_filter (cs_reasoning s) F = Some (t, f)" and cfg: "rf_config f = rf_config F" by blast
  with assms(1) obtain whole where f: "cs_filter s = Some f" and whole: "\<forall>x \<in> set whole. \<exists>text. filter_text text F = Some (x, F)"
    and out: "concat (reasonings (cs_out s)) = concat whole @ t"
    unfolding filtered_so_far_def by auto
  from flush_filter_returns [of f] assms(2) cfg obtain x f' where fl: "flush_filter f = Some (x, f')" by auto
  with run have "stream_filter (cs_reasoning s) F = Some (t @ x, f')" by (auto simp: stream_filter_run)
  with f fl whole out show ?thesis unfolding flushed_def
    by (auto simp: flush_reasoning_def show_reasoning_eq intro!: exI [of _ whole])
qed

lemma closing_keeps_told:
  "preserves (\<lambda>s. cs_reasoning s = r \<and> reasonings (cs_out s) = x \<and> contents (cs_out s) = y)
     (\<lambda>s. if empty_stream s \<and> \<not> called_tools s then yields (empty_error s) s
          else case cs_usage s of None \<Rightarrow> finish_unbilled s | Some (p, c, t) \<Rightarrow> bill_and_finish q catalog rq p c t s)"
proof -
  have "reasonings [empty_error s] = [] \<and> contents [empty_error s] = []"
    "reasonings [completion_event pc cc t w a b fr v s] = [] \<and> contents [completion_event pc cc t w a b fr v s] = []" for s pc cc t w a b fr v
    by (simp_all add: empty_error_def completion_event_def)
  note last = this
  have yield: "preserves (\<lambda>s. cs_reasoning s = r \<and> reasonings (cs_out s) = x \<and> contents (cs_out s) = y) (yields e)" if "reasonings [e] = [] \<and> contents [e] = []" for e
    using that by (intro preserves_yields) (auto simp del: told_single)
  have finish: "preserves (\<lambda>s. cs_reasoning s = r \<and> reasonings (cs_out s) = x \<and> contents (cs_out s) = y)
      (\<lambda>s. given (done_reasoning b s) (\<lambda>v. yields (completion_event pc cc t w p1 p2 (fr s) v s)) s)" for b pc cc t w p1 p2 fr
    using yield last by (auto simp: preserves_def given_def raises_def split: option.split)
  have "preserves (\<lambda>s. cs_reasoning s = r \<and> reasonings (cs_out s) = x \<and> contents (cs_out s) = y) (log_usage q catalog rq m pc cc w i)" for m pc cc w i
    by (auto simp: preserves_def log_usage_def Let_def split: option.split prod.split)
  note log = preserves_and_then [OF this finish]
  have "preserves (\<lambda>s. cs_reasoning s = r \<and> reasonings (cs_out s) = x \<and> contents (cs_out s) = y) (bill_and_finish q catalog rq p c t)" for p c t
    unfolding bill_and_finish_def
  proof (intro preserves_given)
    fix pt ct
    show "preserves (\<lambda>s. cs_reasoning s = r \<and> reasonings (cs_out s) = x \<and> contents (cs_out s) = y) (\<lambda>s. given (jstr (cs_model_used s)) (\<lambda>model s.
       case estimate_cost_detailed catalog model pt ct (base (cs_billing s)) of
         (Inl _, w) \<Rightarrow> (False, s\<lparr>cs_billing := (cs_billing s)\<lparr>base := w\<rparr>\<rparr>)
       | (Inr (prompt_cost, completion_cost, whole), w) \<Rightarrow>
           and_then (log_usage q catalog rq model pt ct whole (the_default [] (jstr (cs_generation_id s))))
             (\<lambda>s. given (done_reasoning True s) (\<lambda>reasoning.
                yields (completion_event pt ct t whole prompt_cost completion_cost (cs_finish_reason s) reasoning s)) s)
             (s\<lparr>cs_billing := (cs_billing s)\<lparr>base := w\<rparr>\<rparr>)) s)"
      using log [unfolded preserves_def, rule_format]
      by (auto simp: preserves_def given_def raises_def split: option.split sum.split prod.split)
  qed
  moreover have "preserves (\<lambda>s. cs_reasoning s = r \<and> reasonings (cs_out s) = x \<and> contents (cs_out s) = y) finish_unbilled"
    using finish [of False 0 0 "JNum 0" 0 0 0 "\<lambda>s. if truthy (cs_finish_reason s) then cs_finish_reason s else JStr ''unknown''"]
    unfolding preserves_def finish_unbilled_def .
  moreover have "preserves (\<lambda>s. cs_reasoning s = r \<and> reasonings (cs_out s) = x \<and> contents (cs_out s) = y) (\<lambda>s. yields (empty_error s) s)"
    using last(1) by (auto simp: preserves_def yields_def simp del: told_single)
  ultimately show ?thesis by (auto simp: preserves_def split: option.split prod.split simp del: told_single)
qed

lemma in_order3_True:
  "in_order [f, g, h] s = (True, s') \<longleftrightarrow> (\<exists>s1 s2. f s = (True, s1) \<and> g s1 = (True, s2) \<and> h s2 = (True, s'))"
  by (auto simp: and_then_True goes_on_def)

text \<open>What the chunks before \<^verbatim>\<open>[DONE]\<close> keep holds when it comes.\<close>

lemma read_lines_done:
  assumes "read_lines q catalog rq dropped lines s = (True, s')" and "list_ex is_done lines"
    and "\<And>chunk. preserves P (take_chunk rq chunk)" and "P s"
  shows "\<exists>s1. P s1 \<and> finish_stream q catalog rq s1 = (True, s')"
  using assms(1,2,4)
proof (induction lines arbitrary: s)
  case (Cons line lines)
  show ?case
  proof (cases "is_done line")
    case True
    with Cons.prems show ?thesis by (auto simp: is_done_def split: option.splits if_splits)
  next
    case False
    then have rest: "list_ex is_done lines" using Cons.prems(2) by simp
    show ?thesis
    proof (cases "\<exists>data chunk. line_data line = Some data \<and> strip data \<noteq> ''[DONE]'' \<and> loads data = Some chunk")
      case True
      then obtain data chunk where "line_data line = Some data" "strip data \<noteq> ''[DONE]''" "loads data = Some chunk" by blast
      with Cons.prems(1) obtain s1 where "take_chunk rq chunk s = (True, s1)" "read_lines q catalog rq dropped lines s1 = (True, s')"
        by (auto simp: and_then_True)
      with Cons.IH rest assms(3) Cons.prems(3) show ?thesis by (meson preservesD)
    next
      case none: False
      then have "read_lines q catalog rq dropped lines s = (True, s')"
        using Cons.prems(1) False by (auto simp: is_done_def split: option.splits if_splits)
      with Cons.IH rest Cons.prems(3) show ?thesis by blast
    qed
  qed
qed simp



section \<open>The answer\<close>

text \<open>The text of the content deltas of a chunk, and of the lines up to \<^verbatim>\<open>[DONE]\<close>.\<close>

definition chunk_delta :: "json \<Rightarrow> json" where
  "chunk_delta chunk = (case jget chunk ''choices'' of JList (choice # _) \<Rightarrow> jget choice ''delta'' | _ \<Rightarrow> JNull)"

definition chunk_content :: "json \<Rightarrow> string" where
  "chunk_content chunk = the_default [] (jstr (jget (chunk_delta chunk) ''content''))"

fun lines_text :: "string list \<Rightarrow> string" where
  "lines_text [] = []"
| "lines_text (line # lines) = (case line_data line of
      None \<Rightarrow> lines_text lines
    | Some data \<Rightarrow> if strip data = ''[DONE]'' then []
        else (case loads data of None \<Rightarrow> lines_text lines | Some chunk \<Rightarrow> chunk_content chunk @ lines_text lines))"

definition same_text :: "chat_stream \<Rightarrow> chat_stream \<Rightarrow> bool" where
  "same_text s t \<longleftrightarrow> cs_content t = cs_content s \<and> cs_buffer t = cs_buffer s \<and> cs_in_think t = cs_in_think s"

interpretation same: side_steps "same_text s" for s
  by unfold_locales (auto simp: same_text_def reasoning_eqs show_final_reasoning_eq split: option.split prod.split)

lemma side_step:
  assumes "preserves (same_text s) f" and "f s = (True, s')"
  shows "same_text s s'"
  using preservesD [OF assms] by (simp add: same_text_def)

lemma same_text_trans: "same_text a b \<Longrightarrow> same_text b c \<Longrightarrow> same_text a c"
  by (simp add: same_text_def)

text \<open>The answer a stream will have shown when \<open>rest\<close> is still to come.\<close>

definition answer_with :: "stream_request \<Rightarrow> chat_stream \<Rightarrow> string \<Rightarrow> string" where
  "answer_with rq s rest = concat (cs_content s) @
     (if sq_enable_reasoning rq then fst (read_tags (cs_in_think s) (cs_buffer s @ rest)) else cs_buffer s @ rest)"

definition tag_free :: "stream_request \<Rightarrow> chat_stream \<Rightarrow> bool" where
  "tag_free rq s \<longleftrightarrow> (sq_enable_reasoning rq \<longrightarrow> no_tag (cs_in_think s) (cs_buffer s))"

lemma same_text_answer: "same_text s t \<Longrightarrow> answer_with rq t rest = answer_with rq s rest \<and> tag_free rq t = tag_free rq s"
  by (simp add: same_text_def answer_with_def tag_free_def)

lemma take_reasoning_same: "take_reasoning x s = (True, s') \<Longrightarrow> same_text s s'"
  by (rule side_step [OF same.preserves_take_reasoning])

lemma show_fragments:
  "each show_fragment out s = (True, s') \<Longrightarrow> concat (cs_content s') = concat (cs_content s) @ outside_text out
     \<and> cs_buffer s' = cs_buffer s \<and> cs_in_think s' = cs_in_think s"
proof (induction out arbitrary: s)
  case Nil then show ?case by (simp add: goes_on_def)
next
  case (Cons fr out)
  then obtain s1 where s1: "show_fragment fr s = (True, s1)" "each show_fragment out s1 = (True, s')"
    by (auto simp: and_then_True)
  show ?case
  proof (cases fr)
    case (Outside t)
    with s1(1) have "s1 = s\<lparr>cs_content := cs_content s @ [t], cs_out := cs_out s @ [ChatContent t]\<rparr>"
      by (simp add: show_fragment_def show_content_eq)
    with Cons.IH [OF s1(2)] Outside show ?thesis by simp
  next
    case (Inside t)
    with s1(1) have "same_text s s1" by (simp add: show_fragment_def take_reasoning_same)
    with Cons.IH [OF s1(2)] Inside show ?thesis by (simp add: same_text_def)
  qed
qed

lemma take_content_answer:
  assumes "take_content rq v s = (True, s')"
  shows "answer_with rq s' rest = answer_with rq s (the_default [] (jstr v) @ rest)" and "tag_free rq s \<Longrightarrow> tag_free rq s'"
proof -
  have "answer_with rq s' rest = answer_with rq s (the_default [] (jstr v) @ rest) \<and> (tag_free rq s \<longrightarrow> tag_free rq s')"
  proof (cases "truthy v")
    case False
    then have "the_default [] (jstr v) = []" by (cases v) simp_all
    with False assms show ?thesis by (simp add: take_content_def)
  next
    case True
    with assms obtain t where v: "v = JStr t" by (cases v) (auto simp: take_content_def)
    show ?thesis
    proof (cases "sq_enable_reasoning rq")
      case on: True
      obtain out inside buffer where c: "cut_buffer (cs_in_think s) (cs_buffer s @ t) = (out, inside, buffer)"
        by (metis prod_cases3)
      with assms v True on have "each show_fragment out (s\<lparr>cs_in_think := inside, cs_buffer := buffer\<rparr>) = (True, s')"
        by (simp add: take_content_def)
      from show_fragments [OF this] cut_buffer_reads [OF c, of rest] cut_buffer_no_tag [OF c] v on
      show ?thesis by (simp add: answer_with_def tag_free_def in_front_def)
    next
      case off: False
      obtain out buffer where c: "cut_plain (cs_buffer s @ t) = (out, buffer)" by fastforce
      then have parts: "outside_text out @ buffer = cs_buffer s @ t"
        unfolding cut_plain_def by (auto simp del: take_append drop_append append_assoc split: if_splits)
      from assms v True off c have "each show_fragment out (s\<lparr>cs_buffer := buffer\<rparr>) = (True, s')"
        by (simp add: take_content_def)
      from show_fragments [OF this] parts v off show ?thesis
        by (simp add: answer_with_def tag_free_def)
    qed
  qed
  then show "answer_with rq s' rest = answer_with rq s (the_default [] (jstr v) @ rest)" and "tag_free rq s \<Longrightarrow> tag_free rq s'"
    by blast+
qed

lemma take_choice_answer:
  assumes "take_choice rq choice s = (True, s')"
  shows "answer_with rq s' rest = answer_with rq s (the_default [] (jstr (jget (jget choice ''delta'') ''content'')) @ rest)
    \<and> (tag_free rq s \<longrightarrow> tag_free rq s')"
proof -
  from assms obtain delta v where d: "get_or choice ''delta'' (JObj []) = Some delta"
    and v: "get_or delta ''content'' (JStr []) = Some v"
    and run: "in_order [delta_tool_calls delta, delta_reasoning rq delta,
        given (get_or delta ''images'' (JList [])) take_images, message_images choice,
        given (get_or choice ''finish_reason'' JNull) (\<lambda>reason.
          if truthy reason then updates (\<lambda>s. s\<lparr>cs_finish_reason := reason\<rparr>) else goes_on),
        take_content rq v] s = (True, s')"
    by (auto simp: take_choice_def given_def raises_def split: option.splits)
  have content: "the_default [] (jstr (jget (jget choice ''delta'') ''content'')) = the_default [] (jstr v)"
    using d v by (cases choice; cases delta)
      (auto simp: get_or_def the_default_def split: option.splits json.splits)
  have images: "preserves (same_text a) (given (get_or delta ''images'' (JList [])) take_images)" for a
    by (intro preserves_given same.preserves_take_images)
  obtain a1 a2 a3 a4 a5 where a: "delta_tool_calls delta s = (True, a1)" "delta_reasoning rq delta a1 = (True, a2)"
    "given (get_or delta ''images'' (JList [])) take_images a2 = (True, a3)"
    "message_images choice a3 = (True, a4)"
    "given (get_or choice ''finish_reason'' JNull) (\<lambda>reason.
          if truthy reason then updates (\<lambda>s. s\<lparr>cs_finish_reason := reason\<rparr>) else goes_on) a4 = (True, a5)"
    and last: "take_content rq v a5 = (True, s')"
    using run by (auto simp: and_then_True goes_on_def)
  have "same_text s a1" by (rule side_step [OF same.preserves_delta_tool_calls a(1)])
  also have "same_text a1 a2" by (rule side_step [OF same.preserves_delta_reasoning a(2)])
  also (same_text_trans) have "same_text a2 a3" by (rule side_step [OF images a(3)])
  also (same_text_trans) have "same_text a3 a4" by (rule side_step [OF same.preserves_message_images a(4)])
  also (same_text_trans) have "same_text a4 a5" by (rule side_step [OF same.preserves_finish_reason a(5)])
  finally (same_text_trans) have "same_text s a5" .
  then show ?thesis using take_content_answer(1) [OF last, of rest] take_content_answer(2) [OF last] content
    by (simp add: same_text_answer)
qed

lemma no_choice: "chunk_content chunk = []" if "\<And>choice rest. jget chunk ''choices'' \<noteq> JList (choice # rest)"
  using that by (auto simp: chunk_content_def chunk_delta_def split: json.split list.split)

lemma take_choices_answer:
  assumes "take_choices rq chunk s = (True, s')"
  shows "answer_with rq s' rest = answer_with rq s (chunk_content chunk @ rest) \<and> (tag_free rq s \<longrightarrow> tag_free rq s')"
proof (cases "\<exists>choice more. jget chunk ''choices'' = JList (choice # more)")
  case True
  then obtain choice more where c: "jget chunk ''choices'' = JList (choice # more)" by blast
  then obtain kvs where "chunk = JObj kvs" "map_of kvs ''choices'' = Some (JList (choice # more))"
    by (cases chunk) (auto split: option.splits)
  with assms have "take_choice rq choice s = (True, s')"
    by (auto simp: take_choices_def has_key_def dict_at_def given_def image_iff dest: map_of_SomeD split: if_splits)
      (metis goes_on_def fst_conv map_of_SomeD)
  from take_choice_answer [OF this, of rest] c show ?thesis by (simp add: chunk_content_def chunk_delta_def)
next
  case False
  then have "chunk_content chunk = []" by (intro no_choice) blast
  moreover have "s' = s"
    using assms False by (cases chunk) (auto simp: take_choices_def has_key_def dict_at_def given_def raises_def goes_on_def
      split: if_splits option.splits json.splits list.splits)
  ultimately show ?thesis by simp
qed

lemma take_chunk_answer:
  assumes "take_chunk rq chunk s = (True, s')"
  shows "answer_with rq s' rest = answer_with rq s (chunk_content chunk @ rest) \<and> (tag_free rq s \<longrightarrow> tag_free rq s')"
proof -
  from assms obtain a1 a2 a3 a4 where a: "take_generation_id chunk s = (True, a1)" "take_model rq chunk a1 = (True, a2)"
    "take_choices rq chunk a2 = (True, a3)" "take_usage chunk a3 = (True, a4)" "take_final_reasoning chunk a4 = (True, s')"
    by (auto simp: take_chunk_def and_then_True goes_on_def)
  have "same_text s a2"
    by (rule same_text_trans [OF side_step [OF same.preserves_take_generation_id a(1)] side_step [OF same.preserves_take_model a(2)]])
  moreover have "same_text a3 s'"
    by (rule same_text_trans [OF side_step [OF same.preserves_take_usage a(4)] side_step [OF same.preserves_take_final_reasoning a(5)]])
  ultimately show ?thesis using take_choices_answer [OF a(3), of rest] by (simp add: same_text_answer)
qed

lemma read_lines_answer:
  assumes "read_lines q catalog rq dropped lines s = (True, s')" and "list_ex is_done lines"
    and "tag_free rq s" and "told st s"
  shows "\<exists>s1. tag_free rq s1 \<and> told st s1 \<and> finish_stream q catalog rq s1 = (True, s')
    \<and> answer_with rq s1 [] = answer_with rq s (lines_text lines)"
  using assms
proof (induction lines arbitrary: s)
  case (Cons line lines)
  show ?case
  proof (cases "line_data line")
    case None
    then show ?thesis using Cons by (simp add: is_done_def)
  next
    case (Some data)
    show ?thesis
    proof (cases "strip data = ''[DONE]''")
      case True with Some Cons.prems show ?thesis by auto
    next
      case False
      then have "\<not> is_done line" using Some by (simp add: is_done_def)
      then have rest: "list_ex is_done lines" using Cons.prems(2) by simp
      show ?thesis
      proof (cases "loads data")
        case None with Some False Cons rest show ?thesis by simp
      next
        case chunk: (Some chunk)
        with Cons.prems(1) Some False obtain s1 where s1: "take_chunk rq chunk s = (True, s1)"
          "read_lines q catalog rq dropped lines s1 = (True, s')" by (auto simp: and_then_True)
        have "told st s1" using told.preserves_take_chunk s1(1) Cons.prems(4) by (rule preservesD)
        with take_chunk_answer [OF s1(1), of "lines_text lines"] Cons.IH [OF s1(2) rest] Cons.prems(3) Some False chunk
        show ?thesis by auto
      qed
    qed
  qed
qed simp

text \<open>The end of the stream adds what the buffer holds and no other content.\<close>

lemma finish_stream_answer:
  assumes "finish_stream q catalog rq s = (True, s')" and "tag_free rq s" and "told st s"
  shows "concat (contents (cs_out s')) = answer_with rq s []"
proof -
  obtain s2 s3 where s2: "flush_content rq s = (True, s2)" and s3: "flush_reasoning s2 = (True, s3)"
    and last: "(if empty_stream s3 \<and> \<not> called_tools s3 then yields (empty_error s3) s3
          else case cs_usage s3 of None \<Rightarrow> finish_unbilled s3 | Some (p, c, t) \<Rightarrow> bill_and_finish q catalog rq p c t s3) = (True, s')"
    using assms(1) unfolding finish_stream_def in_order3_True by blast
  have told3: "told st s3" using told_flush_reasoning preservesD [OF told.preserves_flush_content s2 assms(3)] s3 by (metis snd_conv)
  have "contents (cs_out s') = contents (cs_out s3)"
    using preservesD [OF closing_keeps_told [of "cs_reasoning s3" "reasonings (cs_out s3)" "contents (cs_out s3)" q catalog rq] last] by blast
  moreover have "cs_content s3 = cs_content s2"
    using s3 by (auto simp: flush_reasoning_def show_reasoning_eq split: option.splits prod.splits if_splits)
  moreover have "concat (cs_content s2) = answer_with rq s []"
  proof (cases "sq_enable_reasoning rq")
    case on: True
    then have reads: "read_tags (cs_in_think s) (cs_buffer s) = (if cs_in_think s then ([], cs_buffer s) else (cs_buffer s, []))"
      using assms(2) by (simp add: tag_free_def no_tag_def read_tags.simps [of _ "cs_buffer s"])
    show ?thesis
    proof (cases "cs_buffer s = [] \<or> \<not> cs_in_think s")
      case True
      with on s2 reads show ?thesis
        by (auto simp: flush_content_def answer_with_def and_then_True show_content_eq updates_def split: if_splits)
    next
      case False
      then obtain s1 where s1: "take_reasoning (cs_buffer s) s = (True, s1)" "s2 = s1\<lparr>cs_buffer := []\<rparr>"
        using on s2 by (auto simp: flush_content_def and_then_True updates_def)
      with take_reasoning_same [OF s1(1)] False on reads show ?thesis by (simp add: answer_with_def same_text_def)
    qed
  next
    case False
    with s2 show ?thesis
      by (auto simp: flush_content_def answer_with_def and_then_True show_content_eq updates_def split: if_splits)
  qed
  ultimately show ?thesis using told3 by (simp add: told_def)
qed

text \<open>C31: However the provider cuts its answer into deltas, the content a completed stream shows is the text
  of the deltas outside the reasoning blocks, and all of it where reasoning is switched off.\<close>

theorem answer_survives_chunking:
  assumes "read_lines q catalog rq dropped lines (start_stream rq filt st) = (True, s)" and "list_ex is_done lines"
  shows "concat (contents (cs_out s)) =
    (if sq_enable_reasoning rq then fst (read_tags False (lines_text lines)) else lines_text lines)"
proof -
  have "tag_free rq (start_stream rq filt st)"
    by (simp add: tag_free_def start_stream_def no_tag_def tag_for_def open_tag_def cut_at.simps [of _ "[]"] starts_with_def)
  from read_lines_answer [OF assms this told_start] obtain s1 where "tag_free rq s1" "told st s1"
    "finish_stream q catalog rq s1 = (True, s)" "answer_with rq s1 [] = answer_with rq (start_stream rq filt st) (lines_text lines)"
    by blast
  with finish_stream_answer show ?thesis by (simp add: answer_with_def start_stream_def)
qed

lemma answer_survives_chunking_witness:
  "concat (contents (cs_out demo_end)) = fst (read_tags False (lines_text demo_lines))"
  using answer_survives_chunking [OF demo_end(1) demo_is_done] by (simp add: demo_stream_request_def)

end
