(* ===== verification/Context_Compaction.thy ===== *)
theory Context_Compaction
  imports Agent_Graph_Properties Think_Tags Smart_Router Cost_Calculator
begin

text \<open>
  Relieving a full context window: \<^verbatim>\<open>src/core/llm/context_compaction.py\<close>, which summarizes the
  middle of a long conversation, and \<^verbatim>\<open>src/core/llm/agent_service/context_window.py\<close>, the port
  through which the agent loop asks for it before every generation.

  The compactor works on dictionaries of JSON values and reads them as the code does; \<open>None\<close> is an
  exception.  Parameters are the summarizing model (\<open>chat\<close>: the text of its answer, or the text of
  what it raised), Python's \<^verbatim>\<open>str\<close> of a value (\<open>repr\<close>) and the milliseconds the summary took.
\<close>

section \<open>Configuration, metrics and results\<close>

definition CHARS_PER_TOKEN :: nat where "CHARS_PER_TOKEN = 4"
definition MIN_MESSAGES_TO_KEEP :: nat where "MIN_MESSAGES_TO_KEEP = 3"

definition DEFAULT_CONTEXT_LIMITS :: "(string \<times> int) list" where
  "DEFAULT_CONTEXT_LIMITS =
     [(''gpt-4'', 128000), (''gpt-4o'', 128000), (''gpt-4-turbo'', 128000), (''gpt-3.5-turbo'', 16385),
      (''claude-3'', 200000), (''claude-3.5'', 200000), (''claude-3-5'', 200000), (''claude-sonnet'', 200000),
      (''claude-opus'', 200000), (''claude-haiku'', 200000), (''default'', 128000)]"

datatype compaction_strategy = PERCENTAGE | TOKEN_COUNT | MESSAGE_COUNT

text \<open>The default prompt is a fixed text, here a field; two fields nothing reads are left out.\<close>

record compaction_config =
  cc_enabled :: bool
  cc_strategy :: compaction_strategy
  cc_threshold_percentage :: rat
  cc_threshold_tokens :: int
  cc_threshold_messages :: int
  cc_summary_max_tokens :: int
  cc_preserve_system_prompt :: bool
  cc_preserve_first_user_message :: bool
  cc_preserve_recent_messages :: int
  cc_custom_summary_prompt :: "string option"
  cc_default_summary_prompt :: string

definition get_summary_prompt :: "compaction_config \<Rightarrow> string" where
  "get_summary_prompt cfg = (case cc_custom_summary_prompt cfg of
      Some p \<Rightarrow> if p = [] then cc_default_summary_prompt cfg else p
    | None \<Rightarrow> cc_default_summary_prompt cfg)"

definition get_threshold_tokens :: "compaction_config \<Rightarrow> int \<Rightarrow> int" where
  "get_threshold_tokens cfg limit = (case cc_strategy cfg of
      PERCENTAGE \<Rightarrow> (let x = of_int limit * cc_threshold_percentage cfg in if x < 0 then - \<lfloor>- x\<rfloor> else \<lfloor>x\<rfloor>)
    | TOKEN_COUNT \<Rightarrow> cc_threshold_tokens cfg
    | MESSAGE_COUNT \<Rightarrow> limit)"

record compaction_metrics =
  cm_original_message_count :: nat
  cm_original_token_estimate :: nat
  cm_compacted_message_count :: nat
  cm_compacted_token_estimate :: nat
  cm_tokens_saved :: int
  cm_compression_ratio :: rat
  cm_summarization_duration_ms :: int

definition no_metrics :: compaction_metrics where
  "no_metrics = \<lparr>cm_original_message_count = 0, cm_original_token_estimate = 0, cm_compacted_message_count = 0,
     cm_compacted_token_estimate = 0, cm_tokens_saved = 0, cm_compression_ratio = 1, cm_summarization_duration_ms = 0\<rparr>"

definition calculate_derived_metrics :: "compaction_metrics \<Rightarrow> compaction_metrics" where
  "calculate_derived_metrics m =
     (let m = m\<lparr>cm_tokens_saved := int (cm_original_token_estimate m) - int (cm_compacted_token_estimate m)\<rparr>
      in if 0 < cm_original_token_estimate m
         then m\<lparr>cm_compression_ratio := of_nat (cm_compacted_token_estimate m) / of_nat (cm_original_token_estimate m)\<rparr>
         else m)"

record compaction_result =
  cr_was_compacted :: bool
  cr_messages :: "json_dict list"
  cr_summary_text :: "string option"
  cr_metrics :: compaction_metrics
  cr_error :: "string option"

definition unchanged :: "json_dict list \<Rightarrow> compaction_result" where
  "unchanged ms = \<lparr>cr_was_compacted = False, cr_messages = ms, cr_summary_text = None,
     cr_metrics = no_metrics\<lparr>cm_original_message_count := length ms, cm_compacted_message_count := length ms\<rparr>,
     cr_error = None\<rparr>"

definition compaction_failed :: "json_dict list \<Rightarrow> string \<Rightarrow> compaction_result" where
  "compaction_failed ms e = (unchanged ms)\<lparr>cr_error := Some e\<rparr>"

section \<open>Estimating tokens\<close>

definition estimate_tokens :: "string \<Rightarrow> nat" where
  "estimate_tokens s = (if s = [] then 0 else max 1 (length s div CHARS_PER_TOKEN))"

text \<open>Of a value that should be a string: what is falsy counts nothing, what has no length raises.\<close>

definition estimate_value :: "json \<Rightarrow> nat option" where
  "estimate_value v = (if \<not> truthy v then Some 0
     else case v of
       JStr s \<Rightarrow> Some (estimate_tokens s)
     | JList xs \<Rightarrow> Some (max 1 (length xs div CHARS_PER_TOKEN))
     | JObj kvs \<Rightarrow> Some (max 1 (length kvs div CHARS_PER_TOKEN))
     | _ \<Rightarrow> None)"

fun sum_values :: "('a \<Rightarrow> nat option) \<Rightarrow> 'a list \<Rightarrow> nat option" where
  "sum_values f [] = Some 0"
| "sum_values f (x # xs) = Option.bind (f x) (\<lambda>n. map_option ((+) n) (sum_values f xs))"

definition estimate_block :: "(json \<Rightarrow> string) \<Rightarrow> json \<Rightarrow> nat option" where
  "estimate_block repr block = (case block of
      JObj kvs \<Rightarrow>
        (let type = dict_get kvs ''type'' JNull
         in if type = JStr ''text'' then estimate_value (dict_get kvs ''text'' (JStr []))
            else if type = JStr ''tool_use''
            then sum_values estimate_value
                   [dict_get kvs ''name'' (JStr []), JStr (repr (dict_get kvs ''input'' (JObj [])))]
            else if type = JStr ''tool_result'' then Some (estimate_tokens (repr (dict_get kvs ''content'' (JStr []))))
            else Some 0)
    | JStr s \<Rightarrow> Some (estimate_tokens s)
    | _ \<Rightarrow> Some 0)"

definition estimate_call :: "json \<Rightarrow> nat option" where
  "estimate_call call = (case call of
      JObj kvs \<Rightarrow> (case dict_get kvs ''function'' (JObj []) of
          JObj func \<Rightarrow> sum_values estimate_value [dict_get func ''name'' (JStr []), dict_get func ''arguments'' (JStr [])]
        | _ \<Rightarrow> None)
    | _ \<Rightarrow> Some 0)"

text \<open>Looping over what is not iterable raises; the keys and characters of other values count nothing.\<close>

definition estimate_message :: "(json \<Rightarrow> string) \<Rightarrow> json_dict \<Rightarrow> nat option" where
  "estimate_message repr m =
     Option.bind (case dict_get m ''content'' (JStr []) of
         JStr s \<Rightarrow> Some (estimate_tokens s)
       | JList blocks \<Rightarrow> sum_values (estimate_block repr) blocks
       | _ \<Rightarrow> Some 0) (\<lambda>content.
     map_option (\<lambda>calls. 4 + content + calls) (case dict_get m ''tool_calls'' (JList []) of
         JList calls \<Rightarrow> sum_values estimate_call calls
       | JStr _ \<Rightarrow> Some 0
       | JObj _ \<Rightarrow> Some 0
       | _ \<Rightarrow> None))"

definition estimate_messages_tokens :: "(json \<Rightarrow> string) \<Rightarrow> json_dict list \<Rightarrow> nat option" where
  "estimate_messages_tokens repr = sum_values (estimate_message repr)"

section \<open>The summary\<close>

definition extract_summary_content :: "string \<Rightarrow> string" where
  "extract_summary_content text = (case cut_at ''<summary>'' text of
      None \<Rightarrow> strip text
    | Some (_, after) \<Rightarrow> (case cut_at ''</summary>'' after of
        None \<Rightarrow> strip text
      | Some (inner, _) \<Rightarrow> strip inner))"

text \<open>\<^verbatim>\<open>OpenAICompatibleSummarizer.summarize\<close>; a request that fails is a \<^verbatim>\<open>SummarizationError\<close>.\<close>

definition summarize :: "(json_dict list \<Rightarrow> int \<Rightarrow> string + string) \<Rightarrow> json_dict list \<Rightarrow> string \<Rightarrow> int \<Rightarrow> string + string" where
  "summarize chat ms prompt max_tokens =
     (case chat (ms @ [[(''role'', JStr ''user''), (''content'', JStr prompt)]]) max_tokens of
        Inl e \<Rightarrow> Inl (''Failed to generate summary: '' @ e)
      | Inr text \<Rightarrow> Inr (extract_summary_content text))"

section \<open>Compaction\<close>

definition needs_compaction :: "compaction_config \<Rightarrow> (json \<Rightarrow> string) \<Rightarrow> json_dict list \<Rightarrow> int \<Rightarrow> (bool \<times> nat) option" where
  "needs_compaction cfg repr ms limit =
     (if \<not> cc_enabled cfg then Some (False, 0)
      else if cc_strategy cfg = MESSAGE_COUNT
      then (if cc_threshold_messages cfg \<le> int (length ms) then map_option (Pair True) (estimate_messages_tokens repr ms)
            else Some (False, 0))
      else map_option (\<lambda>n. (get_threshold_tokens cfg limit \<le> int n, n)) (estimate_messages_tokens repr ms))"

definition role_is :: "string \<Rightarrow> json_dict \<Rightarrow> bool" where
  "role_is role m \<longleftrightarrow> dict_get m ''role'' JNull = JStr role"

text \<open>The loop for the first message of the user: that message and what follows it.\<close>

fun first_user :: "json_dict list \<Rightarrow> (json_dict \<times> json_dict list) option" where
  "first_user [] = None"
| "first_user (m # ms) = (if role_is ''user'' m then Some (m, ms) else first_user ms)"

definition extract_messages_to_preserve ::
    "compaction_config \<Rightarrow> json_dict list \<Rightarrow> json_dict list \<times> json_dict list \<times> json_dict list" where
  "extract_messages_to_preserve cfg ms = (case ms of
      [] \<Rightarrow> ([], [], [])
    | first # others \<Rightarrow>
        let keep_system = cc_preserve_system_prompt cfg \<and> role_is ''system'' first;
            start = (if keep_system then [first] else []);
            rest = (if keep_system then others else ms);
            (start, rest) = (case (if cc_preserve_first_user_message cfg then first_user rest else None) of
                Some (m, after) \<Rightarrow> (start @ [m], after)
              | None \<Rightarrow> (start, rest));
            preserve_count = min (nat (cc_preserve_recent_messages cfg)) (length rest);
            middle = take (length rest - preserve_count) rest;
            recent = drop (length rest - preserve_count) rest
        in if length middle < MIN_MESSAGES_TO_KEEP then (ms, [], []) else (start, middle, recent))"

definition summary_message :: "string \<Rightarrow> json_dict" where
  "summary_message summary = [(''role'', JStr ''assistant''),
     (''content'', JStr (''[Previous conversation summarized due to context limits]'' @ [CHR 10, CHR 10] @ summary))]"

text \<open>The second estimate cannot raise where the first did not; the branch follows the code's \<^verbatim>\<open>except\<close>.\<close>

definition compact :: "compaction_config \<Rightarrow> (json \<Rightarrow> string) \<Rightarrow> (json_dict list \<Rightarrow> int \<Rightarrow> string + string) \<Rightarrow> int
    \<Rightarrow> json_dict list \<Rightarrow> compaction_result option" where
  "compact cfg repr chat duration ms =
     Option.bind (estimate_messages_tokens repr ms) (\<lambda>before.
       let (start, middle, recent) = extract_messages_to_preserve cfg ms
       in if middle = [] then Some (unchanged ms)
          else Some (case summarize chat (start @ middle) (get_summary_prompt cfg) (cc_summary_max_tokens cfg) of
              Inl e \<Rightarrow> compaction_failed ms e
            | Inr summary \<Rightarrow>
                let compacted = start @ [summary_message summary] @ recent
                in case estimate_messages_tokens repr compacted of
                     None \<Rightarrow> compaction_failed ms ''estimate''
                   | Some after \<Rightarrow>
                       \<lparr>cr_was_compacted = True, cr_messages = compacted, cr_summary_text = Some summary,
                        cr_metrics = calculate_derived_metrics (no_metrics\<lparr>cm_original_message_count := length ms,
                          cm_original_token_estimate := before, cm_compacted_message_count := length compacted,
                          cm_compacted_token_estimate := after, cm_summarization_duration_ms := duration\<rparr>),
                        cr_error = None\<rparr>))"

definition compact_if_needed :: "compaction_config \<Rightarrow> (json \<Rightarrow> string) \<Rightarrow> (json_dict list \<Rightarrow> int \<Rightarrow> string + string) \<Rightarrow> int
    \<Rightarrow> json_dict list \<Rightarrow> int \<Rightarrow> compaction_result option" where
  "compact_if_needed cfg repr chat duration ms limit =
     Option.bind (needs_compaction cfg repr ms limit)
       (\<lambda>(needs_it, _). if needs_it then compact cfg repr chat duration ms else Some (unchanged ms))"

text \<open>The first family whose name is part of the model's.\<close>

definition get_model_context_limit :: "string \<Rightarrow> int" where
  "get_model_context_limit model =
     (case find (\<lambda>(key, _). contains key (lower model)) DEFAULT_CONTEXT_LIMITS of
        Some (_, limit) \<Rightarrow> limit
      | None \<Rightarrow> the (map_of DEFAULT_CONTEXT_LIMITS ''default''))"

section \<open>The port of the agent loop\<close>

definition COMPACTION_THRESHOLD_PERCENTAGE :: rat where "COMPACTION_THRESHOLD_PERCENTAGE = 1 / 2"
definition COMPACTION_PRESERVE_RECENT_MESSAGES :: int where "COMPACTION_PRESERVE_RECENT_MESSAGES = 4"
definition COMPACTION_SUMMARY_MAX_TOKENS :: int where "COMPACTION_SUMMARY_MAX_TOKENS = 2048"

definition window_config :: "string \<Rightarrow> compaction_config" where
  "window_config prompt = \<lparr>cc_enabled = True, cc_strategy = PERCENTAGE,
     cc_threshold_percentage = COMPACTION_THRESHOLD_PERCENTAGE, cc_threshold_tokens = 100000, cc_threshold_messages = 50,
     cc_summary_max_tokens = COMPACTION_SUMMARY_MAX_TOKENS, cc_preserve_system_prompt = True,
     cc_preserve_first_user_message = True, cc_preserve_recent_messages = COMPACTION_PRESERVE_RECENT_MESSAGES,
     cc_custom_summary_prompt = None, cc_default_summary_prompt = prompt\<rparr>"

text \<open>What the port is built with: the summarizer's endpoint, \<open>None\<close> when looking it up raises, and
  what each summary takes.\<close>

record context_window =
  cw_model_id :: string
  cw_chat :: "(json_dict list \<Rightarrow> int \<Rightarrow> string + string) option"
  cw_show :: "json \<Rightarrow> string"
  cw_duration :: "nat \<Rightarrow> int"
  cw_prompt :: string

definition as_mapping :: "provider_message \<Rightarrow> json_dict" where
  "as_mapping m = [(''role'', JStr (pm_role m)), (''content'', JStr (the_default [] (pm_content m)))]"

text \<open>The key a message is found under, of a message and of an entry: a later message replaces an
  earlier one with the same key.\<close>

definition message_key :: "provider_message \<Rightarrow> json \<times> json" where
  "message_key m = (JStr (pm_role m), JStr (the_default [] (pm_content m)))"

definition entry_key :: "json_dict \<Rightarrow> json \<times> json" where
  "entry_key e = (dict_get e ''role'' (JStr []), dict_get e ''content'' (JStr []))"

definition survivors :: "provider_message list \<Rightarrow> json \<times> json \<Rightarrow> provider_message option" where
  "survivors ms = map_of (rev (map (\<lambda>m. (message_key m, m)) ms))"

definition plain_message :: "string \<Rightarrow> string \<Rightarrow> provider_message" where
  "plain_message role content = \<lparr>pm_role = role, pm_content = Some content, pm_tool_calls = None,
     pm_tool_call_id = None, pm_name = None\<rparr>"

text \<open>Entries hold strings: they come from \<^verbatim>\<open>as_mapping\<close> or are the summary.\<close>

definition entry_message :: "json_dict \<Rightarrow> provider_message" where
  "entry_message e = plain_message (the_default [] (jstr (dict_get e ''role'' (JStr []))))
     (the_default [] (jstr (dict_get e ''content'' (JStr []))))"

definition as_provider_messages :: "json_dict list \<Rightarrow> provider_message list \<Rightarrow> provider_message list" where
  "as_provider_messages compacted original =
     map (\<lambda>e. the_default (entry_message e) (survivors original (entry_key e))) compacted"

definition compacted_event :: "compaction_metrics \<Rightarrow> stream_event" where
  "compacted_event m = ContextCompactedEvent (int (cm_original_message_count m)) (int (cm_compacted_message_count m))
     (cm_tokens_saved m) (Some (int (cm_original_token_estimate m))) (Some (int (cm_compacted_token_estimate m)))
     (Some (of_int (round_half_even (cm_compression_ratio m * 100)) / 100)) (Some (cm_summarization_duration_ms m))"

text \<open>\<^verbatim>\<open>CompactingContextWindow.relieve\<close>, the \<open>n\<close>th time it is asked; whatever raises leaves the history as it is.\<close>

definition relieve :: "context_window \<Rightarrow> string \<Rightarrow> nat \<Rightarrow> provider_message list \<Rightarrow> provider_message list \<times> stream_event list" where
  "relieve W model n original =
     (case Option.bind (cw_chat W) (\<lambda>chat.
        compact_if_needed (window_config (cw_prompt W)) (cw_show W) chat (cw_duration W n) (map as_mapping original)
          (get_model_context_limit (if model = [] then cw_model_id W else model))) of
        None \<Rightarrow> (original, [])
      | Some r \<Rightarrow> if cr_was_compacted r
                  then (as_provider_messages (cr_messages r) original, [compacted_event (cr_metrics r)])
                  else (original, []))"

end
