(* ===== verification/Context_Properties.thy ===== *)
theory Context_Properties
  imports Context_Compaction
begin

text \<open>
  Properties of the compaction of long conversations: what a compacted history keeps and what it
  drops, that compaction settles, and how far the port of the agent loop meets what the loop relies
  on, namely that every call stays with its answer.
\<close>

section \<open>The parts of a conversation\<close>

lemma role_is_simps [simp]:
  "role_is role [(''role'', JStr r), (''content'', c)] \<longleftrightarrow> r = role"
  "role_is role (as_mapping m) \<longleftrightarrow> pm_role m = role"
  "role_is role (summary_message s) \<longleftrightarrow> role = ''assistant''"
  by (auto simp: role_is_def dict_get_def as_mapping_def summary_message_def)

lemma first_user_None: "first_user ms = None \<longleftrightarrow> (\<forall>m \<in> set ms. \<not> role_is ''user'' m)"
  by (induction ms) simp_all

lemma first_user_Some:
  "first_user ms = Some (m, after) \<Longrightarrow>
     \<exists>lost. ms = lost @ m # after \<and> role_is ''user'' m \<and> (\<forall>x \<in> set lost. \<not> role_is ''user'' x)"
proof (induction ms)
  case (Cons x xs)
  then show ?case by (cases "role_is ''user'' x") (auto intro: exI [of _ "[]"] exI [of _ "x # _"])
qed simp

text \<open>The system prompt, what is left out in front of the first user message, that message, what is
  summarized, and the recent messages.\<close>

definition parts :: "compaction_config \<Rightarrow> json_dict list \<Rightarrow> json_dict list \<Rightarrow> json_dict list \<Rightarrow> json_dict list
    \<Rightarrow> json_dict list \<Rightarrow> json_dict list \<Rightarrow> bool" where
  "parts cfg ms sys lost user middle recent \<longleftrightarrow> ms = sys @ lost @ user @ middle @ recent
     \<and> length sys \<le> 1 \<and> (\<forall>m \<in> set sys. role_is ''system'' m)
     \<and> (cc_preserve_system_prompt cfg \<longrightarrow> sys = [] \<longrightarrow> \<not> role_is ''system'' (hd ms))
     \<and> length user \<le> 1 \<and> (\<forall>m \<in> set user. role_is ''user'' m)
     \<and> (\<forall>m \<in> set lost. \<not> role_is ''user'' m) \<and> (user = [] \<longrightarrow> lost = [])
     \<and> (cc_preserve_first_user_message cfg \<longrightarrow> user = [] \<longrightarrow> (\<forall>m \<in> set (middle @ recent). \<not> role_is ''user'' m))
     \<and> (\<not> cc_preserve_system_prompt cfg \<longrightarrow> sys = []) \<and> (\<not> cc_preserve_first_user_message cfg \<longrightarrow> user = [])
     \<and> MIN_MESSAGES_TO_KEEP \<le> length middle \<and> length recent = nat (cc_preserve_recent_messages cfg)"

lemma extract_parts:
  assumes "extract_messages_to_preserve cfg ms = (front, middle, recent)" and "middle \<noteq> []"
  shows "\<exists>sys lost user. parts cfg ms sys lost user middle recent \<and> front = sys @ user"
proof (cases ms)
  case Nil with assms show ?thesis by (simp add: extract_messages_to_preserve_def)
next
  case (Cons first others)
  define sys where "sys = (if cc_preserve_system_prompt cfg \<and> role_is ''system'' first then [first] else [])"
  define rest where "rest = (if cc_preserve_system_prompt cfg \<and> role_is ''system'' first then others else ms)"
  have ms: "ms = sys @ rest" by (simp add: sys_def rest_def Cons)
  obtain lost user rest' where u: "rest = lost @ user @ rest'" "\<forall>m \<in> set lost. \<not> role_is ''user'' m" "user = [] \<longrightarrow> lost = []"
    "\<forall>m \<in> set user. role_is ''user'' m" "length user \<le> 1" "\<not> cc_preserve_first_user_message cfg \<longrightarrow> user = []"
    "cc_preserve_first_user_message cfg \<longrightarrow> user = [] \<longrightarrow> (\<forall>m \<in> set rest'. \<not> role_is ''user'' m)"
    "(case (if cc_preserve_first_user_message cfg then first_user rest else None) of
        Some (m, after) \<Rightarrow> (sys @ [m], after) | None \<Rightarrow> (sys, rest)) = (sys @ user, rest')"
  proof (cases "if cc_preserve_first_user_message cfg then first_user rest else None")
    case None
    then show ?thesis by (intro that [of "[]" "[]" rest]) (auto simp: first_user_None split: if_splits)
  next
    case (Some r)
    then obtain m after where r: "r = (m, after)" by (cases r)
    with Some have fu: "first_user rest = Some (m, after)" "cc_preserve_first_user_message cfg" by (simp_all split: if_splits)
    from first_user_Some [OF fu(1)] obtain lost where
      lost: "rest = lost @ m # after" "role_is ''user'' m" "\<forall>x \<in> set lost. \<not> role_is ''user'' x" by blast
    show ?thesis by (rule that [of lost "[m]" after]) (use lost fu in simp_all)
  qed
  define count where "count = min (nat (cc_preserve_recent_messages cfg)) (length rest')"
  have "extract_messages_to_preserve cfg ms =
      (let (front, rest) = (case (if cc_preserve_first_user_message cfg then first_user rest else None) of
           Some (m, after) \<Rightarrow> (sys @ [m], after) | None \<Rightarrow> (sys, rest));
         k = length rest - min (nat (cc_preserve_recent_messages cfg)) (length rest)
       in if length (take k rest) < MIN_MESSAGES_TO_KEEP then (ms, [], []) else (front, take k rest, drop k rest))"
    by (cases "cc_preserve_system_prompt cfg \<and> role_is ''system'' first")
      (simp_all only: extract_messages_to_preserve_def Cons sys_def rest_def Let_def list.case if_True if_False append_Nil)
  then have ex: "(if length (take (length rest' - count) rest') < MIN_MESSAGES_TO_KEEP then (ms, [], [])
      else (sys @ user, take (length rest' - count) rest', drop (length rest' - count) rest')) = (front, middle, recent)"
    unfolding u(8) assms(1) by (simp only: Let_def prod.case count_def)
  with assms(2) have res: "front = sys @ user" "middle = take (length rest' - count) rest'"
      "recent = drop (length rest' - count) rest'" "MIN_MESSAGES_TO_KEEP \<le> length middle"
    by (auto split: if_splits)
  have "rest' = middle @ recent" by (simp add: res)
  moreover have "length recent = nat (cc_preserve_recent_messages cfg)"
    using res(2-4) by (auto simp: count_def min_def MIN_MESSAGES_TO_KEEP_def split: if_splits)
  moreover have "sys = [] \<longrightarrow> cc_preserve_system_prompt cfg \<longrightarrow> \<not> role_is ''system'' (hd ms)"
    by (auto simp: sys_def Cons)
  ultimately have "parts cfg ms sys lost user middle recent"
    using ms u(1-7) res(4) by (auto simp: parts_def sys_def split: if_splits)
  with res(1) show ?thesis by blast
qed

text \<open>After a compaction there is nothing left to summarize: one summary lies between the ends.\<close>

lemma extract_again:
  assumes "parts cfg ms sys lost user middle recent" and "role_is ''assistant'' s"
  shows "\<exists>front. extract_messages_to_preserve cfg (sys @ user @ s # recent) = (front, [], [])"
proof -
  have s: "\<not> role_is ''system'' s" "\<not> role_is ''user'' s" using assms(2) by (auto simp: role_is_def)
  let ?cs = "sys @ user @ s # recent"
  have not_both: "role_is ''user'' m \<Longrightarrow> \<not> role_is ''system'' m" for m by (simp add: role_is_def)
  have few: "length (take (length (s # recent) - min (nat (cc_preserve_recent_messages cfg)) (length (s # recent))) (s # recent)) < MIN_MESSAGES_TO_KEEP"
    using assms(1) by (simp add: parts_def MIN_MESSAGES_TO_KEEP_def)
  have none: "first_user (s # recent) = None" if "cc_preserve_first_user_message cfg" "user = []"
    using assms(1) that s by (auto simp: parts_def first_user_None)
  show ?thesis
  proof (cases sys)
    case Nil
    show ?thesis
    proof (cases user)
      case Nil
      with \<open>sys = []\<close> few none s show ?thesis by (auto simp: extract_messages_to_preserve_def Let_def)
    next
      case (Cons u us)
      with assms(1) have "us = []" "role_is ''user'' u" "cc_preserve_first_user_message cfg" by (auto simp: parts_def)
      with \<open>sys = []\<close> Cons few not_both [of u] show ?thesis by (auto simp: extract_messages_to_preserve_def Let_def)
    qed
  next
    case (Cons p ps)
    with assms(1) have p: "ps = []" "role_is ''system'' p" "cc_preserve_system_prompt cfg" by (auto simp: parts_def)
    show ?thesis
    proof (cases user)
      case Nil
      with Cons p few none show ?thesis by (auto simp: extract_messages_to_preserve_def Let_def)
    next
      case (Cons u us)
      with assms(1) have "us = []" "role_is ''user'' u" "cc_preserve_first_user_message cfg" by (auto simp: parts_def)
      with \<open>sys = p # ps\<close> p Cons few show ?thesis by (auto simp: extract_messages_to_preserve_def Let_def)
    qed
  qed
qed

section \<open>A compaction\<close>

lemma compact_compacted:
  assumes "compact cfg repr chat duration ms = Some r" and "cr_was_compacted r"
  obtains before sys lost user middle recent summary after where
    "estimate_messages_tokens repr ms = Some before"
    "parts cfg ms sys lost user middle recent"
    "summarize chat (sys @ user @ middle) (get_summary_prompt cfg) (cc_summary_max_tokens cfg) = Inr summary"
    "cr_messages r = sys @ user @ summary_message summary # recent" "cr_summary_text r = Some summary"
    "cr_metrics r = calculate_derived_metrics (no_metrics\<lparr>cm_original_message_count := length ms,
       cm_original_token_estimate := before, cm_compacted_message_count := length (cr_messages r),
       cm_compacted_token_estimate := after, cm_summarization_duration_ms := duration\<rparr>)"
proof -
  obtain front middle recent where ex: "extract_messages_to_preserve cfg ms = (front, middle, recent)" by (cases "extract_messages_to_preserve cfg ms") auto
  from assms obtain before where before: "estimate_messages_tokens repr ms = Some before"
    by (auto simp: compact_def bind_eq_Some_conv)
  have ne: "middle \<noteq> []" using assms before ex by (auto simp: compact_def unchanged_def)
  from extract_parts [OF ex ne] obtain sys lost user where p: "parts cfg ms sys lost user middle recent" "front = sys @ user" by blast
  from assms before ex ne p(2) show thesis
    by (cases "summarize chat (sys @ user @ middle) (get_summary_prompt cfg) (cc_summary_max_tokens cfg)")
      (auto simp: compact_def compaction_failed_def unchanged_def Let_def split: option.splits intro!: that [OF before p(1)])
qed

section \<open>The port\<close>

definition is_entry :: "json_dict \<Rightarrow> bool" where
  "is_entry e \<longleftrightarrow> (\<exists>r c. e = [(''role'', JStr r), (''content'', JStr c)])"

lemma is_entry_simps [simp]: "is_entry (as_mapping m)" "is_entry (summary_message s)"
  by (auto simp: is_entry_def as_mapping_def summary_message_def)

lemma entry_key_mapping [simp]: "entry_key (as_mapping m) = message_key m"
  by (simp add: entry_key_def as_mapping_def message_key_def dict_get_def)

lemma survivors_Some: "survivors ms k = Some m \<Longrightarrow> m \<in> set ms \<and> message_key m = k"
  unfolding survivors_def by (auto dest: map_of_SomeD)

lemma survivors_mem: "m \<in> set ms \<Longrightarrow> survivors ms (message_key m) \<noteq> None"
  unfolding survivors_def by (auto simp: map_of_eq_None_iff image_image)

lemma mapping_back:
  assumes "is_entry e"
  shows "as_mapping (the_default (entry_message e) (survivors ms (entry_key e))) = e"
proof (cases "survivors ms (entry_key e)")
  case None
  with assms show ?thesis
    by (auto simp: is_entry_def entry_message_def plain_message_def as_mapping_def dict_get_def)
next
  case (Some m)
  with survivors_Some [OF Some] assms show ?thesis
    by (auto simp: is_entry_def entry_key_def message_key_def as_mapping_def dict_get_def)
qed

lemma mappings_back: "\<forall>e \<in> set cs. is_entry e \<Longrightarrow> map as_mapping (as_provider_messages cs ms) = cs"
  by (simp add: as_provider_messages_def map_idI mapping_back)

lemma map_eq_parts:
  assumes "map f ms = a @ b @ c @ d @ e"
  shows "\<exists>a' b' c' d' e'. ms = a' @ b' @ c' @ d' @ e' \<and> a = map f a' \<and> b = map f b' \<and> c = map f c' \<and> d = map f d' \<and> e = map f e'"
proof -
  from assms obtain a' r where 1: "ms = a' @ r" "a = map f a'" "b @ c @ d @ e = map f r" unfolding map_eq_append_conv by metis
  from 1(3) [symmetric] obtain b' r2 where 2: "r = b' @ r2" "b = map f b'" "c @ d @ e = map f r2" unfolding map_eq_append_conv by metis
  from 2(3) [symmetric] obtain c' r3 where 3: "r2 = c' @ r3" "c = map f c'" "d @ e = map f r3" unfolding map_eq_append_conv by metis
  from 3(3) [symmetric] obtain d' e' where "r3 = d' @ e'" "d = map f d'" "e = map f e'" unfolding map_eq_append_conv by metis
  with 1 2 3 show ?thesis by blast
qed

lemma parts_window: "parts (window_config p) = parts (window_config q)"
  by (simp add: parts_def window_config_def fun_eq_iff)

lemma relieve_compacted:
  assumes "relieve W model n ms = (ms', es)" and "es \<noteq> []"
  obtains sys lost user middle recent summary m before where
    "ms = sys @ lost @ user @ middle @ recent"
    "parts (window_config (cw_prompt W)) (map as_mapping ms) (map as_mapping sys) (map as_mapping lost) (map as_mapping user)
       (map as_mapping middle) (map as_mapping recent)"
    "ms' = as_provider_messages (map as_mapping (sys @ user) @ summary_message summary # map as_mapping recent) ms"
    "es = [compacted_event m]" "cm_original_message_count m = length ms" "cm_compacted_message_count m = length ms'"
    "estimate_messages_tokens (cw_show W) (map as_mapping ms) = Some (cm_original_token_estimate m)"
    "get_threshold_tokens (window_config (cw_prompt W)) (get_model_context_limit (if model = [] then cw_model_id W else model))
       \<le> int (cm_original_token_estimate m)"
proof -
  let ?cfg = "window_config (cw_prompt W)" and ?limit = "get_model_context_limit (if model = [] then cw_model_id W else model)"
  from assms obtain chat r where chat: "cw_chat W = Some chat"
    and r: "compact_if_needed ?cfg (cw_show W) chat (cw_duration W n) (map as_mapping ms) ?limit = Some r" "cr_was_compacted r"
    and res: "ms' = as_provider_messages (cr_messages r) ms" "es = [compacted_event (cr_metrics r)]"
    by (auto simp: relieve_def split: option.splits if_splits simp: bind_eq_Some_conv)
  from r obtain before where need: "needs_compaction ?cfg (cw_show W) (map as_mapping ms) ?limit = Some (True, before)"
    and c: "compact ?cfg (cw_show W) chat (cw_duration W n) (map as_mapping ms) = Some r"
    by (auto simp: compact_if_needed_def unchanged_def bind_eq_Some_conv split: if_splits)
  have estimate: "estimate_messages_tokens (cw_show W) (map as_mapping ms) = Some before"
    "get_threshold_tokens ?cfg ?limit \<le> int before"
    using need by (auto simp: needs_compaction_def window_config_def)
  from compact_compacted [OF c r(2)] obtain before' sys lost user middle recent summary after where
    p: "estimate_messages_tokens (cw_show W) (map as_mapping ms) = Some before'"
      "parts ?cfg (map as_mapping ms) sys lost user middle recent"
      "cr_messages r = sys @ user @ summary_message summary # recent"
      "cr_metrics r = calculate_derived_metrics (no_metrics\<lparr>cm_original_message_count := length (map as_mapping ms),
         cm_original_token_estimate := before', cm_compacted_message_count := length (cr_messages r),
         cm_compacted_token_estimate := after, cm_summarization_duration_ms := cw_duration W n\<rparr>)"
    by (metis (no_types))
  from p(2) have "map as_mapping ms = sys @ lost @ user @ middle @ recent" by (simp add: parts_def)
  from map_eq_parts [OF this] obtain sys' lost' user' middle' recent' where
    ms: "ms = sys' @ lost' @ user' @ middle' @ recent'" "sys = map as_mapping sys'" "lost = map as_mapping lost'"
      "user = map as_mapping user'" "middle = map as_mapping middle'" "recent = map as_mapping recent'"
    by blast
  show thesis
    by (rule that [OF ms(1) _ _ res(2), of summary])
      (use p ms(2-) res estimate in \<open>auto simp: calculate_derived_metrics_def Let_def as_provider_messages_def\<close>)
qed

lemma half_window: "get_threshold_tokens (window_config p) limit \<le> k \<Longrightarrow> limit \<le> 2 * k + 1"
  by (simp add: get_threshold_tokens_def window_config_def COMPACTION_THRESHOLD_PERCENTAGE_def Let_def split: if_splits) linarith+

section \<open>A long history\<close>

lemma estimate_entry: "is_entry e \<Longrightarrow> \<exists>k. estimate_message repr e = Some k"
  by (auto simp: is_entry_def estimate_message_def dict_get_def)

lemma estimate_entries: "\<forall>e \<in> set cs. is_entry e \<Longrightarrow> \<exists>k. estimate_messages_tokens repr cs = Some k"
proof (induction cs)
  case (Cons e cs)
  then obtain j k where "estimate_message repr e = Some j" "estimate_messages_tokens repr cs = Some k"
    using estimate_entry [of e repr] by auto
  then show ?case by (simp add: estimate_messages_tokens_def)
qed (simp add: estimate_messages_tokens_def)

lemma estimate_mapping: "estimate_message repr (as_mapping m) = Some (4 + estimate_tokens (the_default [] (pm_content m)))"
  by (simp add: estimate_message_def as_mapping_def dict_get_def)

lemma estimate_at_least:
  "estimate_messages_tokens repr (map as_mapping ms) = Some k \<Longrightarrow> m \<in> set ms \<Longrightarrow>
     estimate_tokens (the_default [] (pm_content m)) \<le> k"
proof (induction ms arbitrary: k)
  case (Cons x ms)
  then obtain j where j: "estimate_messages_tokens repr (map as_mapping ms) = Some j"
    "k = 4 + estimate_tokens (the_default [] (pm_content x)) + j"
    by (auto simp: estimate_messages_tokens_def estimate_mapping)
  show ?case
  proof (cases "m = x")
    case False
    with Cons.prems(2) Cons.IH [OF j(1)] have "estimate_tokens (the_default [] (pm_content m)) \<le> j" by simp
    with j(2) show ?thesis by linarith
  qed (simp add: j(2))
qed simp

lemma relieve_long:
  assumes "cw_chat W = Some (\<lambda>_ _. Inr text)" and "m \<in> set ms"
    and "get_threshold_tokens (window_config (cw_prompt W)) (get_model_context_limit (if model = [] then cw_model_id W else model))
      \<le> int (estimate_tokens (the_default [] (pm_content m)))"
    and "extract_messages_to_preserve (window_config (cw_prompt W)) (map as_mapping ms)
      = (map as_mapping front, map as_mapping middle, map as_mapping recent)" and "middle \<noteq> []"
  shows "\<exists>e. relieve W model n ms = (as_provider_messages (map as_mapping front @
     summary_message (extract_summary_content text) # map as_mapping recent) ms, [e])"
proof -
  let ?cfg = "window_config (cw_prompt W)"
  let ?cs = "map as_mapping front @ summary_message (extract_summary_content text) # map as_mapping recent"
  obtain before where before: "estimate_messages_tokens (cw_show W) (map as_mapping ms) = Some before"
    using estimate_entries [of "map as_mapping ms"] by auto
  have "\<forall>e \<in> set ?cs. is_entry e" by auto
  from estimate_entries [OF this] obtain after where after: "estimate_messages_tokens (cw_show W) ?cs = Some after" by blast
  have "get_threshold_tokens ?cfg (get_model_context_limit (if model = [] then cw_model_id W else model)) \<le> int before"
    using assms(3) estimate_at_least [OF before assms(2)] by linarith
  then have "needs_compaction ?cfg (cw_show W) (map as_mapping ms) (get_model_context_limit (if model = [] then cw_model_id W else model)) = Some (True, before)"
    using before by (simp add: needs_compaction_def) (simp add: window_config_def)
  moreover have "\<exists>r. compact ?cfg (cw_show W) (\<lambda>_ _. Inr text) (cw_duration W n) (map as_mapping ms) = Some r \<and> cr_was_compacted r \<and> cr_messages r = ?cs"
    using assms(4,5) before after by (simp add: compact_def summarize_def Let_def)
  ultimately show ?thesis
    using assms(1) by (auto simp: relieve_def compact_if_needed_def)
qed

definition demo_window :: context_window where
  "demo_window = \<lparr>cw_model_id = ''gpt-3.5-turbo'', cw_chat = Some (\<lambda>_ _. Inr ''<summary>done</summary>''),
     cw_show = (\<lambda>_. []), cw_duration = (\<lambda>_. 7), cw_prompt = ''Summarize.''\<rparr>"

text \<open>A text that fills the window of that model by half.\<close>

definition long_text :: string where "long_text = replicate 40000 CHR ''a''"

lemma long_text: "8192 \<le> int (estimate_tokens long_text)" "long_text \<noteq> ''go''" "''go'' \<noteq> long_text"
proof -
  have n: "length long_text = 40000" by (simp only: long_text_def length_replicate)
  then show "8192 \<le> int (estimate_tokens long_text)" by (auto simp: estimate_tokens_def CHARS_PER_TOKEN_def)
  have "length ''go'' \<noteq> 40000" by simp
  with n show "long_text \<noteq> ''go''" "''go'' \<noteq> long_text" by metis+
qed

lemma demo_threshold: "get_threshold_tokens (window_config (cw_prompt demo_window)) (get_model_context_limit (if [] = [] then cw_model_id demo_window else [])) = 8192"
  by code_simp

text \<open>A round of the agent: a call without text, and its answer.\<close>

definition demo_round :: "string \<Rightarrow> string \<Rightarrow> provider_message list" where
  "demo_round i result =
     [(plain_message ''assistant'' [])\<lparr>pm_content := None, pm_tool_calls := Some [plain_call i ''search'' ''{}'']\<rparr>,
      (plain_message ''tool'' result)\<lparr>pm_tool_call_id := Some i\<rparr>]"

definition demo_front :: "provider_message list" where
  "demo_front = [plain_message ''system'' ''s'', plain_message ''user'' ''go'']"

definition demo_middle :: "provider_message \<Rightarrow> provider_message \<Rightarrow> provider_message list" where
  "demo_middle x y = [plain_message ''user'' long_text, x, y]"

lemma demo_relieved:
  assumes "length recent = 4"
  shows "\<exists>e. relieve demo_window [] n (demo_front @ demo_middle x y @ recent)
    = (as_provider_messages (map as_mapping demo_front @ summary_message ''done'' # map as_mapping recent)
         (demo_front @ demo_middle x y @ recent), [e])"
proof -
  have found: "extract_summary_content ''<summary>done</summary>'' = ''done''" by code_simp
  have "extract_messages_to_preserve (window_config (cw_prompt demo_window)) (map as_mapping (demo_front @ demo_middle x y @ recent))
      = (map as_mapping demo_front, map as_mapping (demo_middle x y), map as_mapping recent)"
    using assms by (simp add: extract_messages_to_preserve_def demo_front_def demo_middle_def plain_message_def
      window_config_def COMPACTION_PRESERVE_RECENT_MESSAGES_def MIN_MESSAGES_TO_KEEP_def Let_def)
  moreover have "plain_message ''user'' long_text \<in> set (demo_front @ demo_middle x y @ recent)" by (simp add: demo_middle_def)
  moreover have "get_threshold_tokens (window_config (cw_prompt demo_window)) (get_model_context_limit (if [] = [] then cw_model_id demo_window else []))
      \<le> int (estimate_tokens (the_default [] (pm_content (plain_message ''user'' long_text))))"
    using long_text(1) by (simp only: demo_threshold) (simp add: plain_message_def)
  ultimately show ?thesis
    using relieve_long [of demo_window "''<summary>done</summary>''" "plain_message ''user'' long_text" "demo_front @ demo_middle x y @ recent" "[]"
      demo_front "demo_middle x y" recent n]
    by (simp add: found) (simp add: demo_window_def demo_middle_def)
qed

section \<open>What relief does\<close>

definition cut_history :: "provider_message list" where
  "cut_history = demo_front @ demo_middle (plain_message ''user'' ''b'') (demo_round ''c1'' ''found'' ! 0)
     @ [demo_round ''c1'' ''found'' ! 1, plain_message ''assistant'' ''x'', plain_message ''user'' ''y'', plain_message ''assistant'' ''z'']"

definition twice_history :: "provider_message list" where
  "twice_history = demo_front @ demo_middle (plain_message ''user'' ''b'') (plain_message ''user'' ''c'')
     @ demo_round ''c1'' ''found'' @ demo_round ''c2'' ''more''"

definition good_history :: "provider_message list" where
  "good_history = demo_front @ demo_middle (plain_message ''user'' ''b'') (plain_message ''user'' ''c'')
     @ demo_round ''c1'' ''found'' @ [plain_message ''assistant'' ''x'', plain_message ''user'' ''y'']"

lemma long_text_short: "length s \<noteq> 40000 \<Longrightarrow> long_text \<noteq> s \<and> s \<noteq> long_text"
  using length_replicate [of 40000 "CHR ''a''"] unfolding long_text_def [symmetric] by metis

lemmas demo_histories = demo_front_def demo_middle_def demo_round_def

lemma demo_answered: "every_call_answered cut_history" "every_call_answered twice_history" "every_call_answered good_history"
  by (simp_all add: every_call_answered_def cut_history_def twice_history_def good_history_def demo_histories plain_message_def)

lemma demo_relieved_again:
  "\<exists>e. relieve demo_window [] n cut_history = (as_provider_messages (map as_mapping demo_front @ summary_message ''done'' #
       map as_mapping (drop 5 cut_history)) cut_history, [e])"
  "\<exists>e. relieve demo_window [] n twice_history = (as_provider_messages (map as_mapping demo_front @ summary_message ''done'' #
       map as_mapping (drop 5 twice_history)) twice_history, [e])"
  "\<exists>e. relieve demo_window [] n good_history = (as_provider_messages (map as_mapping demo_front @ summary_message ''done'' #
       map as_mapping (drop 5 good_history)) good_history, [e])"
  using demo_relieved [of "drop 5 cut_history"] demo_relieved [of "drop 5 twice_history"] demo_relieved [of "drop 5 good_history"]
  unfolding cut_history_def twice_history_def good_history_def
  by (simp_all add: demo_histories)

lemmas back_simps = as_provider_messages_def survivors_def entry_key_def message_key_def entry_message_def dict_get_def
  as_mapping_def summary_message_def demo_histories plain_message_def



text \<open>C34: Compaction settles: a history that was just compacted is left alone the next time, whatever the
  model, the summarizer and the port.\<close>

theorem relief_settles:
  assumes "relieve W model n ms = (ms', es)" and "es \<noteq> []"
  shows "relieve W' model' n' ms' = (ms', [])"
proof -
  from relieve_compacted [OF assms] obtain sys lost user middle recent summary where
    p: "parts (window_config (cw_prompt W)) (map as_mapping ms) (map as_mapping sys) (map as_mapping lost) (map as_mapping user)
         (map as_mapping middle) (map as_mapping recent)"
      "ms' = as_provider_messages (map as_mapping (sys @ user) @ summary_message summary # map as_mapping recent) ms"
    by metis
  have "map as_mapping ms' = map as_mapping (sys @ user) @ summary_message summary # map as_mapping recent"
    unfolding p(2) by (rule mappings_back) auto
  moreover have "parts (window_config (cw_prompt W')) (map as_mapping ms) (map as_mapping sys) (map as_mapping lost) (map as_mapping user)
         (map as_mapping middle) (map as_mapping recent)"
    using p(1) by (simp only: parts_window [of "cw_prompt W'" "cw_prompt W"])
  from extract_again [OF this, of "summary_message summary"] obtain front where
    "extract_messages_to_preserve (window_config (cw_prompt W')) (map as_mapping (sys @ user) @ summary_message summary # map as_mapping recent) = (front, [], [])"
    by auto
  ultimately have none: "extract_messages_to_preserve (window_config (cw_prompt W')) (map as_mapping ms') = (front, [], [])" by simp
  have "\<not> cr_was_compacted r" if "compact_if_needed (window_config (cw_prompt W')) (cw_show W') chat d (map as_mapping ms') limit = Some r" for chat d limit r
    using that none by (auto simp: compact_if_needed_def compact_def unchanged_def bind_eq_Some_conv split: if_splits)
  then show ?thesis by (auto simp: relieve_def bind_eq_Some_conv split: option.splits)
qed

theorem relief_settles_witness:
  "relieve demo_window [] 1 (fst (relieve demo_window [] 0 good_history)) = (fst (relieve demo_window [] 0 good_history), [])"
proof -
  from demo_relieved_again(3) [of 0] obtain ms' e where r: "relieve demo_window [] 0 good_history = (ms', [e])" by blast
  from relief_settles [OF r] r show ?thesis by simp
qed

section \<open>Calls and answers\<close>

lemma survivor_of:
  assumes "m \<in> set ms" and "\<forall>x \<in> set ms. message_key x = message_key m \<longrightarrow> x = m"
  shows "survivors ms (message_key m) = Some m"
  using survivors_mem [OF assms(1)] survivors_Some [of ms "message_key m"] assms(2) by fastforce

lemma as_provider_append: "as_provider_messages (xs @ ys) ms = as_provider_messages xs ms @ as_provider_messages ys ms"
  by (simp add: as_provider_messages_def)

lemma survivors_kept:
  assumes "set xs \<subseteq> set ms" and "\<forall>x \<in> set ms. \<forall>y \<in> set ms. message_key x = message_key y \<longrightarrow> x = y"
  shows "as_provider_messages (map as_mapping xs) ms = xs"
  using assms(1)
proof (induction xs)
  case (Cons x xs)
  moreover have "survivors ms (message_key x) = Some x" using survivor_of [of x ms] assms(2) Cons.prems by auto
  ultimately show ?case by (simp add: as_provider_messages_def)
qed (simp add: as_provider_messages_def)

text \<open>What the translation back needs: messages that look alike are the same, only an assistant calls
  tools, and what looks like a summary calls none.\<close>

definition recoverable :: "provider_message list \<Rightarrow> bool" where
  "recoverable ms \<longleftrightarrow> (\<forall>x \<in> set ms. \<forall>y \<in> set ms. message_key x = message_key y \<longrightarrow> x = y)
     \<and> (\<forall>x \<in> set ms. the_default [] (pm_tool_calls x) \<noteq> [] \<longrightarrow> pm_role x = ''assistant''
          \<and> \<not> starts_with ''[Previous conversation summarized'' (the_default [] (pm_content x)))"

lemma summary_recovered:
  assumes "recoverable ms"
  shows "\<exists>m. as_provider_messages [summary_message s] ms = [m] \<and> pm_role m = ''assistant'' \<and> the_default [] (pm_tool_calls m) = []"
proof (cases "survivors ms (entry_key (summary_message s))")
  case None
  then show ?thesis
    by (simp add: as_provider_messages_def entry_message_def plain_message_def summary_message_def dict_get_def)
next
  case (Some m)
  from survivors_Some [OF this] have "m \<in> set ms" "pm_role m = ''assistant''"
    "the_default [] (pm_content m) = ''[Previous conversation summarized due to context limits]'' @ [CHR 10, CHR 10] @ s"
    by (auto simp: message_key_def entry_key_def summary_message_def dict_get_def)
  then have "starts_with ''[Previous conversation summarized'' (the_default [] (pm_content m))"
    by (simp add: starts_with_def)
  with assms \<open>m \<in> set ms\<close> \<open>pm_role m = _\<close> Some show ?thesis
    by (auto simp: recoverable_def as_provider_messages_def)
qed

lemma due_quiet: "\<forall>m \<in> set ms. pm_role m \<noteq> ''tool'' \<and> the_default [] (pm_tool_calls m) = [] \<Longrightarrow> due {#} ms = Some {#}"
  by (induction ms) simp_all

text \<open>C32: Relief keeps every call with its answer when it cuts between two rounds of the agent, that is when
  the fourth message from the end is no answer of a tool, and when no two different messages of the
  history have the same role and text.\<close>

theorem relief_between_rounds_keeps_answers:
  assumes "every_call_answered ms" and "recoverable ms" and "pm_role (ms ! (length ms - 4)) \<noteq> ''tool''"
  shows "every_call_answered (fst (relieve W model n ms))"
proof (cases "snd (relieve W model n ms) = []")
  case True
  with assms(1) show ?thesis by (auto simp: relieve_def split: option.splits if_splits)
next
  case False
  obtain ms' es where r: "relieve W model n ms = (ms', es)" by (cases "relieve W model n ms")
  with False have "es \<noteq> []" by simp
  from relieve_compacted [OF r this] obtain sys lost user middle recent summary where
    p: "ms = sys @ lost @ user @ middle @ recent"
      "parts (window_config (cw_prompt W)) (map as_mapping ms) (map as_mapping sys) (map as_mapping lost) (map as_mapping user)
         (map as_mapping middle) (map as_mapping recent)"
      "ms' = as_provider_messages (map as_mapping (sys @ user) @ summary_message summary # map as_mapping recent) ms"
    by metis
  have same: "\<forall>x \<in> set ms. \<forall>y \<in> set ms. message_key x = message_key y \<longrightarrow> x = y" using assms(2) by (simp add: recoverable_def)
  from summary_recovered [OF assms(2), of summary] obtain s where
    s: "as_provider_messages [summary_message summary] ms = [s]" "pm_role s = ''assistant''" "the_default [] (pm_tool_calls s) = []"
    by blast
  have "ms' = as_provider_messages (map as_mapping (sys @ user)) ms @ as_provider_messages [summary_message summary] ms
      @ as_provider_messages (map as_mapping recent) ms"
    unfolding p(3) as_provider_append [symmetric] by simp
  moreover have sub: "set (sys @ user) \<subseteq> set ms" "set recent \<subseteq> set ms" using p(1) by auto
  ultimately have ms': "ms' = (sys @ user @ [s]) @ recent"
    by (simp only: survivors_kept [OF sub(1) same] survivors_kept [OF sub(2) same] s(1) append_assoc)
  have roles: "\<forall>x \<in> set sys. pm_role x = ''system''" "\<forall>x \<in> set user. pm_role x = ''user''" "length recent = 4"
    using p(2) unfolding parts_def by (simp_all add: window_config_def COMPACTION_PRESERVE_RECENT_MESSAGES_def)
  have "\<forall>x \<in> set sys \<union> set user. the_default [] (pm_tool_calls x) = []"
    using assms(2) roles p(1) by (fastforce simp: recoverable_def)
  with roles s(2,3) have settled: "due {#} (sys @ user @ [s]) = Some {#}" by (intro due_quiet) auto
  obtain x xs where x: "recent = x # xs" using roles(3) by (cases recent) auto
  have "ms ! (length ms - 4) = x" using p(1) roles(3) x by (simp add: nth_append)
  with assms(3) have x_no_tool: "pm_role x \<noteq> ''tool''" by simp
  from assms(1) obtain out where "due {#} (sys @ lost @ user @ middle) = Some out" "due out recent = Some {#}"
    unfolding every_call_answered_def p(1) using due_append [of "{#}" "sys @ lost @ user @ middle" recent]
    by (auto split: option.splits)
  moreover from this x x_no_tool have "out = {#}" by (auto split: if_splits)
  ultimately have "due {#} recent = Some {#}" by simp
  with settled show ?thesis
    unfolding r fst_conv ms' every_call_answered_def due_append [of "{#}" "sys @ user @ [s]" recent] by simp
qed

theorem relief_between_rounds_keeps_answers_witness:
  "every_call_answered (fst (relieve demo_window [] 0 good_history)) \<and> fst (relieve demo_window [] 0 good_history) \<noteq> good_history"
proof
  have "recoverable good_history"
    by (auto simp: recoverable_def good_history_def demo_histories plain_message_def message_key_def starts_with_def long_text_short)
  moreover have "pm_role (good_history ! (length good_history - 4)) \<noteq> ''tool''"
    by (simp add: good_history_def demo_histories plain_message_def)
  ultimately show "every_call_answered (fst (relieve demo_window [] 0 good_history))"
    by (rule relief_between_rounds_keeps_answers [OF demo_answered(3)])
  show "fst (relieve demo_window [] 0 good_history) \<noteq> good_history"
    using demo_relieved_again(3) [of 0] by (auto dest: arg_cong [of _ _ length] simp: as_provider_messages_def good_history_def demo_histories)
qed

text \<open>Neither condition can be dropped.  A call may be summarized while its answer is kept; and of two
  calls without text the earlier one comes back as the later.\<close>

lemma answer_loses_its_call: "\<not> every_call_answered (fst (relieve demo_window [] n cut_history))"
  using demo_relieved_again(1) [of n] long_text
  by (auto simp: every_call_answered_def cut_history_def back_simps)

lemma call_comes_back_as_another: "\<not> every_call_answered (fst (relieve demo_window [] n twice_history))"
  using demo_relieved_again(2) [of n] long_text
  by (auto simp: every_call_answered_def twice_history_def back_simps)

lemma port_breaks_answers: "\<not> relief_keeps_answers (demo_deps\<lparr>dp_relieve := relieve demo_window []\<rparr>)"
  using answer_loses_its_call demo_answered(1) by (auto simp: relief_keeps_answers_def)

text \<open>A greeting of the assistant before the user's first message is neither kept nor summarized.\<close>

lemma greeting_is_lost:
  "extract_messages_to_preserve (window_config p)
     (map as_mapping ([plain_message ''assistant'' ''Hello''] @ [plain_message ''user'' ''go''] @
        map (plain_message ''assistant'') [''a'', ''b'', ''c'', ''d'', ''e'', ''f'', ''g'']))
   = (map as_mapping [plain_message ''user'' ''go''], map as_mapping (map (plain_message ''assistant'') [''a'', ''b'', ''c'']),
      map as_mapping (map (plain_message ''assistant'') [''d'', ''e'', ''f'', ''g'']))"
  by (simp add: extract_messages_to_preserve_def window_config_def COMPACTION_PRESERVE_RECENT_MESSAGES_def
      MIN_MESSAGES_TO_KEEP_def plain_message_def)

text \<open>The estimate never sees the arguments of calls.\<close>

lemma calls_count_nothing:
  "estimate_messages_tokens repr (map as_mapping (map (\<lambda>m. m\<lparr>pm_tool_calls := calls\<rparr>) ms))
     = estimate_messages_tokens repr (map as_mapping ms)"
  by (simp add: as_mapping_def [abs_def] comp_def)

end
